(* ===== verification/Tables.thy ===== *)
theory Tables
  imports Prelude
begin

section \<open>Tables with a primary key\<close>

text \<open>
  A SQLite table with a primary key is a list of rows kept in key order, so that
  \<open>ORDER BY id\<close> is the list itself. \<open>tbl_put\<close> inserts or replaces one row,
  \<open>tbl_upd\<close> is \<open>UPDATE ... WHERE id = k\<close>. The interface the components rely on is
  the locale \<open>keyed_table\<close>; its interpretation on the sorted lists is \<open>tbl\<close>.
\<close>

type_synonym ('k, 'v) table = "('k \<times> 'v) list"

fun tbl_put :: "'k::linorder \<Rightarrow> 'v \<Rightarrow> ('k, 'v) table \<Rightarrow> ('k, 'v) table" where
  "tbl_put k v [] = [(k, v)]"
| "tbl_put k v (row # rows) =
     (if fst row < k then row # tbl_put k v rows
      else (k, v) # (if fst row = k then rows else row # rows))"

definition tbl_upd :: "'k \<Rightarrow> ('v \<Rightarrow> 'v) \<Rightarrow> ('k, 'v) table \<Rightarrow> ('k, 'v) table" where
  "tbl_upd k f rows = map (\<lambda>(a, b). (a, if a = k then f b else b)) rows"

definition tbl_ok :: "('k::linorder, 'v) table \<Rightarrow> bool" where
  "tbl_ok rows = sorted_wrt (<) (map fst rows)"

abbreviation tbl_get :: "('k, 'v) table \<Rightarrow> 'k \<Rightarrow> 'v option" where
  "tbl_get \<equiv> map_of"

abbreviation tbl_rows :: "('k, 'v) table \<Rightarrow> 'v list" where
  "tbl_rows \<equiv> map snd"

subsection \<open>The interface\<close>

locale keyed_table =
  fixes get :: "'t \<Rightarrow> 'k \<Rightarrow> 'v option"
    and put :: "'k \<Rightarrow> 'v \<Rightarrow> 't \<Rightarrow> 't"
    and upd :: "'k \<Rightarrow> ('v \<Rightarrow> 'v) \<Rightarrow> 't \<Rightarrow> 't"
    and entries :: "'t \<Rightarrow> ('k \<times> 'v) list"
    and ok :: "'t \<Rightarrow> bool"
  assumes get_put: "get (put k v t) = (get t)(k \<mapsto> v)"
    and get_upd: "get (upd k f t) = (get t)(k := map_option f (get t k))"
    and ok_put: "ok t \<Longrightarrow> ok (put k v t)"
    and ok_upd: "ok t \<Longrightarrow> ok (upd k f t)"
    and entries_get: "ok t \<Longrightarrow> (k, v) \<in> set (entries t) \<longleftrightarrow> get t k = Some v"
    and entries_distinct: "ok t \<Longrightarrow> distinct (map fst (entries t))"
begin

lemma dom_put: "dom (get (put k v t)) = insert k (dom (get t))"
  by (simp add: get_put)

lemma dom_upd: "dom (get (upd k f t)) = dom (get t)"
  by (auto simp: get_upd dom_def split: if_splits)

lemma put_keeps: "get t a \<noteq> None \<Longrightarrow> get (put k v t) a \<noteq> None"
  by (simp add: get_put)

lemma upd_keeps: "get t a \<noteq> None \<Longrightarrow> get (upd k f t) a \<noteq> None"
  by (cases "a = k") (auto simp: get_upd)

lemma put_entries:
  assumes "ok t"
  shows "set (entries (put k v t)) = {(a, b) \<in> set (entries t). a \<noteq> k} \<union> {(k, v)}"
  using assms entries_get [of t] entries_get [OF ok_put [OF assms], of _ _ k v]
  by (auto simp: get_put split: if_splits)

lemma upd_entries:
  assumes "ok t"
  shows "set (entries (upd k f t)) = (\<lambda>(a, b). (a, if a = k then f b else b)) ` set (entries t)"
proof (intro set_eqI iffI)
  fix p
  assume p: "p \<in> set (entries (upd k f t))"
  obtain a c where ac: "p = (a, c)" by (cases p)
  with p have "get (upd k f t) a = Some c"
    using entries_get [OF ok_upd [OF assms]] by blast
  then obtain b where b: "get t a = Some b" and c: "c = (if a = k then f b else b)"
    by (auto simp: get_upd split: if_splits)
  then have "(a, b) \<in> set (entries t)"
    using entries_get [OF assms] by blast
  then show "p \<in> (\<lambda>(a, b). (a, if a = k then f b else b)) ` set (entries t)"
    by (auto simp: ac c intro!: image_eqI [where x = "(a, b)"])
next
  fix p
  assume "p \<in> (\<lambda>(a, b). (a, if a = k then f b else b)) ` set (entries t)"
  then obtain a b where "(a, b) \<in> set (entries t)" and "p = (a, if a = k then f b else b)"
    by auto
  then show "p \<in> set (entries (upd k f t))"
    using entries_get [OF assms] entries_get [OF ok_upd [OF assms]] by (auto simp: get_upd)
qed

text \<open>A property of every row survives an insertion of a good row and a good update.\<close>

lemma all_rows_put:
  assumes "ok t" and "\<forall>(a, b) \<in> set (entries t). P a b" and "P k v"
  shows "\<forall>(a, b) \<in> set (entries (put k v t)). P a b"
  using assms(2,3) by (auto simp: put_entries [OF assms(1)])

lemma all_rows_upd:
  assumes "ok t" and "\<forall>(a, b) \<in> set (entries t). P a b"
    and "\<And>b. get t k = Some b \<Longrightarrow> P k b \<Longrightarrow> P k (f b)"
  shows "\<forall>(a, b) \<in> set (entries (upd k f t)). P a b"
proof (intro ballI, clarify)
  fix a c
  assume "(a, c) \<in> set (entries (upd k f t))"
  then obtain b where ab: "(a, b) \<in> set (entries t)" and c: "c = (if a = k then f b else b)"
    by (auto simp: upd_entries [OF assms(1)])
  from ab assms(2) have "P a b" by blast
  with ab show "P a c"
    using assms(3) entries_get [OF assms(1)] by (auto simp: c)
qed

end

subsection \<open>The sorted lists provide it\<close>

lemma map_of_tbl_put: "map_of (tbl_put k v t) = (map_of t)(k \<mapsto> v)"
  by (induction t) (auto simp: fun_eq_iff)

lemma map_of_tbl_upd: "map_of (tbl_upd k f t) = (map_of t)(k := map_option f (map_of t k))"
  by (induction t) (auto simp: tbl_upd_def fun_eq_iff)

lemma keys_tbl_put: "fst ` set (tbl_put k v t) = insert k (fst ` set t)"
  by (induction t) auto

lemma tbl_ok_Nil [simp]: "tbl_ok []"
  by (simp add: tbl_ok_def)

lemma tbl_ok_put: "tbl_ok t \<Longrightarrow> tbl_ok (tbl_put k v t)"
proof (induction t)
  case Nil
  then show ?case by (simp add: tbl_ok_def)
next
  case (Cons row rows)
  then show ?case
    using keys_tbl_put [of k v rows] by (auto simp: tbl_ok_def)
qed

lemma tbl_ok_upd: "tbl_ok t \<Longrightarrow> tbl_ok (tbl_upd k f t)"
  by (simp add: tbl_ok_def tbl_upd_def case_prod_unfold comp_def)

lemma tbl_ok_distinct: "tbl_ok t \<Longrightarrow> distinct (map fst t)"
  by (simp add: tbl_ok_def strict_sorted_iff)

interpretation tbl: keyed_table map_of tbl_put tbl_upd "\<lambda>t. t" tbl_ok
  by unfold_locales
    (simp_all add: map_of_tbl_put map_of_tbl_upd tbl_ok_put tbl_ok_upd tbl_ok_distinct)

text \<open>Two sorted tables with the same lookups are the same table.\<close>

lemma tbl_ext:
  assumes "tbl_ok s" and "tbl_ok t" and "map_of s = map_of t"
  shows "s = t"
proof -
  have "set s = set t"
    using assms by (auto simp: tbl.entries_get)
  moreover have "sorted_wrt (\<lambda>p q. fst p < fst q) s" "sorted_wrt (\<lambda>p q. fst p < fst q) t"
    using assms(1,2) by (simp_all add: tbl_ok_def sorted_wrt_map)
  ultimately show ?thesis
  proof (induction s arbitrary: t)
    case Nil
    then show ?case by simp
  next
    case (Cons p s)
    from Cons.prems obtain q t' where t: "t = q # t'" by (cases t) auto
    have "p = q"
    proof (rule ccontr)
      assume "p \<noteq> q"
      with Cons.prems t have "q \<in> set s" and "p \<in> set t'" by auto
      with Cons.prems t have "fst p < fst q" and "fst q < fst p" by auto
      then show False by simp
    qed
    moreover have "s = t'"
    proof (rule Cons.IH)
      have "p \<notin> set s" and "q \<notin> set t'" using Cons.prems t by auto
      with Cons.prems(1) t \<open>p = q\<close> show "set s = set t'" by auto
    qed (use Cons.prems t in auto)
    ultimately show ?case by (simp add: t)
  qed
qed

lemma tbl_put_commute:
  "k \<noteq> l \<Longrightarrow> tbl_ok t \<Longrightarrow> tbl_put k v (tbl_put l w t) = tbl_put l w (tbl_put k v t)"
  by (rule tbl_ext) (auto simp: tbl_ok_put map_of_tbl_put fun_eq_iff)

text \<open>Insertion above every key appends, which is how minted ids fill a table.\<close>

lemma tbl_put_snoc: "\<forall>a \<in> fst ` set t. a < k \<Longrightarrow> tbl_put k v t = t @ [(k, v)]"
  by (induction t) auto

end
