(* ===== verification/Rust_Str.thy ===== *)
theory Rust_Str
  imports Prelude "HOL-Library.Sublist"
begin

section \<open>Rust strings\<close>

text \<open>
  A Rust \<open>String\<close> is the list of its UTF-8 bytes. The operations below are the ones of
  \<open>str\<close> that the code uses: \<open>trim\<close> (Unicode white space, as byte sequences),
  \<open>split\<close> on a predicate over ASCII characters, \<open>lines\<close>, \<open>starts_with\<close>,
  \<open>ends_with\<close>, \<open>contains\<close>, \<open>to_ascii_lowercase\<close> and decimal printing. A byte of a
  character outside ASCII is never an ASCII byte, so a predicate that only accepts or only
  rejects ASCII characters gives the same non-empty pieces on bytes as on characters.
\<close>

type_synonym str = string

abbreviation starts_with :: "str \<Rightarrow> str \<Rightarrow> bool" where
  "starts_with s p \<equiv> prefix p s"

abbreviation ends_with :: "str \<Rightarrow> str \<Rightarrow> bool" where
  "ends_with s p \<equiv> suffix p s"

fun contains_sub :: "str \<Rightarrow> str \<Rightarrow> bool" where
  "contains_sub [] p \<longleftrightarrow> p = []"
| "contains_sub (c # s) p \<longleftrightarrow> prefix p (c # s) \<or> contains_sub s p"

lemma contains_sub_iff: "contains_sub s p \<longleftrightarrow> (\<exists>a b. s = a @ p @ b)"
proof (induction s)
  case Nil
  then show ?case by auto
next
  case (Cons c s)
  show ?case
  proof
    assume "contains_sub (c # s) p"
    then consider "prefix p (c # s)" | "contains_sub s p" by auto
    then show "\<exists>a b. c # s = a @ p @ b"
    proof cases
      case 1
      then show ?thesis by (auto simp: prefix_def intro: exI [where x = "[]"])
    next
      case 2
      then obtain a b where "s = a @ p @ b" using Cons.IH by blast
      then have "c # s = (c # a) @ p @ b" by simp
      then show ?thesis by blast
    qed
  next
    assume "\<exists>a b. c # s = a @ p @ b"
    then obtain a b where ab: "c # s = a @ p @ b" by blast
    show "contains_sub (c # s) p"
    proof (cases a)
      case Nil
      with ab have "prefix p (c # s)" by (simp add: prefix_def)
      then show ?thesis by simp
    next
      case (Cons d a')
      with ab \<open>contains_sub s p \<longleftrightarrow> (\<exists>a b. s = a @ p @ b)\<close> show ?thesis by auto
    qed
  qed
qed

subsection \<open>White space\<close>

text \<open>The UTF-8 encodings of the characters with the Unicode property \<open>White_Space\<close>.\<close>

definition white_seqs :: "str list" where
  "white_seqs =
    [[CHR 0x09], [CHR 0x0A], [CHR 0x0B], [CHR 0x0C], [CHR 0x0D], [CHR 0x20],
     [CHR 0xC2, CHR 0x85], [CHR 0xC2, CHR 0xA0], [CHR 0xE1, CHR 0x9A, CHR 0x80],
     [CHR 0xE2, CHR 0x80, CHR 0x80], [CHR 0xE2, CHR 0x80, CHR 0x81],
     [CHR 0xE2, CHR 0x80, CHR 0x82], [CHR 0xE2, CHR 0x80, CHR 0x83],
     [CHR 0xE2, CHR 0x80, CHR 0x84], [CHR 0xE2, CHR 0x80, CHR 0x85],
     [CHR 0xE2, CHR 0x80, CHR 0x86], [CHR 0xE2, CHR 0x80, CHR 0x87],
     [CHR 0xE2, CHR 0x80, CHR 0x88], [CHR 0xE2, CHR 0x80, CHR 0x89],
     [CHR 0xE2, CHR 0x80, CHR 0x8A], [CHR 0xE2, CHR 0x80, CHR 0xA8],
     [CHR 0xE2, CHR 0x80, CHR 0xA9], [CHR 0xE2, CHR 0x80, CHR 0xAF],
     [CHR 0xE2, CHR 0x81, CHR 0x9F], [CHR 0xE3, CHR 0x80, CHR 0x80]]"

function strip_front :: "str list \<Rightarrow> str \<Rightarrow> str" where
  "strip_front ws s =
     (case find (\<lambda>w. w \<noteq> [] \<and> prefix w s) ws of
        None \<Rightarrow> s
      | Some w \<Rightarrow> strip_front ws (drop (length w) s))"
  by auto

termination
  by (relation "measure (\<lambda>(ws, s). length s)")
    (auto simp: find_Some_iff prefix_def)

declare strip_front.simps [simp del]

lemma strip_front_None:
  "find (\<lambda>w. w \<noteq> [] \<and> prefix w s) ws = None \<Longrightarrow> strip_front ws s = s"
  by (simp add: strip_front.simps)

lemma strip_front_Some:
  "find (\<lambda>w. w \<noteq> [] \<and> prefix w s) ws = Some w \<Longrightarrow>
    strip_front ws s = strip_front ws (drop (length w) s)"
  by (subst strip_front.simps) simp

definition trim_start :: "str \<Rightarrow> str" where
  "trim_start s = strip_front white_seqs s"

definition trim_end :: "str \<Rightarrow> str" where
  "trim_end s = rev (strip_front (map rev white_seqs) (rev s))"

definition trim :: "str \<Rightarrow> str" where
  "trim s = trim_end (trim_start s)"

abbreviation blank :: "str \<Rightarrow> bool" where
  "blank s \<equiv> trim s = []"

text \<open>The SQL function \<open>trim\<close> strips U+0020 only: the blankness test of the schema triggers.\<close>

definition sql_blank :: "str \<Rightarrow> bool" where
  "sql_blank s \<longleftrightarrow> (\<forall>c \<in> set s. c = CHR '' '')"

lemma strip_front_Nil [simp]: "strip_front ws [] = []"
proof -
  have "find (\<lambda>w. w \<noteq> [] \<and> prefix w []) ws = None"
    by (auto simp: find_None_iff)
  then show ?thesis by (rule strip_front_None)
qed

lemma trim_end_Nil [simp]: "trim_end [] = []"
  by (simp add: trim_end_def)

lemma strip_front_suffix: "suffix (strip_front ws s) s"
proof (induction ws s rule: strip_front.induct)
  case (1 ws s)
  show ?case
  proof (cases "find (\<lambda>w. w \<noteq> [] \<and> prefix w s) ws")
    case None
    then show ?thesis by (simp add: strip_front_None)
  next
    case (Some w)
    have "suffix (strip_front ws (drop (length w) s)) (drop (length w) s)"
      using 1 [OF Some] .
    moreover have "strip_front ws s = strip_front ws (drop (length w) s)"
      using Some by (rule strip_front_Some)
    ultimately show ?thesis
      using suffix_drop suffix_order.trans by metis
  qed
qed

lemma strip_front_member:
  "w \<in> set ws \<Longrightarrow> w \<noteq> [] \<Longrightarrow> \<not> prefix w (strip_front ws s)"
proof (induction ws s rule: strip_front.induct)
  case (1 ws s)
  show ?case
  proof (cases "find (\<lambda>w. w \<noteq> [] \<and> prefix w s) ws")
    case None
    then have "strip_front ws s = s" and "\<forall>v \<in> set ws. v = [] \<or> \<not> prefix v s"
      by (auto simp: strip_front_None find_None_iff)
    with 1(2,3) show ?thesis by auto
  next
    case (Some v)
    then show ?thesis
      using 1(1) [OF Some 1(2,3)] by (simp add: strip_front_Some)
  qed
qed

lemma white_seqs_space: "[CHR '' ''] \<in> set white_seqs"
  by (simp add: white_seqs_def)

text \<open>What the Rust code accepts as non-blank, the triggers accept too.\<close>

lemma not_blank_not_sql_blank:
  assumes "\<not> blank s"
  shows "\<not> sql_blank s"
proof
  assume sp: "sql_blank s"
  have "trim_start s = []"
  proof (cases "trim_start s")
    case (Cons c t)
    have "suffix (trim_start s) s" by (simp add: trim_start_def strip_front_suffix)
    then have "c \<in> set s" using set_mono_suffix [of "trim_start s" s] Cons by auto
    with sp have "c = CHR '' ''" by (simp add: sql_blank_def)
    then have "prefix [CHR '' ''] (trim_start s)" by (simp add: Cons)
    with strip_front_member [OF white_seqs_space, of s] show ?thesis
      by (simp add: trim_start_def)
  qed
  with assms show False by (simp add: trim_def)
qed

lemma blank_Nil [simp]: "blank []"
  by (simp add: trim_def trim_start_def)

subsection \<open>Splitting\<close>

fun split_on :: "(char \<Rightarrow> bool) \<Rightarrow> str \<Rightarrow> str list" where
  "split_on p [] = [[]]"
| "split_on p (c # cs) =
     (if p c then [] # split_on p cs
      else (case split_on p cs of [] \<Rightarrow> [[c]] | w # ws \<Rightarrow> (c # w) # ws))"

fun join :: "str \<Rightarrow> str list \<Rightarrow> str" where
  "join d [] = []"
| "join d [w] = w"
| "join d (w # v # ws) = w @ d @ join d (v # ws)"

lemma split_on_not_Nil [simp]: "split_on p s \<noteq> []"
  by (cases s) (auto split: list.splits)

lemma split_on_append_sep:
  "p c \<Longrightarrow> split_on p (a @ c # b) = split_on p a @ split_on p b"
  by (induction a) (auto split: list.splits simp: Cons_eq_append_conv)

lemma split_on_no_sep: "(\<forall>c \<in> set s. \<not> p c) \<Longrightarrow> split_on p s = [s]"
  by (induction s) auto

lemma split_on_pieces: "w \<in> set (split_on p s) \<Longrightarrow> c \<in> set w \<Longrightarrow> \<not> p c"
  by (induction s arbitrary: w) (fastforce split: list.splits if_splits)+

text \<open>Splitting at one separator and joining with it gives the string back.\<close>

lemma join_split_on: "join [d] (split_on ((=) d) s) = s"
proof (induction s)
  case Nil
  then show ?case by simp
next
  case (Cons c s)
  obtain w ws where sp: "split_on ((=) d) s = w # ws"
    by (cases "split_on ((=) d) s") auto
  with Cons.IH show ?case by (cases ws) auto
qed

text \<open>A token between two separators is one of the pieces.\<close>

lemma split_on_token:
  assumes "\<forall>c \<in> set tok. \<not> p c" and "a = [] \<or> p (last a)" and "b = [] \<or> p (hd b)"
  shows "tok \<in> set (split_on p (a @ tok @ b))"
proof -
  have right: "tok \<in> set (split_on p (tok @ b))"
  proof (cases b)
    case Nil
    with assms(1) show ?thesis by (simp add: split_on_no_sep)
  next
    case (Cons c b')
    with assms show ?thesis by (simp add: split_on_append_sep split_on_no_sep)
  qed
  show ?thesis
  proof (cases a rule: rev_cases)
    case Nil
    with right show ?thesis by simp
  next
    case (snoc a' c)
    with assms(2) right show ?thesis by (simp add: split_on_append_sep)
  qed
qed

definition strip_cr :: "str \<Rightarrow> str" where
  "strip_cr l = (if l \<noteq> [] \<and> last l = CHR 0x0D then butlast l else l)"

definition lines :: "str \<Rightarrow> str list" where
  "lines s = (let ws = split_on ((=) (CHR 0x0A)) s
     in map strip_cr (butlast ws) @ (if last ws = [] then [] else [last ws]))"

subsection \<open>ASCII\<close>

definition is_ascii_digit :: "char \<Rightarrow> bool" where
  "is_ascii_digit c \<longleftrightarrow> CHR ''0'' \<le> c \<and> c \<le> CHR ''9''"

definition is_ascii_uppercase :: "char \<Rightarrow> bool" where
  "is_ascii_uppercase c \<longleftrightarrow> CHR ''A'' \<le> c \<and> c \<le> CHR ''Z''"

definition is_ascii_lowercase :: "char \<Rightarrow> bool" where
  "is_ascii_lowercase c \<longleftrightarrow> CHR ''a'' \<le> c \<and> c \<le> CHR ''z''"

definition is_ascii_alphanumeric :: "char \<Rightarrow> bool" where
  "is_ascii_alphanumeric c \<longleftrightarrow> is_ascii_digit c \<or> is_ascii_uppercase c \<or> is_ascii_lowercase c"

definition to_ascii_lowercase :: "str \<Rightarrow> str" where
  "to_ascii_lowercase s =
     map (\<lambda>c. if is_ascii_uppercase c then char_of (of_char c + 32 :: nat) else c) s"

lemmas ascii_defs =
  is_ascii_digit_def is_ascii_uppercase_def is_ascii_lowercase_def is_ascii_alphanumeric_def

subsection \<open>Decimal printing\<close>

fun digits_of :: "nat \<Rightarrow> str" where
  "digits_of n =
     (if n < 10 then [char_of (48 + n)] else digits_of (n div 10) @ [char_of (48 + n mod 10)])"

declare digits_of.simps [simp del]

definition show_nat :: "nat \<Rightarrow> str" where
  "show_nat n = digits_of n"

definition show_int :: "int \<Rightarrow> str" where
  "show_int i = (if i < 0 then ''-'' @ digits_of (nat (- i)) else digits_of (nat i))"

text \<open>Rust's \<open>parse::<u64>\<close> on a string of digits; \<open>None\<close> for anything else.\<close>

definition digit_val :: "char \<Rightarrow> nat" where
  "digit_val c = of_char c - 48"

definition undigits :: "str \<Rightarrow> nat" where
  "undigits s = foldl (\<lambda>n c. 10 * n + digit_val c) 0 s"

lemma digit_char:
  assumes "n < 10"
  shows "is_ascii_digit (char_of (48 + n :: nat))" "digit_val (char_of (48 + n :: nat)) = n"
  using assms by (auto simp: is_ascii_digit_def digit_val_def less_eq_char_def)

lemma digits_of_digits: "\<forall>c \<in> set (digits_of n). is_ascii_digit c"
proof (induction n rule: digits_of.induct)
  case (1 n)
  show ?case
    by (subst digits_of.simps) (use 1 in \<open>auto simp: digit_char\<close>)
qed

lemma digits_of_not_Nil [simp]: "digits_of n \<noteq> []"
  by (subst digits_of.simps) simp

lemma undigits_digits_of: "undigits (digits_of n) = n"
proof (induction n rule: digits_of.induct)
  case (1 n)
  show ?case
    by (subst digits_of.simps) (use 1 in \<open>auto simp: undigits_def digit_char\<close>)
qed

lemma digits_of_inj: "digits_of m = digits_of n \<longleftrightarrow> m = n"
  by (metis undigits_digits_of)

end
