(* ===== verification/Float64.thy ===== *)
theory Float64
  imports Prelude Complex_Main "HOL-Library.Log_Nat"
begin

section \<open>IEEE 754 doubles\<close>

text \<open>
  An \<open>f64\<close> is NaN, an infinity or the rational value of a finite double (the sign of
  zero is not kept: the code never divides by a stored zero nor prints one). \<open>f64_round\<close>
  is the rounding of a decimal literal or of an exact result to the nearest double, ties to
  even: 53 bits of precision, exponents down to -1074, overflow at 2^1024 (binary exponent 1024). Comparisons
  involving NaN are false, as in Rust and as \<open>f64_le\<close> and \<open>f64_lt\<close> say.
\<close>

datatype f64 = NaN | NegInf | Fin rat | PosInf

definition rat_log2 :: "rat \<Rightarrow> int" where
  "rat_log2 x =
     (let (n, d) = quotient_of x; k = bitlen n - bitlen d
      in if (2 :: rat) powi k \<le> x then k else k - 1)"

definition round_half_even :: "rat \<Rightarrow> int" where
  "round_half_even x =
     (let m = \<lfloor>x\<rfloor>; r = x - of_int m
      in if r < 1/2 \<or> (r = 1/2 \<and> even m) then m else m + 1)"

definition round_pos :: "rat \<Rightarrow> rat" where
  "round_pos x =
     (let e = max (rat_log2 x - 52) (- 1074)
      in of_int (round_half_even (x / 2 powi e)) * 2 powi e)"

definition f64_round :: "rat \<Rightarrow> f64" where
  "f64_round x =
     (if x = 0 then Fin 0
      else let v = round_pos \<bar>x\<bar>
           in if 1024 \<le> rat_log2 v then (if x < 0 then NegInf else PosInf)
              else Fin (if x < 0 then - v else v))"

fun f64_le :: "f64 \<Rightarrow> f64 \<Rightarrow> bool" where
  "f64_le NaN _ = False"
| "f64_le _ NaN = False"
| "f64_le NegInf _ = True"
| "f64_le _ PosInf = True"
| "f64_le (Fin x) (Fin y) = (x \<le> y)"
| "f64_le _ _ = False"

definition f64_lt :: "f64 \<Rightarrow> f64 \<Rightarrow> bool" where
  "f64_lt x y \<longleftrightarrow> f64_le x y \<and> x \<noteq> y"

fun is_finite :: "f64 \<Rightarrow> bool" where
  "is_finite (Fin _) = True"
| "is_finite _ = False"

text \<open>The SQL scalar function \<open>MAX(x, y)\<close> on the doubles a column can hold.\<close>

definition f64_max :: "f64 \<Rightarrow> f64 \<Rightarrow> f64" where
  "f64_max x y = (if f64_le x y then y else x)"

definition in_unit :: "f64 \<Rightarrow> bool" where
  "in_unit x \<longleftrightarrow> f64_le (Fin 0) x \<and> f64_le x (Fin 1)"

lemma in_unit_iff: "in_unit x \<longleftrightarrow> (\<exists>r. x = Fin r \<and> 0 \<le> r \<and> r \<le> 1)"
  by (cases x) (auto simp: in_unit_def)

lemma in_unit_max: "in_unit x \<Longrightarrow> in_unit y \<Longrightarrow> in_unit (f64_max x y)"
  by (simp add: f64_max_def)

lemma f64_max_ge: "in_unit x \<Longrightarrow> in_unit y \<Longrightarrow> f64_le x (f64_max x y) \<and> f64_le y (f64_max x y)"
  by (auto simp: in_unit_iff f64_max_def)

end
