(* ===== verification/Types.thy ===== *)
theory Types
  imports Rust_Str Float64
begin

section \<open>Errors and the types exposed to consumers\<close>

text \<open>
  \<open>crates/aver-core/src/error.rs\<close> and \<open>types.rs\<close>: the crate's error type, the
  enumerations with their database names, the rows handed to consumers and the write
  requests with their builders. \<open>str_enum\<close> is the contract every enumeration's
  \<open>as_str\<close>/\<open>from_str\<close> pair satisfies.
\<close>

subsection \<open>Privacy rejections\<close>

datatype privacy_rejection =
    AwsAccessKey | GitHubPat | GitHubFineGrainedPat | Jwt | OpenAiKey | AnthropicKey
  | StripeLiveKey | PrivateKey | HighEntropy | SecretsPath | EnvPath | MemoryIgnore
  | SshPath | KeyPath | AwsCredentialsPath | ConfigPath

fun telemetry_reason :: "privacy_rejection \<Rightarrow> str" where
  "telemetry_reason AwsAccessKey = ''regex:aws''"
| "telemetry_reason GitHubPat = ''regex:github-pat''"
| "telemetry_reason GitHubFineGrainedPat = ''regex:github-fine-grained-pat''"
| "telemetry_reason Jwt = ''regex:jwt''"
| "telemetry_reason OpenAiKey = ''regex:openai''"
| "telemetry_reason AnthropicKey = ''regex:anthropic''"
| "telemetry_reason StripeLiveKey = ''regex:stripe-live''"
| "telemetry_reason PrivateKey = ''regex:private-key''"
| "telemetry_reason HighEntropy = ''entropy''"
| "telemetry_reason SecretsPath = ''path:secrets-dir''"
| "telemetry_reason EnvPath = ''path:env''"
| "telemetry_reason MemoryIgnore = ''marker:memory-ignore''"
| "telemetry_reason SshPath = ''path:ssh''"
| "telemetry_reason KeyPath = ''path:key-file''"
| "telemetry_reason AwsCredentialsPath = ''path:aws-credentials''"
| "telemetry_reason ConfigPath = ''path:config''"

lemma telemetry_reason_inj: "telemetry_reason r = telemetry_reason q \<longleftrightarrow> r = q"
  by (cases r; cases q) simp_all

subsection \<open>Errors\<close>

text \<open>The errors of a decision client (\<open>decision.rs\<close>).\<close>

datatype decision_error =
    DJson str | DHttp str | DIo str
  | InvalidChoice str
  | TooFewOptions nat
  | TooManyOptions nat
  | DuplicateOption str
  | DescriptionCountMismatch nat nat
  | Unavailable

text \<open>
  \<open>ESqlite\<close>, \<open>EIo\<close>, \<open>EJson\<close> and \<open>EEmbedding\<close> wrap the error of another
  library; the string is its message (for SQLite, the text of the violated constraint).
\<close>

datatype error =
    ESqlite str | EIo str | EJson str | EEmbedding str | EDecision decision_error
  | EPrivacy privacy_rejection
  | EEnumParse (enum_kind: str) (enum_value: str)
  | EInvalidAgentId str
  | EInvalidScope str
  | EAlreadyRetired int
  | EInvalidVectorChunkText | EInvalidEmbeddingModel | EInvalidEmbeddingVector
  | EInvalidClaimField str
  | EInvalidHyperedgeField str
  | EInvalidHyperedgeParticipant str
  | EInvalidEventField str
  | EInvalidObservationField str
  | EInvalidRecallQuery | EInvalidTopK | EInvalidGraphEntity | EInvalidGraphHops
  | EInvalidPredicateFilter | EInvalidEventThreshold | EInvalidRejectionReason
  | EInvalidContradictionReason
  | EInvalidConfidence f64
  | EInvalidDecayTau f64
  | EMissingEventProvenance int
  | EMissingEvent int
  | EMissingCandidate int
  | EMissingObservation str
  | EObservationIdCollision str
  | EMissingEntityType str
  | EInvalidCandidateStatus int str
  | EInvalidCandidateStatusFilter str
  | EMissingEntity str
  | EUnknownPredicate str
  | EMissingClaim int
  | EMissingHyperedge int
  | EMissingVectorChunk int
  | ESchemaTooNew int int
  | EReplayDuplicateId str
  | EInvalidRecord str
  | EReplayUnknownKind str
  | EReplayMalformed str nat str
  | ELockHeld str

type_synonym 'a result = "error + 'a"

subsection \<open>Enumerations with a database name\<close>

locale str_enum =
  fixes as_str :: "'a \<Rightarrow> str"
    and from_str :: "str \<Rightarrow> error + 'a"
  assumes from_as: "from_str (as_str x) = Inr x"
    and from_ok: "from_str s = Inr x \<Longrightarrow> s = as_str x"
    and from_err: "from_str s = Inl e \<Longrightarrow> \<exists>k. e = EEnumParse k s"
begin

lemma as_str_inj: "as_str x = as_str y \<longleftrightarrow> x = y"
  by (metis from_as sum.inject(2))

lemma from_str_iff: "from_str s = Inr x \<longleftrightarrow> s = as_str x"
  using from_as from_ok by blast

lemma from_str_fails: "is_ok (from_str s) \<longleftrightarrow> s \<in> range as_str"
  by (auto simp: is_ok_iff from_str_iff)

end

datatype provenance = UserAsserted | Extracted | Inferred | Ambiguous

fun provenance_as_str :: "provenance \<Rightarrow> str" where
  "provenance_as_str UserAsserted = ''USER_ASSERTED''"
| "provenance_as_str Extracted = ''EXTRACTED''"
| "provenance_as_str Inferred = ''INFERRED''"
| "provenance_as_str Ambiguous = ''AMBIGUOUS''"

definition provenance_from_str :: "str \<Rightarrow> provenance result" where
  "provenance_from_str s =
     (if s = ''USER_ASSERTED'' then Inr UserAsserted
      else if s = ''EXTRACTED'' then Inr Extracted
      else if s = ''INFERRED'' then Inr Inferred
      else if s = ''AMBIGUOUS'' then Inr Ambiguous
      else Inl (EEnumParse ''Provenance'' s))"

interpretation prov: str_enum provenance_as_str provenance_from_str
proof
  fix x :: provenance
  show "provenance_from_str (provenance_as_str x) = Inr x"
    by (cases x) (simp_all add: provenance_from_str_def)
qed (auto simp: provenance_from_str_def split: if_splits)

text \<open>ADR-0003 policy confidences: decimal literals, rounded to a double.\<close>

fun policy_confidence :: "provenance \<Rightarrow> f64" where
  "policy_confidence UserAsserted = f64_round (95 / 100)"
| "policy_confidence Extracted = f64_round (90 / 100)"
| "policy_confidence Inferred = f64_round (45 / 100)"
| "policy_confidence Ambiguous = f64_round (20 / 100)"

lemma f64_literals [simp]:
  "f64_round (19 / 20) = Fin (4278419646001971 / 4503599627370496)"
  "f64_round (9 / 10) = Fin (8106479329266893 / 9007199254740992)"
  "f64_round (9 / 20) = Fin (8106479329266893 / 18014398509481984)"
  "f64_round (1 / 5) = Fin (3602879701896397 / 18014398509481984)"
  by code_simp+

lemma policy_confidence_unit [simp]: "in_unit (policy_confidence p)"
  by (cases p) (simp_all add: in_unit_def)

datatype agent_kind = Human | Llm | DeterministicParser | ExternalTool

fun default_provenance :: "agent_kind \<Rightarrow> provenance" where
  "default_provenance Human = UserAsserted"
| "default_provenance DeterministicParser = Extracted"
| "default_provenance ExternalTool = Extracted"
| "default_provenance Llm = Inferred"

fun agent_kind_as_str :: "agent_kind \<Rightarrow> str" where
  "agent_kind_as_str Human = ''HUMAN''"
| "agent_kind_as_str Llm = ''LLM''"
| "agent_kind_as_str DeterministicParser = ''DETERMINISTIC_PARSER''"
| "agent_kind_as_str ExternalTool = ''EXTERNAL_TOOL''"

definition agent_kind_from_str :: "str \<Rightarrow> agent_kind result" where
  "agent_kind_from_str s =
     (if s = ''HUMAN'' then Inr Human
      else if s = ''LLM'' then Inr Llm
      else if s = ''DETERMINISTIC_PARSER'' then Inr DeterministicParser
      else if s = ''EXTERNAL_TOOL'' then Inr ExternalTool
      else Inl (EEnumParse ''AgentKind'' s))"

interpretation akind: str_enum agent_kind_as_str agent_kind_from_str
proof
  fix x :: agent_kind
  show "agent_kind_from_str (agent_kind_as_str x) = Inr x"
    by (cases x) (simp_all add: agent_kind_from_str_def)
qed (auto simp: agent_kind_from_str_def split: if_splits)

datatype claim_status = Active | Superseded | Invalidated

fun status_as_str :: "claim_status \<Rightarrow> str" where
  "status_as_str Active = ''ACTIVE''"
| "status_as_str Superseded = ''SUPERSEDED''"
| "status_as_str Invalidated = ''INVALIDATED''"

definition status_from_str :: "str \<Rightarrow> claim_status result" where
  "status_from_str s =
     (if s = ''ACTIVE'' then Inr Active
      else if s = ''SUPERSEDED'' then Inr Superseded
      else if s = ''INVALIDATED'' then Inr Invalidated
      else Inl (EEnumParse ''ClaimStatus'' s))"

interpretation cstat: str_enum status_as_str status_from_str
proof
  fix x :: claim_status
  show "status_from_str (status_as_str x) = Inr x"
    by (cases x) (simp_all add: status_from_str_def)
qed (auto simp: status_from_str_def split: if_splits)

datatype relevance = Low | Medium | High | Critical

fun relevance_as_str :: "relevance \<Rightarrow> str" where
  "relevance_as_str Low = ''low''"
| "relevance_as_str Medium = ''medium''"
| "relevance_as_str High = ''high''"
| "relevance_as_str Critical = ''critical''"

fun rank :: "relevance \<Rightarrow> nat" where
  "rank Low = 0"
| "rank Medium = 1"
| "rank High = 2"
| "rank Critical = 3"

definition relevance_from_str :: "str \<Rightarrow> relevance result" where
  "relevance_from_str s =
     (if s = ''low'' then Inr Low
      else if s = ''medium'' then Inr Medium
      else if s = ''high'' then Inr High
      else if s = ''critical'' then Inr Critical
      else Inl (EEnumParse ''ObservationRelevance'' s))"

interpretation relv: str_enum relevance_as_str relevance_from_str
proof
  fix x :: relevance
  show "relevance_from_str (relevance_as_str x) = Inr x"
    by (cases x) (simp_all add: relevance_from_str_def)
qed (auto simp: relevance_from_str_def split: if_splits)

text \<open>Relevances are ordered by their rank.\<close>

lemma rank_inj: "rank a = rank b \<longleftrightarrow> a = b"
  by (cases a; cases b) simp_all

instantiation relevance :: linorder
begin

definition less_eq_relevance :: "relevance \<Rightarrow> relevance \<Rightarrow> bool" where
  "less_eq_relevance a b \<longleftrightarrow> rank a \<le> rank b"

definition less_relevance :: "relevance \<Rightarrow> relevance \<Rightarrow> bool" where
  "less_relevance a b \<longleftrightarrow> rank a < rank b"

instance
  by standard (auto simp: less_eq_relevance_def less_relevance_def rank_inj)

end

datatype predicate_walk = PredExact | PredDescendants

fun predicate_walk_as_str :: "predicate_walk \<Rightarrow> str" where
  "predicate_walk_as_str PredExact = ''exact''"
| "predicate_walk_as_str PredDescendants = ''descendants''"

definition predicate_walk_from_str :: "str \<Rightarrow> predicate_walk result" where
  "predicate_walk_from_str s =
     (if s = ''exact'' then Inr PredExact
      else if s = ''descendants'' then Inr PredDescendants
      else Inl (EEnumParse ''PredicateWalk'' s))"

interpretation pwalk: str_enum predicate_walk_as_str predicate_walk_from_str
proof
  fix x :: predicate_walk
  show "predicate_walk_from_str (predicate_walk_as_str x) = Inr x"
    by (cases x) (simp_all add: predicate_walk_from_str_def)
qed (auto simp: predicate_walk_from_str_def split: if_splits)

datatype scope_walk = ScopeExact | ScopeAncestors | ScopeDescendants | ScopeAny

fun scope_walk_as_str :: "scope_walk \<Rightarrow> str" where
  "scope_walk_as_str ScopeExact = ''exact''"
| "scope_walk_as_str ScopeAncestors = ''ancestors''"
| "scope_walk_as_str ScopeDescendants = ''descendants''"
| "scope_walk_as_str ScopeAny = ''any''"

definition scope_walk_from_str :: "str \<Rightarrow> scope_walk result" where
  "scope_walk_from_str s =
     (if s = ''exact'' then Inr ScopeExact
      else if s = ''ancestors'' then Inr ScopeAncestors
      else if s = ''descendants'' then Inr ScopeDescendants
      else if s = ''any'' then Inr ScopeAny
      else Inl (EEnumParse ''ScopeWalk'' s))"

interpretation swalk: str_enum scope_walk_as_str scope_walk_from_str
proof
  fix x :: scope_walk
  show "scope_walk_from_str (scope_walk_as_str x) = Inr x"
    by (cases x) (simp_all add: scope_walk_from_str_def)
qed (auto simp: scope_walk_from_str_def split: if_splits)

datatype trigger_reason =
    ExplicitRemember | EventCountThreshold | ObservationTokenThreshold
  | UncoveredCoverageGap | SessionEnd | Correction | CommitCompleted | IdleCompaction
  | DecisionModel

fun trigger_reason_as_str :: "trigger_reason \<Rightarrow> str" where
  "trigger_reason_as_str ExplicitRemember = ''explicit_remember''"
| "trigger_reason_as_str EventCountThreshold = ''event_count_threshold''"
| "trigger_reason_as_str ObservationTokenThreshold = ''observation_token_threshold''"
| "trigger_reason_as_str UncoveredCoverageGap = ''uncovered_coverage_gap''"
| "trigger_reason_as_str SessionEnd = ''session_end''"
| "trigger_reason_as_str Correction = ''correction''"
| "trigger_reason_as_str CommitCompleted = ''commit_completed''"
| "trigger_reason_as_str IdleCompaction = ''idle_compaction''"
| "trigger_reason_as_str DecisionModel = ''decision_model''"

lemma trigger_reason_inj: "trigger_reason_as_str r = trigger_reason_as_str q \<longleftrightarrow> r = q"
  by (cases r; cases q) simp_all

subsection \<open>Rows\<close>

record claim =
  c_id :: int
  c_subject :: str
  c_predicate :: str
  c_object :: str
  c_provenance :: provenance
  c_confidence :: f64
  c_status :: claim_status
  c_source_refs :: "str list"
  c_agent_id :: str
  c_agent_kind :: agent_kind
  c_write_ts :: int
  c_last_verified_at :: "int option"
  c_scope :: str

definition claim_text :: "'a claim_scheme \<Rightarrow> str" where
  "claim_text c = c_subject c @ '' '' @ c_predicate c @ '' '' @ c_object c"

record participant_input =
  pi_role :: str
  pi_entity :: str

record hyperedge_input =
  hi_predicate :: str
  hi_provenance :: provenance
  hi_confidence :: f64
  hi_source_refs :: "str list"
  hi_participants :: "participant_input list"

record participant =
  p_id :: int
  p_role :: str
  p_entity :: str

record hyperedge =
  h_id :: int
  h_predicate :: str
  h_provenance :: provenance
  h_confidence :: f64
  h_source_refs :: "str list"
  h_status :: claim_status
  h_created_at :: int
  h_updated_at :: int
  h_participants :: "participant list"

record event =
  e_id :: int
  e_session_id :: str
  e_kind :: str
  e_payload :: str
  e_source :: str
  e_agent_id :: str
  e_agent_kind :: str
  e_ts :: int
  e_scope :: str

record candidate =
  k_id :: int
  k_event_id :: int
  k_subject :: str
  k_predicate :: str
  k_object :: str
  k_provenance :: str
  k_confidence :: f64
  k_status :: str
  k_promoted_claim_id :: "int option"
  k_rejection_reason :: "str option"
  k_scope :: str

record observation =
  o_id :: str
  o_session_id :: str
  o_content :: str
  o_relevance :: str
  o_source_event_ids :: "int list"
  o_agent_id :: str
  o_agent_kind :: str
  o_derivation :: str
  o_ts :: int
  o_scope :: str

record contradiction =
  x_id :: int
  x_claim_id :: int
  x_reason :: str
  x_new_claim_id :: "int option"
  x_status :: str
  x_created_at :: int

record vector_chunk =
  v_id :: int
  v_claim_id :: int
  v_text :: str
  v_embedding_model :: str
  v_embedding :: "f64 list option"

subsection \<open>Write requests\<close>

record claim_write =
  cw_subject :: str
  cw_predicate :: str
  cw_object :: str
  cw_source :: str
  cw_agent_id :: str
  cw_agent_kind :: agent_kind
  cw_provenance :: provenance
  cw_confidence :: f64
  cw_scope :: str

definition claim_write_from_agent ::
  "str \<Rightarrow> agent_kind \<Rightarrow> str \<Rightarrow> str \<Rightarrow> str \<Rightarrow> str \<Rightarrow> claim_write" where
  "claim_write_from_agent agent kind subj pred obj source =
     \<lparr> cw_subject = subj, cw_predicate = pred, cw_object = obj, cw_source = source,
       cw_agent_id = agent, cw_agent_kind = kind,
       cw_provenance = default_provenance kind,
       cw_confidence = policy_confidence (default_provenance kind),
       cw_scope = ''global'' \<rparr>"

definition claim_write_new :: "str \<Rightarrow> str \<Rightarrow> str \<Rightarrow> str \<Rightarrow> claim_write" where
  "claim_write_new = claim_write_from_agent ''local'' Human"

definition with_provenance :: "provenance \<Rightarrow> claim_write \<Rightarrow> claim_write" where
  "with_provenance p w = w \<lparr> cw_provenance := p, cw_confidence := policy_confidence p \<rparr>"

record event_write =
  ew_session_id :: str
  ew_kind :: str
  ew_payload :: str
  ew_source :: str
  ew_agent_id :: str
  ew_agent_kind :: agent_kind
  ew_scope :: str

definition event_write_new :: "str \<Rightarrow> str \<Rightarrow> str \<Rightarrow> str \<Rightarrow> event_write" where
  "event_write_new session kind payload source =
     \<lparr> ew_session_id = session, ew_kind = kind, ew_payload = payload, ew_source = source,
       ew_agent_id = ''local'', ew_agent_kind = Human, ew_scope = ''global'' \<rparr>"

record observation_write =
  ow_session_id :: str
  ow_content :: str
  ow_relevance :: relevance
  ow_source_event_ids :: "int list"
  ow_derivation :: str
  ow_scope :: str

definition observation_write_new ::
  "str \<Rightarrow> str \<Rightarrow> relevance \<Rightarrow> int list \<Rightarrow> str \<Rightarrow> observation_write" where
  "observation_write_new session content rel ids derivation =
     \<lparr> ow_session_id = session, ow_content = content, ow_relevance = rel,
       ow_source_event_ids = ids, ow_derivation = derivation, ow_scope = ''global'' \<rparr>"

record candidate_write =
  kw_event_id :: int
  kw_subject :: str
  kw_predicate :: str
  kw_object :: str
  kw_scope :: str

definition candidate_write_new :: "int \<Rightarrow> str \<Rightarrow> str \<Rightarrow> str \<Rightarrow> candidate_write" where
  "candidate_write_new ev subj pred obj =
     \<lparr> kw_event_id = ev, kw_subject = subj, kw_predicate = pred, kw_object = obj,
       kw_scope = ''global'' \<rparr>"

end
