(* ===== verification/Log_Record.thy ===== *)
theory Log_Record
  imports Types
begin

section \<open>Records of the append-only log\<close>

text \<open>
  \<open>crates/aver-core/src/log.rs\<close>: the record type of the JSONL log, its kinds, the series
  each record is written to and the newest minted id a record carries. The JSON codec
  (\<open>serde_json\<close>) is not under \<open>src/\<close>; where a property needs it, it is a parameter.
\<close>

record confidence_change =
  cc_claim_id :: int
  cc_confidence :: f64

record decision =
  d_model :: str
  d_choice :: str

datatype log_record =
    AddClaim (rec_ts: int) int str str str str str str f64 "str option" str
    \<comment> \<open>claim_id subject predicate object source agent_id agent_kind confidence provenance scope\<close>
  | AddHyperedge (rec_ts: int) int str str f64 "str list" "participant_input list"
    \<comment> \<open>hyperedge_id predicate provenance confidence source_refs participants\<close>
  | RecordEvent (rec_ts: int) int str str str str str str str
    \<comment> \<open>event_id session_id event_kind payload source agent_id agent_kind scope\<close>
  | RecordObservation (rec_ts: int) str str str str "int list" str str str str
    \<comment> \<open>observation_id session_id content relevance source_event_ids agent_id agent_kind
        derivation scope\<close>
  | PruneObservations (rec_ts: int) str str "str list"
    \<comment> \<open>prune_marker_id session_id pruned_observation_ids\<close>
  | RetireClaim (rec_ts: int) int str
    \<comment> \<open>claim_id reason\<close>
  | AddContradiction (rec_ts: int) int int str "int option"
    \<comment> \<open>contradiction_id claim_id reason new_claim_id\<close>
  | ProposeCandidateClaim (rec_ts: int) int int str str str str
    \<comment> \<open>candidate_id event_id subject predicate object scope\<close>
  | PromoteCandidateClaim (rec_ts: int) int int "decision option"
    \<comment> \<open>candidate_id claim_id decision\<close>
  | RejectCandidateClaim (rec_ts: int) int str "decision option"
    \<comment> \<open>candidate_id reason decision\<close>
  | SupersedeClaims (rec_ts: int) "int list"
  | DecayConfidence (rec_ts: int) "confidence_change list"
  | MergeSourceRefs (rec_ts: int) int "str list" bool
    \<comment> \<open>claim_id source_refs promote\<close>
  | AddVectorChunk (rec_ts: int) int int str str "f64 list option"
    \<comment> \<open>chunk_id claim_id text embedding_model embedding\<close>
  | EmbedVectorChunk (rec_ts: int) int "f64 list"
    \<comment> \<open>chunk_id embedding\<close>

definition KINDS :: "str list" where
  "KINDS =
     [''add_claim'', ''add_hyperedge'', ''record_event'', ''record_observation'',
      ''prune_observations'', ''retire_claim'', ''add_contradiction'',
      ''propose_candidate_claim'', ''promote_candidate_claim'', ''reject_candidate_claim'',
      ''supersede_claims'', ''decay_confidence'', ''merge_source_refs'', ''add_vector_chunk'',
      ''embed_vector_chunk'']"

fun kind_of :: "log_record \<Rightarrow> str" where
  "kind_of (AddClaim _ _ _ _ _ _ _ _ _ _ _) = ''add_claim''"
| "kind_of (AddHyperedge _ _ _ _ _ _ _) = ''add_hyperedge''"
| "kind_of (RecordEvent _ _ _ _ _ _ _ _ _) = ''record_event''"
| "kind_of (RecordObservation _ _ _ _ _ _ _ _ _ _) = ''record_observation''"
| "kind_of (PruneObservations _ _ _ _) = ''prune_observations''"
| "kind_of (RetireClaim _ _ _) = ''retire_claim''"
| "kind_of (AddContradiction _ _ _ _ _) = ''add_contradiction''"
| "kind_of (ProposeCandidateClaim _ _ _ _ _ _ _) = ''propose_candidate_claim''"
| "kind_of (PromoteCandidateClaim _ _ _ _) = ''promote_candidate_claim''"
| "kind_of (RejectCandidateClaim _ _ _ _) = ''reject_candidate_claim''"
| "kind_of (SupersedeClaims _ _) = ''supersede_claims''"
| "kind_of (DecayConfidence _ _) = ''decay_confidence''"
| "kind_of (MergeSourceRefs _ _ _ _) = ''merge_source_refs''"
| "kind_of (AddVectorChunk _ _ _ _ _ _) = ''add_vector_chunk''"
| "kind_of (EmbedVectorChunk _ _ _) = ''embed_vector_chunk''"

fun newest_minted_id :: "log_record \<Rightarrow> int option" where
  "newest_minted_id (AddClaim _ claim_id _ _ _ _ _ _ _ _ _) = Some claim_id"
| "newest_minted_id (AddHyperedge _ hyperedge_id _ _ _ _ _) = Some hyperedge_id"
| "newest_minted_id (RecordEvent _ event_id _ _ _ _ _ _ _) = Some event_id"
| "newest_minted_id (ProposeCandidateClaim _ candidate_id _ _ _ _ _) = Some candidate_id"
| "newest_minted_id (PromoteCandidateClaim _ candidate_id claim_id _) =
     Some (max candidate_id claim_id)"
| "newest_minted_id (AddContradiction _ contradiction_id _ _ _) = Some contradiction_id"
| "newest_minted_id (AddVectorChunk _ chunk_id _ _ _ _) = Some chunk_id"
| "newest_minted_id _ = None"

text \<open>The file a record is appended to, in the order in which replay reads the files.\<close>

datatype series = Log | Events | Observations

definition ROTATED_LOG_SERIES :: "series list" where
  "ROTATED_LOG_SERIES = [Log, Events, Observations]"

fun series_name :: "series \<Rightarrow> str" where
  "series_name Log = ''log''"
| "series_name Events = ''events''"
| "series_name Observations = ''observations''"

fun series_of :: "log_record \<Rightarrow> series" where
  "series_of (RecordEvent _ _ _ _ _ _ _ _ _) = Events"
| "series_of (ProposeCandidateClaim _ _ _ _ _ _ _) = Events"
| "series_of (PromoteCandidateClaim _ _ _ _) = Events"
| "series_of (RejectCandidateClaim _ _ _ _) = Events"
| "series_of (RecordObservation _ _ _ _ _ _ _ _ _ _) = Observations"
| "series_of (PruneObservations _ _ _ _) = Observations"
| "series_of _ = Log"

instantiation series :: linorder
begin

definition series_pos :: "series \<Rightarrow> nat" where
  "series_pos s = (case s of Log \<Rightarrow> 0 | Events \<Rightarrow> 1 | Observations \<Rightarrow> 2)"

definition less_eq_series :: "series \<Rightarrow> series \<Rightarrow> bool" where
  "less_eq_series a b \<longleftrightarrow> series_pos a \<le> series_pos b"

definition less_series :: "series \<Rightarrow> series \<Rightarrow> bool" where
  "less_series a b \<longleftrightarrow> series_pos a < series_pos b"

instance
  by standard
    (auto simp: less_eq_series_def less_series_def series_pos_def split: series.splits)

end

text \<open>
  \<open>max_id_in_log_tails\<close>: the seed of the id generator, from the last record of each active
  log (\<open>None\<close> for a missing, empty or unparseable tail).
\<close>

definition max_id_in_log_tails :: "log_record option list \<Rightarrow> int" where
  "max_id_in_log_tails tails =
     foldl (\<lambda>m tail. case tail of
              None \<Rightarrow> m
            | Some r \<Rightarrow> (case newest_minted_id r of None \<Rightarrow> m | Some i \<Rightarrow> max m i)) 0 tails"

lemma kind_of_in_KINDS: "kind_of r \<in> set KINDS"
  by (cases r) (simp_all add: KINDS_def)

lemma distinct_KINDS: "distinct KINDS"
  by (simp add: KINDS_def)

end
