(* ===== verification/Validation.thy ===== *)
theory Validation
  imports Types
begin

section \<open>Validation of fields\<close>

text \<open>
  \<open>crates/aver-core/src/validation.rs\<close>: the checks every write makes before it reaches the
  log. The lemmas of the collection \<open>valid_simps\<close> read a successful check back as the
  property it guarantees.
\<close>

named_theorems valid_simps \<open>what a successful validation guarantees\<close>

definition validate_vector_chunk_text :: "str \<Rightarrow> unit result" where
  "validate_vector_chunk_text v = ensure (\<not> blank v) EInvalidVectorChunkText"

definition validate_embedding_model :: "str \<Rightarrow> unit result" where
  "validate_embedding_model v = ensure (\<not> blank v) EInvalidEmbeddingModel"

definition validate_embedding_vector :: "f64 list \<Rightarrow> unit result" where
  "validate_embedding_vector v =
     (if v = [] \<or> list_ex (\<lambda>c. \<not> is_finite c) v then Inl EInvalidEmbeddingVector else Inr ())"

definition validate_top_k :: "nat \<Rightarrow> unit result" where
  "validate_top_k k = (if k = 0 then Inl EInvalidTopK else Inr ())"

definition validate_claim_field :: "str \<Rightarrow> str \<Rightarrow> unit result" where
  "validate_claim_field field v = ensure (\<not> blank v) (EInvalidClaimField field)"

definition validate_contradiction_reason :: "str \<Rightarrow> unit result" where
  "validate_contradiction_reason v = ensure (\<not> blank v) EInvalidContradictionReason"

definition validate_candidate_status_filter :: "str \<Rightarrow> unit result" where
  "validate_candidate_status_filter v =
     (if v = ''PENDING'' \<or> v = ''PROMOTED'' \<or> v = ''REJECTED'' then Inr ()
      else Inl (EInvalidCandidateStatusFilter v))"

definition validate_recall_query :: "str \<Rightarrow> unit result" where
  "validate_recall_query q = ensure (\<not> blank q) EInvalidRecallQuery"

definition validate_rejection_reason :: "str \<Rightarrow> unit result" where
  "validate_rejection_reason v = ensure (\<not> blank v) EInvalidRejectionReason"

definition validate_event_field :: "str \<Rightarrow> str \<Rightarrow> unit result" where
  "validate_event_field field v = ensure (\<not> blank v) (EInvalidEventField field)"

definition validate_observation_field :: "str \<Rightarrow> str \<Rightarrow> unit result" where
  "validate_observation_field field v = ensure (\<not> blank v) (EInvalidObservationField field)"

definition agent_char :: "char \<Rightarrow> bool" where
  "agent_char c \<longleftrightarrow> is_ascii_alphanumeric c \<or> c = CHR ''_'' \<or> c = CHR ''-''"

definition scope_char :: "char \<Rightarrow> bool" where
  "scope_char c \<longleftrightarrow> is_ascii_alphanumeric c \<or> c = CHR ''_'' \<or> c = CHR ''-'' \<or> c = CHR ''/''"

definition validate_agent_id :: "str \<Rightarrow> unit result" where
  "validate_agent_id v =
     (if v = [] \<or> \<not> list_all agent_char v then Inl (EInvalidAgentId v) else Inr ())"

definition validate_scope :: "str \<Rightarrow> unit result" where
  "validate_scope v =
     (if blank v then Inl (EInvalidScope v)
      else if \<not> list_all scope_char v then Inl (EInvalidScope v)
      else Inr ())"

definition validate_confidence :: "f64 \<Rightarrow> unit result" where
  "validate_confidence c = ensure (in_unit c) (EInvalidConfidence c)"

lemmas validate_defs =
  validate_vector_chunk_text_def validate_embedding_model_def validate_claim_field_def
  validate_contradiction_reason_def validate_rejection_reason_def validate_event_field_def
  validate_observation_field_def validate_confidence_def

lemma validate_ok [valid_simps]:
  "validate_vector_chunk_text v = Inr u \<longleftrightarrow> \<not> blank v"
  "validate_embedding_model v = Inr u \<longleftrightarrow> \<not> blank v"
  "validate_claim_field f v = Inr u \<longleftrightarrow> \<not> blank v"
  "validate_contradiction_reason v = Inr u \<longleftrightarrow> \<not> blank v"
  "validate_rejection_reason v = Inr u \<longleftrightarrow> \<not> blank v"
  "validate_event_field f v = Inr u \<longleftrightarrow> \<not> blank v"
  "validate_observation_field f v = Inr u \<longleftrightarrow> \<not> blank v"
  "validate_confidence c = Inr u \<longleftrightarrow> in_unit c"
  by (simp_all add: validate_defs result_simps)

lemma validate_agent_id_ok [valid_simps]:
  "validate_agent_id v = Inr u \<longleftrightarrow> v \<noteq> [] \<and> list_all agent_char v"
  by (simp add: validate_agent_id_def)

lemma validate_scope_ok [valid_simps]:
  "validate_scope v = Inr u \<longleftrightarrow> \<not> blank v \<and> list_all scope_char v"
  by (simp add: validate_scope_def)

lemma agent_char_not_space: "agent_char c \<Longrightarrow> c \<noteq> CHR '' ''"
  by (auto simp: agent_char_def ascii_defs less_eq_char_def)

text \<open>A valid agent id is a legal scope, and neither is blank for the schema's triggers.\<close>

lemma agent_id_not_sql_blank:
  assumes "validate_agent_id v = Inr u"
  shows "\<not> sql_blank v"
proof -
  from assms obtain c t where "v = c # t" and "agent_char c"
    by (cases v) (auto simp: valid_simps)
  then show ?thesis by (auto simp: sql_blank_def dest: agent_char_not_space)
qed

end
