(* ===== verification/Schema.thy ===== *)
theory Schema
  imports Tables Log_Record Validation
begin

section \<open>The projection: tables, constraints and triggers\<close>

text \<open>
  The SQLite projection as \<open>src/migrations\<close> leaves it. Its tables fall into three groups
  by the log series they are rebuilt from: \<open>graph\<close> (series log), \<open>episodes\<close> (series events)
  and \<open>observed\<close> (series observations). Every \<open>insert\<close> below is one INSERT statement with
  the CHECK constraints, foreign keys and BEFORE triggers of its table: a list of
  (condition, message) pairs, the first false condition aborting the statement with
  \<open>ESqlite\<close>. JSON columns hold the value they encode.
\<close>

fun check_all :: "(bool \<times> str) list \<Rightarrow> unit result" where
  "check_all [] = Inr ()"
| "check_all ((ok, msg) # cs) = (if ok then check_all cs else Inl (ESqlite msg))"

lemma check_all_ok [result_simps]: "check_all cs = Inr u \<longleftrightarrow> list_all fst cs"
  by (induction cs rule: check_all.induct) auto

lemma check_all_cases: "check_all cs = Inr () \<or> (\<exists>m. check_all cs = Inl (ESqlite m))"
  by (induction cs rule: check_all.induct) auto

declare check_all.simps [simp del]

subsection \<open>Rows\<close>

record claim_row = claim +
  cr_created_at :: int
  cr_last_seen_at :: int

record hyperedge_row =
  hr_predicate :: str
  hr_provenance :: provenance
  hr_confidence :: f64
  hr_source_refs :: "str list"
  hr_status :: claim_status
  hr_created_at :: int
  hr_updated_at :: int

record participant_row =
  pr_hyperedge_id :: int
  pr_role :: str
  pr_entity :: str

record chunk_row =
  vr_claim_id :: int
  vr_text :: str
  vr_model :: str
  vr_embedding :: "f64 list option"
  vr_created_at :: int

record entity_row =
  er_type_id :: int
  er_requires_review :: bool
  er_created_at :: int
  er_last_seen_at :: int

record type_row =
  t_name :: str
  t_parent :: "int option"

record ptype_row = type_row +
  t_created_via :: str
  t_created_at :: "int option"
  t_single :: bool

record extension_row =
  x_predicate :: str
  x_parent :: str
  x_agent_id :: str
  x_ext_created_at :: int

record candidate_row = candidate +
  kr_created_at :: int

record prune_row =
  m_session_id :: str
  m_pruned_ids :: "str list"
  m_ts :: int

record graph =
  g_claims :: "(int, claim_row) table"
  g_hyperedges :: "(int, hyperedge_row) table"
  g_participants :: "(int, participant_row) table"
  g_contradictions :: "(int, contradiction) table"
  g_chunks :: "(int, chunk_row) table"
  g_index :: "(int, f64 list) table"
  g_entities :: "(str, entity_row) table"
  g_entity_types :: "(int, type_row) table"
  g_entity_closure :: "(int \<times> int) list"
  g_predicate_types :: "(int, ptype_row) table"
  g_predicate_alias :: "(str, int) table"
  g_predicate_closure :: "(int \<times> int) list"
  g_extension_log :: "(int, extension_row) table"

record episodes =
  e_events :: "(int, event) table"
  e_candidates :: "(int, candidate_row) table"

record observed =
  o_observations :: "(str, observation) table"
  o_markers :: "(str, prune_row) table"

record db =
  db_graph :: graph
  db_episodes :: episodes
  db_observed :: observed

text \<open>The rowid SQLite assigns: one above the largest key.\<close>

definition next_rowid :: "(int, 'v) table \<Rightarrow> int" where
  "next_rowid t = (if t = [] then 1 else fst (last t) + 1)"

lemma next_rowid_fresh: "tbl_ok t \<Longrightarrow> a \<in> fst ` set t \<Longrightarrow> a < next_rowid t"
proof (induction t rule: rev_induct)
  case (snoc p t)
  then show ?case by (auto simp: tbl_ok_def next_rowid_def sorted_wrt_append)
qed simp

lemma next_rowid_get: "tbl_ok t \<Longrightarrow> map_of t (next_rowid t) = None"
  using next_rowid_fresh by (fastforce simp: map_of_eq_None_iff)

definition charset_ok :: "str \<Rightarrow> bool" where
  "charset_ok s \<longleftrightarrow> list_all agent_char s"

definition scope_charset_ok :: "str \<Rightarrow> bool" where
  "scope_charset_ok s \<longleftrightarrow> list_all scope_char s"

definition type_id_on :: "(int, 'a type_row_scheme) table \<Rightarrow> str \<Rightarrow> int option" where
  "type_id_on t name = map_option fst (find (\<lambda>(i, row). t_name row = name) t)"

definition predicate_known :: "graph \<Rightarrow> str \<Rightarrow> bool" where
  "predicate_known g p \<longleftrightarrow>
     type_id_on (g_predicate_types g) p \<noteq> None \<or> map_of (g_predicate_alias g) p \<noteq> None"

subsection \<open>Claims\<close>

text \<open>
  The triggers of a column run on INSERT and on an UPDATE that assigns the column, so they
  are grouped by column.
\<close>

definition confidence_checks :: "f64 \<Rightarrow> (bool \<times> str) list" where
  "confidence_checks c = [(in_unit c, ''claims.confidence must be in [0, 1]'')]"

definition source_refs_checks :: "str list \<Rightarrow> (bool \<times> str) list" where
  "source_refs_checks refs =
     [(refs \<noteq> [], ''claims.source_refs must not be empty''),
      (list_all (\<lambda>r. \<not> sql_blank r) refs, ''claims.source_refs elements must not be blank''),
      (distinct refs, ''claims.source_refs elements must be unique'')]"

definition last_seen_checks :: "int \<Rightarrow> int \<Rightarrow> (bool \<times> str) list" where
  "last_seen_checks created seen =
     [(0 < seen, ''claims.last_seen_at must be positive''),
      (\<not> (0 < created \<and> 0 < seen \<and> seen < created),
         ''claims.last_seen_at must be >= created_at'')]"

definition claim_checks :: "graph \<Rightarrow> claim_row \<Rightarrow> (bool \<times> str) list" where
  "claim_checks g c =
     confidence_checks (c_confidence c)
     @ source_refs_checks (c_source_refs c)
     @ last_seen_checks (cr_created_at c) (cr_last_seen_at c)
     @ [(predicate_known g (c_predicate c), ''claims.predicate not in ontology''),
        (\<not> sql_blank (c_agent_id c), ''claims.agent_id must not be blank''),
        (charset_ok (c_agent_id c), ''claims.agent_id contains invalid characters''),
        (\<not> sql_blank (c_subject c), ''claims.subject must not be blank''),
        (\<not> sql_blank (c_object c), ''claims.object must not be blank''),
        (0 < cr_created_at c, ''claims.created_at must be positive''),
        (0 < c_write_ts c, ''claims.write_ts must be positive''),
        (opt_all (\<lambda>v. 0 < v) (c_last_verified_at c),
           ''claims.last_verified_at must be positive when set''),
        (opt_all (\<lambda>v. \<not> (0 < v \<and> v < cr_created_at c)) (c_last_verified_at c),
           ''claims.last_verified_at must be >= created_at when set''),
        (\<not> sql_blank (c_predicate c), ''claims.predicate must not be blank''),
        (\<not> (0 < c_write_ts c \<and> 0 < cr_created_at c \<and> cr_created_at c < c_write_ts c),
           ''claims.created_at must be >= write_ts''),
        (\<not> sql_blank (c_scope c), ''claims.scope must not be blank''),
        (scope_charset_ok (c_scope c), ''claims.scope contains invalid characters'')]"

definition insert_claim :: "claim_row \<Rightarrow> graph \<Rightarrow> graph result" where
  "insert_claim c g =
     rbind (check_all (claim_checks g c))
       (\<lambda>_. Inr (g \<lparr> g_claims := tbl_put (c_id c) c (g_claims g) \<rparr>))"

subsection \<open>Hyperedges\<close>

definition hyperedge_checks :: "graph \<Rightarrow> hyperedge_row \<Rightarrow> (bool \<times> str) list" where
  "hyperedge_checks g h =
     [(in_unit (hr_confidence h), ''CHECK constraint failed: hyperedges.confidence''),
      (0 < hr_created_at h, ''CHECK constraint failed: hyperedges.created_at''),
      (0 < hr_updated_at h, ''CHECK constraint failed: hyperedges.updated_at''),
      (hr_source_refs h \<noteq> [], ''hyperedges.source_refs must not be empty''),
      (\<not> sql_blank (hr_predicate h), ''hyperedges.predicate must not be blank''),
      (\<not> hr_updated_at h < hr_created_at h, ''hyperedges.updated_at must be >= created_at''),
      (list_all (\<lambda>r. \<not> sql_blank r) (hr_source_refs h),
         ''hyperedges.source_refs elements must be nonblank strings''),
      (distinct (hr_source_refs h), ''hyperedges.source_refs elements must be unique''),
      (predicate_known g (hr_predicate h), ''hyperedges.predicate not in predicate_types'')]"

definition insert_hyperedge :: "int \<Rightarrow> hyperedge_row \<Rightarrow> graph \<Rightarrow> graph result" where
  "insert_hyperedge i h g =
     rbind (check_all (hyperedge_checks g h))
       (\<lambda>_. Inr (g \<lparr> g_hyperedges := tbl_put i h (g_hyperedges g) \<rparr>))"

definition participant_checks :: "graph \<Rightarrow> participant_row \<Rightarrow> (bool \<times> str) list" where
  "participant_checks g p =
     [(\<not> sql_blank (pr_role p), ''CHECK constraint failed: hyperedge_participants.role''),
      (\<not> sql_blank (pr_entity p), ''CHECK constraint failed: hyperedge_participants.entity''),
      (0 < pr_hyperedge_id p, ''hyperedge_participants.hyperedge_id must be positive''),
      (p \<notin> set (tbl_rows (g_participants g)),
         ''hyperedge_participants role/entity must be unique per hyperedge''),
      (map_of (g_hyperedges g) (pr_hyperedge_id p) \<noteq> None, ''FOREIGN KEY constraint failed'')]"

definition insert_participant :: "participant_row \<Rightarrow> graph \<Rightarrow> graph result" where
  "insert_participant p g =
     rbind (check_all (participant_checks g p))
       (\<lambda>_. Inr (g \<lparr> g_participants :=
                       tbl_put (next_rowid (g_participants g)) p (g_participants g) \<rparr>))"

subsection \<open>Contradictions and vector chunks\<close>

definition contradiction_checks :: "graph \<Rightarrow> contradiction \<Rightarrow> (bool \<times> str) list" where
  "contradiction_checks g x =
     [(\<not> sql_blank (x_reason x), ''contradictions.reason must not be blank''),
      (0 < x_created_at x, ''contradictions.created_at must be positive''),
      (x_new_claim_id x \<noteq> Some (x_claim_id x),
         ''contradictions.new_claim_id must differ from claim_id''),
      (0 < x_claim_id x, ''contradictions.claim_id must be positive''),
      (opt_all (\<lambda>n. 0 < n) (x_new_claim_id x),
         ''contradictions.new_claim_id must be positive''),
      (map_of (g_claims g) (x_claim_id x) \<noteq> None, ''FOREIGN KEY constraint failed''),
      (opt_all (\<lambda>n. map_of (g_claims g) n \<noteq> None) (x_new_claim_id x),
         ''FOREIGN KEY constraint failed'')]"

definition insert_contradiction :: "contradiction \<Rightarrow> graph \<Rightarrow> graph result" where
  "insert_contradiction x g =
     rbind (check_all (contradiction_checks g x))
       (\<lambda>_. Inr (g \<lparr> g_contradictions := tbl_put (x_id x) x (g_contradictions g) \<rparr>))"

definition embedding_checks :: "f64 list option \<Rightarrow> (bool \<times> str) list" where
  "embedding_checks v =
     [(opt_all (\<lambda>e. list_all is_finite e) (v),
         ''vector_chunks.embedding_json elements must be numeric''),
      (v \<noteq> Some [], ''vector_chunks.embedding_json must not be empty'')]"

definition chunk_checks :: "graph \<Rightarrow> chunk_row \<Rightarrow> (bool \<times> str) list" where
  "chunk_checks g v =
     embedding_checks (vr_embedding v)
     @ [(\<not> sql_blank (vr_text v), ''vector_chunks.text must not be blank''),
        (\<not> sql_blank (vr_model v), ''vector_chunks.embedding_model must not be blank''),
        (0 < vr_created_at v, ''vector_chunks.created_at must be positive''),
        (0 < vr_claim_id v, ''vector_chunks.claim_id must be positive''),
        (map_of (g_claims g) (vr_claim_id v) \<noteq> None, ''FOREIGN KEY constraint failed'')]"

definition insert_chunk :: "int \<Rightarrow> chunk_row \<Rightarrow> graph \<Rightarrow> graph result" where
  "insert_chunk i v g =
     rbind (check_all (chunk_checks g v))
       (\<lambda>_. Inr (g \<lparr> g_chunks := tbl_put i v (g_chunks g) \<rparr>))"

subsection \<open>Entities and vocabulary\<close>

definition entity_seen_checks :: "int \<Rightarrow> int \<Rightarrow> (bool \<times> str) list" where
  "entity_seen_checks created seen =
     [(0 < seen, ''entities.last_seen_at must be positive''),
      (\<not> (0 < created \<and> 0 < seen \<and> seen < created),
         ''entities.last_seen_at must be >= created_at'')]"

definition entity_checks :: "graph \<Rightarrow> str \<Rightarrow> entity_row \<Rightarrow> (bool \<times> str) list" where
  "entity_checks g name e =
     [(\<not> sql_blank name, ''entities.name must not be blank''),
      (0 < er_created_at e, ''entities.created_at must be positive''),
      (0 < er_type_id e, ''entities.type_id must be positive''),
      (map_of (g_entity_types g) (er_type_id e) \<noteq> None, ''FOREIGN KEY constraint failed'')]
     @ entity_seen_checks (er_created_at e) (er_last_seen_at e)"

definition insert_entity :: "str \<Rightarrow> entity_row \<Rightarrow> graph \<Rightarrow> graph result" where
  "insert_entity name e g =
     rbind (check_all (entity_checks g name e))
       (\<lambda>_. Inr (g \<lparr> g_entities := tbl_put name e (g_entities g) \<rparr>))"

definition insert_predicate_type :: "ptype_row \<Rightarrow> graph \<Rightarrow> graph result" where
  "insert_predicate_type p g =
     (let i = next_rowid (g_predicate_types g)
      in rbind (check_all
           [(\<not> sql_blank (t_name p), ''predicate_types.name must not be blank''),
            (type_id_on (g_predicate_types g) (t_name p) = None,
               ''UNIQUE constraint failed: predicate_types.name''),
            (t_parent p \<noteq> Some i, ''predicate_types.parent_id must differ from id''),
            (opt_all (\<lambda>j. 0 < j) (t_parent p),
               ''predicate_types.parent_id must be positive''),
            (opt_all (\<lambda>j. map_of (g_predicate_types g) j \<noteq> None) (t_parent p),
               ''FOREIGN KEY constraint failed'')])
         (\<lambda>_. Inr (g \<lparr> g_predicate_types := tbl_put i p (g_predicate_types g) \<rparr>)))"

definition insert_extension :: "extension_row \<Rightarrow> graph \<Rightarrow> graph result" where
  "insert_extension x g =
     rbind (check_all
       [(\<not> sql_blank (x_predicate x), ''ontology_extension_log.predicate must not be blank''),
        (\<not> sql_blank (x_parent x), ''ontology_extension_log.parent must not be blank''),
        (\<not> sql_blank (x_agent_id x), ''ontology_extension_log.agent_id must not be blank''),
        (charset_ok (x_agent_id x), ''ontology_extension_log.agent_id contains invalid characters''),
        (0 < x_ext_created_at x, ''ontology_extension_log.created_at must be positive''),
        (type_id_on (g_predicate_types g) (x_parent x) \<noteq> None,
           ''ontology_extension_log.parent must exist in predicate_types''),
        (type_id_on (g_predicate_types g) (x_predicate x) \<noteq> None,
           ''ontology_extension_log.predicate must exist in predicate_types''),
        (x_parent x \<noteq> x_predicate x, ''ontology_extension_log.parent must differ from predicate'')])
       (\<lambda>_. Inr (g \<lparr> g_extension_log :=
                       tbl_put (next_rowid (g_extension_log g)) x (g_extension_log g) \<rparr>))"

subsection \<open>Events, candidates, observations, prune markers\<close>

definition agent_kind_check :: "str \<Rightarrow> str \<Rightarrow> bool \<times> str" where
  "agent_kind_check col k = (is_ok (agent_kind_from_str k), ''CHECK constraint failed: '' @ col)"

definition event_checks :: "event \<Rightarrow> (bool \<times> str) list" where
  "event_checks e =
     [agent_kind_check ''episodic_events.agent_kind'' (e_agent_kind e),
      (\<not> sql_blank (e_session_id e), ''episodic_events.session_id must not be blank''),
      (\<not> sql_blank (e_kind e), ''episodic_events.kind must not be blank''),
      (\<not> sql_blank (e_source e), ''episodic_events.source must not be blank''),
      (\<not> sql_blank (e_agent_id e), ''episodic_events.agent_id must not be blank''),
      (charset_ok (e_agent_id e), ''episodic_events.agent_id contains invalid characters''),
      (0 < e_ts e, ''episodic_events.ts must be positive''),
      (\<not> sql_blank (e_scope e), ''episodic_events.scope must not be blank''),
      (scope_charset_ok (e_scope e), ''episodic_events.scope contains invalid characters'')]"

definition insert_event :: "event \<Rightarrow> episodes \<Rightarrow> episodes result" where
  "insert_event e p =
     rbind (check_all (event_checks e))
       (\<lambda>_. Inr (p \<lparr> e_events := tbl_put (e_id e) e (e_events p) \<rparr>))"

definition candidate_state_checks :: "candidate_row \<Rightarrow> (bool \<times> str) list" where
  "candidate_state_checks k =
     [(k_status k \<in> set [''PENDING'', ''PROMOTED'', ''REJECTED''],
         ''CHECK constraint failed: candidate_claims.status''),
      (k_status k = ''REJECTED'' \<longrightarrow>
         (case k_rejection_reason k of None \<Rightarrow> False | Some r \<Rightarrow> \<not> sql_blank r),
         ''candidate_claims.rejection_reason must not be blank when status is REJECTED''),
      (k_status k = ''PROMOTED'' \<longrightarrow> k_promoted_claim_id k \<noteq> None,
         ''candidate_claims.promoted_claim_id must be set when status is PROMOTED''),
      (k_status k = ''REJECTED'' \<longrightarrow> k_promoted_claim_id k = None,
         ''candidate_claims.promoted_claim_id must be NULL when status is REJECTED''),
      (k_status k = ''PROMOTED'' \<longrightarrow> k_rejection_reason k = None,
         ''candidate_claims.rejection_reason must be NULL when status is PROMOTED''),
      (k_status k = ''PENDING'' \<longrightarrow> k_rejection_reason k = None,
         ''candidate_claims.rejection_reason must be NULL when status is PENDING''),
      (k_status k = ''PENDING'' \<longrightarrow> k_promoted_claim_id k = None,
         ''candidate_claims.promoted_claim_id must be NULL when status is PENDING''),
      (opt_all (\<lambda>n. 0 < n) (k_promoted_claim_id k),
         ''candidate_claims.promoted_claim_id must be positive'')]"

definition candidate_checks :: "episodes \<Rightarrow> candidate_row \<Rightarrow> (bool \<times> str) list" where
  "candidate_checks p k =
     [(in_unit (k_confidence k), ''candidate_claims.confidence must be in [0, 1]''),
      (\<not> sql_blank (k_subject k), ''candidate_claims.subject must not be blank''),
      (\<not> sql_blank (k_predicate k), ''candidate_claims.predicate must not be blank''),
      (\<not> sql_blank (k_object k), ''candidate_claims.object must not be blank''),
      (0 < kr_created_at k, ''candidate_claims.created_at must be positive''),
      (\<not> sql_blank (k_scope k), ''candidate_claims.scope must not be blank''),
      (scope_charset_ok (k_scope k), ''candidate_claims.scope contains invalid characters''),
      (0 < k_event_id k, ''candidate_claims.event_id must be positive''),
      (map_of (e_events p) (k_event_id k) \<noteq> None, ''FOREIGN KEY constraint failed'')]
     @ candidate_state_checks k"

definition insert_candidate :: "candidate_row \<Rightarrow> episodes \<Rightarrow> episodes result" where
  "insert_candidate k p =
     rbind (check_all (candidate_checks p k))
       (\<lambda>_. Inr (p \<lparr> e_candidates := tbl_put (k_id k) k (e_candidates p) \<rparr>))"

definition observation_checks :: "observation \<Rightarrow> (bool \<times> str) list" where
  "observation_checks o1 =
     [(is_ok (relevance_from_str (o_relevance o1)), ''CHECK constraint failed: observations.relevance''),
      agent_kind_check ''observations.agent_kind'' (o_agent_kind o1),
      (o_source_event_ids o1 \<noteq> [], ''observations.source_event_ids must not be empty''),
      (list_all (\<lambda>i. 0 < i) (o_source_event_ids o1),
         ''observations.source_event_ids elements must be positive''),
      (\<not> sql_blank (o_agent_id o1), ''observations.agent_id must not be blank''),
      (charset_ok (o_agent_id o1), ''observations.agent_id contains invalid characters''),
      (\<not> sql_blank (o_session_id o1), ''observations.session_id must not be blank''),
      (\<not> sql_blank (o_content o1), ''observations.content must not be blank''),
      (\<not> sql_blank (o_derivation o1), ''observations.derivation must not be blank''),
      (\<not> sql_blank (o_id o1), ''observations.id must not be blank''),
      (0 < o_ts o1, ''observations.ts must be positive''),
      (\<not> sql_blank (o_scope o1), ''observations.scope must not be blank''),
      (scope_charset_ok (o_scope o1), ''observations.scope contains invalid characters''),
      (distinct (o_source_event_ids o1), ''observations.source_event_ids elements must be unique'')]"

definition insert_observation :: "observation \<Rightarrow> observed \<Rightarrow> observed result" where
  "insert_observation o1 b =
     rbind (check_all (observation_checks o1))
       (\<lambda>_. Inr (b \<lparr> o_observations := tbl_put (o_id o1) o1 (o_observations b) \<rparr>))"

definition marker_checks :: "str \<Rightarrow> prune_row \<Rightarrow> (bool \<times> str) list" where
  "marker_checks i m =
     [(0 < m_ts m, ''observation_prune_markers.ts must be positive''),
      (m_pruned_ids m \<noteq> [],
         ''observation_prune_markers.pruned_observation_ids must not be empty''),
      (\<not> sql_blank (m_session_id m), ''observation_prune_markers.session_id must not be blank''),
      (\<not> sql_blank i, ''observation_prune_markers.id must not be blank''),
      (list_all (\<lambda>x. \<not> sql_blank x) (m_pruned_ids m),
         ''observation_prune_markers.pruned_observation_ids elements must be nonblank strings''),
      (distinct (m_pruned_ids m),
         ''observation_prune_markers.pruned_observation_ids elements must be unique'')]"

definition insert_marker :: "str \<Rightarrow> prune_row \<Rightarrow> observed \<Rightarrow> observed result" where
  "insert_marker i m b =
     rbind (check_all (marker_checks i m))
       (\<lambda>_. Inr (b \<lparr> o_markers := tbl_put i m (o_markers b) \<rparr>))"

lemmas insert_defs =
  insert_claim_def insert_hyperedge_def insert_participant_def insert_contradiction_def
  insert_chunk_def insert_entity_def insert_predicate_type_def insert_extension_def
  insert_event_def insert_candidate_def insert_observation_def insert_marker_def

end
