(* ===== verification/Ontology.thy ===== *)
theory Ontology
  imports Schema
begin

section \<open>The ontology: vocabulary, closure, entities\<close>

text \<open>
  \<open>crates/aver-core/src/seed.rs\<close> and \<open>ontology.rs\<close>: the seeded hierarchies of entity and
  predicate types, their transitive closure, the lookups on them, and the entity upsert
  that every logged claim and hyperedge performs.
\<close>

subsection \<open>Walking the parents\<close>

text \<open>
  \<open>rebuild_closure\<close> walks from every type through the parent pointers. The walk of the code
  ends exactly when the pointers have no cycle; here it takes fuel, and \<open>chain_enough\<close> shows
  that one step more than the number of types is enough for every walk that ends.
\<close>

fun chain :: "nat \<Rightarrow> (int \<Rightarrow> int option) \<Rightarrow> int \<Rightarrow> int list option" where
  "chain 0 p i = None"
| "chain (Suc n) p i =
     (case p i of None \<Rightarrow> Some [i] | Some j \<Rightarrow> map_option ((#) i) (chain n p j))"

definition parent_of :: "(int, 'a type_row_scheme) table \<Rightarrow> int \<Rightarrow> int option" where
  "parent_of t i = Option.bind (map_of t i) t_parent"

definition closure_of :: "(int, 'a type_row_scheme) table \<Rightarrow> (int \<times> int) list" where
  "closure_of t =
     concat (map (\<lambda>(i, _). case chain (Suc (length t)) (parent_of t) i of
                              None \<Rightarrow> []
                            | Some as \<Rightarrow> map (Pair i) as) t)"

text \<open>The hierarchy has no cycle: every walk ends.\<close>

definition walks_end :: "(int, 'a type_row_scheme) table \<Rightarrow> bool" where
  "walks_end t \<longleftrightarrow> list_all (\<lambda>(i, _). chain (Suc (length t)) (parent_of t) i \<noteq> None) t"

lemma chain_more: "chain n p i = Some as \<Longrightarrow> n \<le> m \<Longrightarrow> chain m p i = Some as"
proof (induction n arbitrary: i as m)
  case (Suc n)
  from Suc.prems(2) obtain k where k: "m = Suc k" "n \<le> k" by (cases m) auto
  show ?case
  proof (cases "p i")
    case None
    with Suc.prems(1) show ?thesis by (simp add: k)
  next
    case (Some j)
    with Suc.prems(1) obtain bs where "chain n p j = Some bs" "as = i # bs" by auto
    with Suc.IH [OF _ k(2)] Some show ?thesis by (simp add: k)
  qed
qed simp

lemma chain_unique: "chain n p i = Some as \<Longrightarrow> chain m p i = Some bs \<Longrightarrow> as = bs"
  using chain_more [of n p i as "max n m"] chain_more [of m p i bs "max n m"] by simp

lemma chain_suffix:
  assumes "chain n p i = Some as" and "j \<in> set as"
  obtains m bs where "m \<le> n" and "chain m p j = Some bs" and "length bs \<le> length as"
    and "j \<noteq> i \<Longrightarrow> length bs < length as"
proof -
  have "\<exists>m bs. m \<le> n \<and> chain m p j = Some bs \<and> length bs \<le> length as
      \<and> (j \<noteq> i \<longrightarrow> length bs < length as)"
    using assms
  proof (induction n arbitrary: i as)
    case (Suc n)
    show ?case
    proof (cases "j = i")
      case True
      with Suc.prems show ?thesis by blast
    next
      case False
      with Suc.prems obtain k cs where k: "p i = Some k" "chain n p k = Some cs" "as = i # cs"
        by (auto split: option.splits)
      with False Suc.prems have "j \<in> set cs" by simp
      from Suc.IH [OF k(2) this] show ?thesis by (auto simp: k intro: le_SucI less_SucI)
    qed
  qed simp
  with that show thesis by blast
qed

lemma chain_distinct: "chain n p i = Some as \<Longrightarrow> distinct as"
proof (induction n arbitrary: i as)
  case (Suc n)
  show ?case
  proof (cases "p i")
    case None
    with Suc.prems show ?thesis by auto
  next
    case (Some j)
    with Suc.prems obtain bs where bs: "chain n p j = Some bs" "as = i # bs" by auto
    have "i \<notin> set bs"
    proof
      assume "i \<in> set bs"
      then obtain m cs where "chain m p i = Some cs" and "length cs \<le> length bs"
        using chain_suffix [OF bs(1)] by metis
      with chain_unique [OF Suc.prems] bs(2) show False by fastforce
    qed
    with Suc.IH [OF bs(1)] bs(2) show ?thesis by simp
  qed
qed simp

lemma chain_fuel: "chain n p i = Some as \<Longrightarrow> chain (length as) p i = Some as"
proof (induction n arbitrary: i as)
  case (Suc n)
  then show ?case by (auto split: option.splits)
qed simp

lemma chain_start: "chain n p i = Some as \<Longrightarrow> as \<noteq> [] \<and> hd as = i"
  by (cases n) (auto split: option.splits)

lemma chain_dom:
  "chain n p i = Some as \<Longrightarrow> j \<in> set as \<Longrightarrow> j = i \<or> (\<exists>k. p k = Some j)"
  by (induction n arbitrary: i as) (fastforce split: option.splits)+

lemma chain_enough:
  assumes "chain n p i = Some as" and "finite K" and "\<And>k. p k \<noteq> None \<Longrightarrow> k \<in> K"
  shows "chain (Suc (card K)) p i = Some as"
proof -
  have "set (butlast as) \<subseteq> K"
    using assms(1)
  proof (induction n arbitrary: i as)
    case (Suc n)
    then show ?case
      using assms(3) chain_start by (fastforce split: option.splits if_splits)
  qed simp
  moreover have "distinct (butlast as)"
    using chain_distinct [OF assms(1)] by (simp add: distinct_butlast)
  ultimately have "length (butlast as) \<le> card K"
    using assms(2) card_mono distinct_card by metis
  then have "length as \<le> Suc (card K)" by simp
  with chain_fuel [OF assms(1)] show ?thesis by (rule chain_more)
qed

text \<open>The closure is exactly the reflexive transitive closure of the parent pointers.\<close>

inductive ancestor :: "(int \<Rightarrow> int option) \<Rightarrow> int \<Rightarrow> int \<Rightarrow> bool" for p where
  self: "ancestor p i i"
| up: "p i = Some j \<Longrightarrow> ancestor p j k \<Longrightarrow> ancestor p i k"

inductive_simps ancestor_step: "ancestor p i k"

lemma chain_ancestors: "chain n p i = Some as \<Longrightarrow> j \<in> set as \<longleftrightarrow> ancestor p i j"
proof (induction n arbitrary: i as)
  case (Suc n)
  show ?case
  proof (cases "p i")
    case None
    with Suc.prems show ?thesis by (auto intro: ancestor.self elim: ancestor.cases)
  next
    case (Some k)
    with Suc.prems obtain bs where bs: "chain n p k = Some bs" "as = i # bs" by auto
    show ?thesis
      using Suc.IH [OF bs(1)] Some bs(2) by (auto intro: ancestor.intros elim: ancestor.cases)
  qed
qed simp

lemma parent_in_dom: "parent_of t i \<noteq> None \<Longrightarrow> i \<in> fst ` set t"
  by (cases "map_of t i") (force simp: parent_of_def dest: map_of_SomeD)+

lemma card_keys: "card (fst ` set t) \<le> length t"
  by (metis card_length length_map set_map)

lemma chain_table_enough:
  assumes "chain n (parent_of t) i = Some as"
  shows "chain (Suc (length t)) (parent_of t) i = Some as"
proof -
  have "chain (Suc (card (fst ` set t))) (parent_of t) i = Some as"
    using assms by (rule chain_enough) (use parent_in_dom in auto)
  then show ?thesis by (rule chain_more) (use card_keys in auto)
qed

lemma closure_of_iff:
  assumes "walks_end t"
  shows "(i, j) \<in> set (closure_of t) \<longleftrightarrow> i \<in> fst ` set t \<and> ancestor (parent_of t) i j"
proof -
  have "chain (Suc (length t)) (parent_of t) i \<noteq> None" if "i \<in> fst ` set t"
    using assms that by (fastforce simp: walks_end_def list_all_iff simp del: chain.simps)
  moreover have "(i, j) \<in> set (closure_of t) \<longleftrightarrow>
      (\<exists>as. i \<in> fst ` set t \<and> chain (Suc (length t)) (parent_of t) i = Some as \<and> j \<in> set as)"
    by (force simp: closure_of_def simp del: chain.simps split: option.splits)
  ultimately show ?thesis
    using chain_ancestors by blast
qed

subsection \<open>The seed\<close>

definition ENTITY_ONTOLOGY :: "(str \<times> str option) list" where
  "ENTITY_ONTOLOGY =
     [(''Thing'', None), (''Asset'', Some ''Thing''), (''File'', Some ''Asset''),
      (''Module'', Some ''Asset''), (''Config'', Some ''Asset''), (''Symbol'', Some ''Thing''),
      (''Function'', Some ''Symbol''), (''Class'', Some ''Symbol''),
      (''Constant'', Some ''Symbol''), (''Process'', Some ''Thing''),
      (''Service'', Some ''Process''), (''Test'', Some ''Process''), (''Job'', Some ''Process''),
      (''Agent'', Some ''Thing''), (''Human'', Some ''Agent''), (''Bot'', Some ''Agent''),
      (''Concept'', Some ''Thing''), (''Decision'', Some ''Concept''), (''Bug'', Some ''Concept''),
      (''Pref'', Some ''Concept''), (''Constraint'', Some ''Concept''),
      (''ClaudeSession'', Some ''Process''), (''ClaudeEvent'', Some ''Concept''),
      (''ClaudeContent'', Some ''Asset''), (''Project'', Some ''Asset''),
      (''ProjectPath'', Some ''File''), (''ClaudeHistory'', Some ''Asset''),
      (''ClaudeHistoryFile'', Some ''File'')]"

definition PREDICATE_ONTOLOGY :: "(str \<times> str option) list" where
  "PREDICATE_ONTOLOGY =
     [(''relates_to'', None), (''depends_on'', Some ''relates_to''),
      (''calls'', Some ''depends_on''), (''imports'', Some ''depends_on''),
      (''reads_config_from'', Some ''depends_on''), (''owns'', Some ''relates_to''),
      (''owned_by'', Some ''owns''), (''authored'', Some ''owns''),
      (''maintained'', Some ''owns''), (''concerns'', Some ''relates_to''),
      (''fixes'', Some ''concerns''), (''tests'', Some ''concerns''),
      (''decides'', Some ''concerns''), (''has_module'', Some ''owns''),
      (''binary_name'', Some ''owns''), (''impl_stays_in'', Some ''concerns''),
      (''splits_by'', Some ''relates_to''), (''uses'', Some ''depends_on''),
      (''prefers'', Some ''concerns''), (''is'', Some ''relates_to''), (''has'', Some ''owns''),
      (''defines'', Some ''owns''), (''emits'', Some ''relates_to''),
      (''extends'', Some ''depends_on''), (''implements'', Some ''depends_on''),
      (''has_test'', Some ''relates_to'')]"

definition SINGLE_VALUED_PREDICATES :: "str list" where
  "SINGLE_VALUED_PREDICATES =
     [''prefers'', ''owned_by'', ''binary_name'', ''impl_stays_in'', ''splits_by'']"

text \<open>\<open>seed_type_table\<close>: insert every missing name, then set every parent by name.\<close>

definition seed_names ::
  "(str \<Rightarrow> 'a type_row_scheme) \<Rightarrow> (str \<times> str option) list
   \<Rightarrow> (int, 'a type_row_scheme) table \<Rightarrow> (int, 'a type_row_scheme) table" where
  "seed_names fresh onto t =
     foldl (\<lambda>t (name, _). if type_id_on t name = None then tbl_put (next_rowid t) (fresh name) t
                          else t) t onto"

definition seed_parents ::
  "(str \<times> str option) list \<Rightarrow> (int, 'a type_row_scheme) table
   \<Rightarrow> (int, 'a type_row_scheme) table" where
  "seed_parents onto t =
     foldl (\<lambda>t (name, parent).
              let parent_id = Option.bind parent (type_id_on t)
              in map (\<lambda>(i, row). (i, if t_name row = name then row \<lparr> t_parent := parent_id \<rparr>
                                     else row)) t) t onto"

definition seed_type_table ::
  "(str \<Rightarrow> 'a type_row_scheme) \<Rightarrow> (str \<times> str option) list
   \<Rightarrow> (int, 'a type_row_scheme) table \<Rightarrow> (int, 'a type_row_scheme) table" where
  "seed_type_table fresh onto t = seed_parents onto (seed_names fresh onto t)"

definition fresh_type :: "str \<Rightarrow> type_row" where
  "fresh_type name = \<lparr> t_name = name, t_parent = None \<rparr>"

definition fresh_ptype :: "str \<Rightarrow> ptype_row" where
  "fresh_ptype name =
     \<lparr> t_name = name, t_parent = None, t_created_via = ''seed'', t_created_at = None,
       t_single = False \<rparr>"

definition seed_ontology :: "graph \<Rightarrow> graph" where
  "seed_ontology g =
     (let et = seed_type_table fresh_type ENTITY_ONTOLOGY (g_entity_types g);
          pt = seed_type_table fresh_ptype PREDICATE_ONTOLOGY (g_predicate_types g);
          pt' = map (\<lambda>(i, row). (i, if t_name row \<in> set SINGLE_VALUED_PREDICATES
                                   then row \<lparr> t_single := True \<rparr> else row)) pt
      in g \<lparr> g_entity_types := et, g_predicate_types := pt',
             g_entity_closure := closure_of et, g_predicate_closure := closure_of pt' \<rparr>)"

text \<open>
  What the migrations insert into a fresh database before the seed runs. The creation time
  of these rows is the time of the first open; no code reads it and it is not kept.
\<close>

definition migrated_ptype :: "str \<Rightarrow> ptype_row" where
  "migrated_ptype name =
     \<lparr> t_name = name, t_parent = None, t_created_via = ''migration'', t_created_at = None,
       t_single = False \<rparr>"

definition empty_graph :: graph where
  "empty_graph =
     \<lparr> g_claims = [], g_hyperedges = [], g_participants = [], g_contradictions = [],
       g_chunks = [], g_index = [], g_entities = [], g_entity_types = [],
       g_entity_closure = [],
       g_predicate_types =
         zip [1..6] (map migrated_ptype
           [''has_module'', ''binary_name'', ''impl_stays_in'', ''splits_by'', ''uses'',
            ''depends_on'']),
       g_predicate_alias =
         foldl (\<lambda>t (a, i). tbl_put a i t) []
           [(''has-module'', 1), (''binary-name'', 2), (''impl-stays-in'', 3),
            (''splits-by'', 4), (''uses'', 5), (''requires'', 6)],
       g_predicate_closure = [], g_extension_log = [] \<rparr>"

definition init_graph :: graph where
  "init_graph = seed_ontology empty_graph"

definition init_db :: db where
  "init_db =
     \<lparr> db_graph = init_graph,
       db_episodes = \<lparr> e_events = [], e_candidates = [] \<rparr>,
       db_observed = \<lparr> o_observations = [], o_markers = [] \<rparr> \<rparr>"

subsection \<open>Vocabulary lookups\<close>

definition canonical_predicate_name :: "graph \<Rightarrow> str \<Rightarrow> str option" where
  "canonical_predicate_name g p =
     (if type_id_on (g_predicate_types g) p \<noteq> None then Some p
      else Option.bind (map_of (g_predicate_alias g) p)
             (\<lambda>i. map_option t_name (map_of (g_predicate_types g) i)))"

definition predicate_implies :: "graph \<Rightarrow> str \<Rightarrow> str \<Rightarrow> bool result" where
  "predicate_implies g predicate anc =
     rbind (validate_claim_field ''predicate'' predicate) (\<lambda>_.
     rbind (validate_claim_field ''predicate'' anc) (\<lambda>_.
     case (canonical_predicate_name g predicate, canonical_predicate_name g anc) of
       (Some p, Some a) \<Rightarrow>
         if p = a then Inr True
         else (case (type_id_on (g_predicate_types g) p, type_id_on (g_predicate_types g) a) of
                 (Some i, Some j) \<Rightarrow> Inr ((i, j) \<in> set (g_predicate_closure g))
               | _ \<Rightarrow> Inr False)
     | _ \<Rightarrow> Inr False))"

definition entity_type_is_a :: "graph \<Rightarrow> str \<Rightarrow> str \<Rightarrow> bool result" where
  "entity_type_is_a g ty anc =
     rbind (validate_claim_field ''entity_type'' ty) (\<lambda>_.
     rbind (validate_claim_field ''entity_type'' anc) (\<lambda>_.
     if ty = anc then Inr True
     else (case (type_id_on (g_entity_types g) ty, type_id_on (g_entity_types g) anc) of
             (Some i, Some j) \<Rightarrow> Inr ((i, j) \<in> set (g_entity_closure g))
           | _ \<Rightarrow> Inr False)))"

definition entity_type_name :: "graph \<Rightarrow> str \<Rightarrow> str result" where
  "entity_type_name g entity =
     rbind (validate_claim_field ''entity'' entity) (\<lambda>_.
     ok_or (EMissingEntity entity)
       (Option.bind (map_of (g_entities g) entity)
          (\<lambda>e. map_option t_name (map_of (g_entity_types g) (er_type_id e)))))"

definition entity_is_a_type :: "graph \<Rightarrow> str \<Rightarrow> str \<Rightarrow> bool result" where
  "entity_is_a_type g entity anc =
     rbind (entity_type_name g entity) (\<lambda>ty. entity_type_is_a g ty anc)"

definition validate_ontology :: "graph \<Rightarrow> str \<Rightarrow> provenance \<Rightarrow> unit result" where
  "validate_ontology g predicate prov =
     (if type_id_on (g_predicate_types g) predicate \<noteq> None then Inr ()
      else if map_of (g_predicate_alias g) predicate \<noteq> None then Inr ()
      else (case prov of UserAsserted \<Rightarrow> Inr () | _ \<Rightarrow> Inl (EUnknownPredicate predicate)))"

text \<open>\<open>expand_predicate_filter\<close>: the names a filter admits, as a set.\<close>

definition descendants_of :: "graph \<Rightarrow> str \<Rightarrow> str set" where
  "descendants_of g canonical =
     set [t_name row. (i, row) \<leftarrow> g_predicate_types g,
            case type_id_on (g_predicate_types g) canonical of
              None \<Rightarrow> False | Some j \<Rightarrow> (i, j) \<in> set (g_predicate_closure g)]"

definition aliases_of :: "graph \<Rightarrow> str \<Rightarrow> str set" where
  "aliases_of g name =
     set [a. (a, i) \<leftarrow> g_predicate_alias g, type_id_on (g_predicate_types g) name = Some i]"

definition expand_predicate :: "graph \<Rightarrow> str \<Rightarrow> str set" where
  "expand_predicate g p =
     insert p (case canonical_predicate_name g p of
                 None \<Rightarrow> {}
               | Some c \<Rightarrow> insert c (descendants_of g c
                                   \<union> \<Union> (aliases_of g ` descendants_of g c)))"

definition expand_predicate_filter :: "graph \<Rightarrow> str list \<Rightarrow> str set" where
  "expand_predicate_filter g ps = \<Union> (expand_predicate g ` set ps)"

subsection \<open>Extending the vocabulary\<close>

definition rebuild_predicate_closure :: "graph \<Rightarrow> graph" where
  "rebuild_predicate_closure g =
     g \<lparr> g_predicate_closure := closure_of (g_predicate_types g) \<rparr>"

definition extended_ptype :: "str \<Rightarrow> provenance \<Rightarrow> int \<Rightarrow> int \<Rightarrow> ptype_row" where
  "extended_ptype predicate prov parent_id now =
     \<lparr> t_name = predicate, t_parent = Some parent_id,
       t_created_via = (if prov = UserAsserted then ''user_assertion'' else ''replay''),
       t_created_at = Some now, t_single = False \<rparr>"

definition extended_entry :: "str \<Rightarrow> str \<Rightarrow> int \<Rightarrow> extension_row" where
  "extended_entry predicate agent_id now =
     \<lparr> x_predicate = predicate, x_parent = ''relates_to'', x_agent_id = agent_id,
       x_ext_created_at = now \<rparr>"

definition ensure_predicate_known :: "str \<Rightarrow> provenance \<Rightarrow> str \<Rightarrow> int \<Rightarrow> graph \<Rightarrow> graph result" where
  "ensure_predicate_known predicate prov agent_id now g =
     (if type_id_on (g_predicate_types g) predicate \<noteq> None then Inr g
      else if map_of (g_predicate_alias g) predicate \<noteq> None then Inr g
      else rbind (ok_or (ESqlite ''Query returned no rows'')
                    (type_id_on (g_predicate_types g) ''relates_to'')) (\<lambda>parent_id.
           rbind (insert_predicate_type (extended_ptype predicate prov parent_id now) g) (\<lambda>g.
           insert_extension (extended_entry predicate agent_id now)
             (rebuild_predicate_closure g))))"

definition split_once :: "char \<Rightarrow> str \<Rightarrow> (str \<times> str) option" where
  "split_once d s =
     (if d \<in> set s then Some (takeWhile ((\<noteq>) d) s, tl (dropWhile ((\<noteq>) d) s)) else None)"

definition infer_entity_type_name_on :: "graph \<Rightarrow> str \<Rightarrow> str" where
  "infer_entity_type_name_on g entity =
     (case split_once (CHR '':'') entity of
        Some (pre, _) \<Rightarrow>
          if type_id_on (g_entity_types g) pre \<noteq> None then pre
          else if entity = ''User'' then ''Human''
          else if entity = ''Claude'' \<or> entity = ''Pi'' then ''Bot'' else ''Thing''
      | None \<Rightarrow>
          if entity = ''User'' then ''Human''
          else if entity = ''Claude'' \<or> entity = ''Pi'' then ''Bot'' else ''Thing'')"

definition update_entity :: "str \<Rightarrow> entity_row \<Rightarrow> entity_row \<Rightarrow> graph \<Rightarrow> graph result" where
  "update_entity name old new g =
     rbind (check_all
       ([(0 < er_type_id new, ''entities.type_id must be positive''),
         (map_of (g_entity_types g) (er_type_id new) \<noteq> None, ''FOREIGN KEY constraint failed'')]
        @ entity_seen_checks (er_created_at old) (er_last_seen_at new)))
       (\<lambda>_. Inr (g \<lparr> g_entities := tbl_put name new (g_entities g) \<rparr>))"

definition ensure_entity_on :: "str \<Rightarrow> int \<Rightarrow> graph \<Rightarrow> graph result" where
  "ensure_entity_on entity now g =
     rbind (ok_or (EMissingEntityType ''Thing'') (type_id_on (g_entity_types g) ''Thing'')) (\<lambda>thing_id.
     let type_id = (case type_id_on (g_entity_types g) (infer_entity_type_name_on g entity) of
                      None \<Rightarrow> thing_id | Some i \<Rightarrow> i)
     in case map_of (g_entities g) entity of
          None \<Rightarrow> insert_entity entity
                    \<lparr> er_type_id = type_id, er_requires_review = (type_id = thing_id),
                      er_created_at = now, er_last_seen_at = now \<rparr> g
        | Some e \<Rightarrow>
            if er_type_id e = thing_id \<and> type_id \<noteq> thing_id
            then update_entity entity e
                   (e \<lparr> er_type_id := type_id, er_requires_review := False, er_last_seen_at := now \<rparr>) g
            else update_entity entity e (e \<lparr> er_last_seen_at := now \<rparr>) g)"

end
