(* ===== verification/Apply.thy ===== *)
theory Apply
  imports Ontology
begin

section \<open>The projection writer\<close>

text \<open>
  \<open>crates/aver-core/src/apply.rs\<close>: \<open>apply_record\<close> turns one log record into projection
  rows, for live writes and replay alike. One function per record kind, each on the group of
  tables its series owns; a promotion also reads the claims table.
\<close>

datatype applied = Applied | Duplicate

abbreviation invalid :: "str \<Rightarrow> error" where
  "invalid \<equiv> EInvalidRecord"

abbreviation duplicate :: "str \<Rightarrow> error" where
  "duplicate \<equiv> EReplayDuplicateId"

text \<open>The outcome of a handler that finds its id taken: identical content or a conflict.\<close>

definition already :: "bool \<Rightarrow> str \<Rightarrow> 's \<Rightarrow> (applied \<times> 's) result" where
  "already same detail s = (if same then Inr (Duplicate, s) else Inl (duplicate detail))"

definition applied :: "'s result \<Rightarrow> (applied \<times> 's) result" where
  "applied r = rbind r (\<lambda>s. Inr (Applied, s))"

subsection \<open>Claims and hyperedges\<close>

definition ap_add_claim ::
  "int \<Rightarrow> int \<Rightarrow> str \<Rightarrow> str \<Rightarrow> str \<Rightarrow> str \<Rightarrow> str \<Rightarrow> agent_kind \<Rightarrow> f64 \<Rightarrow> provenance \<Rightarrow> str
   \<Rightarrow> graph \<Rightarrow> (applied \<times> graph) result" where
  "ap_add_claim t claim_id subj pred obj source agent_id kind conf prov scope g =
     (case map_of (g_claims g) claim_id of
        Some c \<Rightarrow>
          already (c_subject c = subj \<and> c_predicate c = pred \<and> c_object c = obj
                   \<and> c_agent_id c = agent_id \<and> c_agent_kind c = kind \<and> c_scope c = scope)
            (''claim_id='' @ show_int claim_id @ '' content mismatch'') g
      | None \<Rightarrow>
          applied
            (rbind (ensure_predicate_known pred prov agent_id t g) (\<lambda>g.
             rbind (ensure_entity_on subj t g) (\<lambda>g.
             rbind (ensure_entity_on obj t g) (\<lambda>g.
             insert_claim
               \<lparr> c_id = claim_id, c_subject = subj, c_predicate = pred, c_object = obj,
                 c_provenance = prov, c_confidence = conf, c_status = Active,
                 c_source_refs = [source], c_agent_id = agent_id, c_agent_kind = kind,
                 c_write_ts = t, c_last_verified_at = Some t, c_scope = scope,
                 cr_created_at = t, cr_last_seen_at = t \<rparr> g)))))"

definition participants_of :: "graph \<Rightarrow> int \<Rightarrow> participant_input list" where
  "participants_of g i =
     [\<lparr> pi_role = pr_role p, pi_entity = pr_entity p \<rparr>.
        p \<leftarrow> tbl_rows (g_participants g), pr_hyperedge_id p = i]"

text \<open>The comparison \<open>(a - b).abs() < 1e-9\<close> on the finite confidences a row can hold.\<close>

fun conf_close :: "f64 \<Rightarrow> f64 \<Rightarrow> bool" where
  "conf_close (Fin a) (Fin b) \<longleftrightarrow> \<bar>a - b\<bar> < 1 / 10 ^ 9"
| "conf_close _ _ \<longleftrightarrow> False"

definition add_participant ::
  "int \<Rightarrow> int \<Rightarrow> participant_input \<Rightarrow> graph \<Rightarrow> graph result" where
  "add_participant t hyperedge_id p g =
     rbind (ensure_entity_on (pi_entity p) t g) (\<lambda>g.
     insert_participant
       \<lparr> pr_hyperedge_id = hyperedge_id, pr_role = pi_role p, pr_entity = pi_entity p \<rparr> g)"

definition ap_add_hyperedge ::
  "int \<Rightarrow> int \<Rightarrow> str \<Rightarrow> provenance \<Rightarrow> f64 \<Rightarrow> str list \<Rightarrow> participant_input list
   \<Rightarrow> graph \<Rightarrow> (applied \<times> graph) result" where
  "ap_add_hyperedge t hyperedge_id pred prov conf refs parts g =
     (case map_of (g_hyperedges g) hyperedge_id of
        Some h \<Rightarrow>
          already (hr_predicate h = pred \<and> hr_provenance h = prov
                   \<and> conf_close (hr_confidence h) conf \<and> hr_source_refs h = refs
                   \<and> participants_of g hyperedge_id = parts)
            (''hyperedge_id='' @ show_int hyperedge_id @ '' content mismatch'') g
      | None \<Rightarrow>
          applied
            (rbind (ensure_predicate_known pred prov ''local'' t g) (\<lambda>g.
             rbind (insert_hyperedge hyperedge_id
                      \<lparr> hr_predicate = pred, hr_provenance = prov, hr_confidence = conf,
                        hr_source_refs = refs, hr_status = Active, hr_created_at = t,
                        hr_updated_at = t \<rparr> g) (\<lambda>g.
             rfold (add_participant t hyperedge_id) parts g))))"

subsection \<open>Claim lifecycle\<close>

definition retired_marker :: "str \<Rightarrow> str" where
  "retired_marker reason = ''retired:'' @ reason"

definition put_claim :: "int \<Rightarrow> claim_row \<Rightarrow> graph \<Rightarrow> graph" where
  "put_claim i c g = g \<lparr> g_claims := tbl_put i c (g_claims g) \<rparr>"

definition ap_retire_claim :: "int \<Rightarrow> int \<Rightarrow> str \<Rightarrow> graph \<Rightarrow> (applied \<times> graph) result" where
  "ap_retire_claim t claim_id reason g =
     (case map_of (g_claims g) claim_id of
        None \<Rightarrow> Inl (invalid (''retire_claim references missing claim '' @ show_int claim_id))
      | Some c \<Rightarrow>
          if c_status c = Invalidated
          then already (retired_marker reason \<in> set (c_source_refs c))
                 (''claim_id='' @ show_int claim_id @ '' already INVALIDATED'') g
          else let refs = c_source_refs c @ [retired_marker reason]
               in applied
                    (rbind (check_all (source_refs_checks refs
                                       @ last_seen_checks (cr_created_at c) t)) (\<lambda>_.
                     Inr (put_claim claim_id
                            (c \<lparr> c_status := Invalidated, c_source_refs := refs,
                                 cr_last_seen_at := t \<rparr>) g))))"

definition ap_add_contradiction ::
  "int \<Rightarrow> int \<Rightarrow> int \<Rightarrow> str \<Rightarrow> int option \<Rightarrow> graph \<Rightarrow> (applied \<times> graph) result" where
  "ap_add_contradiction t contradiction_id claim_id reason new_claim_id g =
     (case map_of (g_contradictions g) contradiction_id of
        Some x \<Rightarrow>
          already (x_claim_id x = claim_id \<and> x_reason x = reason \<and> x_new_claim_id x = new_claim_id)
            (''contradiction_id='' @ show_int contradiction_id @ '' content mismatch'') g
      | None \<Rightarrow>
          applied (insert_contradiction
            \<lparr> x_id = contradiction_id, x_claim_id = claim_id, x_reason = reason,
              x_new_claim_id = new_claim_id, x_status = ''RECORDED'', x_created_at = t \<rparr> g))"

definition supersede_one :: "int \<Rightarrow> graph \<Rightarrow> graph result" where
  "supersede_one claim_id g =
     (case map_of (g_claims g) claim_id of
        None \<Rightarrow> Inl (invalid (''supersede_claims references missing claim '' @ show_int claim_id))
      | Some c \<Rightarrow>
          if c_status c = Superseded then Inr g
          else Inr (put_claim claim_id (c \<lparr> c_status := Superseded \<rparr>) g))"

definition ap_supersede_claims :: "int list \<Rightarrow> graph \<Rightarrow> (applied \<times> graph) result" where
  "ap_supersede_claims claim_ids g = applied (rfold supersede_one claim_ids g)"

definition decay_one :: "confidence_change \<Rightarrow> graph \<Rightarrow> graph result" where
  "decay_one ch g =
     (case map_of (g_claims g) (cc_claim_id ch) of
        None \<Rightarrow> Inl (invalid (''decay_confidence references missing claim ''
                              @ show_int (cc_claim_id ch)))
      | Some c \<Rightarrow>
          rbind (check_all (confidence_checks (cc_confidence ch))) (\<lambda>_.
          Inr (put_claim (cc_claim_id ch) (c \<lparr> c_confidence := cc_confidence ch \<rparr>) g)))"

definition ap_decay_confidence :: "confidence_change list \<Rightarrow> graph \<Rightarrow> (applied \<times> graph) result" where
  "ap_decay_confidence changes g = applied (rfold decay_one changes g)"

definition merge_floor :: f64 where
  "merge_floor = Fin (3 / 4)"

definition ap_merge_source_refs ::
  "int \<Rightarrow> str list \<Rightarrow> bool \<Rightarrow> graph \<Rightarrow> (applied \<times> graph) result" where
  "ap_merge_source_refs claim_id refs promote g =
     (case map_of (g_claims g) claim_id of
        None \<Rightarrow> Inl (invalid (''merge_source_refs references missing claim '' @ show_int claim_id))
      | Some c \<Rightarrow>
          let c' = c \<lparr> c_source_refs := refs \<rparr>;
              c'' = (if promote
                     then c' \<lparr> c_provenance := Extracted,
                               c_confidence := f64_max (c_confidence c) merge_floor \<rparr>
                     else c')
          in applied
               (rbind (check_all (source_refs_checks refs
                                  @ (if promote then confidence_checks (c_confidence c'') else []))) (\<lambda>_.
                Inr (put_claim claim_id c'' g))))"

subsection \<open>Vector chunks\<close>

definition VECTOR_INDEX_DIM :: nat where
  "VECTOR_INDEX_DIM = 768"

text \<open>\<open>INSERT OR IGNORE\<close> into the \<open>vec0\<close> index, which the migrations create on every store.\<close>

definition index_embedding :: "int \<Rightarrow> f64 list \<Rightarrow> graph \<Rightarrow> graph" where
  "index_embedding chunk_id e g =
     (if length e = VECTOR_INDEX_DIM \<and> map_of (g_index g) chunk_id = None
      then g \<lparr> g_index := tbl_put chunk_id e (g_index g) \<rparr> else g)"

definition ap_add_vector_chunk ::
  "int \<Rightarrow> int \<Rightarrow> int \<Rightarrow> str \<Rightarrow> str \<Rightarrow> f64 list option \<Rightarrow> graph \<Rightarrow> (applied \<times> graph) result" where
  "ap_add_vector_chunk t chunk_id claim_id txt model emb g =
     (case map_of (g_chunks g) chunk_id of
        Some v \<Rightarrow>
          already (vr_claim_id v = claim_id \<and> vr_text v = txt \<and> vr_model v = model
                   \<and> vr_embedding v = emb)
            (''chunk_id='' @ show_int chunk_id @ '' content mismatch'') g
      | None \<Rightarrow>
          applied
            (rbind (insert_chunk chunk_id
                      \<lparr> vr_claim_id = claim_id, vr_text = txt, vr_model = model,
                        vr_embedding = emb, vr_created_at = t \<rparr> g) (\<lambda>g.
             Inr (case emb of None \<Rightarrow> g | Some e \<Rightarrow> index_embedding chunk_id e g))))"

definition ap_embed_vector_chunk :: "int \<Rightarrow> f64 list \<Rightarrow> graph \<Rightarrow> (applied \<times> graph) result" where
  "ap_embed_vector_chunk chunk_id e g =
     (case map_of (g_chunks g) chunk_id of
        None \<Rightarrow> Inl (invalid (''embed_vector_chunk references missing chunk '' @ show_int chunk_id))
      | Some v \<Rightarrow>
          (case vr_embedding v of
             Some cur \<Rightarrow> already (cur = e)
               (''chunk_id='' @ show_int chunk_id @ '' already has a different embedding'') g
           | None \<Rightarrow>
               applied
                 (rbind (check_all (embedding_checks (Some e))) (\<lambda>_.
                  Inr (index_embedding chunk_id e
                         (g \<lparr> g_chunks := tbl_put chunk_id (v \<lparr> vr_embedding := Some e \<rparr>)
                                             (g_chunks g) \<rparr>))))))"

subsection \<open>Events and candidates\<close>

definition ap_record_event ::
  "int \<Rightarrow> int \<Rightarrow> str \<Rightarrow> str \<Rightarrow> str \<Rightarrow> str \<Rightarrow> str \<Rightarrow> str \<Rightarrow> str
   \<Rightarrow> episodes \<Rightarrow> (applied \<times> episodes) result" where
  "ap_record_event t event_id session kind payload source agent_id agent_kind scope p =
     (case map_of (e_events p) event_id of
        Some e \<Rightarrow>
          already (e_session_id e = session \<and> e_kind e = kind \<and> e_payload e = payload
                   \<and> e_source e = source \<and> e_agent_id e = agent_id \<and> e_agent_kind e = agent_kind)
            (''event_id='' @ show_int event_id @ '' content mismatch'') p
      | None \<Rightarrow>
          applied (insert_event
            \<lparr> e_id = event_id, e_session_id = session, e_kind = kind, e_payload = payload,
              e_source = source, e_agent_id = agent_id, e_agent_kind = agent_kind, e_ts = t,
              e_scope = scope \<rparr> p))"

definition ap_propose_candidate ::
  "int \<Rightarrow> int \<Rightarrow> int \<Rightarrow> str \<Rightarrow> str \<Rightarrow> str \<Rightarrow> str \<Rightarrow> episodes \<Rightarrow> (applied \<times> episodes) result" where
  "ap_propose_candidate t candidate_id event_id subj pred obj scope p =
     (case map_of (e_candidates p) candidate_id of
        Some k \<Rightarrow>
          already (k_event_id k = event_id \<and> k_subject k = subj \<and> k_predicate k = pred
                   \<and> k_object k = obj \<and> k_scope k = scope)
            (''candidate_id='' @ show_int candidate_id @ '' content mismatch'') p
      | None \<Rightarrow>
          applied (insert_candidate
            \<lparr> k_id = candidate_id, k_event_id = event_id, k_subject = subj, k_predicate = pred,
              k_object = obj, k_provenance = ''INFERRED'', k_confidence = f64_round (45 / 100),
              k_status = ''PENDING'', k_promoted_claim_id = None, k_rejection_reason = None,
              k_scope = scope, kr_created_at = t \<rparr> p))"

definition check_decision :: "decision option \<Rightarrow> str \<Rightarrow> unit result" where
  "check_decision d expected =
     (case d of
        None \<Rightarrow> Inr ()
      | Some dc \<Rightarrow>
          if \<not> blank (d_model dc) \<and> d_choice dc = expected then Inr ()
          else Inl (invalid (''decision must name a model and the choice '' @ expected)))"

definition ap_promote_candidate ::
  "graph \<Rightarrow> int \<Rightarrow> int \<Rightarrow> episodes \<Rightarrow> (applied \<times> episodes) result" where
  "ap_promote_candidate g candidate_id claim_id p =
     (case map_of (e_candidates p) candidate_id of
        None \<Rightarrow> Inl (invalid (''promote_candidate_claim references missing candidate ''
                              @ show_int candidate_id))
      | Some k \<Rightarrow>
          if k_status k = ''PROMOTED''
          then already (k_promoted_claim_id k = Some claim_id)
                 (''candidate_id='' @ show_int candidate_id
                  @ '' already PROMOTED to a different claim'') p
          else if k_status k \<noteq> ''PENDING''
          then Inl (invalid (''cannot promote candidate '' @ show_int candidate_id
                             @ '' from status '' @ k_status k))
          else if map_of (g_claims g) claim_id = None
          then Inl (invalid (''promotion references missing claim '' @ show_int claim_id))
          else let k' = k \<lparr> k_status := ''PROMOTED'', k_promoted_claim_id := Some claim_id \<rparr>
               in applied
                    (rbind (check_all (candidate_state_checks k')) (\<lambda>_.
                     Inr (p \<lparr> e_candidates := tbl_put candidate_id k' (e_candidates p) \<rparr>))))"

definition ap_reject_candidate ::
  "int \<Rightarrow> str \<Rightarrow> episodes \<Rightarrow> (applied \<times> episodes) result" where
  "ap_reject_candidate candidate_id reason p =
     (case map_of (e_candidates p) candidate_id of
        None \<Rightarrow> Inl (invalid (''reject_candidate_claim references missing candidate ''
                              @ show_int candidate_id))
      | Some k \<Rightarrow>
          if k_status k = ''REJECTED''
          then already (k_rejection_reason k = Some reason)
                 (''candidate_id='' @ show_int candidate_id
                  @ '' already REJECTED with a different reason'') p
          else if k_status k \<noteq> ''PENDING''
          then Inl (invalid (''cannot reject candidate '' @ show_int candidate_id
                             @ '' from status '' @ k_status k))
          else let k' = k \<lparr> k_status := ''REJECTED'', k_rejection_reason := Some reason \<rparr>
               in applied
                    (rbind (check_all (candidate_state_checks k')) (\<lambda>_.
                     Inr (p \<lparr> e_candidates := tbl_put candidate_id k' (e_candidates p) \<rparr>))))"

subsection \<open>Observations\<close>

definition ap_record_observation ::
  "int \<Rightarrow> str \<Rightarrow> str \<Rightarrow> str \<Rightarrow> str \<Rightarrow> int list \<Rightarrow> str \<Rightarrow> str \<Rightarrow> str \<Rightarrow> str
   \<Rightarrow> observed \<Rightarrow> (applied \<times> observed) result" where
  "ap_record_observation t i session content rel ids agent_id agent_kind derivation scope b =
     (case map_of (o_observations b) i of
        Some o1 \<Rightarrow>
          already (o_session_id o1 = session \<and> o_content o1 = content \<and> o_relevance o1 = rel
                   \<and> o_source_event_ids o1 = ids \<and> o_agent_id o1 = agent_id
                   \<and> o_agent_kind o1 = agent_kind \<and> o_derivation o1 = derivation)
            (''observation_id='' @ i @ '' content mismatch'') b
      | None \<Rightarrow>
          applied (insert_observation
            \<lparr> o_id = i, o_session_id = session, o_content = content, o_relevance = rel,
              o_source_event_ids = ids, o_agent_id = agent_id, o_agent_kind = agent_kind,
              o_derivation = derivation, o_ts = t, o_scope = scope \<rparr> b))"

definition ap_prune_observations ::
  "int \<Rightarrow> str \<Rightarrow> str \<Rightarrow> str list \<Rightarrow> observed \<Rightarrow> (applied \<times> observed) result" where
  "ap_prune_observations t marker_id session ids b =
     (case map_of (o_markers b) marker_id of
        Some m \<Rightarrow>
          already (m_session_id m = session \<and> m_pruned_ids m = ids \<and> m_ts m = t)
            (''prune_marker_id='' @ marker_id @ '' content mismatch'') b
      | None \<Rightarrow>
          applied (insert_marker marker_id
            \<lparr> m_session_id = session, m_pruned_ids = ids, m_ts = t \<rparr> b))"

subsection \<open>One record\<close>

definition claim_provenance :: "agent_kind \<Rightarrow> str option \<Rightarrow> provenance result" where
  "claim_provenance kind prov =
     (case prov of
        Some raw \<Rightarrow>
          (case provenance_from_str raw of
             Inr p \<Rightarrow> Inr p
           | Inl _ \<Rightarrow> Inl (invalid (''unknown 'provenance' value: '' @ raw)))
      | None \<Rightarrow> Inr (default_provenance kind))"

fun apply_graph :: "log_record \<Rightarrow> graph \<Rightarrow> (applied \<times> graph) result" where
  "apply_graph (AddClaim t i subj pred obj source agent kind conf prov scope) g =
     rbind (agent_kind_from_str kind) (\<lambda>k.
     rbind (claim_provenance k prov) (\<lambda>p.
     ap_add_claim t i subj pred obj source agent k conf p scope g))"
| "apply_graph (AddHyperedge t i pred prov conf refs parts) g =
     rbind (provenance_from_str prov) (\<lambda>p. ap_add_hyperedge t i pred p conf refs parts g)"
| "apply_graph (RetireClaim t i reason) g = ap_retire_claim t i reason g"
| "apply_graph (AddContradiction t i c reason n) g = ap_add_contradiction t i c reason n g"
| "apply_graph (SupersedeClaims _ ids) g = ap_supersede_claims ids g"
| "apply_graph (DecayConfidence _ changes) g = ap_decay_confidence changes g"
| "apply_graph (MergeSourceRefs _ i refs promote) g = ap_merge_source_refs i refs promote g"
| "apply_graph (AddVectorChunk t i c txt model e) g = ap_add_vector_chunk t i c txt model e g"
| "apply_graph (EmbedVectorChunk _ i e) g = ap_embed_vector_chunk i e g"
| "apply_graph _ g = Inr (Applied, g)"

fun apply_episodes :: "log_record \<Rightarrow> graph \<Rightarrow> episodes \<Rightarrow> (applied \<times> episodes) result" where
  "apply_episodes (RecordEvent t i session kind payload source agent akind scope) g p =
     ap_record_event t i session kind payload source agent akind scope p"
| "apply_episodes (ProposeCandidateClaim t i ev subj pred obj scope) g p =
     ap_propose_candidate t i ev subj pred obj scope p"
| "apply_episodes (PromoteCandidateClaim _ i c d) g p =
     rbind (check_decision d ''promote'') (\<lambda>_. ap_promote_candidate g i c p)"
| "apply_episodes (RejectCandidateClaim _ i reason d) g p =
     rbind (check_decision d ''reject'') (\<lambda>_. ap_reject_candidate i reason p)"
| "apply_episodes _ g p = Inr (Applied, p)"

fun apply_observed :: "log_record \<Rightarrow> observed \<Rightarrow> (applied \<times> observed) result" where
  "apply_observed (RecordObservation t i session content rel ids agent akind der scope) b =
     ap_record_observation t i session content rel ids agent akind der scope b"
| "apply_observed (PruneObservations t m session ids) b = ap_prune_observations t m session ids b"
| "apply_observed _ b = Inr (Applied, b)"

definition apply_record :: "log_record \<Rightarrow> db \<Rightarrow> (applied \<times> db) result" where
  "apply_record r d =
     (case series_of r of
        Log \<Rightarrow> rbind (apply_graph r (db_graph d)) (\<lambda>(a, g). Inr (a, d \<lparr> db_graph := g \<rparr>))
      | Events \<Rightarrow> rbind (apply_episodes r (db_graph d) (db_episodes d))
                    (\<lambda>(a, p). Inr (a, d \<lparr> db_episodes := p \<rparr>))
      | Observations \<Rightarrow> rbind (apply_observed r (db_observed d))
                          (\<lambda>(a, b). Inr (a, d \<lparr> db_observed := b \<rparr>)))"

end
