(* ===== verification/Invariant.thy ===== *)
theory Invariant
  imports Apply
begin

section \<open>The invariant of the projection\<close>

text \<open>
  What holds of every projection that records build from a fresh database: tables in key
  order, every row satisfying the constraints and triggers of its table, references resolved,
  the vocabulary acyclic with its closure up to date. \<open>graph_ok\<close>, \<open>episodes_ok\<close> and
  \<open>observed_ok\<close> state it per group of tables.
\<close>

definition tbl_all :: "('k \<Rightarrow> 'v \<Rightarrow> bool) \<Rightarrow> ('k, 'v) table \<Rightarrow> bool" where
  "tbl_all P t \<longleftrightarrow> (\<forall>(k, v) \<in> set t. P k v)"

lemma tbl_all_get: "tbl_all P t \<Longrightarrow> map_of t k = Some v \<Longrightarrow> P k v"
  by (auto simp: tbl_all_def dest: map_of_SomeD)

lemma tbl_all_put: "tbl_ok t \<Longrightarrow> tbl_all P t \<Longrightarrow> P k v \<Longrightarrow> tbl_all P (tbl_put k v t)"
  unfolding tbl_all_def by (rule tbl.all_rows_put)

lemma tbl_all_mono: "tbl_all P t \<Longrightarrow> (\<And>k v. P k v \<Longrightarrow> Q k v) \<Longrightarrow> tbl_all Q t"
  by (auto simp: tbl_all_def)

lemma tbl_all_Nil [simp]: "tbl_all P []"
  by (simp add: tbl_all_def)

lemma tbl_put_same:
  "tbl_ok t \<Longrightarrow> map_of t k = Some v \<Longrightarrow> tbl_put k v t = t"
  by (rule tbl_ext) (auto simp: tbl_ok_put map_of_tbl_put)

subsection \<open>Vocabulary\<close>

definition hierarchy_ok :: "(int, 'a type_row_scheme) table \<Rightarrow> bool" where
  "hierarchy_ok t \<longleftrightarrow>
     tbl_ok t \<and> distinct (map t_name (tbl_rows t)) \<and> walks_end t
     \<and> tbl_all (\<lambda>i row. 0 < i \<and> \<not> sql_blank (t_name row)
                 \<and> opt_all (\<lambda>j. map_of t j \<noteq> None) (t_parent row)) t"

lemma hierarchy_ok_iff:
  "hierarchy_ok t \<longleftrightarrow>
     tbl_ok t \<and> distinct (map t_name (tbl_rows t)) \<and> walks_end t
     \<and> tbl_all (\<lambda>i row. 0 < i \<and> \<not> sql_blank (t_name row)
                 \<and> (\<forall>j. t_parent row = Some j \<longrightarrow> map_of t j \<noteq> None)) t"
  by (simp add: hierarchy_ok_def opt_all_iff)

definition vocab_ok :: "graph \<Rightarrow> bool" where
  "vocab_ok g \<longleftrightarrow>
     hierarchy_ok (g_predicate_types g) \<and> hierarchy_ok (g_entity_types g)
     \<and> g_predicate_closure g = closure_of (g_predicate_types g)
     \<and> g_entity_closure g = closure_of (g_entity_types g)
     \<and> type_id_on (g_predicate_types g) ''relates_to'' \<noteq> None
     \<and> type_id_on (g_entity_types g) ''Thing'' \<noteq> None
     \<and> tbl_all (\<lambda>_ i. map_of (g_predicate_types g) i \<noteq> None) (g_predicate_alias g)"

lemma walks_end_iff:
  "walks_end t \<longleftrightarrow> (\<forall>k \<in> fst ` set t. chain (Suc (length t)) (parent_of t) k \<noteq> None)"
  unfolding walks_end_def list_all_iff by (force simp del: chain.simps)

lemma type_id_on_append:
  "type_id_on (t @ s) n = (case type_id_on t n of None \<Rightarrow> type_id_on s n | Some i \<Rightarrow> Some i)"
  by (induction t) (auto simp: type_id_on_def)

lemma type_id_on_None: "type_id_on t n = None \<longleftrightarrow> n \<notin> t_name ` set (tbl_rows t)"
  by (force simp: type_id_on_def find_None_iff)

lemma type_id_on_get:
  assumes "tbl_ok t" and "type_id_on t n = Some i"
  obtains row where "map_of t i = Some row" and "t_name row = n"
proof -
  from assms(2) obtain row where "(i, row) \<in> set t" "t_name row = n"
    by (force simp: type_id_on_def dest!: find_SomeD)
  with that show thesis
    using assms(1) by (metis tbl.entries_get)
qed

lemma chain_cong:
  assumes "\<And>k. k \<in> K \<Longrightarrow> p k = q k" and "\<And>k j. k \<in> K \<Longrightarrow> p k = Some j \<Longrightarrow> j \<in> K"
  shows "i \<in> K \<Longrightarrow> chain n p i = chain n q i"
proof (induction n arbitrary: i)
  case (Suc n)
  show ?case
  proof (cases "p i")
    case None
    with assms(1) [OF Suc.prems] show ?thesis by simp
  next
    case (Some j)
    then have "q i = Some j" using assms(1) [OF Suc.prems] by simp
    with Some Suc.IH [OF assms(2) [OF Suc.prems Some]] show ?thesis by simp
  qed
qed simp

text \<open>Appending a type whose parent is in the table keeps the hierarchy.\<close>

lemma hierarchy_ok_append:
  fixes t :: "(int, 'a type_row_scheme) table"
  assumes ok: "hierarchy_ok t" and new: "type_id_on t (t_name row) = None"
    and par: "\<forall>j. t_parent row = Some j \<longrightarrow> map_of t j \<noteq> None" and name: "\<not> sql_blank (t_name row)"
  defines "i \<equiv> next_rowid t"
  shows "hierarchy_ok (t @ [(i, row)])"
proof -
  let ?t' = "t @ [(i, row)]" and ?K = "fst ` set t"
  have tok: "tbl_ok t" using ok by (simp add: hierarchy_ok_iff)
  have fresh: "\<forall>a \<in> ?K. a < i" using next_rowid_fresh [OF tok] by (auto simp: i_def)
  have pos: "0 < i"
  proof (cases t rule: rev_cases)
    case (snoc s p)
    then have "0 < fst p" using ok by (auto simp: hierarchy_ok_iff tbl_all_def)
    with snoc show ?thesis by (simp add: i_def next_rowid_def)
  qed (simp add: i_def next_rowid_def)
  have old: "map_of ?t' k = map_of t k" if "k \<in> ?K" for k
    using that fresh by (auto simp: map_add_def split: option.splits)
  have "map_of t i = None" using fresh by (auto simp: map_of_eq_None_iff)
  then have get_new: "map_of ?t' i = Some row" by (simp add: map_add_def)
  have keep: "map_of t k \<noteq> None \<Longrightarrow> map_of ?t' k \<noteq> None" for k
    by (auto simp: map_add_def split: option.splits)
  have par_old: "parent_of t k = parent_of ?t' k" if "k \<in> ?K" for k
    using old [OF that] by (simp add: parent_of_def)
  have closed: "j \<in> ?K" if "k \<in> ?K" and "parent_of t k = Some j" for k j
  proof -
    from that(2) obtain r where "map_of t k = Some r" "t_parent r = Some j"
      by (auto simp: parent_of_def split: bind_splits)
    with ok have "map_of t j \<noteq> None"
      by (auto simp: hierarchy_ok_iff dest: tbl_all_get)
    then show ?thesis by (simp add: map_of_eq_None_iff)
  qed
  have ends_old: "\<exists>as. chain (Suc (length t)) (parent_of ?t') k = Some as" if "k \<in> ?K" for k
  proof -
    have "chain (Suc (length t)) (parent_of t) k \<noteq> None"
      using ok that unfolding hierarchy_ok_iff walks_end_iff by blast
    moreover have "chain (Suc (length t)) (parent_of t) k = chain (Suc (length t)) (parent_of ?t') k"
      using that par_old closed by (intro chain_cong [where K = ?K]) auto
    ultimately show ?thesis by auto
  qed
  have ends_new: "\<exists>as. chain (Suc (length ?t')) (parent_of ?t') i = Some as"
  proof (cases "t_parent row")
    case None
    with get_new show ?thesis by (simp add: parent_of_def)
  next
    case (Some j)
    then have "j \<in> ?K" using par by (simp add: map_of_eq_None_iff)
    then obtain as where as: "chain (Suc (length t)) (parent_of ?t') j = Some as"
      using ends_old by blast
    from Some get_new have "parent_of ?t' i = Some j" by (simp add: parent_of_def)
    with as show ?thesis by (simp del: chain.simps add: chain.simps(2) [of "Suc (length t)"])
  qed
  have ends: "\<exists>as. chain (Suc (length ?t')) (parent_of ?t') k = Some as" if k: "k = i \<or> k \<in> ?K" for k
  proof (cases "k = i")
    case True
    with ends_new show ?thesis by simp
  next
    case False
    with k ends_old obtain as where "chain (Suc (length t)) (parent_of ?t') k = Some as" by blast
    then have "chain (Suc (length ?t')) (parent_of ?t') k = Some as" by (rule chain_more) simp
    then show ?thesis by blast
  qed
  have "walks_end ?t'"
    unfolding walks_end_iff using ends by (auto simp del: chain.simps)
  moreover have "tbl_ok ?t'"
    using tok fresh by (auto simp: tbl_ok_def sorted_wrt_append)
  moreover have "distinct (map t_name (tbl_rows ?t'))"
    using ok new by (auto simp: hierarchy_ok_iff type_id_on_None)
  moreover have "tbl_all (\<lambda>i row. 0 < i \<and> \<not> sql_blank (t_name row)
      \<and> (\<forall>j. t_parent row = Some j \<longrightarrow> map_of ?t' j \<noteq> None)) ?t'"
    using ok par pos name keep unfolding hierarchy_ok_iff tbl_all_def by fastforce
  ultimately show ?thesis by (simp add: hierarchy_ok_iff)
qed

subsection \<open>Growth\<close>

text \<open>
  No record deletes a row: every table keeps its keys, and what was a known predicate stays
  one. \<open>grows\<close> is what the constraints of one row need from the changes to the others.
\<close>

definition keys_sub :: "('k, 'v) table \<Rightarrow> ('k, 'v) table \<Rightarrow> bool" where
  "keys_sub s t \<longleftrightarrow> (\<forall>k. map_of s k \<noteq> None \<longrightarrow> map_of t k \<noteq> None)"

lemma keys_sub_refl [simp]: "keys_sub t t"
  by (simp add: keys_sub_def)

lemma keys_sub_trans: "keys_sub s t \<Longrightarrow> keys_sub t u \<Longrightarrow> keys_sub s u"
  by (simp add: keys_sub_def)

lemma keys_sub_put [simp]: "keys_sub t (tbl_put k v t)"
  by (simp add: keys_sub_def map_of_tbl_put)

lemma keys_subD: "keys_sub s t \<Longrightarrow> map_of s k \<noteq> None \<Longrightarrow> map_of t k \<noteq> None"
  by (simp add: keys_sub_def)

definition grows :: "graph \<Rightarrow> graph \<Rightarrow> bool" where
  "grows g g' \<longleftrightarrow>
     (\<forall>p. predicate_known g p \<longrightarrow> predicate_known g' p)
     \<and> keys_sub (g_claims g) (g_claims g') \<and> keys_sub (g_hyperedges g) (g_hyperedges g')
     \<and> keys_sub (g_participants g) (g_participants g')
     \<and> keys_sub (g_contradictions g) (g_contradictions g') \<and> keys_sub (g_chunks g) (g_chunks g')
     \<and> keys_sub (g_index g) (g_index g') \<and> keys_sub (g_entities g) (g_entities g')
     \<and> keys_sub (g_predicate_types g) (g_predicate_types g')
     \<and> keys_sub (g_extension_log g) (g_extension_log g')
     \<and> g_entity_types g' = g_entity_types g"

lemma grows_refl [simp]: "grows g g"
  by (simp add: grows_def)

lemma grows_trans: "grows g h \<Longrightarrow> grows h k \<Longrightarrow> grows g k"
  unfolding grows_def by (elim conjE, intro conjI) (blast intro: keys_sub_trans | simp)+

subsection \<open>Rows\<close>

abbreviation passes :: "(bool \<times> str) list \<Rightarrow> bool" where
  "passes \<equiv> list_all fst"

definition claims_inv :: "graph \<Rightarrow> bool" where
  "claims_inv g \<longleftrightarrow>
     tbl_ok (g_claims g)
     \<and> tbl_all (\<lambda>i c. c_id c = i \<and> passes (claim_checks g c)
                 \<and> map_of (g_entities g) (c_subject c) \<noteq> None
                 \<and> map_of (g_entities g) (c_object c) \<noteq> None) (g_claims g)"

definition hyper_inv :: "graph \<Rightarrow> bool" where
  "hyper_inv g \<longleftrightarrow>
     tbl_ok (g_hyperedges g) \<and> tbl_all (\<lambda>_ h. passes (hyperedge_checks g h)) (g_hyperedges g)"

definition parts_inv :: "graph \<Rightarrow> bool" where
  "parts_inv g \<longleftrightarrow>
     tbl_ok (g_participants g) \<and> distinct (tbl_rows (g_participants g))
     \<and> tbl_all (\<lambda>_ p. \<not> sql_blank (pr_role p) \<and> \<not> sql_blank (pr_entity p)
                 \<and> map_of (g_hyperedges g) (pr_hyperedge_id p) \<noteq> None
                 \<and> map_of (g_entities g) (pr_entity p) \<noteq> None) (g_participants g)"

definition notes_inv :: "graph \<Rightarrow> bool" where
  "notes_inv g \<longleftrightarrow>
     tbl_ok (g_contradictions g)
     \<and> tbl_all (\<lambda>i x. x_id x = i \<and> passes (contradiction_checks g x)) (g_contradictions g)"

definition chunks_inv :: "graph \<Rightarrow> bool" where
  "chunks_inv g \<longleftrightarrow>
     tbl_ok (g_chunks g) \<and> tbl_all (\<lambda>_ v. passes (chunk_checks g v)) (g_chunks g)"

definition index_inv :: "graph \<Rightarrow> bool" where
  "index_inv g \<longleftrightarrow>
     tbl_ok (g_index g)
     \<and> (\<forall>i e. map_of (g_index g) i = Some e \<longleftrightarrow>
              length e = VECTOR_INDEX_DIM
              \<and> (\<exists>v. map_of (g_chunks g) i = Some v \<and> vr_embedding v = Some e))"

definition entities_inv :: "graph \<Rightarrow> bool" where
  "entities_inv g \<longleftrightarrow>
     tbl_ok (g_entities g) \<and> tbl_all (\<lambda>n e. passes (entity_checks g n e)) (g_entities g)"

definition extension_inv :: "graph \<Rightarrow> bool" where
  "extension_inv g \<longleftrightarrow>
     tbl_ok (g_extension_log g)
     \<and> tbl_all (\<lambda>_ x. type_id_on (g_predicate_types g) (x_predicate x) \<noteq> None) (g_extension_log g)"

definition graph_ok :: "graph \<Rightarrow> bool" where
  "graph_ok g \<longleftrightarrow>
     vocab_ok g \<and> claims_inv g \<and> hyper_inv g \<and> parts_inv g \<and> notes_inv g \<and> chunks_inv g
     \<and> index_inv g \<and> entities_inv g \<and> extension_inv g"

subsection \<open>Unchanged tables stay good while the others grow\<close>

named_theorems inv_mono \<open>an invariant of a table under growth of the others\<close>

lemma claim_checks_mono: "passes (claim_checks g c) \<Longrightarrow> grows g g' \<Longrightarrow> passes (claim_checks g' c)"
  by (simp add: claim_checks_def grows_def)

lemma hyperedge_checks_mono:
  "passes (hyperedge_checks g h) \<Longrightarrow> grows g g' \<Longrightarrow> passes (hyperedge_checks g' h)"
  by (simp add: hyperedge_checks_def grows_def)

lemma contradiction_checks_mono:
  "passes (contradiction_checks g x) \<Longrightarrow> grows g g' \<Longrightarrow> passes (contradiction_checks g' x)"
  by (cases "x_new_claim_id x") (auto simp: contradiction_checks_def grows_def keys_sub_def)

lemma chunk_checks_mono:
  "passes (chunk_checks g v) \<Longrightarrow> grows g g' \<Longrightarrow> passes (chunk_checks g' v)"
  by (auto simp: chunk_checks_def grows_def keys_sub_def)

lemma entity_checks_mono:
  "passes (entity_checks g n e) \<Longrightarrow> grows g g' \<Longrightarrow> passes (entity_checks g' n e)"
  by (simp add: entity_checks_def grows_def)

lemma entity_keys_mono:
  "grows g g' \<Longrightarrow> map_of (g_entities g) n \<noteq> None \<Longrightarrow> map_of (g_entities g') n \<noteq> None"
  "grows g g' \<Longrightarrow> map_of (g_hyperedges g) i \<noteq> None \<Longrightarrow> map_of (g_hyperedges g') i \<noteq> None"
  "grows g g' \<Longrightarrow> map_of (g_claims g) i \<noteq> None \<Longrightarrow> map_of (g_claims g') i \<noteq> None"
  by (auto simp: grows_def dest: keys_subD)

lemma claims_inv_mono [inv_mono]:
  "claims_inv g \<Longrightarrow> grows g g' \<Longrightarrow> g_claims g' = g_claims g \<Longrightarrow> claims_inv g'"
  unfolding claims_inv_def by (auto elim!: tbl_all_mono intro: claim_checks_mono dest: entity_keys_mono)

lemma hyper_inv_mono [inv_mono]:
  "hyper_inv g \<Longrightarrow> grows g g' \<Longrightarrow> g_hyperedges g' = g_hyperedges g \<Longrightarrow> hyper_inv g'"
  unfolding hyper_inv_def by (auto elim!: tbl_all_mono intro: hyperedge_checks_mono)

lemma parts_inv_mono [inv_mono]:
  "parts_inv g \<Longrightarrow> grows g g' \<Longrightarrow> g_participants g' = g_participants g \<Longrightarrow> parts_inv g'"
  unfolding parts_inv_def by (auto elim!: tbl_all_mono dest: entity_keys_mono)

lemma notes_inv_mono [inv_mono]:
  "notes_inv g \<Longrightarrow> grows g g' \<Longrightarrow> g_contradictions g' = g_contradictions g \<Longrightarrow> notes_inv g'"
  unfolding notes_inv_def by (auto elim!: tbl_all_mono intro: contradiction_checks_mono)

lemma chunks_inv_mono [inv_mono]:
  "chunks_inv g \<Longrightarrow> grows g g' \<Longrightarrow> g_chunks g' = g_chunks g \<Longrightarrow> chunks_inv g'"
  unfolding chunks_inv_def by (auto elim!: tbl_all_mono intro: chunk_checks_mono)

lemma entities_inv_mono [inv_mono]:
  "entities_inv g \<Longrightarrow> grows g g' \<Longrightarrow> g_entities g' = g_entities g \<Longrightarrow> entities_inv g'"
  unfolding entities_inv_def by (auto elim!: tbl_all_mono intro: entity_checks_mono)

lemma index_inv_mono [inv_mono]:
  "index_inv g \<Longrightarrow> g_chunks g' = g_chunks g \<Longrightarrow> g_index g' = g_index g \<Longrightarrow> index_inv g'"
  by (simp add: index_inv_def)

lemma vocab_ok_mono [inv_mono]:
  "vocab_ok g \<Longrightarrow> g_predicate_types g' = g_predicate_types g \<Longrightarrow>
    g_entity_types g' = g_entity_types g \<Longrightarrow> g_predicate_closure g' = g_predicate_closure g \<Longrightarrow>
    g_entity_closure g' = g_entity_closure g \<Longrightarrow> g_predicate_alias g' = g_predicate_alias g \<Longrightarrow>
    vocab_ok g'"
  by (simp add: vocab_ok_def)

lemma extension_inv_mono [inv_mono]:
  "extension_inv g \<Longrightarrow> g_predicate_types g' = g_predicate_types g \<Longrightarrow>
    g_extension_log g' = g_extension_log g \<Longrightarrow> extension_inv g'"
  by (simp add: extension_inv_def)

subsection \<open>Every statement keeps the invariant\<close>

text \<open>\<open>step_ok g g'\<close>: a good projection became a good one in which nothing was deleted.\<close>

definition step_ok :: "graph \<Rightarrow> graph \<Rightarrow> bool" where
  "step_ok g g' \<longleftrightarrow> graph_ok g' \<and> grows g g'"

lemma step_ok_trans: "step_ok g h \<Longrightarrow> step_ok h k \<Longrightarrow> step_ok g k"
  by (auto simp: step_ok_def intro: grows_trans)

lemma step_ok_refl: "graph_ok g \<Longrightarrow> step_ok g g"
  by (simp add: step_ok_def)

lemma step_okD: "step_ok g g' \<Longrightarrow> graph_ok g'" "step_ok g g' \<Longrightarrow> grows g g'"
  by (simp_all add: step_ok_def)

text \<open>A change of one table that keeps its keys is a growth.\<close>

lemma grows_table:
  "keys_sub (g_claims g) t \<Longrightarrow> grows g (g \<lparr> g_claims := t \<rparr>)"
  "keys_sub (g_hyperedges g) h \<Longrightarrow> grows g (g \<lparr> g_hyperedges := h \<rparr>)"
  "keys_sub (g_participants g) p \<Longrightarrow> grows g (g \<lparr> g_participants := p \<rparr>)"
  "keys_sub (g_contradictions g) x \<Longrightarrow> grows g (g \<lparr> g_contradictions := x \<rparr>)"
  "keys_sub (g_chunks g) v \<Longrightarrow> grows g (g \<lparr> g_chunks := v \<rparr>)"
  "keys_sub (g_index g) ix \<Longrightarrow> grows g (g \<lparr> g_index := ix \<rparr>)"
  "keys_sub (g_entities g) e \<Longrightarrow> grows g (g \<lparr> g_entities := e \<rparr>)"
  "keys_sub (g_extension_log g) l \<Longrightarrow> grows g (g \<lparr> g_extension_log := l \<rparr>)"
  by (simp_all add: grows_def predicate_known_def)

lemma insert_entity_ok:
  assumes "graph_ok g" and "insert_entity n e g = Inr g'"
  shows "step_ok g g' \<and> map_of (g_entities g') n \<noteq> None"
proof -
  from assms(2) have chk: "passes (entity_checks g n e)"
    and g': "g' = g \<lparr> g_entities := tbl_put n e (g_entities g) \<rparr>"
    by (auto simp: insert_entity_def result_simps)
  have gr: "grows g g'" unfolding g' by (rule grows_table) simp
  have "entities_inv g'"
    using assms(1) entity_checks_mono [OF _ gr] entity_checks_mono [OF chk gr]
    by (auto simp: graph_ok_def entities_inv_def g' tbl_ok_put intro!: tbl_all_put elim!: tbl_all_mono)
  with assms(1) gr show ?thesis
    unfolding step_ok_def graph_ok_def
    by (auto intro: inv_mono simp: g' map_of_tbl_put)
qed

lemma update_entity_ok:
  assumes "graph_ok g" and "map_of (g_entities g) n = Some old" and "er_created_at new = er_created_at old"
    and "update_entity n old new g = Inr g'"
  shows "step_ok g g' \<and> map_of (g_entities g') n \<noteq> None"
proof -
  from assms(4) have g': "g' = g \<lparr> g_entities := tbl_put n new (g_entities g) \<rparr>"
    and chk: "0 < er_type_id new" "map_of (g_entity_types g) (er_type_id new) \<noteq> None"
      "passes (entity_seen_checks (er_created_at old) (er_last_seen_at new))"
    by (auto simp: update_entity_def result_simps)
  have "passes (entity_checks g n old)"
    using assms(1,2) by (auto simp: graph_ok_def entities_inv_def dest: tbl_all_get)
  with chk assms(3) have chk': "passes (entity_checks g n new)"
    by (simp add: entity_checks_def)
  have gr: "grows g g'" unfolding g' by (rule grows_table) simp
  have "entities_inv g'"
    using assms(1) entity_checks_mono [OF _ gr] entity_checks_mono [OF chk' gr]
    by (auto simp: graph_ok_def entities_inv_def g' tbl_ok_put intro!: tbl_all_put elim!: tbl_all_mono)
  with assms(1) gr show ?thesis
    unfolding step_ok_def graph_ok_def
    by (auto intro: inv_mono simp: g' map_of_tbl_put)
qed

lemma ensure_entity_ok:
  assumes "graph_ok g" and "ensure_entity_on n now g = Inr g'"
  shows "step_ok g g' \<and> map_of (g_entities g') n \<noteq> None"
proof (cases "map_of (g_entities g) n")
  case None
  with assms(2) obtain e where "insert_entity n e g = Inr g'"
    by (auto simp: ensure_entity_on_def result_simps Let_def)
  with assms(1) show ?thesis by (rule insert_entity_ok)
next
  case (Some e)
  with assms(2) obtain e' where "update_entity n e e' g = Inr g'"
    and "er_created_at e' = er_created_at e"
    by (auto simp: ensure_entity_on_def result_simps Let_def split: if_splits)
  then show ?thesis using update_entity_ok [OF assms(1) Some] by blast
qed

lemma known_predicate_types_append:
  "predicate_known g p \<Longrightarrow> g_predicate_alias g' = g_predicate_alias g \<Longrightarrow>
    g_predicate_types g' = g_predicate_types g @ us \<Longrightarrow> predicate_known g' p"
  by (auto simp: predicate_known_def type_id_on_append split: option.splits)

lemma extended_simps:
  "t_name (extended_ptype p prov j now) = p" "t_parent (extended_ptype p prov j now) = Some j"
  "x_predicate (extended_entry p a now) = p" "x_parent (extended_entry p a now) = ''relates_to''"
  "x_agent_id (extended_entry p a now) = a" "x_ext_created_at (extended_entry p a now) = now"
  by (simp_all add: extended_ptype_def extended_entry_def)

lemma ensure_predicate_ok:
  assumes ok: "graph_ok g" and run: "ensure_predicate_known pred prov agent now g = Inr g'"
  shows "step_ok g g' \<and> predicate_known g' pred"
proof (cases "predicate_known g pred")
  case True
  with run have "g' = g" by (auto simp: ensure_predicate_known_def predicate_known_def split: if_splits)
  with True ok show ?thesis by (simp add: step_ok_refl)
next
  case False
  let ?t = "g_predicate_types g" and ?i = "next_rowid (g_predicate_types g)"
  have tok: "tbl_ok ?t" using ok by (simp add: graph_ok_def vocab_ok_def hierarchy_ok_iff)
  from False run obtain j where j: "type_id_on ?t ''relates_to'' = Some j"
    and new: "type_id_on ?t pred = None" and name: "\<not> sql_blank pred" and par: "map_of ?t j \<noteq> None"
    and raw: "g' = g \<lparr> g_predicate_types := tbl_put ?i (extended_ptype pred prov j now) ?t,
                     g_predicate_closure := closure_of (tbl_put ?i (extended_ptype pred prov j now) ?t),
                     g_extension_log := tbl_put (next_rowid (g_extension_log g))
                                          (extended_entry pred agent now) (g_extension_log g) \<rparr>"
    by (auto simp: ensure_predicate_known_def predicate_known_def result_simps Let_def
        insert_predicate_type_def insert_extension_def rebuild_predicate_closure_def extended_simps)
  let ?row = "extended_ptype pred prov j now"
  have snoc: "tbl_put ?i ?row ?t = ?t @ [(?i, ?row)]"
    using next_rowid_fresh [OF tok] by (intro tbl_put_snoc) auto
  note g' = raw [unfolded snoc]
  have hier: "hierarchy_ok (?t @ [(?i, ?row)])"
    using ok new par name
    by (intro hierarchy_ok_append) (auto simp: graph_ok_def vocab_ok_def extended_simps)
  have known: "predicate_known g p \<Longrightarrow> predicate_known g' p" for p
    by (rule known_predicate_types_append) (simp_all add: g')
  have keys: "keys_sub ?t (?t @ [(?i, ?row)])"
    by (auto simp: keys_sub_def map_add_def split: option.splits)
  have gr: "grows g g'"
    using known keys by (simp add: grows_def g')
  have voc: "vocab_ok g'"
    using ok hier keys by (auto simp: graph_ok_def vocab_ok_def g' type_id_on_append keys_sub_def
        split: option.splits elim!: tbl_all_mono)
  have id_new: "type_id_on (g_predicate_types g') pred \<noteq> None"
    by (simp add: g' type_id_on_None extended_simps del: not_None_eq)
  have ext: "extension_inv g'"
  proof -
    have "tbl_all (\<lambda>_ x. type_id_on (g_predicate_types g') (x_predicate x) \<noteq> None) (g_extension_log g)"
      using ok by (auto simp: graph_ok_def extension_inv_def g' type_id_on_append
          split: option.splits elim!: tbl_all_mono)
    then show ?thesis
      using ok id_new unfolding extension_inv_def
      by (auto simp: g' graph_ok_def extension_inv_def tbl_ok_put extended_simps intro!: tbl_all_put)
  qed
  have "graph_ok g'"
    using ok gr voc ext unfolding graph_ok_def by (auto intro: inv_mono simp: g')
  with gr id_new show ?thesis by (simp add: step_ok_def predicate_known_def)
qed

subsection \<open>Every handler keeps the invariant\<close>

lemma applied_eq [result_simps]: "applied r = Inr (a, s) \<longleftrightarrow> a = Applied \<and> r = Inr s"
  by (cases r) (auto simp: applied_def)

lemma already_eq [result_simps]:
  "already same detail s = Inr (a, s') \<longleftrightarrow> same \<and> a = Duplicate \<and> s' = s"
  by (auto simp: already_def)

lemma insert_claim_ok:
  assumes "graph_ok g" and "insert_claim c g = Inr g'"
    and "map_of (g_entities g) (c_subject c) \<noteq> None" and "map_of (g_entities g) (c_object c) \<noteq> None"
  shows "step_ok g g'"
proof -
  from assms(2) have g': "g' = g \<lparr> g_claims := tbl_put (c_id c) c (g_claims g) \<rparr>"
    and chk: "passes (claim_checks g c)"
    by (auto simp: insert_claim_def result_simps)
  have gr: "grows g g'" unfolding g' by (rule grows_table) simp
  have "claims_inv g'"
    using assms(1,3,4) claim_checks_mono [OF _ gr] claim_checks_mono [OF chk gr]
    by (auto simp: graph_ok_def claims_inv_def g' tbl_ok_put intro!: tbl_all_put elim!: tbl_all_mono)
  with assms(1) gr show ?thesis
    unfolding step_ok_def graph_ok_def by (auto intro: inv_mono simp: g')
qed

lemma put_claim_ok:
  assumes "graph_ok g" and "map_of (g_claims g) i = Some c"
    and same: "c_id c' = c_id c" "c_subject c' = c_subject c" "c_object c' = c_object c"
    and chk: "passes (claim_checks g c')"
  shows "step_ok g (put_claim i c' g)"
proof -
  let ?g' = "put_claim i c' g"
  have gr: "grows g ?g'" unfolding put_claim_def by (rule grows_table) simp
  have "c_id c = i \<and> map_of (g_entities g) (c_subject c) \<noteq> None \<and> map_of (g_entities g) (c_object c) \<noteq> None"
    using assms(1,2) by (auto simp: graph_ok_def claims_inv_def dest: tbl_all_get)
  then have "claims_inv ?g'"
    using assms(1) same claim_checks_mono [OF _ gr] claim_checks_mono [OF chk gr]
    by (auto simp: graph_ok_def claims_inv_def put_claim_def tbl_ok_put intro!: tbl_all_put elim!: tbl_all_mono)
  with assms(1) gr show ?thesis
    unfolding step_ok_def graph_ok_def by (auto intro: inv_mono simp: put_claim_def)
qed

lemma claim_row_passes:
  "graph_ok g \<Longrightarrow> map_of (g_claims g) i = Some c \<Longrightarrow> passes (claim_checks g c)"
  by (auto simp: graph_ok_def claims_inv_def dest: tbl_all_get)

lemma ap_add_claim_ok:
  assumes "graph_ok g" and "ap_add_claim t i subj pred obj source agent kind conf prov scope g = Inr (a, g')"
  shows "step_ok g g'"
proof (cases "map_of (g_claims g) i")
  case None
  with assms(2) obtain g1 g2 g3 c where
    r: "ensure_predicate_known pred prov agent t g = Inr g1" "ensure_entity_on subj t g1 = Inr g2"
      "ensure_entity_on obj t g2 = Inr g3" "insert_claim c g3 = Inr g'"
    and c: "c_subject c = subj" "c_object c = obj"
    by (auto simp: ap_add_claim_def result_simps)
  have s1: "step_ok g g1" using ensure_predicate_ok [OF assms(1) r(1)] by simp
  have s2: "step_ok g1 g2" "map_of (g_entities g2) subj \<noteq> None"
    using ensure_entity_ok [OF step_okD(1) [OF s1] r(2)] by simp_all
  have s3: "step_ok g2 g3" "map_of (g_entities g3) obj \<noteq> None"
    using ensure_entity_ok [OF step_okD(1) [OF s2(1)] r(3)] by simp_all
  have "map_of (g_entities g3) subj \<noteq> None"
    using entity_keys_mono(1) [OF step_okD(2) [OF s3(1)] s2(2)] .
  then have "step_ok g3 g'"
    using insert_claim_ok [OF step_okD(1) [OF s3(1)] r(4)] s3(2) c by simp
  with s1 s2(1) s3(1) show ?thesis by (blast intro: step_ok_trans)
next
  case (Some c)
  with assms show ?thesis by (simp add: ap_add_claim_def result_simps step_ok_refl)
qed

lemma insert_participant_ok:
  assumes "graph_ok g" and "insert_participant p g = Inr g'"
    and "map_of (g_entities g) (pr_entity p) \<noteq> None"
  shows "step_ok g g'"
proof -
  let ?i = "next_rowid (g_participants g)"
  from assms(2) have g': "g' = g \<lparr> g_participants := tbl_put ?i p (g_participants g) \<rparr>"
    and chk: "passes (participant_checks g p)"
    by (auto simp: insert_participant_def result_simps)
  have tok: "tbl_ok (g_participants g)" using assms(1) by (simp add: graph_ok_def parts_inv_def)
  have snoc: "tbl_put ?i p (g_participants g) = g_participants g @ [(?i, p)]"
    using next_rowid_fresh [OF tok] by (intro tbl_put_snoc) auto
  have gr: "grows g g'" unfolding g' by (rule grows_table) simp
  have "distinct (tbl_rows (g_participants g'))"
    using assms(1) chk by (auto simp: g' snoc graph_ok_def parts_inv_def participant_checks_def)
  moreover have "tbl_ok (g_participants g')" using tok by (simp add: g' tbl_ok_put)
  ultimately have "parts_inv g'"
    using assms(1,3) chk unfolding parts_inv_def graph_ok_def
    by (auto simp: g' participant_checks_def intro!: tbl_all_put)
  with assms(1) gr show ?thesis
    unfolding step_ok_def graph_ok_def by (auto intro: inv_mono simp: g')
qed

lemma add_participants_ok:
  assumes "graph_ok g" and "rfold (add_participant t i) ps g = Inr g'"
  shows "step_ok g g'"
proof -
  have "graph_ok g' \<and> grows g g'"
    using assms(2)
  proof (rule rfold_invariant [where P = "\<lambda>h. graph_ok h \<and> grows g h"])
    show "graph_ok g \<and> grows g g" using assms(1) by simp
    fix p h h'
    assume ok: "graph_ok h \<and> grows g h" and run: "add_participant t i p h = Inr h'"
    from run obtain h1 where r: "ensure_entity_on (pi_entity p) t h = Inr h1"
      "insert_participant \<lparr> pr_hyperedge_id = i, pr_role = pi_role p, pr_entity = pi_entity p \<rparr> h1 = Inr h'"
      by (auto simp: add_participant_def result_simps)
    have "step_ok h h1" "map_of (g_entities h1) (pi_entity p) \<noteq> None"
      using ensure_entity_ok [OF conjunct1 [OF ok] r(1)] by simp_all
    moreover from this have "step_ok h1 h'"
      using insert_participant_ok [OF _ r(2)] by (simp add: step_ok_def)
    ultimately show "graph_ok h' \<and> grows g h'"
      using ok by (auto simp: step_ok_def intro: grows_trans)
  qed
  then show ?thesis by (simp add: step_ok_def)
qed

lemma ap_add_hyperedge_ok:
  assumes "graph_ok g" and "ap_add_hyperedge t i pred prov conf refs ps g = Inr (a, g')"
  shows "step_ok g g'"
proof (cases "map_of (g_hyperedges g) i")
  case None
  with assms(2) obtain g1 g2 h where
    r: "ensure_predicate_known pred prov ''local'' t g = Inr g1" "insert_hyperedge i h g1 = Inr g2"
      "rfold (add_participant t i) ps g2 = Inr g'"
    by (auto simp: ap_add_hyperedge_def result_simps)
  have s1: "step_ok g g1" using ensure_predicate_ok [OF assms(1) r(1)] by simp
  from r(2) have g2: "g2 = g1 \<lparr> g_hyperedges := tbl_put i h (g_hyperedges g1) \<rparr>"
    and chk: "passes (hyperedge_checks g1 h)"
    by (auto simp: insert_hyperedge_def result_simps)
  have gr: "grows g1 g2" unfolding g2 by (rule grows_table) simp
  have "hyper_inv g2"
    using step_okD(1) [OF s1] hyperedge_checks_mono [OF _ gr] hyperedge_checks_mono [OF chk gr]
    by (auto simp: graph_ok_def hyper_inv_def g2 tbl_ok_put intro!: tbl_all_put elim!: tbl_all_mono)
  moreover have "parts_inv g2"
    using step_okD(1) [OF s1] gr by (intro parts_inv_mono [OF _ gr]) (simp_all add: graph_ok_def g2)
  ultimately have s2: "step_ok g1 g2"
    using step_okD(1) [OF s1] gr unfolding step_ok_def graph_ok_def by (auto intro: inv_mono simp: g2)
  have "step_ok g2 g'" using add_participants_ok [OF step_okD(1) [OF s2] r(3)] .
  with s1 s2 show ?thesis by (blast intro: step_ok_trans)
next
  case (Some h)
  with assms show ?thesis by (simp add: ap_add_hyperedge_def result_simps step_ok_refl)
qed

lemma ap_retire_claim_ok:
  assumes "graph_ok g" and "ap_retire_claim t i reason g = Inr (a, g')"
  shows "step_ok g g'"
proof (cases "\<exists>c. map_of (g_claims g) i = Some c \<and> c_status c \<noteq> Invalidated")
  case True
  then obtain c where c: "map_of (g_claims g) i = Some c" "c_status c \<noteq> Invalidated" by blast
  let ?refs = "c_source_refs c @ [retired_marker reason]"
  let ?c' = "c \<lparr> c_status := Invalidated, c_source_refs := ?refs, cr_last_seen_at := t \<rparr>"
  from assms(2) c have chk: "passes (source_refs_checks ?refs @ last_seen_checks (cr_created_at c) t)"
    and g': "g' = put_claim i ?c' g"
    by (auto simp: ap_retire_claim_def result_simps Let_def)
  have "passes (claim_checks g ?c')"
    using chk claim_row_passes [OF assms(1) c(1)] by (simp add: claim_checks_def)
  then show ?thesis unfolding g' by (intro put_claim_ok [OF assms(1) c(1)]) simp_all
next
  case False
  with assms show ?thesis
    by (auto simp: ap_retire_claim_def result_simps step_ok_refl split: option.splits)
qed

lemma ap_add_contradiction_ok:
  assumes "graph_ok g" and "ap_add_contradiction t i c reason n g = Inr (a, g')"
  shows "step_ok g g'"
proof (cases "map_of (g_contradictions g) i")
  case None
  with assms(2) obtain x where g': "g' = g \<lparr> g_contradictions := tbl_put i x (g_contradictions g) \<rparr>"
    and chk: "x_id x = i" "passes (contradiction_checks g x)"
    by (auto simp: ap_add_contradiction_def insert_contradiction_def result_simps)
  have gr: "grows g g'" unfolding g' by (rule grows_table) simp
  have "notes_inv g'"
    using assms(1) chk(1) contradiction_checks_mono [OF _ gr] contradiction_checks_mono [OF chk(2) gr]
    by (auto simp: graph_ok_def notes_inv_def g' tbl_ok_put intro!: tbl_all_put elim!: tbl_all_mono)
  with assms(1) gr show ?thesis
    unfolding step_ok_def graph_ok_def by (auto intro: inv_mono simp: g')
next
  case (Some x)
  with assms show ?thesis by (simp add: ap_add_contradiction_def result_simps step_ok_refl)
qed

lemma supersede_one_ok:
  "graph_ok g \<Longrightarrow> supersede_one i g = Inr g' \<Longrightarrow> step_ok g g'"
  by (auto simp: supersede_one_def step_ok_refl claim_checks_def dest: claim_row_passes
      intro!: put_claim_ok split: option.splits if_splits)

lemma decay_one_ok:
  "graph_ok g \<Longrightarrow> decay_one ch g = Inr g' \<Longrightarrow> step_ok g g'"
  by (auto simp: decay_one_def result_simps claim_checks_def dest: claim_row_passes
      intro!: put_claim_ok split: option.splits)

text \<open>A loop of good steps is a good step.\<close>

lemma rfold_step_ok:
  assumes "rfold f xs g = Inr g'" and "graph_ok g"
    and "\<And>x h h'. graph_ok h \<Longrightarrow> f x h = Inr h' \<Longrightarrow> step_ok h h'"
  shows "step_ok g g'"
  using assms(1)
proof (rule rfold_invariant)
  show "step_ok g g" using assms(2) by (rule step_ok_refl)
  show "step_ok g h'" if "step_ok g h" and "f x h = Inr h'" for x h h'
    using that assms(3) by (blast intro: step_ok_trans step_okD)
qed

lemma ap_merge_source_refs_ok:
  assumes "graph_ok g" and "ap_merge_source_refs i refs promote g = Inr (a, g')"
  shows "step_ok g g'"
  using assms
  by (auto simp: ap_merge_source_refs_def result_simps Let_def claim_checks_def
      dest: claim_row_passes intro!: put_claim_ok split: option.splits if_splits)

lemma chunk_index_ok:
  assumes ok: "graph_ok g" and chk: "passes (chunk_checks g v)"
    and free: "opt_all (\<lambda>w. vr_embedding w = None) (map_of (g_chunks g) i)"
    and g': "g' = (case vr_embedding v of
                     None \<Rightarrow> g \<lparr> g_chunks := tbl_put i v (g_chunks g) \<rparr>
                   | Some e \<Rightarrow> index_embedding i e (g \<lparr> g_chunks := tbl_put i v (g_chunks g) \<rparr>))"
  shows "step_ok g g'"
proof -
  have chunks: "g_chunks g' = tbl_put i v (g_chunks g)"
    by (simp add: g' index_embedding_def split: option.split)
  have none: "map_of (g_index g) i = None"
  proof (cases "map_of (g_index g) i")
    case (Some e)
    then obtain w where "map_of (g_chunks g) i = Some w" "vr_embedding w = Some e"
      using ok unfolding graph_ok_def index_inv_def by blast
    with free show ?thesis by simp
  qed
  have others: "g_claims g' = g_claims g" "g_hyperedges g' = g_hyperedges g"
    "g_participants g' = g_participants g" "g_contradictions g' = g_contradictions g"
    "g_entities g' = g_entities g" "g_entity_types g' = g_entity_types g"
    "g_entity_closure g' = g_entity_closure g" "g_predicate_types g' = g_predicate_types g"
    "g_predicate_alias g' = g_predicate_alias g" "g_predicate_closure g' = g_predicate_closure g"
    "g_extension_log g' = g_extension_log g"
    by (simp_all add: g' index_embedding_def split: option.split)
  have idx: "g_index g' = (case vr_embedding v of None \<Rightarrow> g_index g
      | Some e \<Rightarrow> if length e = VECTOR_INDEX_DIM then tbl_put i e (g_index g) else g_index g)"
    using none by (simp add: g' index_embedding_def split: option.split)
  have gr: "grows g g'"
    by (simp add: grows_def others chunks predicate_known_def idx split: option.split)
  have "chunks_inv g'"
    using ok chunk_checks_mono [OF _ gr] chunk_checks_mono [OF chk gr]
    by (auto simp: graph_ok_def chunks_inv_def chunks tbl_ok_put intro!: tbl_all_put elim!: tbl_all_mono)
  moreover have "index_inv g'"
    using ok none unfolding graph_ok_def index_inv_def idx chunks
    by (auto simp: tbl_ok_put map_of_tbl_put split: option.splits)
  ultimately show ?thesis
    using ok gr unfolding step_ok_def graph_ok_def by (auto intro: inv_mono simp: others)
qed

lemma ap_add_vector_chunk_ok:
  assumes "graph_ok g" and "ap_add_vector_chunk t i c txt model emb g = Inr (a, g')"
  shows "step_ok g g'"
proof (cases "map_of (g_chunks g) i")
  case None
  let ?v = "\<lparr> vr_claim_id = c, vr_text = txt, vr_model = model, vr_embedding = emb, vr_created_at = t \<rparr>"
  from None assms(2) have "passes (chunk_checks g ?v)"
    and "g' = (case vr_embedding ?v of
                 None \<Rightarrow> g \<lparr> g_chunks := tbl_put i ?v (g_chunks g) \<rparr>
               | Some e \<Rightarrow> index_embedding i e (g \<lparr> g_chunks := tbl_put i ?v (g_chunks g) \<rparr>))"
    by (auto simp: ap_add_vector_chunk_def insert_chunk_def result_simps)
  with None show ?thesis
    by (intro chunk_index_ok [where i = i and v = ?v, OF assms(1)]) (simp_all split: option.split)
next
  case (Some v)
  with assms show ?thesis by (simp add: ap_add_vector_chunk_def result_simps step_ok_refl)
qed

lemma ap_embed_vector_chunk_ok:
  assumes "graph_ok g" and "ap_embed_vector_chunk i e g = Inr (a, g')"
  shows "step_ok g g'"
proof (cases "\<exists>v. map_of (g_chunks g) i = Some v \<and> vr_embedding v = None")
  case True
  then obtain v where v: "map_of (g_chunks g) i = Some v" "vr_embedding v = None" by blast
  let ?v' = "v \<lparr> vr_embedding := Some e \<rparr>"
  have "passes (chunk_checks g v)"
    using assms(1) v(1) by (auto simp: graph_ok_def chunks_inv_def dest: tbl_all_get)
  moreover from assms(2) v have "passes (embedding_checks (Some e))"
    and "g' = (case vr_embedding ?v' of
                 None \<Rightarrow> g \<lparr> g_chunks := tbl_put i ?v' (g_chunks g) \<rparr>
               | Some e \<Rightarrow> index_embedding i e (g \<lparr> g_chunks := tbl_put i ?v' (g_chunks g) \<rparr>))"
    by (auto simp: ap_embed_vector_chunk_def result_simps)
  ultimately show ?thesis
    using v by (intro chunk_index_ok [where i = i and v = ?v', OF assms(1)])
      (simp_all add: chunk_checks_def)
next
  case False
  with assms show ?thesis
    by (auto simp: ap_embed_vector_chunk_def result_simps step_ok_refl split: option.splits)
qed

lemmas handlers_ok =
  ap_add_claim_ok ap_add_hyperedge_ok ap_retire_claim_ok ap_add_contradiction_ok
  ap_merge_source_refs_ok ap_add_vector_chunk_ok ap_embed_vector_chunk_ok

lemma apply_graph_ok: "graph_ok g \<Longrightarrow> apply_graph r g = Inr (a, g') \<Longrightarrow> step_ok g g'"
  by (cases "(r, g)" rule: apply_graph.cases)
    (auto simp: result_simps ap_supersede_claims_def ap_decay_confidence_def step_ok_refl
      intro: handlers_ok rfold_step_ok supersede_one_ok decay_one_ok)

subsection \<open>Events, candidates, observations\<close>

definition episodes_ok :: "graph \<Rightarrow> episodes \<Rightarrow> bool" where
  "episodes_ok g p \<longleftrightarrow>
     tbl_ok (e_events p) \<and> tbl_all (\<lambda>i e. e_id e = i \<and> passes (event_checks e)) (e_events p)
     \<and> tbl_ok (e_candidates p)
     \<and> tbl_all (\<lambda>i k. k_id k = i \<and> passes (candidate_checks p k)
                 \<and> (\<forall>c. k_promoted_claim_id k = Some c \<longrightarrow> map_of (g_claims g) c \<noteq> None))
         (e_candidates p)"

definition observed_ok :: "observed \<Rightarrow> bool" where
  "observed_ok b \<longleftrightarrow>
     tbl_ok (o_observations b)
     \<and> tbl_all (\<lambda>i o1. o_id o1 = i \<and> passes (observation_checks o1)) (o_observations b)
     \<and> tbl_ok (o_markers b) \<and> tbl_all (\<lambda>i m. passes (marker_checks i m)) (o_markers b)"

lemma candidate_checks_mono:
  "passes (candidate_checks p k) \<Longrightarrow> keys_sub (e_events p) (e_events p') \<Longrightarrow>
    passes (candidate_checks p' k)"
  by (auto simp: candidate_checks_def keys_sub_def)

lemma episodes_ok_grows:
  "episodes_ok g p \<Longrightarrow> grows g g' \<Longrightarrow> episodes_ok g' p"
  unfolding episodes_ok_def by (auto elim!: tbl_all_mono dest: entity_keys_mono(3))

lemma ap_record_event_ok:
  assumes "episodes_ok g p" and "ap_record_event t i s k pl src ag ak sc p = Inr (a, p')"
  shows "episodes_ok g p'"
proof (cases "map_of (e_events p) i")
  case None
  with assms(2) obtain e where p': "p' = p \<lparr> e_events := tbl_put i e (e_events p) \<rparr>"
    and chk: "e_id e = i" "passes (event_checks e)"
    by (auto simp: ap_record_event_def insert_event_def result_simps)
  have "passes (candidate_checks p' k)" if "passes (candidate_checks p k)" for k
    using that by (rule candidate_checks_mono) (simp add: p')
  with assms(1) chk show ?thesis
    unfolding episodes_ok_def
    by (auto simp: p' tbl_ok_put intro!: tbl_all_put elim!: tbl_all_mono)
next
  case (Some e)
  with assms show ?thesis by (simp add: ap_record_event_def result_simps)
qed

lemma put_candidate_ok:
  assumes "episodes_ok g p" and "passes (candidate_checks p k)" and "k_id k = i"
    and "\<forall>c. k_promoted_claim_id k = Some c \<longrightarrow> map_of (g_claims g) c \<noteq> None"
  shows "episodes_ok g (p \<lparr> e_candidates := tbl_put i k (e_candidates p) \<rparr>)"
proof -
  have "passes (candidate_checks (p \<lparr> e_candidates := t \<rparr>) k') = passes (candidate_checks p k')" for t k'
    by (simp add: candidate_checks_def)
  with assms show ?thesis
    unfolding episodes_ok_def by (auto simp: tbl_ok_put intro!: tbl_all_put)
qed

lemma candidate_row:
  "episodes_ok g p \<Longrightarrow> map_of (e_candidates p) i = Some k \<Longrightarrow>
    k_id k = i \<and> passes (candidate_checks p k)"
  by (auto simp: episodes_ok_def dest: tbl_all_get)

lemma ap_propose_ok:
  assumes "episodes_ok g p" and "ap_propose_candidate t i ev subj pred obj scope p = Inr (a, p')"
  shows "episodes_ok g p'"
  using assms
  by (auto simp: ap_propose_candidate_def insert_candidate_def result_simps
      intro!: put_candidate_ok split: option.splits)

lemma ap_promote_ok:
  assumes "episodes_ok g p" and "ap_promote_candidate g i c p = Inr (a, p')"
  shows "episodes_ok g p'"
  using assms candidate_row [OF assms(1), of i]
  by (auto simp: ap_promote_candidate_def result_simps Let_def candidate_checks_def
      intro!: put_candidate_ok split: option.splits if_splits)

lemma ap_reject_ok:
  assumes "episodes_ok g p" and "ap_reject_candidate i reason p = Inr (a, p')"
  shows "episodes_ok g p'"
  using assms candidate_row [OF assms(1), of i]
  by (auto simp: ap_reject_candidate_def result_simps Let_def candidate_checks_def
      candidate_state_checks_def intro!: put_candidate_ok split: option.splits if_splits)

lemma apply_episodes_ok:
  assumes "episodes_ok g p" and "apply_episodes r g p = Inr (a, p')"
  shows "episodes_ok g p'"
  using assms
  by (cases "(r, g, p)" rule: apply_episodes.cases)
    (auto simp: result_simps intro: ap_record_event_ok ap_propose_ok ap_promote_ok ap_reject_ok)

lemma apply_observed_ok:
  assumes "observed_ok b" and "apply_observed r b = Inr (a, b')"
  shows "observed_ok b'"
  using assms
  by (cases "(r, b)" rule: apply_observed.cases)
    (auto simp: result_simps ap_record_observation_def insert_observation_def
      ap_prune_observations_def insert_marker_def observed_ok_def tbl_ok_put
      intro!: tbl_all_put split: option.splits)

subsection \<open>The whole projection\<close>

definition db_ok :: "db \<Rightarrow> bool" where
  "db_ok d \<longleftrightarrow>
     graph_ok (db_graph d) \<and> episodes_ok (db_graph d) (db_episodes d) \<and> observed_ok (db_observed d)"

lemma init_tables:
  "g_claims init_graph = []" "g_hyperedges init_graph = []" "g_participants init_graph = []"
  "g_contradictions init_graph = []" "g_chunks init_graph = []" "g_index init_graph = []"
  "g_entities init_graph = []" "g_extension_log init_graph = []"
  by (simp_all add: init_graph_def seed_ontology_def empty_graph_def Let_def)

text \<open>The seeded hierarchies, evaluated.\<close>

lemma init_predicate_types:
  "g_predicate_types init_graph =
    map (\<lambda>(i, n, p, via, single). (i, \<lparr> t_name = n, t_parent = p, t_created_via = via,
                                    t_created_at = None, t_single = single \<rparr>))
     [(1, ''has_module'', Some 11, ''migration'', False),
      (2, ''binary_name'', Some 11, ''migration'', True),
      (3, ''impl_stays_in'', Some 15, ''migration'', True),
      (4, ''splits_by'', Some 7, ''migration'', True),
      (5, ''uses'', Some 6, ''migration'', False),
      (6, ''depends_on'', Some 7, ''migration'', False),
      (7, ''relates_to'', None, ''seed'', False), (8, ''calls'', Some 6, ''seed'', False),
      (9, ''imports'', Some 6, ''seed'', False),
      (10, ''reads_config_from'', Some 6, ''seed'', False),
      (11, ''owns'', Some 7, ''seed'', False), (12, ''owned_by'', Some 11, ''seed'', True),
      (13, ''authored'', Some 11, ''seed'', False),
      (14, ''maintained'', Some 11, ''seed'', False),
      (15, ''concerns'', Some 7, ''seed'', False), (16, ''fixes'', Some 15, ''seed'', False),
      (17, ''tests'', Some 15, ''seed'', False), (18, ''decides'', Some 15, ''seed'', False),
      (19, ''prefers'', Some 15, ''seed'', True), (20, ''is'', Some 7, ''seed'', False),
      (21, ''has'', Some 11, ''seed'', False), (22, ''defines'', Some 11, ''seed'', False),
      (23, ''emits'', Some 7, ''seed'', False), (24, ''extends'', Some 6, ''seed'', False),
      (25, ''implements'', Some 6, ''seed'', False), (26, ''has_test'', Some 7, ''seed'', False)]"
  by code_simp

lemma init_entity_types:
  "g_entity_types init_graph =
    map (\<lambda>(i, n, p). (i, \<lparr> t_name = n, t_parent = p \<rparr>))
     [(1, ''Thing'', None), (2, ''Asset'', Some 1), (3, ''File'', Some 2),
      (4, ''Module'', Some 2), (5, ''Config'', Some 2), (6, ''Symbol'', Some 1),
      (7, ''Function'', Some 6), (8, ''Class'', Some 6), (9, ''Constant'', Some 6),
      (10, ''Process'', Some 1), (11, ''Service'', Some 10), (12, ''Test'', Some 10),
      (13, ''Job'', Some 10), (14, ''Agent'', Some 1), (15, ''Human'', Some 14),
      (16, ''Bot'', Some 14), (17, ''Concept'', Some 1), (18, ''Decision'', Some 17),
      (19, ''Bug'', Some 17), (20, ''Pref'', Some 17), (21, ''Constraint'', Some 17),
      (22, ''ClaudeSession'', Some 10), (23, ''ClaudeEvent'', Some 17),
      (24, ''ClaudeContent'', Some 2), (25, ''Project'', Some 2), (26, ''ProjectPath'', Some 3),
      (27, ''ClaudeHistory'', Some 2), (28, ''ClaudeHistoryFile'', Some 3)]"
  by code_simp

lemma init_aliases:
  "g_predicate_alias init_graph =
     [(''binary-name'', 2), (''has-module'', 1), (''impl-stays-in'', 3), (''requires'', 6),
      (''splits-by'', 4), (''uses'', 5)]"
  by code_simp

lemma init_hierarchies:
  "hierarchy_ok (g_predicate_types init_graph)" "hierarchy_ok (g_entity_types init_graph)"
  unfolding hierarchy_ok_def tbl_all_def init_predicate_types init_entity_types
  by code_simp+

lemma init_vocab_ok: "vocab_ok init_graph"
  unfolding vocab_ok_def
proof (intro conjI init_hierarchies)
  show "g_predicate_closure init_graph = closure_of (g_predicate_types init_graph)"
    "g_entity_closure init_graph = closure_of (g_entity_types init_graph)"
    by (simp_all add: init_graph_def seed_ontology_def Let_def)
  show "type_id_on (g_predicate_types init_graph) ''relates_to'' \<noteq> None"
    unfolding init_predicate_types by code_simp
  show "type_id_on (g_entity_types init_graph) ''Thing'' \<noteq> None"
    unfolding init_entity_types by code_simp
  show "tbl_all (\<lambda>_ i. map_of (g_predicate_types init_graph) i \<noteq> None) (g_predicate_alias init_graph)"
    unfolding tbl_all_def init_predicate_types init_aliases by code_simp
qed

lemma init_graph_ok: "graph_ok init_graph"
  by (simp add: graph_ok_def init_vocab_ok init_tables claims_inv_def hyper_inv_def parts_inv_def
      notes_inv_def chunks_inv_def index_inv_def entities_inv_def extension_inv_def)

lemma init_db_ok: "db_ok init_db"
  by (simp add: db_ok_def init_db_def init_graph_ok episodes_ok_def observed_ok_def)

text \<open>What one applied record does to the rest: nothing is deleted anywhere.\<close>

definition db_grows :: "db \<Rightarrow> db \<Rightarrow> bool" where
  "db_grows d d' \<longleftrightarrow>
     grows (db_graph d) (db_graph d')
     \<and> keys_sub (e_events (db_episodes d)) (e_events (db_episodes d'))
     \<and> keys_sub (e_candidates (db_episodes d)) (e_candidates (db_episodes d'))
     \<and> keys_sub (o_observations (db_observed d)) (o_observations (db_observed d'))
     \<and> keys_sub (o_markers (db_observed d)) (o_markers (db_observed d'))"

lemma apply_episodes_grows:
  assumes "apply_episodes r g p = Inr (a, p')"
  shows "keys_sub (e_events p) (e_events p') \<and> keys_sub (e_candidates p) (e_candidates p')"
  using assms
  by (cases "(r, g, p)" rule: apply_episodes.cases)
    (auto simp: result_simps ap_record_event_def insert_event_def ap_propose_candidate_def
      insert_candidate_def ap_promote_candidate_def ap_reject_candidate_def Let_def
      split: option.splits if_splits)

lemma apply_observed_grows:
  assumes "apply_observed r b = Inr (a, b')"
  shows "keys_sub (o_observations b) (o_observations b') \<and> keys_sub (o_markers b) (o_markers b')"
  using assms
  by (cases "(r, b)" rule: apply_observed.cases)
    (auto simp: result_simps ap_record_observation_def insert_observation_def
      ap_prune_observations_def insert_marker_def split: option.splits)

lemma apply_record_ok:
  assumes "db_ok d" and "apply_record r d = Inr (a, d')"
  shows "db_ok d' \<and> db_grows d d'"
proof (cases "series_of r")
  case Log
  with assms(2) obtain g where "apply_graph r (db_graph d) = Inr (a, g)" and d': "d' = d \<lparr> db_graph := g \<rparr>"
    by (auto simp: apply_record_def result_simps)
  with assms(1) have "step_ok (db_graph d) g" by (auto simp: db_ok_def intro: apply_graph_ok)
  with assms(1) show ?thesis
    by (auto simp: d' db_ok_def db_grows_def step_ok_def intro: episodes_ok_grows)
next
  case Events
  with assms(2) obtain p where "apply_episodes r (db_graph d) (db_episodes d) = Inr (a, p)"
    and "d' = d \<lparr> db_episodes := p \<rparr>"
    by (auto simp: apply_record_def result_simps)
  with assms(1) show ?thesis
    using apply_episodes_grows by (auto simp: db_ok_def db_grows_def intro: apply_episodes_ok)
next
  case Observations
  with assms(2) obtain b where "apply_observed r (db_observed d) = Inr (a, b)"
    and "d' = d \<lparr> db_observed := b \<rparr>"
    by (auto simp: apply_record_def result_simps)
  with assms(1) show ?thesis
    using apply_observed_grows by (auto simp: db_ok_def db_grows_def intro: apply_observed_ok)
qed

end
