(* ===== verification/Projection.thy ===== *)
theory Projection
  imports Invariant "HOL-Library.Multiset"
begin

section \<open>The projection as a function of the logs\<close>

text \<open>
  Live writes apply records in the order of the operations; replay reads the three log files
  one after the other. \<open>log_projection\<close> is the contract that makes the two agree: a record of
  an earlier series may be moved before a record of a later one. The interpretation \<open>proj\<close>
  discharges it for \<open>apply_record\<close>. The second half shows that records are idempotent.
\<close>

locale log_projection =
  fixes step :: "'r \<Rightarrow> 's \<Rightarrow> 'e + 's"
    and series :: "'r \<Rightarrow> 'k :: linorder"
    and inv :: "'s \<Rightarrow> bool"
  assumes step_inv: "inv s \<Longrightarrow> step r s = Inr s' \<Longrightarrow> inv s'"
    and commute: "inv s \<Longrightarrow> step q s = Inr s1 \<Longrightarrow> step r s1 = Inr s2 \<Longrightarrow> series r < series q \<Longrightarrow>
      \<exists>s1'. step r s = Inr s1' \<and> step q s1' = Inr s2"
begin

definition run :: "'r list \<Rightarrow> 's \<Rightarrow> 'e + 's" where
  "run = rfold step"

lemma run_Nil [simp]: "run [] s = Inr s"
  by (simp add: run_def)

lemma run_Cons [simp]: "run (r # rs) s = rbind (step r s) (run rs)"
  by (simp add: run_def)

lemma run_append: "run (rs @ qs) s = rbind (run rs s) (run qs)"
  by (simp add: run_def rfold_append)

lemma run_inv: "inv s \<Longrightarrow> run rs s = Inr s' \<Longrightarrow> inv s'"
  unfolding run_def by (erule rfold_invariant) (auto intro: step_inv)

lemma run_insort:
  "inv s \<Longrightarrow> step r s = Inr s1 \<Longrightarrow> run rs s1 = Inr s' \<Longrightarrow> run (insort_key series r rs) s = Inr s'"
proof (induction rs arbitrary: s s1)
  case (Cons q rs)
  show ?case
  proof (cases "series r \<le> series q")
    case False
    from Cons.prems obtain s2 where s2: "step q s1 = Inr s2" "run rs s2 = Inr s'"
      by (auto simp: result_simps)
    from False have "series q < series r" by simp
    from commute [OF Cons.prems(1,2) s2(1) this]
    obtain t where t: "step q s = Inr t" "step r t = Inr s2" by blast
    have "run (insort_key series r rs) t = Inr s'"
      using Cons.IH [OF step_inv [OF Cons.prems(1) t(1)] t(2) s2(2)] .
    with False t(1) show ?thesis by simp
  qed (use Cons.prems in simp)
qed simp

text \<open>Sorting by series, stably, does not change what the records build.\<close>

lemma run_sorted: "inv s \<Longrightarrow> run rs s = Inr s' \<Longrightarrow> run (sort_key series rs) s = Inr s'"
proof (induction rs arbitrary: s)
  case (Cons r rs)
  then obtain s1 where s1: "step r s = Inr s1" "run rs s1 = Inr s'"
    by (auto simp: result_simps)
  from Cons.IH [OF step_inv [OF Cons.prems(1) s1(1)] s1(2)]
  show ?case using run_insort [OF Cons.prems(1) s1(1)] by simp
qed simp

text \<open>A stable sort is the concatenation of the classes, in order.\<close>

lemma sort_classes:
  assumes "sorted_wrt (<) ks" and "series ` set rs \<subseteq> set ks"
  shows "sort_key series rs = concat (map (\<lambda>k. [r \<leftarrow> rs. series r = k]) ks)"
proof (rule properties_for_sort_key)
  let ?c = "\<lambda>ks. concat (map (\<lambda>k. [r \<leftarrow> rs. series r = k]) ks)"
  have f: "[r \<leftarrow> ?c ks. series r = k] = (if k \<in> set ks then [r \<leftarrow> rs. series r = k] else [])"
    if "sorted_wrt (<) ks" for ks k
    using that
  proof (induction ks)
    case (Cons j ks)
    then show ?case by (cases "j = k") (auto simp: filter_empty_conv)
  qed simp
  show "[x \<leftarrow> ?c ks. series k = series x] = [x \<leftarrow> rs. series k = series x]" if "k \<in> set (?c ks)" for k
    using that f [OF assms(1), of "series k"] by (auto simp: eq_commute)
  have "sorted (map series (?c ks))" if "sorted_wrt (<) ks" for ks
    using that
  proof (induction ks)
    case (Cons j ks)
    have "sorted (map series [r \<leftarrow> rs. series r = j])" by (induction rs) auto
    with Cons show ?case by (auto simp: sorted_append)
  qed simp
  with assms(1) show "sorted (map series (?c ks))" by blast
  have m: "mset (?c ks) = filter_mset (\<lambda>r. series r \<in> set ks) (mset rs)" if "sorted_wrt (<) ks" for ks
    using that
  proof (induction ks)
    case (Cons j ks)
    then have "j \<notin> set ks" by auto
    with Cons show ?case
      by (auto simp: multiset_eq_iff)
  qed simp
  have "filter_mset (\<lambda>r. series r \<in> set ks) (mset rs) = mset rs"
    using assms(2) by (auto simp: filter_mset_eq_conv)
  with m [OF assms(1)] show "mset (?c ks) = mset rs" by simp
qed

lemma run_classes:
  assumes "inv s" and "run rs s = Inr s'" and "sorted_wrt (<) ks" and "series ` set rs \<subseteq> set ks"
  shows "run (concat (map (\<lambda>k. [r \<leftarrow> rs. series r = k]) ks)) s = Inr s'"
  using run_sorted [OF assms(1,2)] sort_classes [OF assms(3,4)] by simp

end

subsection \<open>The records provide it\<close>

definition project :: "log_record \<Rightarrow> db \<Rightarrow> db result" where
  "project r d = rbind (apply_record r d) (\<lambda>(_, d'). Inr d')"

lemma project_eq: "project r d = Inr d' \<longleftrightarrow> (\<exists>a. apply_record r d = Inr (a, d'))"
  by (auto simp: project_def result_simps)

lemma apply_episodes_mono:
  assumes "apply_episodes r g p = Inr x" and "keys_sub (g_claims g) (g_claims g')"
  shows "apply_episodes r g' p = Inr x"
  using assms
  by (cases "(r, g, p)" rule: apply_episodes.cases)
    (auto simp: result_simps ap_promote_candidate_def keys_sub_def Let_def
      split: option.splits if_splits)

lemma project_commute:
  assumes ok: "db_ok d" and q: "project q d = Inr d1" and r: "project r d1 = Inr d2"
    and less: "series_of r < series_of q"
  shows "\<exists>d1'. project r d = Inr d1' \<and> project q d1' = Inr d2"
proof (cases "series_of r")
  case Log
  from q r Log obtain a g where g: "apply_graph r (db_graph d1) = Inr (a, g)"
    and d2: "d2 = d1 \<lparr> db_graph := g \<rparr>"
    by (auto simp: project_eq apply_record_def result_simps)
  consider "series_of q = Events" | "series_of q = Observations"
    using less Log by (cases "series_of q") auto
  then show ?thesis
  proof cases
    case 1
    with q obtain b p where p: "apply_episodes q (db_graph d) (db_episodes d) = Inr (b, p)"
      and d1: "d1 = d \<lparr> db_episodes := p \<rparr>"
      by (auto simp: project_eq apply_record_def result_simps)
    from g d1 have g': "apply_graph r (db_graph d) = Inr (a, g)" by simp
    then have "keys_sub (g_claims (db_graph d)) (g_claims g)"
      using ok apply_graph_ok [of "db_graph d" r] by (auto simp: db_ok_def step_ok_def grows_def)
    from apply_episodes_mono [OF p this] g' 1 Log d1 d2 show ?thesis
      by (auto simp: project_def apply_record_def)
  next
    case 2
    with q obtain b c where "apply_observed q (db_observed d) = Inr (b, c)"
      and "d1 = d \<lparr> db_observed := c \<rparr>"
      by (auto simp: project_eq apply_record_def result_simps)
    with g 2 Log d2 show ?thesis by (auto simp: project_def apply_record_def)
  qed
next
  case Events
  with less have obs: "series_of q = Observations"
    by (cases "series_of q") (auto simp: less_series_def series_pos_def)
  with q obtain b c where "apply_observed q (db_observed d) = Inr (b, c)"
    and "d1 = d \<lparr> db_observed := c \<rparr>"
    by (auto simp: project_eq apply_record_def result_simps)
  with r obs Events show ?thesis by (auto simp: project_def apply_record_def result_simps)
next
  case Observations
  with less show ?thesis
    by (cases "series_of q") (auto simp: less_series_def series_pos_def)
qed

interpretation proj: log_projection project series_of db_ok
proof
  show "db_ok d'" if "db_ok d" and "project r d = Inr d'" for d r d'
    using that by (auto simp: project_eq dest: apply_record_ok)
qed (rule project_commute)

abbreviation series_records :: "series \<Rightarrow> log_record list \<Rightarrow> log_record list" where
  "series_records k rs \<equiv> [r \<leftarrow> rs. series_of r = k]"

lemma series_all: "series_of r \<in> set [Log, Events, Observations]"
  by (cases "series_of r") simp_all

lemma project_by_series:
  assumes "db_ok d" and "rfold project rs d = Inr d'"
  shows "rfold project
    (series_records Log rs @ series_records Events rs @ series_records Observations rs) d = Inr d'"
proof -
  have "sorted_wrt (<) [Log, Events, Observations]"
    by (simp add: less_series_def series_pos_def)
  moreover have "series_of ` set rs \<subseteq> set [Log, Events, Observations]"
    using series_all by blast
  ultimately have "proj.run (concat (map (\<lambda>k. series_records k rs) [Log, Events, Observations])) d = Inr d'"
    using assms by (intro proj.run_classes) (simp_all add: proj.run_def)
  then show ?thesis by (simp add: proj.run_def)
qed

subsection \<open>Applying a record twice\<close>

text \<open>
  A record that was applied is applied again without any effect: most kinds find their id
  with identical content, the lifecycle kinds write the values that are already there.
\<close>

lemma already_True [simp]: "already True detail s = Inr (Duplicate, s)"
  by (simp add: already_def)

lemma rfold_fixpoint: "(\<And>x. x \<in> set xs \<Longrightarrow> f x s = Inr s) \<Longrightarrow> rfold f xs s = Inr s"
  by (induction xs) auto

lemma put_claim_same:
  "graph_ok g \<Longrightarrow> map_of (g_claims g) i = Some c \<Longrightarrow> put_claim i c g = g"
  by (simp add: put_claim_def tbl_put_same graph_ok_def claims_inv_def)

lemma ap_add_claim_again:
  assumes "ap_add_claim t i subj pred obj source agent kind conf prov scope g = Inr (a, g')"
  shows "\<exists>a. ap_add_claim t i subj pred obj source agent kind conf prov scope g' = Inr (a, g')"
  using assms
  by (auto simp: ap_add_claim_def result_simps insert_claim_def map_of_tbl_put
      split: option.splits)

lemma ensure_entity_frame:
  assumes "ensure_entity_on n now g = Inr g'"
  shows "g_participants g' = g_participants g \<and> g_hyperedges g' = g_hyperedges g"
  using assms
  by (auto simp: ensure_entity_on_def Let_def insert_entity_def update_entity_def result_simps
      split: option.splits if_splits)

lemma ensure_predicate_frame:
  assumes "ensure_predicate_known p prov ag now g = Inr g'"
  shows "g_participants g' = g_participants g \<and> g_hyperedges g' = g_hyperedges g"
  using assms
  by (auto simp: ensure_predicate_known_def insert_predicate_type_def insert_extension_def
      rebuild_predicate_closure_def Let_def result_simps split: if_splits)

lemma add_participants_rows:
  assumes "graph_ok g" and "rfold (add_participant t i) ps g = Inr g'"
  shows "g_hyperedges g' = g_hyperedges g \<and> participants_of g' i = participants_of g i @ ps"
  using assms
proof (induction ps arbitrary: g)
  case (Cons p ps)
  let ?row = "\<lparr> pr_hyperedge_id = i, pr_role = pi_role p, pr_entity = pi_entity p \<rparr>"
  from Cons.prems(2) obtain g2 where g2: "add_participant t i p g = Inr g2"
    and rest: "rfold (add_participant t i) ps g2 = Inr g'"
    by (auto simp: result_simps)
  from g2 obtain g1 where r: "ensure_entity_on (pi_entity p) t g = Inr g1"
    "insert_participant ?row g1 = Inr g2"
    by (auto simp: result_simps add_participant_def)
  have s1: "step_ok g g1" "map_of (g_entities g1) (pi_entity p) \<noteq> None"
    using ensure_entity_ok [OF Cons.prems(1) r(1)] by simp_all
  have s2: "step_ok g1 g2"
    using insert_participant_ok [OF step_okD(1) [OF s1(1)] r(2)] s1(2) by simp
  have tok: "tbl_ok (g_participants g1)" using s1(1) by (simp add: step_ok_def graph_ok_def parts_inv_def)
  have "tbl_put (next_rowid (g_participants g1)) ?row (g_participants g1)
      = g_participants g1 @ [(next_rowid (g_participants g1), ?row)]"
    using next_rowid_fresh [OF tok] by (intro tbl_put_snoc) auto
  with r(2) have "g_participants g2 = g_participants g1 @ [(next_rowid (g_participants g1), ?row)]"
    and "g_hyperedges g2 = g_hyperedges g1"
    by (auto simp: insert_participant_def result_simps)
  moreover from this have "participants_of g2 i = participants_of g1 i @ [p]"
    by (simp add: participants_of_def)
  moreover have "participants_of g1 i = participants_of g i \<and> g_hyperedges g1 = g_hyperedges g"
    using ensure_entity_frame [OF r(1)] by (simp add: participants_of_def)
  ultimately show ?case using Cons.IH [OF step_okD(1) [OF s2] rest] by simp
qed simp

lemma participants_of_missing:
  "graph_ok g \<Longrightarrow> map_of (g_hyperedges g) i = None \<Longrightarrow> participants_of g i = []"
  by (force simp: graph_ok_def parts_inv_def participants_of_def tbl_all_def filter_empty_conv)

lemma ap_add_hyperedge_again:
  assumes ok: "graph_ok g" and run: "ap_add_hyperedge t i pred prov conf refs ps g = Inr (a, g')"
  shows "\<exists>a. ap_add_hyperedge t i pred prov conf refs ps g' = Inr (a, g')"
proof (cases "map_of (g_hyperedges g) i")
  case None
  let ?h = "\<lparr> hr_predicate = pred, hr_provenance = prov, hr_confidence = conf, hr_source_refs = refs,
             hr_status = Active, hr_created_at = t, hr_updated_at = t \<rparr>"
  from None run obtain g1 g2 where
    r: "ensure_predicate_known pred prov ''local'' t g = Inr g1" "insert_hyperedge i ?h g1 = Inr g2"
      "rfold (add_participant t i) ps g2 = Inr g'"
    by (auto simp: ap_add_hyperedge_def result_simps)
  from r(2) have g2: "g2 = g1 \<lparr> g_hyperedges := tbl_put i ?h (g_hyperedges g1) \<rparr>"
    and chk: "passes (hyperedge_checks g1 ?h)"
    by (auto simp: insert_hyperedge_def result_simps)
  have "ap_add_hyperedge t i pred prov conf refs [] g = Inr (Applied, g2)"
    using None r(1,2) by (simp add: ap_add_hyperedge_def applied_def)
  then have ok2: "graph_ok g2" using ap_add_hyperedge_ok [OF ok] step_okD(1) by blast
  have "participants_of g2 i = participants_of g i"
    using ensure_predicate_frame [OF r(1)] by (simp add: participants_of_def g2)
  with add_participants_rows [OF ok2 r(3)] participants_of_missing [OF ok None]
  have "participants_of g' i = ps" and "map_of (g_hyperedges g') i = Some ?h"
    by (simp_all add: g2 map_of_tbl_put)
  moreover have "conf_close conf conf"
    using chk by (auto simp: hyperedge_checks_def in_unit_iff)
  ultimately show ?thesis by (simp add: ap_add_hyperedge_def)
next
  case (Some h)
  with run show ?thesis by (auto simp: ap_add_hyperedge_def result_simps)
qed

lemma ap_retire_claim_again:
  assumes "ap_retire_claim t i reason g = Inr (a, g')"
  shows "\<exists>a. ap_retire_claim t i reason g' = Inr (a, g')"
  using assms
  by (auto simp: ap_retire_claim_def result_simps Let_def put_claim_def map_of_tbl_put
      split: option.splits if_splits)

lemma ap_add_contradiction_again:
  assumes "ap_add_contradiction t i c reason n g = Inr (a, g')"
  shows "\<exists>a. ap_add_contradiction t i c reason n g' = Inr (a, g')"
  using assms
  by (auto simp: ap_add_contradiction_def result_simps insert_contradiction_def map_of_tbl_put
      split: option.splits)

lemma ap_merge_source_refs_again:
  assumes "graph_ok g" and "ap_merge_source_refs i refs promote g = Inr (a, g')"
  shows "\<exists>a. ap_merge_source_refs i refs promote g' = Inr (a, g')"
proof -
  have ok': "graph_ok g'" using ap_merge_source_refs_ok [OF assms] by (rule step_okD)
  have idem: "f64_max (f64_max x merge_floor) merge_floor = f64_max x merge_floor" for x
    by (simp add: f64_max_def merge_floor_def)
  have same: "put_claim i c (g \<lparr> g_claims := tbl_put i c (g_claims g) \<rparr>)
      = g \<lparr> g_claims := tbl_put i c (g_claims g) \<rparr>" for c
    using assms(1) by (simp add: put_claim_def graph_ok_def claims_inv_def tbl_ok_put tbl_put_same map_of_tbl_put)
  from assms(2) show ?thesis
    by (auto simp: ap_merge_source_refs_def result_simps Let_def idem same map_of_tbl_put
        put_claim_def [of i _ g] split: option.splits if_splits)
qed

lemma supersede_one_after:
  "supersede_one i g = Inr g' \<Longrightarrow> \<exists>c. map_of (g_claims g') i = Some c \<and> c_status c = Superseded"
  by (auto simp: supersede_one_def put_claim_def map_of_tbl_put split: option.splits if_splits)

lemma supersede_one_keeps:
  "supersede_one i g = Inr g' \<Longrightarrow> \<exists>c. map_of (g_claims g) j = Some c \<and> c_status c = Superseded \<Longrightarrow>
    \<exists>c. map_of (g_claims g') j = Some c \<and> c_status c = Superseded"
  by (auto simp: supersede_one_def put_claim_def map_of_tbl_put split: option.splits if_splits)

lemma supersede_all_after:
  "rfold supersede_one is g = Inr g' \<Longrightarrow>
    j \<in> set is \<or> (\<exists>c. map_of (g_claims g) j = Some c \<and> c_status c = Superseded) \<Longrightarrow>
    \<exists>c. map_of (g_claims g') j = Some c \<and> c_status c = Superseded"
proof (induction "is" arbitrary: g)
  case (Cons i "is")
  then obtain g1 where g1: "supersede_one i g = Inr g1" "rfold supersede_one is g1 = Inr g'"
    by (auto simp: result_simps)
  have "j \<in> set is \<or> (\<exists>c. map_of (g_claims g1) j = Some c \<and> c_status c = Superseded)"
    using Cons.prems(2) supersede_one_after [OF g1(1)] supersede_one_keeps [OF g1(1), of j] by auto
  with Cons.IH [OF g1(2)] show ?case by blast
qed simp

lemma ap_supersede_again:
  assumes "ap_supersede_claims is g = Inr (a, g')"
  shows "\<exists>a. ap_supersede_claims is g' = Inr (a, g')"
proof -
  from assms have run: "rfold supersede_one is g = Inr g'"
    by (auto simp: ap_supersede_claims_def result_simps)
  have "supersede_one i g' = Inr g'" if "i \<in> set is" for i
    using supersede_all_after [OF run, of i] that by (auto simp: supersede_one_def)
  then have "rfold supersede_one is g' = Inr g'" by (rule rfold_fixpoint)
  then show ?thesis by (simp add: ap_supersede_claims_def applied_def)
qed

text \<open>Decay: two claims tables that differ only in confidences the record overwrites.\<close>

definition agree_but :: "int set \<Rightarrow> graph \<Rightarrow> graph \<Rightarrow> bool" where
  "agree_but S g h \<longleftrightarrow>
     tbl_ok (g_claims g) \<and> tbl_ok (g_claims h) \<and> h = g \<lparr> g_claims := g_claims h \<rparr>
     \<and> (\<forall>i. map_of (g_claims h) i = map_of (g_claims g) i
            \<or> (i \<in> S \<and> (\<exists>c v. map_of (g_claims g) i = Some c
                              \<and> map_of (g_claims h) i = Some (c \<lparr> c_confidence := v \<rparr>))))"

lemma decay_agree:
  "agree_but (cc_claim_id ` set chs) g h \<Longrightarrow> rfold decay_one chs g = Inr g' \<Longrightarrow>
    rfold decay_one chs h = Inr g'"
proof (induction chs arbitrary: g h)
  case Nil
  then have "g_claims h = g_claims g"
    by (intro tbl_ext) (auto simp: agree_but_def)
  with Nil show ?case by (auto simp: agree_but_def)
next
  case (Cons ch chs)
  let ?i = "cc_claim_id ch" and ?v = "cc_confidence ch"
  from Cons.prems(2) obtain g1 where g1: "decay_one ch g = Inr g1" "rfold decay_one chs g1 = Inr g'"
    by (auto simp: result_simps)
  from g1(1) obtain c where c: "map_of (g_claims g) ?i = Some c"
    and chk: "passes (confidence_checks ?v)" and g1': "g1 = put_claim ?i (c \<lparr> c_confidence := ?v \<rparr>) g"
    by (auto simp: decay_one_def result_simps split: option.splits)
  from Cons.prems(1) c obtain d where d: "map_of (g_claims h) ?i = Some d"
    "d \<lparr> c_confidence := ?v \<rparr> = c \<lparr> c_confidence := ?v \<rparr>"
    unfolding agree_but_def by (metis claim.surjective claim.update_convs(6) c option.inject)
  let ?h1 = "put_claim ?i (c \<lparr> c_confidence := ?v \<rparr>) h"
  have h1: "decay_one ch h = Inr ?h1"
    using d chk by (simp add: decay_one_def result_simps)
  from Cons.prems(1) obtain hh where hh: "h = g \<lparr> g_claims := hh \<rparr>"
    unfolding agree_but_def by blast
  have "agree_but (cc_claim_id ` set chs) g1 ?h1"
    using Cons.prems(1) unfolding agree_but_def g1' hh
    by (auto simp: put_claim_def tbl_ok_put map_of_tbl_put)
  from Cons.IH [OF this g1(2)] h1 show ?case by simp
qed

lemma decay_changes:
  "tbl_ok (g_claims g) \<Longrightarrow> rfold decay_one chs g = Inr g' \<Longrightarrow>
    agree_but (cc_claim_id ` set chs) g g'"
proof (induction chs arbitrary: g)
  case Nil
  then show ?case by (simp add: agree_but_def)
next
  case (Cons ch chs)
  from Cons.prems(2) obtain g1 where g1: "decay_one ch g = Inr g1" "rfold decay_one chs g1 = Inr g'"
    by (auto simp: result_simps)
  from g1(1) obtain c where c: "map_of (g_claims g) (cc_claim_id ch) = Some c"
    and g1': "g1 = g \<lparr> g_claims := tbl_put (cc_claim_id ch) (c \<lparr> c_confidence := cc_confidence ch \<rparr>) (g_claims g) \<rparr>"
    by (auto simp: decay_one_def result_simps put_claim_def split: option.splits)
  have "agree_but (cc_claim_id ` set chs) g1 g'"
    using Cons.prems(1) by (intro Cons.IH [OF _ g1(2)]) (simp add: g1' tbl_ok_put)
  moreover from this obtain hh where "g' = g \<lparr> g_claims := hh \<rparr>"
    unfolding agree_but_def g1' by (metis graph.update_convs(1) graph.surjective)
  ultimately show ?case
    using c Cons.prems(1) unfolding agree_but_def g1'
    by (auto simp: map_of_tbl_put tbl_ok_put split: if_splits) (metis claim.update_convs)+
qed

lemma ap_decay_again:
  assumes "graph_ok g" and "ap_decay_confidence chs g = Inr (a, g')"
  shows "\<exists>a. ap_decay_confidence chs g' = Inr (a, g')"
proof -
  from assms(2) have run: "rfold decay_one chs g = Inr g'"
    by (auto simp: ap_decay_confidence_def result_simps)
  from assms(1) have "tbl_ok (g_claims g)" by (simp add: graph_ok_def claims_inv_def)
  from decay_agree [OF decay_changes [OF this run] run] show ?thesis
    by (simp add: ap_decay_confidence_def applied_def)
qed

lemma index_embedding_chunks [simp]: "g_chunks (index_embedding i e g) = g_chunks g"
  by (simp add: index_embedding_def)

lemma ap_add_vector_chunk_again:
  assumes "ap_add_vector_chunk t i c txt model emb g = Inr (a, g')"
  shows "\<exists>a. ap_add_vector_chunk t i c txt model emb g' = Inr (a, g')"
  using assms
  by (cases emb)
    (auto simp: ap_add_vector_chunk_def result_simps insert_chunk_def map_of_tbl_put
      split: option.splits)

lemma ap_embed_vector_chunk_again:
  assumes "ap_embed_vector_chunk i e g = Inr (a, g')"
  shows "\<exists>a. ap_embed_vector_chunk i e g' = Inr (a, g')"
  using assms
  by (auto simp: ap_embed_vector_chunk_def result_simps map_of_tbl_put split: option.splits)

lemmas handlers_again =
  ap_add_claim_again ap_add_hyperedge_again ap_retire_claim_again ap_add_contradiction_again
  ap_supersede_again ap_decay_again ap_merge_source_refs_again ap_add_vector_chunk_again
  ap_embed_vector_chunk_again

lemma apply_graph_again:
  assumes "graph_ok g" and "apply_graph r g = Inr (a, g')"
  shows "\<exists>a. apply_graph r g' = Inr (a, g')"
  using assms
  by (cases "(r, g)" rule: apply_graph.cases) (auto simp: result_simps dest: handlers_again)

lemma apply_episodes_again:
  assumes "apply_episodes r g p = Inr (a, p')"
  shows "\<exists>a. apply_episodes r g p' = Inr (a, p')"
  using assms
  by (cases "(r, g, p)" rule: apply_episodes.cases)
    (auto simp: result_simps ap_record_event_def insert_event_def ap_propose_candidate_def
      insert_candidate_def ap_promote_candidate_def ap_reject_candidate_def Let_def map_of_tbl_put
      split: option.splits if_splits)

lemma apply_observed_again:
  assumes "apply_observed r b = Inr (a, b')"
  shows "\<exists>a. apply_observed r b' = Inr (a, b')"
  using assms
  by (cases "(r, b)" rule: apply_observed.cases)
    (auto simp: result_simps ap_record_observation_def insert_observation_def
      ap_prune_observations_def insert_marker_def map_of_tbl_put split: option.splits)

lemma apply_record_again:
  assumes "db_ok d" and "apply_record r d = Inr (a, d')"
  shows "\<exists>a'. apply_record r d' = Inr (a', d')"
proof (cases "series_of r")
  case Log
  with assms show ?thesis
    by (auto simp: apply_record_def result_simps db_ok_def dest: apply_graph_again)
next
  case Events
  with assms show ?thesis
    by (auto simp: apply_record_def result_simps dest: apply_episodes_again)
next
  case Observations
  with assms show ?thesis
    by (auto simp: apply_record_def result_simps dest: apply_observed_again)
qed

end
