(* ===== verification/Projection_Props.thy ===== *)
theory Projection_Props
  imports Projection
begin

section \<open>What the projection guarantees\<close>

text \<open>
  The properties of \<open>apply_record\<close> and of replaying record sequences: preservation of the
  invariant, idempotence, independence of the interleaving of the three logs, and what each
  row of a rebuilt projection satisfies.
\<close>

lemma project_run_ok: "db_ok d \<Longrightarrow> rfold project rs d = Inr d' \<Longrightarrow> db_ok d'"
  by (metis proj.run_def proj.run_inv)

subsection \<open>A sample log\<close>

definition sample_claim :: log_record where
  "sample_claim =
     AddClaim 1700000000000 7 ''aver'' ''uses'' ''SQLite'' ''README.md'' ''local'' ''HUMAN''
       (Fin 1) None ''project''"

definition sample_event :: log_record where
  "sample_event =
     RecordEvent 1700000000001 8 ''s1'' ''user_message'' ''hello'' ''README.md'' ''local''
       ''HUMAN'' ''project''"

definition sample_retire :: log_record where
  "sample_retire = RetireClaim 1700000000002 7 ''stale''"

lemma sample_claim_ok: "is_ok (apply_record sample_claim init_db)"
  by code_simp

lemma sample_log_ok: "is_ok (rfold project [sample_event, sample_claim, sample_event, sample_retire] init_db)"
  by code_simp

lemma is_okE: assumes "is_ok r" obtains x where "r = Inr x"
  using assms by (auto simp: is_ok_iff)

subsection \<open>Invariant and idempotence\<close>

text \<open>
  C6. Applying a record to a good projection gives a good projection: every row satisfies the
  CHECK constraints, triggers and references of its table, the vocabulary stays acyclic with an
  up-to-date closure, the vector index holds exactly the embeddings of its dimension, and no
  row of any table is deleted.
\<close>

theorem apply_record_preserves_projection:
  assumes "db_ok d" and "apply_record r d = Inr (a, d')"
  shows "db_ok d' \<and> db_grows d d'"
  using assms by (rule apply_record_ok)

theorem apply_record_preserves_projection_witness:
  "\<exists>a d'. apply_record sample_claim init_db = Inr (a, d') \<and> db_ok d' \<and> db_grows init_db d'"
proof -
  obtain a d' where "apply_record sample_claim init_db = Inr (a, d')"
    using sample_claim_ok by (elim is_okE) (metis surj_pair)
  with apply_record_preserves_projection [OF init_db_ok this] show ?thesis by blast
qed

text \<open>
  Records are idempotent: a record that was applied successfully can be applied again at
  once, succeeds, and changes nothing.
\<close>

theorem apply_record_idempotent:
  assumes "db_ok d" and "apply_record r d = Inr (a, d')"
  shows "\<exists>a'. apply_record r d' = Inr (a', d')"
  using assms by (rule apply_record_again)

theorem apply_record_idempotent_witness:
  "\<exists>a d' a'. apply_record sample_claim init_db = Inr (a, d') \<and> apply_record sample_claim d' = Inr (a', d')"
proof -
  obtain a d' where "apply_record sample_claim init_db = Inr (a, d')"
    using sample_claim_ok by (elim is_okE) (metis surj_pair)
  with apply_record_idempotent [OF init_db_ok this] show ?thesis by blast
qed

subsection \<open>The three logs\<close>

text \<open>
  Replay reads the claims log, then the events log, then the observations log, although
  the records were written interleaved. If the records, in the order they were written, build
  a projection from a fresh database, the three logs read one after the other build exactly
  the same projection.
\<close>

theorem replay_order_irrelevant:
  assumes "rfold project rs init_db = Inr d"
  shows "rfold project
    (series_records Log rs @ series_records Events rs @ series_records Observations rs) init_db = Inr d"
  using init_db_ok assms by (rule project_by_series)

theorem replay_order_irrelevant_witness:
  "\<exists>d. rfold project [sample_event, sample_claim, sample_event, sample_retire] init_db = Inr d
     \<and> rfold project [sample_claim, sample_retire, sample_event, sample_event] init_db = Inr d"
proof -
  obtain d where d: "rfold project [sample_event, sample_claim, sample_event, sample_retire] init_db = Inr d"
    using sample_log_ok by (rule is_okE)
  with replay_order_irrelevant [OF d] show ?thesis
    by (simp add: sample_event_def sample_claim_def sample_retire_def)
qed

subsection \<open>Rows of a rebuilt projection\<close>

text \<open>
  Every claim a log builds from a fresh database is filed under its own id, has a
  predicate the vocabulary knows, a subject and an object registered as entities of existing
  types, a confidence in [0, 1], and a nonempty list of distinct source references.
\<close>

theorem rebuilt_claims_valid:
  assumes "rfold project rs init_db = Inr d" and "map_of (g_claims (db_graph d)) i = Some c"
  shows "c_id c = i \<and> predicate_known (db_graph d) (c_predicate c)
    \<and> (\<forall>n \<in> {c_subject c, c_object c}. \<exists>e. map_of (g_entities (db_graph d)) n = Some e
         \<and> map_of (g_entity_types (db_graph d)) (er_type_id e) \<noteq> None)
    \<and> in_unit (c_confidence c) \<and> c_source_refs c \<noteq> [] \<and> distinct (c_source_refs c)
    \<and> c_write_ts c \<le> cr_created_at c \<and> cr_created_at c \<le> cr_last_seen_at c"
proof -
  have ok: "graph_ok (db_graph d)"
    using project_run_ok [OF init_db_ok assms(1)] by (simp add: db_ok_def)
  then have c: "c_id c = i" "passes (claim_checks (db_graph d) c)"
    "map_of (g_entities (db_graph d)) (c_subject c) \<noteq> None"
    "map_of (g_entities (db_graph d)) (c_object c) \<noteq> None"
    using tbl_all_get [OF _ assms(2)] unfolding graph_ok_def claims_inv_def by blast+
  have typed: "map_of (g_entity_types (db_graph d)) (er_type_id e) \<noteq> None"
    if "map_of (g_entities (db_graph d)) n = Some e" for n e
  proof -
    have "passes (entity_checks (db_graph d) n e)"
      using ok tbl_all_get [OF _ that] unfolding graph_ok_def entities_inv_def by blast
    then show ?thesis by (auto simp: entity_checks_def)
  qed
  with c show ?thesis
    by (auto simp: claim_checks_def confidence_checks_def source_refs_checks_def last_seen_checks_def)
qed

theorem rebuilt_claims_valid_witness:
  "\<exists>d c. rfold project [sample_claim] init_db = Inr d \<and> map_of (g_claims (db_graph d)) 7 = Some c
     \<and> c_id c = 7 \<and> predicate_known (db_graph d) (c_predicate c)"
proof -
  have "is_ok (rfold project [sample_claim] init_db)" by code_simp
  then obtain d where d: "rfold project [sample_claim] init_db = Inr d" by (rule is_okE)
  then have "map_of (g_claims (db_graph d)) 7 \<noteq> None"
    by (auto simp: result_simps project_eq apply_record_def sample_claim_def agent_kind_from_str_def
        claim_provenance_def ap_add_claim_def insert_claim_def applied_def already_def init_tables
        map_of_tbl_put init_db_def split: option.splits)
  then obtain c where "map_of (g_claims (db_graph d)) 7 = Some c" by blast
  with rebuilt_claims_valid [OF d this] d show ?thesis by blast
qed

subsection \<open>What a record never changes\<close>

definition same_claim :: "claim_row \<Rightarrow> claim_row \<Rightarrow> bool" where
  "same_claim c c' \<longleftrightarrow>
     c_id c' = c_id c \<and> c_subject c' = c_subject c \<and> c_predicate c' = c_predicate c
     \<and> c_object c' = c_object c \<and> c_agent_id c' = c_agent_id c \<and> c_agent_kind c' = c_agent_kind c
     \<and> c_scope c' = c_scope c \<and> c_write_ts c' = c_write_ts c
     \<and> cr_created_at c' = cr_created_at c
     \<and> (c_status c \<noteq> Active \<longrightarrow> c_status c' \<noteq> Active)"

definition claims_kept :: "graph \<Rightarrow> graph \<Rightarrow> bool" where
  "claims_kept g g' \<longleftrightarrow>
     (\<forall>i c. map_of (g_claims g) i = Some c \<longrightarrow>
        (\<exists>c'. map_of (g_claims g') i = Some c' \<and> same_claim c c'))"

lemma claims_kept_refl [simp]: "claims_kept g g"
  by (simp add: claims_kept_def same_claim_def)

lemma claims_kept_same [simp]: "g_claims g' = g_claims g \<Longrightarrow> claims_kept g g'"
  by (simp add: claims_kept_def same_claim_def)

lemma same_claim_trans: "same_claim c d \<Longrightarrow> same_claim d e \<Longrightarrow> same_claim c e"
  by (simp add: same_claim_def)

lemma claims_kept_trans: "claims_kept g h \<Longrightarrow> claims_kept h k \<Longrightarrow> claims_kept g k"
  unfolding claims_kept_def by (blast intro: same_claim_trans)

lemma claims_kept_put:
  "map_of (g_claims g) i = Some c \<Longrightarrow> same_claim c c' \<Longrightarrow> claims_kept g (put_claim i c' g)"
  by (auto simp: claims_kept_def put_claim_def map_of_tbl_put same_claim_def)

lemma claims_kept_new:
  "map_of (g_claims g) i = None \<Longrightarrow> g_claims g' = g_claims g \<Longrightarrow>
    claims_kept g (g' \<lparr> g_claims := tbl_put i c (g_claims g') \<rparr>)"
  by (auto simp: claims_kept_def map_of_tbl_put same_claim_def)

lemma rfold_claims_kept:
  assumes "rfold f xs g = Inr g'" and "\<And>x h h'. f x h = Inr h' \<Longrightarrow> claims_kept h h'"
  shows "claims_kept g g'"
  using assms(1) by (rule rfold_invariant [where P = "claims_kept g"])
    (auto intro: claims_kept_trans assms(2))

lemma vocabulary_claims:
  "ensure_predicate_known p prov ag now g = Inr g' \<Longrightarrow> g_claims g' = g_claims g"
  "ensure_entity_on n now g = Inr g' \<Longrightarrow> g_claims g' = g_claims g"
  by (auto simp: ensure_predicate_known_def insert_predicate_type_def insert_extension_def
      rebuild_predicate_closure_def ensure_entity_on_def insert_entity_def update_entity_def
      Let_def result_simps split: option.splits if_splits)

lemma add_participant_claims: "add_participant t i p g = Inr g' \<Longrightarrow> claims_kept g g'"
  by (auto simp: add_participant_def insert_participant_def result_simps vocabulary_claims)

lemma add_claim_kept:
  "ap_add_claim t i subj pred obj source agent kind conf prov scope g = Inr (a, g') \<Longrightarrow> claims_kept g g'"
  by (auto simp: ap_add_claim_def applied_def already_def insert_claim_def result_simps
      dest!: vocabulary_claims intro!: claims_kept_new split: option.splits if_splits)

lemma add_hyperedge_kept:
  "ap_add_hyperedge t i pred prov conf refs ps g = Inr (a, g') \<Longrightarrow> claims_kept g g'"
  by (auto simp: ap_add_hyperedge_def applied_def already_def insert_hyperedge_def result_simps
      dest!: vocabulary_claims rfold_claims_kept [OF _ add_participant_claims]
      elim!: claims_kept_trans [rotated] split: option.splits if_splits)

lemma lifecycle_kept:
  "ap_retire_claim t i reason g = Inr (a, g') \<Longrightarrow> claims_kept g g'"
  "supersede_one i g = Inr g' \<Longrightarrow> claims_kept g g'"
  "decay_one ch g = Inr g' \<Longrightarrow> claims_kept g g'"
  "ap_merge_source_refs i refs promote g = Inr (a, g') \<Longrightarrow> claims_kept g g'"
  by (auto simp: ap_retire_claim_def supersede_one_def decay_one_def ap_merge_source_refs_def
      applied_def already_def Let_def same_claim_def result_simps
      intro!: claims_kept_put split: option.splits if_splits)

lemma notes_kept:
  "ap_add_contradiction t i c reason n g = Inr (a, g') \<Longrightarrow> claims_kept g g'"
  "ap_add_vector_chunk t i c txt model emb g = Inr (a, g') \<Longrightarrow> claims_kept g g'"
  "ap_embed_vector_chunk i e g = Inr (a, g') \<Longrightarrow> claims_kept g g'"
  by (auto simp: ap_add_contradiction_def insert_contradiction_def ap_add_vector_chunk_def
      ap_embed_vector_chunk_def insert_chunk_def index_embedding_def applied_def already_def
      result_simps split: option.splits if_splits)

lemma apply_graph_kept: "apply_graph r g = Inr (a, g') \<Longrightarrow> claims_kept g g'"
  by (cases "(r, g)" rule: apply_graph.cases)
    (auto simp: result_simps ap_supersede_claims_def ap_decay_confidence_def applied_def
      intro: add_claim_kept add_hyperedge_kept lifecycle_kept notes_kept
        rfold_claims_kept [OF _ lifecycle_kept(2)] rfold_claims_kept [OF _ lifecycle_kept(3)])

text \<open>
  C26. A claim's content is immutable: whatever record is applied, every claim of the projection
  is still there with the same subject, predicate, object, author, scope and creation time
  (status, confidence, provenance and source references are the mutable columns), and a claim
  that is SUPERSEDED or INVALIDATED never becomes ACTIVE again.
\<close>

theorem claims_immutable:
  assumes "apply_record r d = Inr (a, d')" and "map_of (g_claims (db_graph d)) i = Some c"
  shows "\<exists>c'. map_of (g_claims (db_graph d')) i = Some c' \<and> same_claim c c'"
proof -
  have "claims_kept (db_graph d) (db_graph d')"
    using assms(1) apply_graph_kept
    by (auto simp: apply_record_def result_simps split: series.splits)
  with assms(2) show ?thesis by (simp add: claims_kept_def)
qed

theorem claims_immutable_witness:
  "\<exists>d a d' c c'. apply_record sample_retire d = Inr (a, d')
     \<and> map_of (g_claims (db_graph d)) 7 = Some c
     \<and> map_of (g_claims (db_graph d')) 7 = Some c' \<and> same_claim c c'"
proof -
  have "is_ok (rfold project [sample_claim, sample_retire] init_db)" by code_simp
  then obtain d1 a d2 where d: "apply_record sample_retire d1 = Inr (a, d2)"
    "rfold project [sample_claim] init_db = Inr d1"
    by (auto simp: result_simps project_eq elim!: is_okE)
  then obtain c where c: "map_of (g_claims (db_graph d1)) 7 = Some c"
    by (auto simp: apply_record_def sample_retire_def ap_retire_claim_def result_simps split: option.splits)
  from claims_immutable [OF d(1) c] obtain c' where
    "map_of (g_claims (db_graph d2)) 7 = Some c'" "same_claim c c'" by blast
  with d(1) c show ?thesis by metis
qed

end
