(* ===== verification/Ids.thy ===== *)
theory Ids
  imports Prelude "HOL-Library.Word"
begin

section \<open>Writer-minted ids\<close>

text \<open>
  \<open>crates/aver-core/src/ids.rs\<close>: the store-wide generator on 64-bit words, as one call of
  \<open>IdGen::mint\<close> and as threads racing on the atomic \<open>last\<close>. The clock and the 12 random
  bits are inputs of each call.
\<close>

unbundle bit_operations_syntax

type_synonym i64 = "64 word"

definition EPOCH_MS :: i64 where
  "EPOCH_MS = 1704067200000"

definition RANDOM_BITS :: nat where
  "RANDOM_BITS = 12"

definition smax :: "i64 \<Rightarrow> i64 \<Rightarrow> i64" where
  "smax a b = (if a \<le>s b then b else a)"

definition seeded :: "i64 \<Rightarrow> i64" where
  "seeded seed = smax seed 0"

definition mint_elapsed :: "i64 \<Rightarrow> i64" where
  "mint_elapsed now_ms = smax (now_ms - EPOCH_MS) 0"

definition mint_candidate :: "i64 \<Rightarrow> i64 \<Rightarrow> i64" where
  "mint_candidate elapsed hash =
     (push_bit RANDOM_BITS elapsed) OR (hash AND (push_bit RANDOM_BITS 1 - 1))"

definition mint_next :: "i64 \<Rightarrow> i64 \<Rightarrow> i64 \<Rightarrow> i64" where
  "mint_next elapsed hash current = smax (mint_candidate elapsed hash) (current + 1)"

text \<open>One call without contention: the compare-and-exchange succeeds at once.\<close>

definition mint :: "i64 \<Rightarrow> i64 \<Rightarrow> i64 \<Rightarrow> i64" where
  "mint prev now_ms hash = mint_next (mint_elapsed now_ms) hash prev"

subsection \<open>Values\<close>

lemma sint_smax: "sint (smax a b) = max (sint a) (sint b)"
  by (simp add: smax_def word_sle_eq)

lemma sint_inc:
  assumes "sint (a :: i64) < 2 ^ 63 - 1"
  shows "sint (a + 1) = sint a + 1"
proof -
  have "sint (a + 1) = signed_take_bit 63 (sint a + 1)"
    by (simp add: signed_take_bit_add sint_word_ariths(1))
  also have "\<dots> = sint a + 1"
    using assms sint_ge [of a] by (intro signed_take_bit_int_eq_self) auto
  finally show ?thesis .
qed

lemma mint_increases:
  assumes "sint prev < 2 ^ 63 - 1"
  shows "sint prev < sint (mint_next elapsed hash prev)"
  using sint_inc [OF assms] by (simp add: mint_next_def sint_smax)

text \<open>With an elapsed time below 2^41 ms (until 2093) a candidate has 53 bits.\<close>

lemma sint_nonneg_uint: "uint (a :: i64) < 2 ^ 63 \<Longrightarrow> sint a = uint a"
  unfolding sint_uint by (rule signed_take_bit_int_eq_self) (simp_all add: order_trans [OF _ uint_ge_0])

lemma mint_candidate_uint:
  assumes "uint elapsed < 2 ^ 41"
  shows "uint (mint_candidate elapsed hash) = uint elapsed * 2 ^ 12 + uint hash mod 2 ^ 12"
proof -
  have shifted: "uint (push_bit 12 elapsed) = uint elapsed * 2 ^ 12"
    unfolding unsigned_push_bit_eq unfolding push_bit_eq_mult
    using assms by (intro take_bit_int_eq_self) simp_all
  have m: "hash AND (push_bit 12 1 - 1) = take_bit 12 hash"
    by (simp add: take_bit_eq_mask mask_eq_exp_minus_1 push_bit_eq_mult)
  have "push_bit 12 elapsed AND take_bit 12 hash = 0"
    by (rule bit_word_eqI) (simp add: bit_simps)
  then have "uint (push_bit 12 elapsed OR take_bit 12 hash)
      = uint (push_bit 12 elapsed + take_bit 12 hash)"
    by (simp only: disjunctive_add_eq_or)
  also have "\<dots> = uint elapsed * 2 ^ 12 + uint hash mod 2 ^ 12"
  proof -
    have low: "uint (take_bit 12 hash) = uint hash mod 2 ^ 12"
      by (subst unsigned_take_bit_eq) (simp add: take_bit_eq_mod)
    show ?thesis
      using assms pos_mod_bound [of "2 ^ 12" "uint hash"] uint_ge_0 [of elapsed]
      unfolding uint_word_ariths(1) shifted low by (intro mod_pos_pos_trivial) simp_all
  qed
  finally show ?thesis unfolding mint_candidate_def RANDOM_BITS_def m .
qed

lemma mint_candidate_bound:
  assumes "uint elapsed < 2 ^ 41"
  shows "0 \<le> sint (mint_candidate elapsed hash)" "sint (mint_candidate elapsed hash) < 2 ^ 53"
proof -
  have "uint (mint_candidate elapsed hash) < 2 ^ 53"
    using assms pos_mod_bound [of "2 ^ 12" "uint hash"] by (simp add: mint_candidate_uint)
  moreover from this have "sint (mint_candidate elapsed hash) = uint (mint_candidate elapsed hash)"
    by (intro sint_nonneg_uint) simp
  ultimately show "0 \<le> sint (mint_candidate elapsed hash)" "sint (mint_candidate elapsed hash) < 2 ^ 53"
    by simp_all
qed

subsection \<open>Threads racing on the atomic\<close>

text \<open>
  A thread reads the clock and loads \<open>last\<close>, then loops on \<open>compare_exchange_weak\<close>:
  on success the word is stored and returned, on failure (contention or a spurious one) the
  thread goes round with the value it observed. \<open>minted\<close> is the list of returned ids.
\<close>

datatype mint_pc = Idle | Racing i64 i64

record mint_state =
  last_id :: i64
  pcs :: "nat \<Rightarrow> mint_pc"
  minted :: "i64 list"

definition mint_init :: "i64 \<Rightarrow> mint_state" where
  "mint_init seed = \<lparr> last_id = seeded seed, pcs = (\<lambda>_. Idle), minted = [] \<rparr>"

inductive mint_step :: "mint_state \<Rightarrow> mint_state \<Rightarrow> bool" where
  load: "pcs s t = Idle \<Longrightarrow>
    mint_step s (s \<lparr> pcs := (pcs s)(t := Racing (mint_elapsed now_ms) (last_id s)) \<rparr>)"
| cas_ok: "pcs s t = Racing elapsed current \<Longrightarrow> last_id s = current \<Longrightarrow>
    mint_step s (s \<lparr> last_id := mint_next elapsed hash current,
                     pcs := (pcs s)(t := Idle),
                     minted := minted s @ [mint_next elapsed hash current] \<rparr>)"
| cas_fail: "pcs s t = Racing elapsed current \<Longrightarrow>
    mint_step s (s \<lparr> pcs := (pcs s)(t := Racing elapsed (last_id s)) \<rparr>)"

text \<open>Runs in which every clock reading lies before 2093.\<close>

definition clocks_ok :: "mint_state \<Rightarrow> bool" where
  "clocks_ok s \<longleftrightarrow> (\<forall>t e c. pcs s t = Racing e c \<longrightarrow> uint e < 2 ^ 41)"

inductive mint_run :: "i64 \<Rightarrow> mint_state \<Rightarrow> bool" for seed where
  start: "mint_run seed (mint_init seed)"
| next_step: "mint_run seed s \<Longrightarrow> mint_step s s' \<Longrightarrow> clocks_ok s' \<Longrightarrow> mint_run seed s'"

definition mint_inv :: "i64 \<Rightarrow> mint_state \<Rightarrow> bool" where
  "mint_inv seed s \<longleftrightarrow>
     sorted_wrt (\<lambda>a b. sint a < sint b) (minted s)
     \<and> (\<forall>i \<in> set (minted s). sint (seeded seed) < sint i \<and> sint i \<le> sint (last_id s))
     \<and> sint (seeded seed) \<le> sint (last_id s)
     \<and> sint (last_id s) \<le> max (sint seed) (2 ^ 53) + int (length (minted s))"

lemma mint_inv_step:
  assumes "mint_inv seed s" and "mint_step s s'" and "clocks_ok s"
    and "max (sint seed) (2 ^ 53) + int (length (minted s')) < 2 ^ 63"
  shows "mint_inv seed s'"
  using assms(2)
proof cases
  case (cas_ok t elapsed current hash)
  let ?new = "mint_next elapsed hash current"
  have room: "sint (last_id s) < 2 ^ 63 - 1"
    using assms(1,4) cas_ok(1) by (auto simp: mint_inv_def)
  have "uint elapsed < 2 ^ 41"
    using assms(3) cas_ok(2) by (auto simp: clocks_ok_def)
  then have "sint ?new \<le> max (2 ^ 53) (sint (last_id s) + 1)"
    using mint_candidate_bound(2) [of elapsed hash] sint_inc [OF room] cas_ok(3)
    by (simp add: mint_next_def sint_smax)
  moreover have "sint (last_id s) < sint ?new"
    using mint_increases [OF room] cas_ok(3) by simp
  ultimately show ?thesis
    using assms(1) cas_ok(1) by (fastforce simp: mint_inv_def sorted_wrt_append)
qed (use assms(1) in \<open>auto simp: mint_inv_def\<close>)

text \<open>
  C40. Ids are unique and strictly increasing in the order in which they are returned, whatever
  threads share the generator and however their compare-and-exchange loops interleave, and
  every id is above the seed taken from the log tails. The bound excludes the wrap of
  \<open>current + 1\<close>, which needs 2^63 - 2^53 calls.
\<close>

theorem minted_ids_strictly_increase:
  assumes "mint_run seed s" and "max (sint seed) (2 ^ 53) + int (length (minted s)) < 2 ^ 63"
  shows "sorted_wrt (\<lambda>a b. sint a < sint b) (minted s)
    \<and> distinct (minted s) \<and> (\<forall>i \<in> set (minted s). max 0 (sint seed) < sint i)"
proof -
  have inv: "mint_inv seed s \<and> clocks_ok s"
    using assms
  proof (induction rule: mint_run.induct)
    case start
    show ?case by (simp add: mint_inv_def mint_init_def clocks_ok_def seeded_def sint_smax)
  next
    case (next_step s s')
    have "length (minted s) \<le> length (minted s')"
      using next_step(2) by cases auto
    with next_step show ?case using mint_inv_step by auto
  qed
  have "distinct (minted s)" if "sorted_wrt (\<lambda>a b. sint a < sint b) (minted s)"
    using that by (metis distinct_map sorted_wrt_map strict_sorted_iff)
  with inv show ?thesis by (auto simp: mint_inv_def seeded_def sint_smax)
qed

theorem minted_ids_strictly_increase_witness:
  "\<exists>s :: mint_state. length (minted s) = 1 \<and> sorted_wrt (\<lambda>a b. sint a < sint b) (minted s)
    \<and> distinct (minted s) \<and> (\<forall>i \<in> set (minted s). max 0 (sint (7 :: i64)) < sint i)"
proof -
  let ?e = "mint_elapsed EPOCH_MS"
  let ?s1 = "mint_init 7 \<lparr> pcs := (pcs (mint_init 7))(0 := Racing ?e (last_id (mint_init 7))) \<rparr>"
  let ?id = "mint_next ?e 5 (last_id ?s1)"
  let ?s2 = "?s1 \<lparr> last_id := ?id, pcs := (pcs ?s1)(0 := Idle), minted := minted ?s1 @ [?id] \<rparr>"
  have e: "uint ?e < 2 ^ 41" by code_simp
  have "mint_step (mint_init 7) ?s1" by (rule mint_step.load) (simp add: mint_init_def)
  with e have "mint_run 7 ?s1"
    by (intro mint_run.next_step [OF mint_run.start]) (auto simp: clocks_ok_def mint_init_def)
  moreover have "mint_step ?s1 ?s2" by (rule mint_step.cas_ok) simp_all
  ultimately have run: "mint_run 7 ?s2"
    by (rule mint_run.next_step) (simp add: clocks_ok_def mint_init_def)
  have "length (minted ?s2) = 1" by (simp add: mint_init_def)
  with run obtain s where s: "mint_run 7 s" "length (minted s) = 1" by blast
  have "max (sint (7 :: i64)) (2 ^ 53) + int (length (minted s)) < 2 ^ 63" by (simp add: s(2))
  from minted_ids_strictly_increase [OF s(1) this] s(2) show ?thesis by blast
qed

text \<open>
  One mint: the id is above the previous one, stays a 53-bit integer that JSON and
  JavaScript keep exactly while the clock reads before 2093 and the previous id did, and its
  high bits are the mint time whenever the clock is ahead of the previous id.
\<close>

theorem mint_bounds:
  assumes "0 \<le> sint prev" and "sint prev < 2 ^ 53 - 1" and "uint (mint_elapsed now_ms) < 2 ^ 41"
  shows "sint prev < sint (mint prev now_ms hash)
    \<and> sint (mint prev now_ms hash) < 2 ^ 53
    \<and> (sint prev < uint (mint_elapsed now_ms) * 2 ^ 12 \<longrightarrow>
         drop_bit 12 (mint prev now_ms hash) = mint_elapsed now_ms)"
proof (intro conjI impI)
  let ?e = "mint_elapsed now_ms" and ?c = "mint_candidate (mint_elapsed now_ms) hash"
  have room: "sint prev < 2 ^ 63 - 1" using assms(2) by simp
  show "sint prev < sint (mint prev now_ms hash)"
    unfolding mint_def by (rule mint_increases [OF room])
  show "sint (mint prev now_ms hash) < 2 ^ 53"
    using mint_candidate_bound(2) [OF assms(3), of hash] sint_inc [OF room] assms(2)
    by (simp add: mint_def mint_next_def sint_smax)
  assume ahead: "sint prev < uint ?e * 2 ^ 12"
  have u: "uint ?c = uint ?e * 2 ^ 12 + uint hash mod 2 ^ 12"
    using assms(3) by (rule mint_candidate_uint)
  then have "uint ?c < 2 ^ 63"
    using assms(3) pos_mod_bound [of "2 ^ 12" "uint hash"] by simp
  then have "sint ?c = uint ?c" by (rule sint_nonneg_uint)
  with u ahead have le: "sint (prev + 1) \<le> sint ?c"
    using sint_inc [OF room] pos_mod_sign [of "2 ^ 12" "uint hash"] by simp
  have eq: "mint prev now_ms hash = ?c"
  proof (cases "?c \<le>s prev + 1")
    case True
    with le have "sint ?c = sint (prev + 1)" by (simp add: word_sle_eq)
    then have "?c = prev + 1" by (rule signed_word_eqI)
    then show ?thesis by (simp add: mint_def mint_next_def smax_def)
  qed (simp add: mint_def mint_next_def smax_def)
  show "drop_bit 12 (mint prev now_ms hash) = ?e"
  proof (rule word_uint_eqI)
    have "uint (drop_bit 12 ?c) = uint ?c div 2 ^ 12"
      by (subst unsigned_drop_bit_eq) (use uint_lt2p [of ?c] in \<open>simp add: drop_bit_eq_div take_bit_int_eq_self\<close>)
    then show "uint (drop_bit 12 (mint prev now_ms hash)) = uint ?e"
      using pos_mod_bound [of "2 ^ 12" "uint hash"] pos_mod_sign [of "2 ^ 12" "uint hash"]
      unfolding eq u by simp
  qed
qed

theorem mint_bounds_witness:
  "sint (41 :: i64) < sint (mint 41 1735689600000 5)
    \<and> sint (mint 41 1735689600000 5) < 2 ^ 53
    \<and> drop_bit 12 (mint 41 1735689600000 5) = mint_elapsed 1735689600000"
proof -
  have "sint (41 :: i64) < uint (mint_elapsed 1735689600000) * 2 ^ 12" by code_simp
  moreover have "0 \<le> sint (41 :: i64)" "sint (41 :: i64) < 2 ^ 53 - 1"
    "uint (mint_elapsed 1735689600000) < 2 ^ 41"
    by code_simp+
  ultimately show ?thesis
    using mint_bounds [of 41 1735689600000 5] by blast
qed

end
