(* ===== verification/Privacy.thy ===== *)
theory Privacy
  imports Validation
begin

section \<open>The privacy filter\<close>

text \<open>
  \<open>crates/aver-core/src/privacy.rs\<close>: the filters of paths and of content that every write
  passes before the log is touched. The entropy test of the code compares a sum of
  logarithms with 4.5; \<open>shannon_entropy\<close> is that sum over the reals, and
  \<open>high_entropy_code\<close> decides the comparison on integers, so the model evaluates.
\<close>

subsection \<open>Paths\<close>

text \<open>
  The code spells out, for a directory \<open>d\<close>, \<open>starts_with(d) || contains("/" + d)\<close>, and for
  a file \<open>f\<close>, \<open>== f || ends_with("/" + f)\<close>.
\<close>

definition in_dir :: "str \<Rightarrow> str \<Rightarrow> bool" where
  "in_dir p d \<longleftrightarrow> starts_with p d \<or> contains_sub p (''/'' @ d)"

definition at_file :: "str \<Rightarrow> str \<Rightarrow> bool" where
  "at_file p f \<longleftrightarrow> p = f \<or> ends_with p (''/'' @ f)"

definition secrets_files :: "str list" where
  "secrets_files =
     [''.netrc'', ''.git-credentials'', ''auth.json'', ''.nuget/NuGet/NuGet.Config'',
      ''.m2/settings.xml'', ''.gradle/gradle.properties'', ''.bundle/config'',
      ''.vault-token'', ''.sentryclirc'', ''.npmrc'', ''.pnpmrc'', ''.yarnrc.yml'',
      ''.pypirc'', ''.gem/credentials'', ''.cargo/credentials.toml'',
      ''.docker/config.json'', ''.kube/config'', ''.azure/accessTokens.json'',
      ''.azure/msal_token_cache.json'', ''.terraform.d/credentials.tfrc.json'',
      ''.pulumi/credentials.json'', ''.oci/config'']"

definition secrets_path :: "str \<Rightarrow> bool" where
  "secrets_path p \<longleftrightarrow>
     list_ex (in_dir p) [''.secrets.d/'', ''.age/'', ''.gnupg/'']
     \<or> starts_with p ''~/.secrets.d/''
     \<or> list_ex (at_file p) secrets_files
     \<or> list_ex (ends_with p) [''application_default_credentials.json'', ''.kdbx'', ''.kdb'']"

definition env_segment :: "str \<Rightarrow> bool" where
  "env_segment seg \<longleftrightarrow> seg = ''.env'' \<or> seg = ''.envrc'' \<or> starts_with seg ''.env.''"

definition key_suffixes :: "str list" where
  "key_suffixes = [''.pem'', ''.key'', ''.p12'', ''.pfx'', ''.ppk'', ''.jks'', ''.keystore'']"

definition privacy_filter_path :: "str \<Rightarrow> privacy_rejection + unit" where
  "privacy_filter_path p =
     (if secrets_path p then Inl SecretsPath
      else if list_ex env_segment (split_on ((=) (CHR ''/'')) p) then Inl EnvPath
      else if in_dir p ''.ssh/'' then Inl SshPath
      else if at_file p ''.aws/credentials'' \<or> at_file p ''.aws/config''
              \<or> in_dir p ''.aws/sso/cache/'' then Inl AwsCredentialsPath
      else if in_dir p ''.config/'' then Inl ConfigPath
      else if list_ex (ends_with p) key_suffixes then Inl KeyPath
      else Inr ())"

text \<open>Every test of the filter survives a directory put in front of the path.\<close>

lemma suffix_extend: "suffix x p \<Longrightarrow> suffix x (d @ p)"
  by (rule suffix_appendI)

lemma in_dir_extend: "in_dir p d \<Longrightarrow> in_dir (q @ ''/'' @ p) d"
proof -
  assume "in_dir p d"
  then obtain a b where "''/'' @ p = a @ (''/'' @ d) @ b"
    unfolding in_dir_def contains_sub_iff prefix_def
    by (metis append.left_neutral append_Cons append_assoc)
  then have "q @ ''/'' @ p = (q @ a) @ (''/'' @ d) @ b" by simp
  then show ?thesis unfolding in_dir_def contains_sub_iff by blast
qed

lemma at_file_extend: "at_file p f \<Longrightarrow> at_file (q @ ''/'' @ p) f"
  by (auto simp: at_file_def suffix_def)

lemma list_ex_mono: "list_ex P xs \<Longrightarrow> (\<And>x. P x \<Longrightarrow> Q x) \<Longrightarrow> list_ex Q xs"
  by (auto simp: list_ex_iff)

lemma secrets_path_extend:
  assumes "secrets_path p"
  shows "secrets_path (q @ ''/'' @ p)"
proof -
  have "list_ex (in_dir (q @ ''/'' @ p)) [''.secrets.d/'', ''.age/'', ''.gnupg/'']"
    if pre: "starts_with p ''~/.secrets.d/''"
  proof -
    from pre obtain b where "p = ''~/.secrets.d/'' @ b" by (auto simp: prefix_def)
    then have "q @ ''/'' @ p = (q @ ''/~'') @ (''/'' @ ''.secrets.d/'') @ b" by simp
    then have "in_dir (q @ ''/'' @ p) ''.secrets.d/''"
      unfolding in_dir_def contains_sub_iff by blast
    then show ?thesis by simp
  qed
  moreover have "list_ex (in_dir (q @ ''/'' @ p)) ds" if "list_ex (in_dir p) ds" for ds
    using that by (rule list_ex_mono) (rule in_dir_extend)
  moreover have "list_ex (at_file (q @ ''/'' @ p)) fs" if "list_ex (at_file p) fs" for fs
    using that by (rule list_ex_mono) (rule at_file_extend)
  moreover have "list_ex (ends_with (q @ ''/'' @ p)) fs" if "list_ex (ends_with p) fs" for fs
    using that by (rule list_ex_mono) (simp add: suffix_appendI suffix_ConsI)
  ultimately show ?thesis
    using assms unfolding secrets_path_def by blast
qed

subsection \<open>Tokens\<close>

definition secret_token_boundary :: "char \<Rightarrow> bool" where
  "secret_token_boundary c \<longleftrightarrow>
     \<not> (is_ascii_alphanumeric c \<or> c = CHR ''_'' \<or> c = CHR ''-'')"

definition jwt_token_boundary :: "char \<Rightarrow> bool" where
  "jwt_token_boundary c \<longleftrightarrow>
     \<not> (is_ascii_alphanumeric c \<or> c = CHR ''_'' \<or> c = CHR ''-'' \<or> c = CHR ''.'')"

definition shannon_entropy :: "str \<Rightarrow> real" where
  "shannon_entropy tok =
     (\<Sum>c\<leftarrow>remdups tok. let p = real (count_list tok c) / real (length tok)
                     in - p * log 2 p)"

definition high_entropy :: "str \<Rightarrow> bool" where
  "high_entropy tok \<longleftrightarrow> length tok > 20 \<and> shannon_entropy tok > 9 / 2"

definition is_jwt :: "str \<Rightarrow> bool" where
  "is_jwt tok =
     (case split_on ((=) (CHR ''.'')) tok of
        [header, claims, signature] \<Rightarrow>
          starts_with header ''eyJ'' \<and> length header \<ge> 10 \<and> length claims \<ge> 10
          \<and> length signature \<ge> 10
      | _ \<Rightarrow> False)"

definition is_aws_access_key :: "str \<Rightarrow> bool" where
  "is_aws_access_key tok \<longleftrightarrow>
     length tok = 20 \<and> starts_with tok ''AKIA''
     \<and> list_all (\<lambda>c. is_ascii_uppercase c \<or> is_ascii_digit c) tok"

definition has_token :: "str \<Rightarrow> str \<Rightarrow> nat \<Rightarrow> bool" where
  "has_token content pre n \<longleftrightarrow>
     list_ex (\<lambda>tok. starts_with tok pre \<and> length tok \<ge> n)
       (split_on secret_token_boundary content)"

definition alnum_tokens :: "str \<Rightarrow> str list" where
  "alnum_tokens content = split_on (\<lambda>c. \<not> is_ascii_alphanumeric c) content"

definition private_key_markers :: "str list" where
  "private_key_markers =
     [''BEGIN PRIVATE KEY'', ''BEGIN OPENSSH PRIVATE KEY'', ''BEGIN ENCRYPTED PRIVATE KEY'',
      ''BEGIN PGP PRIVATE KEY BLOCK'', ''BEGIN RSA PRIVATE KEY'', ''BEGIN EC PRIVATE KEY'',
      ''BEGIN DSA PRIVATE KEY'', ''BEGIN SSH2 ENCRYPTED PRIVATE KEY'',
      ''PuTTY-User-Key-File-'', ''AGE-SECRET-KEY-'']"

subsection \<open>The entropy test on integers\<close>

lemma count_list_pos: "c \<in> set tok \<Longrightarrow> 0 < count_list tok c"
  by (metis count_list_0_iff gr0I)

lemma shannon_entropy_sum:
  assumes "tok \<noteq> []"
  shows "real (length tok) * shannon_entropy tok =
    real (length tok) * log 2 (real (length tok))
    - (\<Sum>c\<in>set tok. real (count_list tok c) * log 2 (real (count_list tok c)))"
proof -
  let ?n = "real (length tok)" and ?k = "\<lambda>c. real (count_list tok c)"
  have n: "?n > 0" using assms by simp
  have term_eq: "?n * (- (?k c / ?n) * log 2 (?k c / ?n)) = ?k c * log 2 ?n - ?k c * log 2 (?k c)"
    if "c \<in> set tok" for c
  proof -
    from that have "?k c > 0" by (simp add: count_list_pos)
    then have "log 2 (?k c / ?n) = log 2 (?k c) - log 2 ?n" using n by (simp add: log_divide)
    moreover have "?n * (- (?k c / ?n) * log 2 (?k c / ?n)) = - ?k c * log 2 (?k c / ?n)"
      using n by simp
    ultimately show ?thesis by (simp only:) (simp add: algebra_simps)
  qed
  have "?n * shannon_entropy tok = (\<Sum>c\<in>set tok. ?n * (- (?k c / ?n) * log 2 (?k c / ?n)))"
    by (simp add: shannon_entropy_def Let_def sum.distinct_set_conv_list [symmetric]
        sum_distrib_left sum_list_distinct_conv_sum_set)
  also have "\<dots> = (\<Sum>c\<in>set tok. ?k c * log 2 ?n - ?k c * log 2 (?k c))"
    by (rule sum.cong) (simp_all only: term_eq)
  also have "\<dots> = (\<Sum>c\<in>set tok. ?k c) * log 2 ?n - (\<Sum>c\<in>set tok. ?k c * log 2 (?k c))"
    by (simp add: sum_subtractf sum_distrib_right)
  also have "(\<Sum>c\<in>set tok. ?k c) = ?n"
    by (simp flip: of_nat_sum add: sum_count_set)
  finally show ?thesis .
qed

lemma high_entropy_code [code]:
  "high_entropy tok \<longleftrightarrow>
     (let n = length tok
      in 20 < n \<and> 2 ^ (9 * n) * (\<Prod>c\<leftarrow>remdups tok. count_list tok c ^ (2 * count_list tok c))
              < n ^ (2 * n))"
proof (cases "length tok > 20")
  case True
  let ?n = "length tok" and ?k = "count_list tok"
  let ?P = "\<Prod>c\<in>set tok. ?k c ^ (2 * ?k c)"
  have pos: "?k c > 0" if "c \<in> set tok" for c using that by (simp add: count_list_pos)
  have P: "real ?P > 0" by (auto intro!: prod_pos simp: pos)
  have ne: "tok \<noteq> []" "real ?n > 0" using True by auto
  have "log 2 (real ?P) = (\<Sum>c\<in>set tok. log 2 (real (?k c) ^ (2 * ?k c)))"
    by (simp add: log_def ln_prod pos sum_divide_distrib)
  also have "\<dots> = 2 * (\<Sum>c\<in>set tok. real (?k c) * log 2 (real (?k c)))"
    by (simp add: sum_distrib_left log_nat_power pos mult.assoc)
  finally have logP: "log 2 (real ?P) = 2 * (\<Sum>c\<in>set tok. real (?k c) * log 2 (real (?k c)))" .
  have "shannon_entropy tok > 9 / 2 \<longleftrightarrow> 2 * (real ?n * shannon_entropy tok) > 9 * real ?n"
    using ne by (simp add: field_simps)
  also have "\<dots> \<longleftrightarrow> 9 * real ?n + log 2 (real ?P) < 2 * (real ?n * log 2 (real ?n))"
    using shannon_entropy_sum [OF ne(1)] logP by (intro iffI; linarith)
  also have "9 * real ?n + log 2 (real ?P) = log 2 (real (2 ^ (9 * ?n) * ?P))"
  proof -
    have "log 2 (real (2 ^ (9 * ?n)) * real ?P) = log 2 (2 ^ (9 * ?n)) + log 2 (real ?P)"
      using P by (subst log_mult_pos) auto
    then show ?thesis by (simp add: log_nat_power del: of_nat_prod)
  qed
  also have "2 * (real ?n * log 2 (real ?n)) = log 2 (real (?n ^ (2 * ?n)))"
    using ne by (simp add: log_nat_power)
  also have "log 2 (real (2 ^ (9 * ?n) * ?P)) < log 2 (real (?n ^ (2 * ?n)))
      \<longleftrightarrow> 2 ^ (9 * ?n) * ?P < ?n ^ (2 * ?n)"
    using P ne by (subst log_less_cancel_iff) (auto simp del: of_nat_mult of_nat_power)
  finally show ?thesis
    using True by (simp add: high_entropy_def Let_def prod.distinct_set_conv_list [symmetric])
qed (simp add: high_entropy_def Let_def)

text \<open>Entropy is bounded by the logarithm of the number of distinct bytes.\<close>

lemma entropy_term:
  fixes p m :: real
  assumes p: "0 < p" and m: "0 < m"
  shows "- p * log 2 p - p * log 2 m \<le> (1 / m - p) / ln 2"
proof -
  have "- p * log 2 p - p * log 2 m = p * ln (1 / (p * m)) / ln 2"
    using p m by (simp add: log_def ln_div ln_mult_pos field_simps)
  also have "\<dots> \<le> p * (1 / (p * m) - 1) / ln 2"
    using ln_le_minus_one [of "1 / (p * m)"] p m by (intro divide_right_mono mult_left_mono) auto
  also have "p * (1 / (p * m) - 1) = 1 / m - p"
    using p m by (simp add: field_simps)
  finally show ?thesis .
qed

lemma shannon_entropy_distinct:
  assumes "tok \<noteq> []"
  shows "shannon_entropy tok \<le> log 2 (real (card (set tok)))"
proof -
  let ?n = "real (length tok)" and ?m = "real (card (set tok))"
  let ?p = "\<lambda>c. real (count_list tok c) / ?n"
  have n: "?n > 0" and m: "?m > 0" using assms by (simp_all add: card_gt_0_iff)
  have p: "?p c > 0" if "c \<in> set tok" for c using that n by (simp add: count_list_pos)
  have "(\<Sum>c\<in>set tok. ?p c) = (\<Sum>c\<in>set tok. real (count_list tok c)) / ?n"
    by (simp add: sum_divide_distrib)
  also have "\<dots> = 1" using n by (simp flip: of_nat_sum add: sum_count_set)
  finally have one: "(\<Sum>c\<in>set tok. ?p c) = 1" .
  have bound: "- ?p c * log 2 (?p c) - ?p c * log 2 ?m \<le> (1 / ?m - ?p c) / ln 2"
    if c: "c \<in> set tok" for c
    using p [OF c] m by (rule entropy_term)
  have "shannon_entropy tok - log 2 ?m
      = (\<Sum>c\<in>set tok. - ?p c * log 2 (?p c)) - (\<Sum>c\<in>set tok. ?p c) * log 2 ?m"
    by (simp only: one) (simp add: shannon_entropy_def Let_def sum_list_distinct_conv_sum_set)
  also have "\<dots> = (\<Sum>c\<in>set tok. - ?p c * log 2 (?p c) - ?p c * log 2 ?m)"
    by (simp add: sum_subtractf sum_distrib_right)
  also have "\<dots> \<le> (\<Sum>c\<in>set tok. (1 / ?m - ?p c) / ln 2)"
    by (rule sum_mono) (rule bound)
  also have "\<dots> = ((\<Sum>c\<in>set tok. 1 / ?m) - (\<Sum>c\<in>set tok. ?p c)) / ln 2"
    unfolding sum_divide_distrib [symmetric] sum_subtractf by (rule refl)
  also have "(\<Sum>c\<in>set tok. 1 / ?m) = 1" using assms by simp
  also note one
  finally show ?thesis by simp
qed

lemma few_distinct_not_high_entropy:
  assumes "card (set tok) \<le> 22"
  shows "\<not> high_entropy tok"
proof (cases "tok = []")
  case False
  let ?m = "real (card (set tok))"
  have m: "?m > 0" using False by (simp add: card_gt_0_iff)
  from assms have "?m \<le> 22" by simp
  then have sq: "?m ^ 2 \<le> 22 ^ 2" using m by (intro power_mono) auto
  have "2 * log 2 ?m = log 2 (?m ^ 2)" using m by (simp add: log_nat_power)
  also have "\<dots> \<le> log 2 (22 ^ 2)"
    using sq m by (subst log_le_cancel_iff) auto
  also have "\<dots> \<le> log 2 (2 ^ 9)"
    by (subst log_le_cancel_iff) auto
  also have "\<dots> = 9" by (subst log_nat_power) auto
  finally show ?thesis
    using shannon_entropy_distinct [OF False] by (simp add: high_entropy_def)
qed (simp add: high_entropy_def)

subsection \<open>Content\<close>

definition privacy_filter :: "str \<Rightarrow> privacy_rejection + unit" where
  "privacy_filter content =
     (if (case lines content of [] \<Rightarrow> False | l # _ \<Rightarrow> trim l = ''<!-- memory:ignore -->'')
         \<or> list_ex (\<lambda>l. contains_sub l ''# memory:ignore'') (lines content)
      then Inl MemoryIgnore
      else if list_ex (contains_sub content) private_key_markers then Inl PrivateKey
      else if list_ex is_aws_access_key (alnum_tokens content) then Inl AwsAccessKey
      else if has_token content ''ghp_'' 40 then Inl GitHubPat
      else if has_token content ''gho_'' 30 then Inl GitHubPat
      else if has_token content ''ghu_'' 30 then Inl GitHubPat
      else if has_token content ''github_pat_'' 40 then Inl GitHubFineGrainedPat
      else if has_token content ''glpat-'' 20 then Inl HighEntropy
      else if has_token content ''hf_'' 30 then Inl HighEntropy
      else if has_token content ''lin_api_'' 30 then Inl HighEntropy
      else if has_token content ''npm_'' 30 then Inl HighEntropy
      else if has_token content ''tskey-auth-'' 30 then Inl HighEntropy
      else if has_token content ''tskey-api-'' 30 then Inl HighEntropy
      else if list_ex is_jwt (split_on jwt_token_boundary content) then Inl Jwt
      else if has_token content ''sk-ant-'' 30 then Inl AnthropicKey
      else if has_token content ''sk_live_'' 30 then Inl StripeLiveKey
      else if list_ex (\<lambda>tok. (starts_with tok ''xoxb-'' \<or> starts_with tok ''xoxp-''
                               \<or> starts_with tok ''xapp-'') \<and> length tok \<ge> 20)
                (split_on secret_token_boundary content)
        then Inl HighEntropy
      else if has_token content ''sk-'' 30 then Inl OpenAiKey
      else if list_ex high_entropy (alnum_tokens content) then Inl HighEntropy
      else Inr ())"

text \<open>The prefixes with the length from which a token is a secret.\<close>

definition secret_prefixes :: "(str \<times> nat) list" where
  "secret_prefixes =
     [(''ghp_'', 40), (''gho_'', 30), (''ghu_'', 30), (''github_pat_'', 40), (''glpat-'', 20),
      (''hf_'', 30), (''lin_api_'', 30), (''npm_'', 30), (''tskey-auth-'', 30),
      (''tskey-api-'', 30), (''sk-ant-'', 30), (''sk_live_'', 30), (''sk-'', 30),
      (''xoxb-'', 20), (''xoxp-'', 20), (''xapp-'', 20)]"

lemma privacy_filter_passes:
  assumes "privacy_filter content = Inr u"
  shows "(pre, n) \<in> set secret_prefixes \<Longrightarrow> \<not> has_token content pre n"
    and "\<not> list_ex high_entropy (alnum_tokens content)"
    and "\<not> list_ex is_aws_access_key (alnum_tokens content)"
    and "\<not> list_ex (contains_sub content) private_key_markers"
  using assms
  by (auto simp: privacy_filter_def secret_prefixes_def has_token_def list_ex_iff
        split: if_splits)

subsection \<open>What the filters guarantee\<close>

lemma has_token_delimited:
  assumes "\<forall>c \<in> set tok. \<not> secret_token_boundary c"
    and "a = [] \<or> secret_token_boundary (last a)" and "b = [] \<or> secret_token_boundary (hd b)"
    and "starts_with tok pre" and "n \<le> length tok"
  shows "has_token (a @ tok @ b) pre n"
  using split_on_token [of tok secret_token_boundary a b] assms
  by (auto simp: has_token_def list_ex_iff)

text \<open>
  A secret never passes the content filter: a token that starts with one of the known
  prefixes, is at least as long as that kind of secret and stands between two boundary
  characters (or at an end of the text) makes \<open>privacy_filter\<close> refuse the whole content,
  whatever surrounds it.
\<close>

theorem secret_token_rejected:
  assumes "(pre, n) \<in> set secret_prefixes" and "starts_with tok pre" and "n \<le> length tok"
    and "\<forall>c \<in> set tok. \<not> secret_token_boundary c"
    and "a = [] \<or> secret_token_boundary (last a)" and "b = [] \<or> secret_token_boundary (hd b)"
  shows "\<exists>r. privacy_filter (a @ tok @ b) = Inl r"
proof (cases "privacy_filter (a @ tok @ b)")
  case (Inr u)
  from privacy_filter_passes(1) [OF this assms(1)] has_token_delimited [OF assms(4-6,2,3)]
  show ?thesis by blast
qed blast

theorem secret_token_rejected_witness:
  "\<exists>r. privacy_filter (''key = '' @ ''hf_abcdefghijklmnopqrstuvwxyz012345'' @ '' done'') = Inl r"
  by (rule secret_token_rejected [of "''hf_''" 30])
    (simp_all add: secret_prefixes_def secret_token_boundary_def ascii_defs less_eq_char_def)

lemma privacy_filter_path_rejects:
  "(\<exists>r. privacy_filter_path p = Inl r) \<longleftrightarrow>
     secrets_path p \<or> list_ex env_segment (split_on ((=) (CHR ''/'')) p)
     \<or> in_dir p ''.ssh/'' \<or> at_file p ''.aws/credentials'' \<or> at_file p ''.aws/config''
     \<or> in_dir p ''.aws/sso/cache/'' \<or> in_dir p ''.config/'' \<or> list_ex (ends_with p) key_suffixes"
  by (simp add: privacy_filter_path_def)

text \<open>
  A sensitive path stays rejected wherever its tree is mounted: if
  \<open>privacy_filter_path\<close> refuses a path, it refuses it below every directory too.
\<close>

theorem sensitive_path_below_directory:
  assumes "\<exists>r. privacy_filter_path p = Inl r"
  shows "\<exists>r. privacy_filter_path (d @ ''/'' @ p) = Inl r"
proof -
  let ?q = "d @ ''/'' @ p"
  have split: "split_on ((=) (CHR ''/'')) ?q
      = split_on ((=) (CHR ''/'')) d @ split_on ((=) (CHR ''/'')) p"
    using split_on_append_sep [of "(=) (CHR ''/'')" "CHR ''/''" d p] by simp
  have "list_ex (ends_with ?q) fs" if "list_ex (ends_with p) fs" for fs
    using that by (rule list_ex_mono) (simp add: suffix_appendI suffix_ConsI)
  moreover have "list_ex env_segment (split_on ((=) (CHR ''/'')) ?q)"
    if "list_ex env_segment (split_on ((=) (CHR ''/'')) p)"
    using that unfolding split list_ex_append by (rule disjI2)
  ultimately show ?thesis
    using assms secrets_path_extend [of p d] in_dir_extend [of p _ d] at_file_extend [of p _ d]
    unfolding privacy_filter_path_rejects by blast
qed

theorem sensitive_path_below_directory_witness:
  "\<exists>r. privacy_filter_path (''home'' @ ''/'' @ ''.kube/config'') = Inl r"
  by (rule sensitive_path_below_directory)
    (simp add: privacy_filter_path_def secrets_path_def secrets_files_def at_file_def)

text \<open>
  The entropy detector has no false positives on hexadecimal digests: a token with at
  most 22 distinct characters is never a high-entropy token, whatever its length. Together
  with \<open>high_entropy_code\<close> this is the exact meaning of the 4.5 bit threshold.
\<close>

theorem low_alphabet_passes_entropy:
  assumes "set tok \<subseteq> alphabet" and "finite alphabet" and "card alphabet \<le> 22"
  shows "\<not> high_entropy tok"
  using assms card_mono [of alphabet "set tok"] by (intro few_distinct_not_high_entropy) auto

theorem low_alphabet_passes_entropy_witness:
  "\<not> high_entropy ''da39a3ee5e6b4b0d3255bfef95601890afd80709''"
  by (rule low_alphabet_passes_entropy [of _ "set ''0123456789abcdef''"]) simp_all

end
