(* ===== verification/Store.thy ===== *)
theory Store
  imports Projection_Props Ids Privacy
begin

section \<open>The store and its transactions\<close>

text \<open>
  \<open>Store\<close> of \<open>crates/aver-core/src/store.rs\<close>: the SQLite projection, the three append-only
  logs and the id generator. An operation reads and changes the store and returns a result;
  unlike a pure function returning \<open>Result\<close>, a failing operation keeps what it changed before
  the failure, which is exactly what a log line written before a failing projection write is.
  What the outside decides during one operation is an \<open>env\<close>: whether the write lock is free,
  the clock, the hash of the random state, and for each append what the file system does.
\<close>

datatype append_outcome =
    Appended                \<comment> \<open>the line is written and synced\<close>
  | Not_Appended error      \<comment> \<open>serialisation, directory, lock, open or write failed: no line\<close>
  | Unsynced error          \<comment> \<open>the line is written, \<open>sync_data\<close> failed\<close>

record env =
  en_busy :: bool
  en_now :: int
  en_ms :: i64
  en_hash :: i64
  en_disk :: "log_record list \<Rightarrow> log_record \<Rightarrow> append_outcome"

record store =
  st_db :: db
  st_rejections :: "(str, int) table"
  st_log :: "log_record list"
  st_events :: "log_record list"
  st_observations :: "log_record list"
  st_last :: i64

type_synonym 'a op = "store \<Rightarrow> 'a result \<times> store"

subsection \<open>Sequencing\<close>

definition op_ret :: "'a \<Rightarrow> 'a op" where
  "op_ret x s = (Inr x, s)"

definition op_of :: "'a result \<Rightarrow> 'a op" where
  "op_of r s = (r, s)"

definition op_read :: "(db \<Rightarrow> 'a result) \<Rightarrow> 'a op" where
  "op_read f s = (f (st_db s), s)"

definition op_bind :: "'a op \<Rightarrow> ('a \<Rightarrow> 'b op) \<Rightarrow> 'b op" where
  "op_bind m f s = (case m s of (Inl e, s') \<Rightarrow> (Inl e, s') | (Inr x, s') \<Rightarrow> f x s')"

definition op_then :: "'a op \<Rightarrow> 'b op \<Rightarrow> 'b op" where
  "op_then m n = op_bind m (\<lambda>_. n)"

fun op_each :: "('a \<Rightarrow> 'b op) \<Rightarrow> 'a list \<Rightarrow> 'b list op" where
  "op_each f [] = op_ret []"
| "op_each f (x # xs) = op_bind (f x) (\<lambda>y. op_bind (op_each f xs) (\<lambda>ys. op_ret (y # ys)))"

lemma op_bind_cases [tx_simps]:
  "op_bind m f s = (r, s'') \<longleftrightarrow>
     (\<exists>e. m s = (Inl e, s'') \<and> r = Inl e) \<or> (\<exists>x s'. m s = (Inr x, s') \<and> f x s' = (r, s''))"
  by (auto simp: op_bind_def split: prod.splits sum.splits)

lemma op_then_cases [tx_simps]:
  "op_then m n s = (r, s'') \<longleftrightarrow>
     (\<exists>e. m s = (Inl e, s'') \<and> r = Inl e) \<or> (\<exists>x s'. m s = (Inr x, s') \<and> n s' = (r, s''))"
  by (simp add: op_then_def op_bind_cases)

lemma op_basic [tx_simps]:
  "op_ret x s = (r, s') \<longleftrightarrow> r = Inr x \<and> s' = s"
  "op_of q s = (r, s') \<longleftrightarrow> r = q \<and> s' = s"
  "op_read f s = (r, s') \<longleftrightarrow> r = f (st_db s) \<and> s' = s"
  by (auto simp: op_ret_def op_of_def op_read_def)

subsection \<open>Logs, ids, privacy\<close>

fun log_of :: "series \<Rightarrow> store \<Rightarrow> log_record list" where
  "log_of Log s = st_log s"
| "log_of Events s = st_events s"
| "log_of Observations s = st_observations s"

fun push_log :: "series \<Rightarrow> log_record \<Rightarrow> store \<Rightarrow> store" where
  "push_log Log r s = s \<lparr> st_log := st_log s @ [r] \<rparr>"
| "push_log Events r s = s \<lparr> st_events := st_events s @ [r] \<rparr>"
| "push_log Observations r s = s \<lparr> st_observations := st_observations s @ [r] \<rparr>"

definition append_jsonl :: "env \<Rightarrow> series \<Rightarrow> log_record \<Rightarrow> unit op" where
  "append_jsonl ev k r s =
     (case en_disk ev (log_of k s) r of
        Appended \<Rightarrow> (Inr (), push_log k r s)
      | Not_Appended e \<Rightarrow> (Inl e, s)
      | Unsynced e \<Rightarrow> (Inl e, push_log k r s))"

definition apply_op :: "log_record \<Rightarrow> unit op" where
  "apply_op r s =
     (case apply_record r (st_db s) of
        Inl e \<Rightarrow> (Inl e, s)
      | Inr (_, d) \<Rightarrow> (Inr (), s \<lparr> st_db := d \<rparr>))"

definition logged :: "env \<Rightarrow> series \<Rightarrow> log_record \<Rightarrow> unit op" where
  "logged ev k r = op_then (append_jsonl ev k r) (apply_op r)"

definition mint_op :: "env \<Rightarrow> int op" where
  "mint_op ev s =
     (let i = mint (st_last s) (en_ms ev) (en_hash ev)
      in (Inr (sint i), s \<lparr> st_last := i \<rparr>))"

text \<open>
  \<open>BEGIN IMMEDIATE\<close>, the body, then \<open>COMMIT\<close> or \<open>ROLLBACK\<close>: a failure restores the database,
  not the logs nor the id generator.
\<close>

definition transaction :: "env \<Rightarrow> 'a op \<Rightarrow> 'a op" where
  "transaction ev body s =
     (if en_busy ev then (Inl (ESqlite ''database is locked''), s)
      else (case body s of
              (Inr x, s') \<Rightarrow> (Inr x, s')
            | (Inl e, s') \<Rightarrow> (Inl e, s' \<lparr> st_db := st_db s, st_rejections := st_rejections s \<rparr>)))"

definition rejection_count :: "store \<Rightarrow> privacy_rejection \<Rightarrow> int" where
  "rejection_count s r =
     (case map_of (st_rejections s) (telemetry_reason r) of None \<Rightarrow> 0 | Some n \<Rightarrow> n)"

definition record_privacy_rejection :: "privacy_rejection \<Rightarrow> unit op" where
  "record_privacy_rejection r s =
     (Inr (), s \<lparr> st_rejections := tbl_put (telemetry_reason r) (rejection_count s r + 1)
                                            (st_rejections s) \<rparr>)"

definition recording :: "privacy_rejection + unit \<Rightarrow> unit op" where
  "recording v =
     (case v of
        Inr _ \<Rightarrow> op_ret ()
      | Inl r \<Rightarrow> op_then (record_privacy_rejection r) (op_of (Inl (EPrivacy r))))"

definition privacy_filter_recording :: "str \<Rightarrow> unit op" where
  "privacy_filter_recording content = recording (privacy_filter content)"

definition privacy_filter_path_recording :: "str \<Rightarrow> unit op" where
  "privacy_filter_path_recording path = recording (privacy_filter_path path)"

fun privacy_paths_recording :: "str list \<Rightarrow> unit op" where
  "privacy_paths_recording [] = op_ret ()"
| "privacy_paths_recording (p # ps) =
     op_then (privacy_filter_path_recording p) (privacy_paths_recording ps)"

text \<open>A fresh store: \<open>Store::open\<close> on an empty directory.\<close>

definition fresh_store :: store where
  "fresh_store =
     \<lparr> st_db = init_db, st_rejections = [], st_log = [], st_events = [], st_observations = [],
       st_last = seeded 0 \<rparr>"

subsection \<open>What the steps of an operation do\<close>

text \<open>
  An operation is quiet when it changes neither database nor logs (ids and rejection counts
  may change). \<open>reads\<close> is the contract of a step that only reads and checks.
\<close>

named_theorems quiet_intros \<open>operations that only read, check and count\<close>

definition same_data :: "store \<Rightarrow> store \<Rightarrow> bool" where
  "same_data s s' \<longleftrightarrow>
     st_db s' = st_db s \<and> (\<forall>k. log_of k s' = log_of k s)"

definition quiet :: "'a op \<Rightarrow> bool" where
  "quiet m \<longleftrightarrow> (\<forall>s r s'. m s = (r, s') \<longrightarrow> same_data s s')"

lemma same_data_refl [simp]: "same_data s s"
  by (simp add: same_data_def)

lemma same_data_trans: "same_data s t \<Longrightarrow> same_data t u \<Longrightarrow> same_data s u"
  by (simp add: same_data_def)

lemma log_of_update [simp]:
  "log_of k (s \<lparr> st_db := d \<rparr>) = log_of k s"
  "log_of k (s \<lparr> st_rejections := t \<rparr>) = log_of k s"
  "log_of k (s \<lparr> st_last := i \<rparr>) = log_of k s"
  by (cases k; simp)+

lemma push_log_simps [simp]:
  "st_db (push_log k r s) = st_db s" "st_rejections (push_log k r s) = st_rejections s"
  "st_last (push_log k r s) = st_last s"
  "log_of j (push_log k r s) = (if j = k then log_of k s @ [r] else log_of j s)"
  by (cases k; cases j; simp)+

declare push_log.simps [simp del]

lemma quiet_basic [quiet_intros, simp]:
  "quiet (op_ret x)" "quiet (op_of q)" "quiet (op_read f)" "quiet (mint_op ev)"
  "quiet (record_privacy_rejection r)"
  by (auto simp: quiet_def tx_simps mint_op_def Let_def record_privacy_rejection_def same_data_def)

lemma quiet_bind [quiet_intros]: "quiet m \<Longrightarrow> (\<And>x. quiet (f x)) \<Longrightarrow> quiet (op_bind m f)"
  unfolding quiet_def by (auto simp: op_bind_cases) (blast intro: same_data_trans)+

lemma quiet_then [quiet_intros]: "quiet m \<Longrightarrow> quiet n \<Longrightarrow> quiet (op_then m n)"
  unfolding op_then_def by (rule quiet_bind)

lemma quiet_recording [quiet_intros, simp]:
  "quiet (recording v)" "quiet (privacy_filter_recording c)" "quiet (privacy_filter_path_recording p)"
proof -
  show r: "quiet (recording v)" for v
    by (cases v) (auto simp: recording_def intro: quiet_intros)
  show "quiet (privacy_filter_recording c)" "quiet (privacy_filter_path_recording p)"
    by (simp_all add: privacy_filter_recording_def privacy_filter_path_recording_def r)
qed

lemma quiet_paths [quiet_intros, simp]: "quiet (privacy_paths_recording ps)"
  by (induction ps) (auto intro: quiet_intros)

lemma quiet_each [quiet_intros]: "(\<And>x. quiet (f x)) \<Longrightarrow> quiet (op_each f xs)"
  by (induction xs) (auto intro!: quiet_intros)

lemma recording_ok [tx_simps]: "recording v s = (Inr u, s') \<longleftrightarrow> v = Inr () \<and> s' = s"
  by (cases v) (auto simp: recording_def tx_simps)

lemma privacy_filter_recording_ok [tx_simps]:
  "privacy_filter_recording c s = (Inr u, s') \<longleftrightarrow> privacy_filter c = Inr () \<and> s' = s"
  "privacy_filter_path_recording p s = (Inr u, s') \<longleftrightarrow> privacy_filter_path p = Inr () \<and> s' = s"
  by (simp_all add: privacy_filter_recording_def privacy_filter_path_recording_def recording_ok)

lemma privacy_paths_recording_ok [tx_simps]:
  "privacy_paths_recording ps s = (Inr u, s') \<longleftrightarrow>
     (\<forall>p \<in> set ps. privacy_filter_path p = Inr ()) \<and> s' = s"
  by (induction ps arbitrary: s) (auto simp: tx_simps)

end
