(* ===== verification/Store_Sync.thy ===== *)
theory Store_Sync
  imports Store "HOL-Library.Sublist"
begin

section \<open>Log and projection in step\<close>

text \<open>
  The contract every store operation keeps. \<open>in_sync\<close>: the projection is what the logged
  records build, in some order that interleaves the three logs. An operation is \<open>sound\<close> when
  logs only grow and, started in step, it ends in step unless it fails after writing a line;
  \<open>derails\<close> is that failure, the only way projection and log can part.
\<close>

named_theorems sound_intros \<open>operations that keep log and projection in step\<close>

definition in_sync :: "store \<Rightarrow> bool" where
  "in_sync s \<longleftrightarrow>
     (\<exists>rs. rfold project rs init_db = Inr (st_db s) \<and> (\<forall>k. log_of k s = series_records k rs))"

definition same_logs :: "store \<Rightarrow> store \<Rightarrow> bool" where
  "same_logs s s' \<longleftrightarrow> (\<forall>k. log_of k s' = log_of k s)"

definition logs_grow :: "store \<Rightarrow> store \<Rightarrow> bool" where
  "logs_grow s s' \<longleftrightarrow> (\<forall>k. prefix (log_of k s) (log_of k s'))"

definition derails :: "'a result \<Rightarrow> store \<Rightarrow> store \<Rightarrow> bool" where
  "derails r s s' \<longleftrightarrow> \<not> is_ok r \<and> \<not> same_logs s s'"

definition sound :: "'a op \<Rightarrow> bool" where
  "sound m \<longleftrightarrow>
     (\<forall>s r s'. m s = (r, s') \<longrightarrow>
        logs_grow s s' \<and> (in_sync s \<longrightarrow> in_sync s' \<or> derails r s s'))"

lemma same_logs_refl [simp]: "same_logs s s"
  by (simp add: same_logs_def)

lemma logs_grow_refl [simp]: "logs_grow s s"
  by (simp add: logs_grow_def)

lemma logs_grow_trans: "logs_grow s t \<Longrightarrow> logs_grow t u \<Longrightarrow> logs_grow s u"
  unfolding logs_grow_def by (blast intro: prefix_order.trans)

lemma same_logs_between: "logs_grow s t \<Longrightarrow> logs_grow t u \<Longrightarrow> same_logs s u \<Longrightarrow> same_logs t u"
  unfolding logs_grow_def same_logs_def by (metis prefix_order.antisym)

lemma same_data_sync: "same_data s s' \<Longrightarrow> in_sync s \<Longrightarrow> in_sync s'"
  by (simp add: in_sync_def same_data_def)

lemma same_data_logs: "same_data s s' \<Longrightarrow> same_logs s s' \<and> logs_grow s s'"
  by (simp add: same_data_def same_logs_def logs_grow_def)

lemma sound_quiet: "quiet m \<Longrightarrow> sound m"
  unfolding quiet_def sound_def by (blast intro: same_data_sync dest: same_data_logs)

lemma sound_bind [sound_intros]:
  assumes m: "sound m" and f: "\<And>x. sound (f x)"
  shows "sound (op_bind m f)"
  unfolding sound_def
proof (intro allI impI)
  fix s r s''
  assume run: "op_bind m f s = (r, s'')"
  consider (fail) e where "m s = (Inl e, s'')" "r = Inl e"
    | (ok) x t where "m s = (Inr x, t)" "f x t = (r, s'')"
    using run by (auto simp: op_bind_cases)
  then show "logs_grow s s'' \<and> (in_sync s \<longrightarrow> in_sync s'' \<or> derails r s s'')"
  proof cases
    case fail
    with m have "logs_grow s s'' \<and> (in_sync s \<longrightarrow> in_sync s'' \<or> derails (Inl e :: 'a result) s s'')"
      unfolding sound_def by blast
    with fail(2) show ?thesis by (simp add: derails_def)
  next
    case ok
    with m f have "logs_grow s t" "logs_grow t s''" "in_sync s \<longrightarrow> in_sync t \<or> derails (Inr x) s t"
      "in_sync t \<longrightarrow> in_sync s'' \<or> derails r t s''"
      unfolding sound_def by blast+
    moreover from this(1,2) have "derails r t s'' \<Longrightarrow> derails r s s''"
      using same_logs_between by (auto simp: derails_def)
    ultimately show ?thesis by (auto simp: derails_def intro: logs_grow_trans)
  qed
qed

lemma sound_then [sound_intros]: "sound m \<Longrightarrow> sound n \<Longrightarrow> sound (op_then m n)"
  unfolding op_then_def by (rule sound_bind)

lemmas sound_atoms [sound_intros] =
  quiet_basic [THEN sound_quiet] quiet_recording [THEN sound_quiet] quiet_paths [THEN sound_quiet]

lemma sound_each [sound_intros]: "(\<And>x. sound (f x)) \<Longrightarrow> sound (op_each f xs)"
  by (induction xs) (auto intro!: sound_intros)

lemma in_sync_push:
  assumes "in_sync s" and "project r (st_db s) = Inr d" and "series_of r = k"
  shows "in_sync (push_log k r s \<lparr> st_db := d \<rparr>)"
proof -
  from assms(1) obtain rs where rs: "rfold project rs init_db = Inr (st_db s)"
    "\<And>k. log_of k s = series_records k rs"
    unfolding in_sync_def by blast
  have "rfold project (rs @ [r]) init_db = Inr d"
    using rs(1) assms(2) by (simp add: rfold_append)
  with rs(2) assms(3) show ?thesis
    unfolding in_sync_def by (intro exI [of _ "rs @ [r]"]) auto
qed

text \<open>One logged record: the line first, then the projection.\<close>

lemma logged_cases:
  assumes run: "logged ev k r s = (q, s')"
  obtains (kept) e where "q = Inl e" "s' = s"
    | (line) e where "q = Inl e" "s' = push_log k r s"
    | (written) d where "q = Inr ()" "project r (st_db s) = Inr d" "s' = push_log k r s \<lparr> st_db := d \<rparr>"
proof (cases "en_disk ev (log_of k s) r")
  case Appended
  then have app: "append_jsonl ev k r s = (Inr (), push_log k r s)" by (simp add: append_jsonl_def)
  show thesis
  proof (cases "apply_record r (st_db s)")
    case (Inl e)
    with app run have "q = Inl e" "s' = push_log k r s"
      by (simp_all add: logged_def op_then_def op_bind_def apply_op_def)
    then show thesis by (rule line)
  next
    case (Inr x)
    obtain a d where x: "x = (a, d)" by (cases x)
    with Inr app run have "q = Inr ()" "s' = push_log k r s \<lparr> st_db := d \<rparr>"
      by (simp_all add: logged_def op_then_def op_bind_def apply_op_def)
    moreover from Inr x have "project r (st_db s) = Inr d" by (simp add: project_def)
    ultimately show thesis by (intro written)
  qed
next
  case (Not_Appended e)
  with run have "q = Inl e" "s' = s"
    by (simp_all add: logged_def op_then_def op_bind_def append_jsonl_def)
  then show thesis by (rule kept)
next
  case (Unsynced e)
  with run have "q = Inl e" "s' = push_log k r s"
    by (simp_all add: logged_def op_then_def op_bind_def append_jsonl_def)
  then show thesis by (rule line)
qed

lemma sound_logged [sound_intros]: "series_of r = k \<Longrightarrow> sound (logged ev k r)"
  unfolding sound_def
proof (intro allI impI)
  fix s q s'
  assume k: "series_of r = k" and run: "logged ev k r s = (q, s')"
  from run show "logs_grow s s' \<and> (in_sync s \<longrightarrow> in_sync s' \<or> derails q s s')"
  proof (cases rule: logged_cases)
    case kept
    then show ?thesis by simp
  next
    case line
    then have "log_of k s' \<noteq> log_of k s" by simp
    then have "derails q s s'" using line(1) unfolding derails_def same_logs_def by auto
    with line(2) show ?thesis by (simp add: logs_grow_def)
  next
    case (written d)
    have "in_sync s \<longrightarrow> in_sync s'" using in_sync_push [OF _ written(2) k] written(3) by blast
    with written(3) show ?thesis by (simp add: logs_grow_def)
  qed
qed

lemma transaction_cases:
  assumes run: "transaction ev m s = (r, s')"
  obtains (busy) "r = Inl (ESqlite ''database is locked'')" "s' = s"
    | (ok) x where "m s = (Inr x, s')" "r = Inr x" "\<not> en_busy ev"
    | (fail) e t where "m s = (Inl e, t)" "r = Inl e"
        "s' = t \<lparr> st_db := st_db s, st_rejections := st_rejections s \<rparr>"
proof (cases "en_busy ev")
  case True
  with run show thesis by (intro busy) (simp_all add: transaction_def)
next
  case False
  obtain q t where q: "m s = (q, t)" by (cases "m s")
  show thesis
  proof (cases q)
    case (Inl e)
    with False q run show thesis by (intro fail [of e t]) (simp_all add: transaction_def)
  next
    case (Inr x)
    with False q run show thesis by (intro ok [of x]) (simp_all add: transaction_def)
  qed
qed

lemma sound_transaction [sound_intros]:
  assumes "sound m"
  shows "sound (transaction ev m)"
  unfolding sound_def
proof (intro allI impI)
  fix s r s'
  assume run: "transaction ev m s = (r, s')"
  from run show "logs_grow s s' \<and> (in_sync s \<longrightarrow> in_sync s' \<or> derails r s s')"
  proof (cases rule: transaction_cases)
    case busy
    then show ?thesis by simp
  next
    case (ok x)
    with assms show ?thesis unfolding sound_def by blast
  next
    case (fail e t)
    with assms have "logs_grow s t" unfolding sound_def by blast
    with fail have grow: "logs_grow s s'" by (simp add: logs_grow_def)
    have "in_sync s \<longrightarrow> in_sync s' \<or> \<not> same_logs s s'"
      using fail(3) by (auto simp: in_sync_def same_logs_def)
    with grow fail(2) show ?thesis by (auto simp: derails_def)
  qed
qed

lemma sound_if [sound_intros]: "(b \<Longrightarrow> sound m) \<Longrightarrow> (\<not> b \<Longrightarrow> sound n) \<Longrightarrow> sound (if b then m else n)"
  by simp

lemma sound_option [sound_intros]:
  "(x = None \<Longrightarrow> sound m) \<Longrightarrow> (\<And>y. x = Some y \<Longrightarrow> sound (f y)) \<Longrightarrow>
    sound (case x of None \<Rightarrow> m | Some y \<Rightarrow> f y)"
  by (cases x) simp_all

lemma sound_prod [sound_intros]:
  "(\<And>a b. sound (f a b)) \<Longrightarrow> sound (case p of (a, b) \<Rightarrow> f a b)"
  by (cases p) simp

lemma fresh_in_sync: "in_sync fresh_store"
proof -
  have "log_of k fresh_store = []" for k by (cases k) (simp_all add: fresh_store_def)
  then show ?thesis
    unfolding in_sync_def by (intro exI [of _ "[]"]) (simp add: fresh_store_def)
qed

lemma in_sync_ok: "in_sync s \<Longrightarrow> db_ok (st_db s)"
  unfolding in_sync_def using project_run_ok [OF init_db_ok] by blast

text \<open>In step, the three logs replayed one after the other rebuild the projection.\<close>

lemma in_sync_replays:
  assumes "in_sync s"
  shows "rfold project (st_log s @ st_events s @ st_observations s) init_db = Inr (st_db s)"
proof -
  from assms obtain rs where rs: "rfold project rs init_db = Inr (st_db s)"
    and logs: "\<And>k. log_of k s = series_records k rs"
    unfolding in_sync_def by blast
  from logs [of Log] logs [of Events] logs [of Observations] project_by_series [OF init_db_ok rs]
  show ?thesis by simp
qed

end
