(* ===== verification/Rust_Io.thy ===== *)
theory Rust_Io
  imports Rust_Str
begin

section \<open>Bytes, lines and numbers read from files\<close>

text \<open>
  The parts of the standard library that reading a file goes through: UTF-8 validation and
  lossy decoding (one character or one maximal invalid subpart at a time), \<open>BufRead::lines\<close>,
  \<open>strip_prefix\<close>, \<open>strip_suffix\<close> and \<open>parse::<u32>\<close>.
\<close>

subsection \<open>UTF-8\<close>

definition byte_in :: "nat \<Rightarrow> nat \<Rightarrow> char \<Rightarrow> bool" where
  "byte_in lo hi c \<longleftrightarrow> lo \<le> of_char c \<and> of_char c \<le> (hi :: nat)"

abbreviation cont_byte :: "char \<Rightarrow> bool" where
  "cont_byte \<equiv> byte_in 128 191"

text \<open>The range of the second byte, and the length, of a character by its first byte.\<close>

definition utf8_lead :: "char \<Rightarrow> (nat \<times> nat \<times> nat) option" where
  "utf8_lead c =
     (if byte_in 0 127 c then Some (1, 0, 0)
      else if byte_in 194 223 c then Some (2, 128, 191)
      else if byte_in 224 224 c then Some (3, 160, 191)
      else if byte_in 237 237 c then Some (3, 128, 159)
      else if byte_in 225 239 c then Some (3, 128, 191)
      else if byte_in 240 240 c then Some (4, 144, 191)
      else if byte_in 241 243 c then Some (4, 128, 191)
      else if byte_in 244 244 c then Some (4, 128, 143)
      else None)"

text \<open>
  \<open>utf8_step c s\<close>: whether the bytes \<open>c # s\<close> begin with a character, and how many of the bytes
  of \<open>s\<close> belong to it, or to the invalid sequence replaced in its place.
\<close>

definition utf8_step :: "char \<Rightarrow> str \<Rightarrow> bool \<times> nat" where
  "utf8_step c s =
     (case utf8_lead c of
        None \<Rightarrow> (False, 0)
      | Some (n, lo, hi) \<Rightarrow>
          (if n = 1 then (True, 0)
           else (case s of
                   [] \<Rightarrow> (False, 0)
                 | b # t \<Rightarrow>
                     (if \<not> byte_in lo hi b then (False, 0)
                      else (let m = length (takeWhile cont_byte (take (n - 2) t))
                            in (m = n - 2, Suc m))))))"

function utf8_valid :: "str \<Rightarrow> bool" where
  "utf8_valid [] = True"
| "utf8_valid (c # s) =
     (let (ok, n) = utf8_step c s in ok \<and> utf8_valid (drop n s))"
  by pat_completeness auto

termination by (relation "measure length") auto

function from_utf8_lossy :: "str \<Rightarrow> str" where
  "from_utf8_lossy [] = []"
| "from_utf8_lossy (c # s) =
     (let (ok, n) = utf8_step c s
      in (if ok then c # take n s else [CHR 0xEF, CHR 0xBF, CHR 0xBD]) @ from_utf8_lossy (drop n s))"
  by pat_completeness auto

termination by (relation "measure length") auto

lemma from_utf8_lossy_valid: "utf8_valid s \<Longrightarrow> from_utf8_lossy s = s"
  by (induction s rule: utf8_valid.induct) (auto simp: Let_def split: prod.splits)

lemma utf8_ascii: "\<forall>c \<in> set s. of_char c < (128 :: nat) \<Longrightarrow> utf8_valid s"
  by (induction s) (auto simp: utf8_step_def utf8_lead_def byte_in_def)

subsection \<open>Lines of a reader\<close>

text \<open>
  \<open>BufRead::lines\<close> yields the pieces \<open>lines\<close> of the bytes, and an error for a line that is
  not UTF-8.
\<close>

definition read_line :: "str \<Rightarrow> str + str" where
  "read_line l = (if utf8_valid l then Inr l else Inl ''stream did not contain valid UTF-8'')"

definition unlines :: "str list \<Rightarrow> str" where
  "unlines ls = concat (map (\<lambda>l. l @ [CHR 0x0A]) ls)"

definition plain_line :: "str \<Rightarrow> bool" where
  "plain_line l \<longleftrightarrow> CHR 0x0A \<notin> set l \<and> (l \<noteq> [] \<longrightarrow> last l \<noteq> CHR 0x0D)"

lemma plain_line_cr [simp]: "plain_line l \<Longrightarrow> strip_cr l = l"
  by (auto simp: plain_line_def strip_cr_def)

lemma split_unlines:
  "\<forall>l \<in> set ls. plain_line l \<Longrightarrow> split_on ((=) (CHR 0x0A)) (unlines ls @ s) = ls @ split_on ((=) (CHR 0x0A)) s"
proof (induction ls)
  case Nil
  then show ?case by (simp add: unlines_def)
next
  case (Cons l ls)
  then have "split_on ((=) (CHR 0x0A)) l = [l]"
    by (intro split_on_no_sep) (auto simp: plain_line_def)
  with Cons split_on_append_sep [of "(=) (CHR 0x0A)" "CHR 0x0A" l "unlines ls @ s"] show ?case
    by (simp add: unlines_def)
qed

text \<open>Lines written one after the other are the lines read.\<close>

lemma lines_unlines:
  assumes "\<forall>l \<in> set ls. plain_line l"
  shows "lines (unlines ls) = ls"
proof -
  have "map strip_cr ls = ls" using assms by (simp add: map_idI)
  then show ?thesis using split_unlines [OF assms, of "[]"] by (simp add: lines_def butlast_append)
qed

subsection \<open>Names and numbers\<close>

definition strip_prefix :: "str \<Rightarrow> str \<Rightarrow> str option" where
  "strip_prefix p s = (if prefix p s then Some (drop (length p) s) else None)"

definition strip_suffix :: "str \<Rightarrow> str \<Rightarrow> str option" where
  "strip_suffix x s = (if suffix x s then Some (take (length s - length x) s) else None)"

lemma strip_prefix_eq: "strip_prefix p s = Some t \<longleftrightarrow> s = p @ t"
  by (auto simp: strip_prefix_def prefix_def)

lemma strip_suffix_eq: "strip_suffix x s = Some t \<longleftrightarrow> s = t @ x"
  by (auto simp: strip_suffix_def suffix_def)

text \<open>\<open>parse::<u32>\<close>: an optional plus sign, then at least one digit, and no overflow.\<close>

definition parse_u32 :: "str \<Rightarrow> nat option" where
  "parse_u32 s =
     (let ds = (case s of [] \<Rightarrow> [] | c # cs \<Rightarrow> if c = CHR ''+'' then cs else s)
      in if ds \<noteq> [] \<and> (\<forall>c \<in> set ds. is_ascii_digit c) \<and> int (undigits ds) < 2 ^ 32
         then Some (undigits ds) else None)"

lemma parse_u32_show: "n < 2 ^ 32 \<Longrightarrow> parse_u32 (show_nat n) = Some n"
proof -
  assume n: "n < 2 ^ 32"
  obtain c cs where d: "digits_of n = c # cs" by (cases "digits_of n") auto
  with digits_of_digits [of n] have "is_ascii_digit c" by simp
  then have "c \<noteq> CHR ''+''" by (auto simp: is_ascii_digit_def less_eq_char_def)
  with d n digits_of_digits [of n] undigits_digits_of [of n] show ?thesis
    by (simp add: parse_u32_def show_nat_def)
qed

lemma parse_u32_bound: "parse_u32 s = Some n \<Longrightarrow> n < 2 ^ 32"
  by (auto simp: parse_u32_def Let_def split: if_splits)

end
