(* ===== verification/Log_Files.thy ===== *)
theory Log_Files
  imports Log_Record Rust_Io "HOL-Library.AList"
begin

section \<open>The log files: tails, rotation, recovery\<close>

text \<open>
  The files of a memory directory and what \<open>crates/aver-core/src/log.rs\<close> does with them: the
  backward read of the last line that seeds the id generator, rotation of an active log into a
  compressed archive, and the recovery of a rotation that a crash interrupted. A directory is
  the list of its files in the order \<open>read_dir\<close> yields them; an operation is the sequence of
  primitive file operations it performs, so that a crash is a prefix of that sequence. The gzip
  codec (\<open>flate2\<close>) is a parameter: the blocks the encoder writes, and what the decoder reads
  before it fails, if it fails.
\<close>

subsection \<open>Directories\<close>

type_synonym dir = "(str \<times> str) list"

datatype fs_op = Create str | Append str str | Rename str str | Remove str

fun fs_exec :: "fs_op \<Rightarrow> dir \<Rightarrow> dir" where
  "fs_exec (Create n) d = AList.update n [] d"
| "fs_exec (Append n b) d =
     AList.update n ((case map_of d n of None \<Rightarrow> [] | Some c \<Rightarrow> c) @ b) d"
| "fs_exec (Rename a b) d =
     (case map_of d a of None \<Rightarrow> d | Some c \<Rightarrow> AList.update b c (AList.delete a d))"
| "fs_exec (Remove n) d = AList.delete n d"

definition fs_run :: "fs_op list \<Rightarrow> dir \<Rightarrow> dir" where
  "fs_run = fold fs_exec"

text \<open>A program reads the directory, performs operations and may end with an error.\<close>

type_synonym fs_prog = "dir \<Rightarrow> fs_op list \<times> error option"

definition fs_do :: "fs_op list \<Rightarrow> fs_prog" where
  "fs_do ops d = (ops, None)"

definition fs_then :: "fs_prog \<Rightarrow> fs_prog \<Rightarrow> fs_prog" where
  "fs_then p q d =
     (case p d of
        (ops, Some e) \<Rightarrow> (ops, Some e)
      | (ops, None) \<Rightarrow> (case q (fs_run ops d) of (ops', e) \<Rightarrow> (ops @ ops', e)))"

fun fs_each :: "('a \<Rightarrow> fs_prog) \<Rightarrow> 'a list \<Rightarrow> fs_prog" where
  "fs_each f [] = fs_do []"
| "fs_each f (x # xs) = fs_then (f x) (fs_each f xs)"

record gz_codec =
  gz_blocks :: "str \<Rightarrow> str list"
  gz_read :: "str \<Rightarrow> str \<times> str option"

subsection \<open>Names\<close>

definition active_name :: "series \<Rightarrow> str" where
  "active_name k = series_name k @ ''.jsonl''"

definition plain_name :: "series \<Rightarrow> nat \<Rightarrow> str" where
  "plain_name k n = series_name k @ ''.'' @ show_nat n @ ''.jsonl''"

definition archive_name :: "series \<Rightarrow> nat \<Rightarrow> str" where
  "archive_name k n = series_name k @ ''.'' @ show_nat n @ ''.jsonl.gz''"

definition series_rest :: "series \<Rightarrow> str \<Rightarrow> str option" where
  "series_rest k name = strip_prefix (series_name k @ ''.'') name"

definition opt_bind :: "'a option \<Rightarrow> ('a \<Rightarrow> 'b option) \<Rightarrow> 'b option" where
  "opt_bind x f = (case x of None \<Rightarrow> None | Some y \<Rightarrow> f y)"

text \<open>The number of an archive; of an archive or an uncompressed intermediate.\<close>

definition archive_index :: "series \<Rightarrow> str \<Rightarrow> nat option" where
  "archive_index k name =
     opt_bind (series_rest k name) (\<lambda>rest. opt_bind (strip_suffix ''.jsonl.gz'' rest) parse_u32)"

definition rotation_index :: "series \<Rightarrow> str \<Rightarrow> nat option" where
  "rotation_index k name =
     opt_bind (series_rest k name) (\<lambda>rest.
       case strip_suffix ''.jsonl.gz'' rest of
         Some r \<Rightarrow> parse_u32 r
       | None \<Rightarrow> opt_bind (strip_suffix ''.jsonl'' rest) parse_u32)"

definition next_rotation_index :: "series \<Rightarrow> dir \<Rightarrow> nat" where
  "next_rotation_index k d =
     (foldl max 0 (List.map_filter (rotation_index k) (map fst d)) + 1) mod 2 ^ 32"

subsection \<open>Rotation\<close>

definition LOG_ROTATE_MAX_BYTES :: nat where
  "LOG_ROTATE_MAX_BYTES = 64 * 1024 * 1024"

definition LOG_ROTATE_MAX_LINES :: nat where
  "LOG_ROTATE_MAX_LINES = 500000"

definition count_lines :: "str \<Rightarrow> nat" where
  "count_lines b = foldl (\<lambda>n c. if c = CHR 0x0A then n + 1 else n) 0 b"

definition log_rotation_needed :: "dir \<Rightarrow> str \<Rightarrow> bool" where
  "log_rotation_needed d name =
     (case map_of d name of
        None \<Rightarrow> False
      | Some b \<Rightarrow> LOG_ROTATE_MAX_BYTES \<le> length b \<or> LOG_ROTATE_MAX_LINES \<le> count_lines b)"

definition gzip_file :: "gz_codec \<Rightarrow> str \<Rightarrow> str \<Rightarrow> fs_prog" where
  "gzip_file gz src dst d =
     (case map_of d src of
        None \<Rightarrow> ([], Some (EIo ''No such file or directory''))
      | Some b \<Rightarrow>
          (Create (dst @ ''.tmp'') # map (Append (dst @ ''.tmp'')) (gz_blocks gz b)
             @ [Rename (dst @ ''.tmp'') dst], None))"

text \<open>\<open>held\<close>: another process holds the advisory lock.\<close>

definition maybe_rotate_log :: "gz_codec \<Rightarrow> bool \<Rightarrow> series \<Rightarrow> fs_prog" where
  "maybe_rotate_log gz held k d =
     (if \<not> log_rotation_needed d (active_name k) \<or> held then ([], None)
      else (let n = next_rotation_index k d
            in fs_then (fs_do [Rename (active_name k) (plain_name k n)])
                 (fs_then (gzip_file gz (plain_name k n) (archive_name k n))
                   (fs_do [Remove (plain_name k n), Append (active_name k) []])) d))"

subsection \<open>Recovery\<close>

definition any_series_rest :: "str \<Rightarrow> str option" where
  "any_series_rest name =
     (case find (\<lambda>k. series_rest k name \<noteq> None) ROTATED_LOG_SERIES of
        None \<Rightarrow> None
      | Some k \<Rightarrow> series_rest k name)"

definition stale_tmp :: "str \<Rightarrow> bool" where
  "stale_tmp name =
     (opt_bind (any_series_rest name) (\<lambda>rest.
        opt_bind (strip_suffix ''.jsonl.gz.tmp'' rest) parse_u32) \<noteq> None)"

definition pending_plain :: "str \<Rightarrow> bool" where
  "pending_plain name =
     (opt_bind (any_series_rest name) (\<lambda>rest.
        if strip_suffix ''.jsonl.gz.tmp'' rest \<noteq> None then None
        else opt_bind (strip_suffix ''.jsonl'' rest) (\<lambda>num.
          if num = [] then None else parse_u32 num)) \<noteq> None)"

definition gz_intact :: "gz_codec \<Rightarrow> str \<Rightarrow> bool" where
  "gz_intact gz b = (snd (gz_read gz b) = None)"

text \<open>\<open>src.with_extension("jsonl.gz")\<close> of a name that ends in \<open>.jsonl\<close>.\<close>

definition finalize_one :: "gz_codec \<Rightarrow> str \<Rightarrow> fs_prog" where
  "finalize_one gz src d =
     (let dst = src @ ''.gz''; zip = fs_then (gzip_file gz src dst) (fs_do [Remove src])
      in case map_of d dst of
           None \<Rightarrow> zip d
         | Some b \<Rightarrow>
             (if gz_intact gz b then fs_do [Remove src] d
              else fs_then (fs_do [Remove dst]) zip d))"

definition finalize_pending_rotations :: "gz_codec \<Rightarrow> bool \<Rightarrow> fs_prog" where
  "finalize_pending_rotations gz held d =
     (if held then ([], None)
      else fs_then (fs_do (map Remove (filter stale_tmp (map fst d))))
             (fs_each (finalize_one gz) (filter pending_plain (map fst d))) d)"

subsection \<open>Reading a series\<close>

text \<open>The archives in numeric order, then the active file: the replay order of one series.\<close>

definition series_inputs :: "series \<Rightarrow> dir \<Rightarrow> str list" where
  "series_inputs k d =
     map snd (sort_key fst (List.map_filter
       (\<lambda>name. map_option (\<lambda>n. (n, name)) (archive_index k name)) (map fst d)))
     @ (if map_of d (active_name k) = None then [] else [active_name k])"

definition open_log_reader :: "gz_codec \<Rightarrow> dir \<Rightarrow> str \<Rightarrow> str \<times> str option" where
  "open_log_reader gz d name =
     (case map_of d name of
        None \<Rightarrow> ([], Some ''No such file or directory'')
      | Some b \<Rightarrow> if ends_with name ''.gz'' then gz_read gz b else (b, None))"

definition series_lines :: "gz_codec \<Rightarrow> series \<Rightarrow> dir \<Rightarrow> str list" where
  "series_lines gz k d = concat (map (\<lambda>name. lines (fst (open_log_reader gz d name))) (series_inputs k d))"

subsection \<open>The last line\<close>

text \<open>
  Blocks of \<open>blk\<close> bytes are read from the end until a newline stands before the last byte that
  is not ASCII white space.
\<close>

definition is_ascii_whitespace :: "char \<Rightarrow> bool" where
  "is_ascii_whitespace c \<longleftrightarrow> c \<in> {CHR 0x09, CHR 0x0A, CHR 0x0C, CHR 0x0D, CHR 0x20}"

definition tail_complete :: "str \<Rightarrow> bool" where
  "tail_complete tail \<longleftrightarrow>
     CHR 0x0A \<in> set (rev (dropWhile is_ascii_whitespace (rev tail)))"

function tail_loop :: "nat \<Rightarrow> str \<Rightarrow> nat \<Rightarrow> str \<Rightarrow> str" where
  "tail_loop blk s e tail =
     (if e = 0 \<or> blk = 0 then tail
      else (let start = e - blk; tail' = take (e - start) (drop start s) @ tail
            in if tail_complete tail' then tail' else tail_loop blk s start tail'))"
  by pat_completeness auto

termination by (relation "measure (\<lambda>(_, _, e, _). e)") auto

declare tail_loop.simps [simp del]

definition last_filled :: "str list \<Rightarrow> str option" where
  "last_filled ls = find (\<lambda>l. \<not> blank l) (rev ls)"

definition last_line :: "nat \<Rightarrow> str \<Rightarrow> str option" where
  "last_line blk s = last_filled (lines (from_utf8_lossy (tail_loop blk s (length s) [])))"

text \<open>The seed from the files: \<open>from_json\<close> is \<open>serde_json\<close>.\<close>

definition log_files_seed :: "(str \<Rightarrow> str + log_record) \<Rightarrow> dir \<Rightarrow> int" where
  "log_files_seed from_json d =
     max_id_in_log_tails (map (\<lambda>k.
       case map_of d (active_name k) of
         None \<Rightarrow> None
       | Some b \<Rightarrow>
           (case last_line (64 * 1024) b of
              None \<Rightarrow> None
            | Some l \<Rightarrow> (case from_json l of Inl _ \<Rightarrow> None | Inr r \<Rightarrow> Some r)))
       ROTATED_LOG_SERIES)"

end
