(* ===== verification/Replay.thy ===== *)
theory Replay
  imports Store_Sync Log_Files
begin

section \<open>Replay\<close>

text \<open>
  \<open>crates/aver-core/src/replay.rs\<close>: rebuilding the projection from the files of a memory
  directory. A line is parsed, applied inside a savepoint and counted; a line that fails aborts
  a strict replay and is quarantined by a lenient one; a read error aborts both. The new
  database replaces the old one only after success. \<open>serde_json\<close> is a parameter, and a
  quarantined line keeps the error itself where the code keeps its text.
\<close>

record replay_quarantine =
  rq_path :: str
  rq_line :: nat
  rq_error :: error

record replay_report =
  rp_claims :: nat
  rp_hyperedges :: nat
  rp_events :: nat
  rp_observations :: nat
  rp_vector_chunks :: nat
  rp_files_walked :: nat
  rp_lifecycle :: nat
  rp_quarantined :: "replay_quarantine list"

definition empty_report :: replay_report where
  "empty_report =
     \<lparr> rp_claims = 0, rp_hyperedges = 0, rp_events = 0, rp_observations = 0, rp_vector_chunks = 0,
       rp_files_walked = 0, rp_lifecycle = 0, rp_quarantined = [] \<rparr>"

datatype replay_mode = Strict | Lenient

text \<open>
  \<open>js_record\<close> is \<open>from_str::<LogRecord>\<close>; \<open>js_kind\<close> parses any JSON value and looks up its
  string member \<open>kind\<close>.
\<close>

record json_codec =
  js_record :: "str \<Rightarrow> str + log_record"
  js_kind :: "str \<Rightarrow> str + str option"

subsection \<open>One line\<close>

definition parse_log_line :: "json_codec \<Rightarrow> str \<Rightarrow> str \<Rightarrow> nat \<Rightarrow> log_record result" where
  "parse_log_line js line path lineno =
     (case js_record js line of
        Inr r \<Rightarrow> Inr r
      | Inl err \<Rightarrow>
          (case js_kind js line of
             Inl e \<Rightarrow> Inl (EReplayMalformed path lineno e)
           | Inr None \<Rightarrow> Inl (EReplayMalformed path lineno (''missing '' @ [CHR 0x27] @ ''kind'' @ [CHR 0x27]))
           | Inr (Some kind) \<Rightarrow>
               if kind \<notin> set KINDS then Inl (EReplayUnknownKind kind)
               else Inl (EReplayMalformed path lineno err)))"

fun locate_error :: "str \<Rightarrow> nat \<Rightarrow> error \<Rightarrow> error" where
  "locate_error path lineno (EInvalidRecord detail) = EReplayMalformed path lineno detail"
| "locate_error path lineno (EReplayDuplicateId detail) =
     EReplayDuplicateId (detail @ '' at '' @ path @ '':'' @ show_nat lineno)"
| "locate_error path lineno e = e"

fun count_record :: "log_record \<Rightarrow> replay_report \<Rightarrow> replay_report" where
  "count_record (AddClaim _ _ _ _ _ _ _ _ _ _ _) p = p \<lparr> rp_claims := rp_claims p + 1 \<rparr>"
| "count_record (AddHyperedge _ _ _ _ _ _ _) p = p \<lparr> rp_hyperedges := rp_hyperedges p + 1 \<rparr>"
| "count_record (RecordEvent _ _ _ _ _ _ _ _ _) p = p \<lparr> rp_events := rp_events p + 1 \<rparr>"
| "count_record (RecordObservation _ _ _ _ _ _ _ _ _ _) p =
     p \<lparr> rp_observations := rp_observations p + 1 \<rparr>"
| "count_record (AddVectorChunk _ _ _ _ _ _) p = p \<lparr> rp_vector_chunks := rp_vector_chunks p + 1 \<rparr>"
| "count_record (EmbedVectorChunk _ _ _) p = p \<lparr> rp_vector_chunks := rp_vector_chunks p + 1 \<rparr>"
| "count_record (PruneObservations _ _ _ _) p = p"
| "count_record _ p = p \<lparr> rp_lifecycle := rp_lifecycle p + 1 \<rparr>"

type_synonym replay_state = "replay_report \<times> db"

definition apply_log_line :: "json_codec \<Rightarrow> str \<Rightarrow> nat \<Rightarrow> str \<Rightarrow> replay_state \<Rightarrow> replay_state result" where
  "apply_log_line js path lineno line st =
     rbind (parse_log_line js line path lineno) (\<lambda>r.
       case apply_record r (snd st) of
         Inl e \<Rightarrow> Inl (locate_error path lineno e)
       | Inr (Duplicate, d) \<Rightarrow> Inr (fst st, d)
       | Inr (Applied, d) \<Rightarrow> Inr (count_record r (fst st), d))"

subsection \<open>Files\<close>

text \<open>
  What \<open>lines()\<close> yields: the lines, each valid UTF-8 or an error, and after the complete lines
  the error of a decoder that fails.
\<close>

fun reader_items :: "str \<times> str option \<Rightarrow> (str + str) list" where
  "reader_items (b, None) = map read_line (lines b)"
| "reader_items (b, Some e) =
     map read_line (map strip_cr (butlast (split_on ((=) (CHR 0x0A)) b))) @ [Inl e]"

definition quarantine :: "str \<Rightarrow> nat \<Rightarrow> error \<Rightarrow> replay_report \<Rightarrow> replay_report" where
  "quarantine path lineno e p =
     p \<lparr> rp_quarantined := rp_quarantined p @ [\<lparr> rq_path = path, rq_line = lineno, rq_error = e \<rparr>] \<rparr>"

definition replay_line :: "json_codec \<Rightarrow> replay_mode \<Rightarrow> str \<Rightarrow> nat \<Rightarrow> str + str \<Rightarrow> replay_state \<Rightarrow>
    replay_state result" where
  "replay_line js mode path lineno item st =
     (case item of
        Inl e \<Rightarrow> Inl (EIo e)
      | Inr line \<Rightarrow>
          if blank line then Inr st
          else (case apply_log_line js path lineno line st of
                  Inr st' \<Rightarrow> Inr st'
                | Inl e \<Rightarrow>
                    (case mode of
                       Strict \<Rightarrow> Inl e
                     | Lenient \<Rightarrow> Inr (quarantine path lineno e (fst st), snd st))))"

definition walked :: "replay_state \<Rightarrow> replay_state" where
  "walked st = ((fst st) \<lparr> rp_files_walked := rp_files_walked (fst st) + 1 \<rparr>, snd st)"

definition replay_file :: "gz_codec \<Rightarrow> json_codec \<Rightarrow> replay_mode \<Rightarrow> str \<Rightarrow> dir \<Rightarrow> str \<Rightarrow> replay_state \<Rightarrow>
    replay_state result" where
  "replay_file gz js mode base d name st =
     rfold (\<lambda>(lineno, item). replay_line js mode (base @ ''/'' @ name) lineno item)
       (enumerate 1 (reader_items (open_log_reader gz d name))) (walked st)"

definition collect_replay_inputs :: "dir \<Rightarrow> str list" where
  "collect_replay_inputs d = concat (map (\<lambda>k. series_inputs k d) ROTATED_LOG_SERIES)"

definition rebuild :: "gz_codec \<Rightarrow> json_codec \<Rightarrow> replay_mode \<Rightarrow> str \<Rightarrow> dir \<Rightarrow> replay_state result" where
  "rebuild gz js mode base d =
     rfold (replay_file gz js mode base d) (collect_replay_inputs d) (empty_report, init_db)"

subsection \<open>The whole run\<close>

text \<open>A memory directory: its log files and its database file, if it exists.\<close>

record memory_dir =
  md_path :: str
  md_files :: dir
  md_db :: "db option"

definition claim_count :: "db option \<Rightarrow> nat" where
  "claim_count x = (case x of None \<Rightarrow> 0 | Some d \<Rightarrow> length (g_claims (db_graph d)))"

definition replay_with_mode :: "gz_codec \<Rightarrow> json_codec \<Rightarrow> bool \<Rightarrow> bool \<Rightarrow> replay_mode \<Rightarrow> memory_dir \<Rightarrow>
    replay_report result \<times> memory_dir" where
  "replay_with_mode gz js held force mode m =
     (if held then (Inl (ELockHeld (md_path m @ ''/.lock'')), m)
      else if \<not> force \<and> 0 < claim_count (md_db m) then
        (Inl (EReplayDuplicateId (''db.sqlite at '' @ md_path m @ ''/db.sqlite already has ''
           @ show_nat (claim_count (md_db m)) @ '' claims; pass --force to overwrite'')), m)
      else (case rebuild gz js mode (md_path m) (md_files m) of
              Inl e \<Rightarrow> (Inl e, m)
            | Inr (p, d) \<Rightarrow> (Inr p, m \<lparr> md_db := Some d \<rparr>)))"

definition replay :: "gz_codec \<Rightarrow> json_codec \<Rightarrow> bool \<Rightarrow> bool \<Rightarrow> memory_dir \<Rightarrow>
    replay_report result \<times> memory_dir" where
  "replay gz js held force = replay_with_mode gz js held force Strict"

subsection \<open>Reading back what a store wrote\<close>

text \<open>
  What replay relies on of the JSON codec, for the records of one log: each was written as one
  line of valid UTF-8 that is read back as the same record.
\<close>

definition written_as :: "json_codec \<Rightarrow> log_record list \<Rightarrow> str list \<Rightarrow> bool" where
  "written_as js rs ls \<longleftrightarrow>
     list_all2 (\<lambda>r l. utf8_valid l \<and> \<not> blank l \<and> js_record js l = Inr r) rs ls"

text \<open>The files a series is spread over read without errors.\<close>

definition intact :: "gz_codec \<Rightarrow> dir \<Rightarrow> bool" where
  "intact gz d \<longleftrightarrow> (\<forall>name \<in> set (collect_replay_inputs d). snd (open_log_reader gz d name) = None)"

definition stored_in :: "gz_codec \<Rightarrow> json_codec \<Rightarrow> store \<Rightarrow> dir \<Rightarrow> bool" where
  "stored_in gz js s d \<longleftrightarrow> intact gz d \<and> (\<forall>k. written_as js (log_of k s) (series_lines gz k d))"

lemma apply_log_line_ok:
  assumes "js_record js l = Inr r" and "project r (snd st) = Inr d"
  shows "\<exists>p. apply_log_line js path n l st = Inr (p, d) \<and> rp_quarantined p = rp_quarantined (fst st)"
proof -
  have "rp_quarantined (count_record r p) = rp_quarantined p" for p
    by (cases r) simp_all
  with assms show ?thesis
    by (auto simp: apply_log_line_def parse_log_line_def project_def split: sum.splits applied.splits)
qed

lemma replay_lines_project:
  assumes "list_all2 (\<lambda>r l. utf8_valid l \<and> \<not> blank l \<and> js_record js l = Inr r) rs ls"
    and "rfold project rs (snd st) = Inr d"
  shows "\<exists>p. rfold (\<lambda>(n, item). replay_line js mode path n item) (enumerate i (map read_line ls)) st
      = Inr (p, d) \<and> rp_quarantined p = rp_quarantined (fst st)"
  using assms
proof (induction rs ls arbitrary: st i rule: list_all2_induct)
  case Nil
  then show ?case by (cases st) simp
next
  case (Cons r rs l ls)
  then obtain d1 where d1: "project r (snd st) = Inr d1" "rfold project rs d1 = Inr d"
    by (auto simp: result_simps)
  from Cons.hyps(1) d1(1) obtain p where
    p: "apply_log_line js path i l st = Inr (p, d1)" "rp_quarantined p = rp_quarantined (fst st)"
    using apply_log_line_ok [of js l r st d1 path i] by blast
  from Cons.IH [of "(p, d1)" "Suc i"] d1(2) p Cons.hyps(1) show ?case
    by (auto simp: replay_line_def read_line_def)
qed

lemma replay_file_project:
  assumes "snd (open_log_reader gz d path) = None"
    and "written_as js rs (lines (fst (open_log_reader gz d path)))"
    and "rfold project rs (snd st) = Inr db"
  shows "\<exists>p. replay_file gz js mode base d path st = Inr (p, db) \<and> rp_quarantined p = rp_quarantined (fst st)"
proof -
  obtain b where b: "open_log_reader gz d path = (b, None)" using assms(1) by (metis prod.collapse)
  with assms(2,3) replay_lines_project [of js rs "lines b" "walked st" db mode "base @ ''/'' @ path" 1] show ?thesis
    by (simp add: replay_file_def written_as_def walked_def)
qed

lemma replay_files_project:
  assumes "\<forall>name \<in> set names. snd (open_log_reader gz d name) = None"
    and "written_as js rs (concat (map (\<lambda>name. lines (fst (open_log_reader gz d name))) names))"
    and "rfold project rs (snd st) = Inr db"
  shows "\<exists>p. rfold (replay_file gz js mode base d) names st = Inr (p, db) \<and> rp_quarantined p = rp_quarantined (fst st)"
  using assms
proof (induction names arbitrary: rs st)
  case Nil
  then show ?case by (cases st) (simp add: written_as_def)
next
  case (Cons name names)
  from Cons.prems(2) obtain as bs where rs: "rs = as @ bs"
    "written_as js as (lines (fst (open_log_reader gz d name)))"
    "written_as js bs (concat (map (\<lambda>name. lines (fst (open_log_reader gz d name))) names))"
    unfolding written_as_def by (auto simp: list_all2_append2)
  from Cons.prems(3) obtain db1 where db1: "rfold project as (snd st) = Inr db1" "rfold project bs db1 = Inr db"
    by (auto simp: rs(1) rfold_append result_simps)
  from replay_file_project [where mode = mode and base = base, OF _ rs(2) db1(1)] Cons.prems(1)
  obtain p where
    p: "replay_file gz js mode base d name st = Inr (p, db1)" "rp_quarantined p = rp_quarantined (fst st)"
    by auto
  from Cons.IH [OF _ rs(3), of "(p, db1)"] Cons.prems(1) db1(2) p show ?case by auto
qed

lemma rebuild_reached:
  assumes "in_sync s" and "stored_in gz js s d"
  shows "\<exists>p. rebuild gz js mode base d = Inr (p, st_db s) \<and> rp_quarantined p = []"
proof -
  have "written_as js (st_log s @ st_events s @ st_observations s)
      (concat (map (\<lambda>name. lines (fst (open_log_reader gz d name))) (collect_replay_inputs d)))"
    using assms(2) log_of.simps
    by (simp add: stored_in_def collect_replay_inputs_def ROTATED_LOG_SERIES_def written_as_def
        series_lines_def list_all2_appendI flip: log_of.simps)
  with replay_files_project [of "collect_replay_inputs d" gz d js
      "st_log s @ st_events s @ st_observations s" "(empty_report, init_db)" "st_db s" mode base]
    in_sync_replays [OF assms(1)] assms(2)
  show ?thesis by (simp add: rebuild_def stored_in_def intact_def empty_report_def)
qed

end
