(* ===== verification/Float_Ops.thy ===== *)
theory Float_Ops
  imports Float64 Rust_Str
begin

section \<open>Arithmetic and printing of doubles\<close>

text \<open>
  The operations of \<open>f64\<close> the code computes with, rounded once per operation as IEEE 754
  says, \<open>round\<close> (half away from zero), \<open>max\<close> (which ignores NaN), \<open>clamp\<close>, and \<open>Display\<close>: the
  shortest decimal that reads back as the same double.
\<close>

fun f64_neg :: "f64 \<Rightarrow> f64" where
  "f64_neg NaN = NaN"
| "f64_neg NegInf = PosInf"
| "f64_neg PosInf = NegInf"
| "f64_neg (Fin x) = Fin (- x)"

fun f64_add :: "f64 \<Rightarrow> f64 \<Rightarrow> f64" where
  "f64_add (Fin x) (Fin y) = f64_round (x + y)"
| "f64_add NaN _ = NaN"
| "f64_add _ NaN = NaN"
| "f64_add PosInf NegInf = NaN"
| "f64_add NegInf PosInf = NaN"
| "f64_add PosInf _ = PosInf"
| "f64_add NegInf _ = NegInf"
| "f64_add _ PosInf = PosInf"
| "f64_add _ NegInf = NegInf"

definition f64_sub :: "f64 \<Rightarrow> f64 \<Rightarrow> f64" where
  "f64_sub x y = f64_add x (f64_neg y)"

fun f64_sgn :: "f64 \<Rightarrow> rat" where
  "f64_sgn (Fin x) = sgn x"
| "f64_sgn PosInf = 1"
| "f64_sgn NegInf = - 1"
| "f64_sgn NaN = 0"

definition f64_inf :: "rat \<Rightarrow> f64" where
  "f64_inf s = (if s = 0 then NaN else if 0 < s then PosInf else NegInf)"

fun f64_mul :: "f64 \<Rightarrow> f64 \<Rightarrow> f64" where
  "f64_mul (Fin x) (Fin y) = f64_round (x * y)"
| "f64_mul NaN _ = NaN"
| "f64_mul _ NaN = NaN"
| "f64_mul x y = f64_inf (f64_sgn x * f64_sgn y)"

text \<open>Division by a finite nonzero number, the only division in the code.\<close>

fun f64_div :: "f64 \<Rightarrow> rat \<Rightarrow> f64" where
  "f64_div (Fin x) y = f64_round (x / y)"
| "f64_div NaN y = NaN"
| "f64_div PosInf y = f64_inf (sgn y)"
| "f64_div NegInf y = f64_inf (- sgn y)"

fun f64_round_int :: "f64 \<Rightarrow> f64" where
  "f64_round_int (Fin x) =
     Fin (if x < 0 then - of_int \<lfloor>1 / 2 - x\<rfloor> else of_int \<lfloor>x + 1 / 2\<rfloor>)"
| "f64_round_int x = x"

text \<open>\<open>f64::max\<close>: the other operand when one is NaN.\<close>

definition f64_fmax :: "f64 \<Rightarrow> f64 \<Rightarrow> f64" where
  "f64_fmax x y = (if x = NaN then y else if y = NaN then x else f64_max x y)"

definition f64_clamp :: "f64 \<Rightarrow> f64 \<Rightarrow> f64 \<Rightarrow> f64" where
  "f64_clamp x lo hi = (if f64_lt x lo then lo else if f64_lt hi x then hi else x)"

subsection \<open>Display\<close>

text \<open>
  \<open>decimals fuel k x\<close> searches the least number of decimals with which a decimal neighbour of
  \<open>x\<close> rounds to \<open>x\<close>; a double needs at most 1074.
\<close>

definition decimal_at :: "nat \<Rightarrow> rat \<Rightarrow> int option" where
  "decimal_at k x =
     (let lo = \<lfloor>x * 10 ^ k\<rfloor>; ok = (\<lambda>m. f64_round (of_int m / 10 ^ k) = Fin x);
          near_lo = (x * 10 ^ k - of_int lo \<le> 1 / 2)
      in if ok lo \<and> (near_lo \<or> \<not> ok (lo + 1)) then Some lo
         else if ok (lo + 1) then Some (lo + 1) else None)"

fun decimals :: "nat \<Rightarrow> nat \<Rightarrow> rat \<Rightarrow> (nat \<times> int) option" where
  "decimals 0 k x = None"
| "decimals (Suc n) k x =
     (case decimal_at k x of Some m \<Rightarrow> Some (k, m) | None \<Rightarrow> decimals n (Suc k) x)"

definition pad_left :: "nat \<Rightarrow> str \<Rightarrow> str" where
  "pad_left n s = replicate (n - length s) (CHR ''0'') @ s"

definition show_pos :: "rat \<Rightarrow> str" where
  "show_pos x =
     (case decimals 1075 0 x of
        None \<Rightarrow> []
      | Some (k, m) \<Rightarrow>
          show_nat (nat (m div 10 ^ k))
          @ (if k = 0 then [] else CHR ''.'' # pad_left k (show_nat (nat (m mod 10 ^ k)))))"

fun show_f64 :: "f64 \<Rightarrow> str" where
  "show_f64 NaN = ''NaN''"
| "show_f64 PosInf = ''inf''"
| "show_f64 NegInf = ''-inf''"
| "show_f64 (Fin x) = (if x < 0 then CHR ''-'' # show_pos (- x) else show_pos x)"

lemma show_f64_samples:
  "show_f64 (f64_round (45 / 100)) = ''0.45''" "show_f64 (Fin 1) = ''1''"
  "show_f64 (Fin 0) = ''0''" "show_f64 (f64_round (1 / 10)) = ''0.1''"
  by code_simp+

end
