(* ===== verification/Claims.thy ===== *)
theory Claims
  imports Store_Sync Float_Ops "HOL-Library.Product_Lexorder"
begin

section \<open>Claims\<close>

text \<open>
  The write operations of \<open>crates/aver-core/src/claims.rs\<close>: adding claims, ingesting extractor
  facts, contradictions, retirement, confidence decay and consolidation. Every write is
  validation, privacy gate, then one transaction that mints an id, appends the log line and
  applies it. An operation of several transactions takes one \<open>env\<close> for each.
\<close>

subsection \<open>Adding claims\<close>

definition claim_content :: "claim_write \<Rightarrow> str" where
  "claim_content w =
     join '' '' [cw_agent_id w, agent_kind_as_str (cw_agent_kind w), cw_subject w,
                 cw_predicate w, cw_object w, cw_source w]"

definition claim_fields_ok :: "claim_write \<Rightarrow> unit result" where
  "claim_fields_ok w =
     rbind (validate_claim_field ''subject'' (cw_subject w)) (\<lambda>_.
     rbind (validate_claim_field ''predicate'' (cw_predicate w)) (\<lambda>_.
     rbind (validate_claim_field ''object'' (cw_object w)) (\<lambda>_.
     rbind (validate_claim_field ''source'' (cw_source w)) (\<lambda>_.
     rbind (validate_scope (cw_scope w)) (\<lambda>_.
     rbind (validate_confidence (cw_confidence w)) (\<lambda>_.
     validate_agent_id (cw_agent_id w)))))))"

definition validate_claim_write :: "claim_write \<Rightarrow> unit op" where
  "validate_claim_write w =
     op_then (op_of (claim_fields_ok w))
    (op_then (privacy_filter_recording (claim_content w))
    (op_then (privacy_paths_recording [cw_subject w, cw_object w, cw_source w])
             (op_read (\<lambda>d. validate_ontology (db_graph d) (cw_predicate w) (cw_provenance w)))))"

definition claim_record :: "int \<Rightarrow> int \<Rightarrow> claim_write \<Rightarrow> log_record" where
  "claim_record now i w =
     AddClaim now i (cw_subject w) (cw_predicate w) (cw_object w) (cw_source w) (cw_agent_id w)
       (agent_kind_as_str (cw_agent_kind w)) (cw_confidence w)
       (Some (provenance_as_str (cw_provenance w))) (cw_scope w)"

text \<open>One transaction that mints an id and logs one record carrying it.\<close>

definition mint_and_log :: "env \<Rightarrow> series \<Rightarrow> (int \<Rightarrow> log_record) \<Rightarrow> int op" where
  "mint_and_log ev k rec =
     transaction ev
       (op_bind (mint_op ev) (\<lambda>i. op_then (logged ev k (rec i)) (op_ret i)))"

definition insert_claim_op :: "env \<Rightarrow> claim_write \<Rightarrow> int op" where
  "insert_claim_op ev w =
     op_then (validate_claim_write w) (mint_and_log ev Log (\<lambda>i. claim_record (en_now ev) i w))"

definition add_claim :: "env \<Rightarrow> claim_write \<Rightarrow> int op" where
  "add_claim = insert_claim_op"

subsection \<open>Reading claims\<close>

definition get_claim :: "int \<Rightarrow> db \<Rightarrow> claim_row result" where
  "get_claim i d = ok_or (EMissingClaim i) (map_of (g_claims (db_graph d)) i)"

definition ensure_claim_exists :: "int \<Rightarrow> unit op" where
  "ensure_claim_exists i = op_read (\<lambda>d. rbind (get_claim i d) (\<lambda>_. Inr ()))"

definition agent_trust_score :: "str \<Rightarrow> db \<Rightarrow> f64 result" where
  "agent_trust_score agent d =
     rbind (validate_agent_id agent) (\<lambda>_.
     let mine = [c \<leftarrow> tbl_rows (g_claims (db_graph d)). c_agent_id c = agent];
         active = length [c \<leftarrow> mine. c_status c = Active]; total = length mine
     in if total = 0 then Inr (Fin (1 / 2))
        else Inr (f64_clamp (f64_round (of_nat active / of_nat total)) (f64_round (1 / 10)) (Fin 1)))"

definition get_contradiction :: "int \<Rightarrow> db \<Rightarrow> contradiction result" where
  "get_contradiction i d =
     ok_or (ESqlite ''Query returned no rows'') (map_of (g_contradictions (db_graph d)) i)"

definition list_contradictions :: "int \<Rightarrow> db \<Rightarrow> contradiction list result" where
  "list_contradictions i d =
     rbind (get_claim i d) (\<lambda>_.
     Inr [x \<leftarrow> tbl_rows (g_contradictions (db_graph d)). x_claim_id x = i])"

definition should_merge_synonym :: "f64 \<Rightarrow> bool" where
  "should_merge_synonym similarity = f64_le (f64_round (92 / 100)) similarity"

subsection \<open>Contradictions\<close>

definition log_contradiction :: "env \<Rightarrow> int \<Rightarrow> str \<Rightarrow> int option \<Rightarrow> int op" where
  "log_contradiction ev claim_id reason new_id =
     mint_and_log ev Log (\<lambda>i. AddContradiction (en_now ev) i claim_id reason new_id)"

definition add_contradiction :: "env \<Rightarrow> int \<Rightarrow> str \<Rightarrow> int op" where
  "add_contradiction ev claim_id reason =
     op_then (op_of (validate_claim_field ''reason'' reason))
    (op_then (privacy_filter_recording reason)
    (op_then (ensure_claim_exists claim_id)
             (log_contradiction ev claim_id reason None)))"

definition contradict ::
  "env \<Rightarrow> env \<Rightarrow> int \<Rightarrow> str \<Rightarrow> claim_write option \<Rightarrow> contradiction op" where
  "contradict ev1 ev2 claim_id reason new_claim =
     op_then (ensure_claim_exists claim_id)
    (op_then (op_of (validate_contradiction_reason reason))
    (op_then (privacy_filter_recording reason)
    (op_bind (case new_claim of
                None \<Rightarrow> op_ret None
              | Some w \<Rightarrow> op_bind (add_claim ev1 w) (\<lambda>i. op_ret (Some i))) (\<lambda>new_id.
     op_bind (log_contradiction ev2 claim_id reason new_id) (\<lambda>i.
     op_read (get_contradiction i))))))"

subsection \<open>Retirement\<close>

definition retire_check :: "int \<Rightarrow> db \<Rightarrow> unit result" where
  "retire_check claim_id d =
     rbind (get_claim claim_id d) (\<lambda>c.
     if c_status c = Invalidated then Inl (EAlreadyRetired claim_id) else Inr ())"

definition retire_claim :: "env \<Rightarrow> int \<Rightarrow> str \<Rightarrow> unit op" where
  "retire_claim ev claim_id reason =
     op_then (op_of (ensure (\<not> blank reason) EInvalidContradictionReason))
    (op_then (privacy_filter_recording reason)
    (transaction ev
      (op_then (op_read (retire_check claim_id))
               (logged ev Log (RetireClaim (en_now ev) claim_id reason)))))"

subsection \<open>Decay\<close>

definition decayed_step :: "f64 \<Rightarrow> f64" where
  "decayed_step c =
     f64_fmax (f64_div (f64_round_int (f64_mul (f64_sub c (f64_round (1 / 10))) (Fin 100))) 100) (Fin 0)"

definition contradicted_active :: "graph \<Rightarrow> (int \<times> claim_row) list" where
  "contradicted_active g =
     [(i, c) \<leftarrow> g_claims g. c_status c = Active
        \<and> list_ex (\<lambda>x. x_claim_id x = i \<and> x_status x = ''RECORDED'') (tbl_rows (g_contradictions g))]"

definition log_decay :: "env \<Rightarrow> (graph \<Rightarrow> confidence_change list) \<Rightarrow> nat op" where
  "log_decay ev changes =
     transaction ev
       (op_bind (op_read (\<lambda>d. Inr (changes (db_graph d)))) (\<lambda>chs.
        if chs = [] then op_ret 0
        else op_then (logged ev Log (DecayConfidence (en_now ev) chs)) (op_ret (length chs))))"

definition contradicted_changes :: "graph \<Rightarrow> confidence_change list" where
  "contradicted_changes g =
     map (\<lambda>(i, c). \<lparr> cc_claim_id = i, cc_confidence = decayed_step (c_confidence c) \<rparr>)
       (contradicted_active g)"

definition decay_contradicted_confidence :: "env \<Rightarrow> nat op" where
  "decay_contradicted_confidence ev = log_decay ev contradicted_changes"

definition saturating_sub :: "int \<Rightarrow> int \<Rightarrow> int" where
  "saturating_sub a b = max (- (2 ^ 63)) (min (2 ^ 63 - 1) (a - b))"

text \<open>\<open>exp\<close> of the C library is not under \<open>src/\<close>: a parameter.\<close>

definition inferred_changes ::
  "(f64 \<Rightarrow> f64) \<Rightarrow> int \<Rightarrow> rat \<Rightarrow> graph \<Rightarrow> confidence_change list" where
  "inferred_changes exp64 now_ts tau g =
     map (\<lambda>(i, c).
       let delta = f64_round (of_int (max (saturating_sub now_ts (cr_last_seen_at c)) 0))
       in \<lparr> cc_claim_id = i,
            cc_confidence = f64_mul (c_confidence c) (exp64 (f64_div (f64_neg delta) tau)) \<rparr>)
       [(i, c) \<leftarrow> g_claims g. c_status c = Active \<and> c_provenance c = Inferred]"

definition decay_inferred_confidence_at ::
  "(f64 \<Rightarrow> f64) \<Rightarrow> env \<Rightarrow> int \<Rightarrow> f64 \<Rightarrow> nat op" where
  "decay_inferred_confidence_at exp64 ev now_ts tau_seconds =
     (case tau_seconds of
        Fin tau \<Rightarrow> if tau \<le> 0 then op_of (Inl (EInvalidDecayTau tau_seconds))
                   else log_decay ev (inferred_changes exp64 now_ts tau)
      | _ \<Rightarrow> op_of (Inl (EInvalidDecayTau tau_seconds)))"

subsection \<open>Consolidation\<close>

record consolidation_report =
  cr_merged :: nat
  cr_superseded :: nat
  cr_decayed :: nat

definition spo :: "'a claim_scheme \<Rightarrow> str \<times> str \<times> str" where
  "spo c = (c_subject c, c_predicate c, c_object c)"

definition same_spo :: "graph \<Rightarrow> str \<times> str \<times> str \<Rightarrow> (int \<times> claim_row) list" where
  "same_spo g key = [(i, c) \<leftarrow> g_claims g. spo c = key]"

text \<open>The groups of more than one claim, in the order of the index \<open>claims_spo\<close>, with the
  smallest id of each.\<close>

definition duplicate_groups :: "graph \<Rightarrow> ((str \<times> str \<times> str) \<times> int) list" where
  "duplicate_groups g =
     map (\<lambda>key. (key, fst (hd (same_spo g key))))
       [key \<leftarrow> sort (remdups (map spo (tbl_rows (g_claims g)))). 1 < length (same_spo g key)]"

definition merged_refs :: "graph \<Rightarrow> str \<times> str \<times> str \<Rightarrow> str list" where
  "merged_refs g key = push_new [] (concat (map (\<lambda>(i, c). c_source_refs c) (same_spo g key)))"

definition merge_group :: "env \<Rightarrow> (str \<times> str \<times> str) \<times> int \<Rightarrow> unit op" where
  "merge_group ev p =
     (case p of (key, survivor_id) \<Rightarrow>
        op_bind (op_read (\<lambda>d. Inr (merged_refs (db_graph d) key))) (\<lambda>refs.
        op_bind (op_read (get_claim survivor_id)) (\<lambda>survivor.
        logged ev Log (MergeSourceRefs (en_now ev) survivor_id refs
                         (c_provenance survivor = Inferred \<and> 2 \<le> length refs)))))"

definition merge_duplicate_source_refs :: "env \<Rightarrow> nat op" where
  "merge_duplicate_source_refs ev =
     op_bind (op_read (\<lambda>d. Inr (duplicate_groups (db_graph d)))) (\<lambda>groups.
     if groups = [] then op_ret 0
     else transaction ev
            (op_then (op_each (merge_group ev) groups) (op_ret (length groups))))"

definition supersede_claim_ids :: "env \<Rightarrow> int list \<Rightarrow> nat op" where
  "supersede_claim_ids ev ids =
     (if ids = [] then op_ret 0
      else op_then (logged ev Log (SupersedeClaims (en_now ev) ids)) (op_ret (length ids)))"

definition duplicate_ids :: "graph \<Rightarrow> int list" where
  "duplicate_ids g =
     [i. (i, c) \<leftarrow> g_claims g, c_status c = Active \<and> i \<noteq> fst (hd (same_spo g (spo c)))]"

definition single_valued :: "graph \<Rightarrow> str \<Rightarrow> bool" where
  "single_valued g p \<longleftrightarrow>
     list_ex (\<lambda>row. t_single row \<and> t_name row = p) (tbl_rows (g_predicate_types g))
     \<or> list_ex (\<lambda>(a, i). a = p \<and> (case map_of (g_predicate_types g) i of
                                       None \<Rightarrow> False | Some row \<Rightarrow> t_single row))
         (g_predicate_alias g)"

definition conflict_ids :: "graph \<Rightarrow> int list" where
  "conflict_ids g =
     [i. (i, c) \<leftarrow> g_claims g,
         c_status c = Active \<and> single_valued g (c_predicate c)
         \<and> list_ex (\<lambda>(j, n). c_subject n = c_subject c \<and> c_predicate n = c_predicate c
                             \<and> c_object n \<noteq> c_object c \<and> i < j) (g_claims g)]"

definition consolidate_report :: "env \<Rightarrow> env \<Rightarrow> env \<Rightarrow> consolidation_report op" where
  "consolidate_report ev1 ev2 ev3 =
     op_bind (merge_duplicate_source_refs ev1) (\<lambda>merged.
     op_bind (decay_contradicted_confidence ev2) (\<lambda>decayed.
     op_bind (transaction ev3
       (op_bind (op_read (\<lambda>d. Inr (duplicate_ids (db_graph d)))) (\<lambda>dup.
        op_bind (supersede_claim_ids ev3 dup) (\<lambda>n.
        op_bind (op_read (\<lambda>d. Inr (conflict_ids (db_graph d)))) (\<lambda>conf.
        op_bind (supersede_claim_ids ev3 conf) (\<lambda>m. op_ret (n + m))))))) (\<lambda>superseded.
     op_ret \<lparr> cr_merged = merged, cr_superseded = superseded, cr_decayed = decayed \<rparr>)))"

definition consolidate :: "env \<Rightarrow> env \<Rightarrow> env \<Rightarrow> nat op" where
  "consolidate ev1 ev2 ev3 =
     op_bind (consolidate_report ev1 ev2 ev3) (\<lambda>r. op_ret (cr_superseded r))"

subsection \<open>Extractor facts\<close>

record extractor_fact =
  f_subject :: str
  f_predicate :: str
  f_object :: str
  f_provenance :: "provenance option"

definition fact_write :: "str \<Rightarrow> agent_kind \<Rightarrow> str \<Rightarrow> str \<Rightarrow> extractor_fact \<Rightarrow> claim_write" where
  "fact_write agent kind source scope f =
     (let w = claim_write_from_agent agent kind (f_subject f) (f_predicate f) (f_object f) source
                \<lparr> cw_scope := scope \<rparr>
      in case f_provenance f of None \<Rightarrow> w | Some p \<Rightarrow> with_provenance p w)"

text \<open>The n-th insert runs under \<open>evs n\<close>, consolidation under \<open>ev1\<close>, \<open>ev2\<close>, \<open>ev3\<close>.\<close>

definition ingest_extractor_facts ::
  "(nat \<Rightarrow> env) \<Rightarrow> env \<Rightarrow> env \<Rightarrow> env \<Rightarrow> str \<Rightarrow> agent_kind \<Rightarrow> str \<Rightarrow> str \<Rightarrow> extractor_fact list
   \<Rightarrow> int list op" where
  "ingest_extractor_facts evs ev1 ev2 ev3 agent kind source scope facts =
     (let writes = map (fact_write agent kind source scope) facts
      in op_then (op_each validate_claim_write writes)
        (op_bind (op_each (\<lambda>(n, w). insert_claim_op (evs n) w) (enumerate 0 writes)) (\<lambda>ids.
         op_then (consolidate_report ev1 ev2 ev3) (op_ret ids))))"

subsection \<open>Soundness\<close>

lemma quiet_claim_gate [quiet_intros, simp]:
  "quiet (validate_claim_write w)" "quiet (ensure_claim_exists i)"
  unfolding validate_claim_write_def ensure_claim_exists_def by (intro quiet_intros)+

lemmas sound_claim_gate [sound_intros] = quiet_claim_gate [THEN sound_quiet]

lemma sound_mint_and_log [sound_intros]:
  "(\<And>i. series_of (rec i) = k) \<Longrightarrow> sound (mint_and_log ev k rec)"
  unfolding mint_and_log_def by (intro sound_intros)

lemma sound_claims [sound_intros]:
  "sound (insert_claim_op ev w)" "sound (add_claim ev w)" "sound (log_contradiction ev i reason n)"
  unfolding insert_claim_op_def add_claim_def log_contradiction_def claim_record_def
  by (intro sound_intros; simp)+

lemma sound_notes [sound_intros]:
  "sound (add_contradiction ev i reason)" "sound (retire_claim ev i reason)"
  "sound (contradict ev1 ev2 i reason n)"
  unfolding add_contradiction_def retire_claim_def contradict_def by (intro sound_intros; simp)+

lemma sound_decay [sound_intros]:
  "sound (log_decay ev f)" "sound (decay_contradicted_confidence ev)"
  "sound (decay_inferred_confidence_at exp64 ev now_ts tau)"
proof -
  show d: "sound (log_decay ev f)" for f
    unfolding log_decay_def by (intro sound_intros; simp)
  then show "sound (decay_contradicted_confidence ev)"
    "sound (decay_inferred_confidence_at exp64 ev now_ts tau)"
    by (auto simp: decay_contradicted_confidence_def decay_inferred_confidence_at_def sound_atoms
        split: f64.split)
qed

lemma sound_merge [sound_intros]:
  "sound (merge_group ev p)" "sound (merge_duplicate_source_refs ev)"
  "sound (supersede_claim_ids ev ids)"
proof -
  show g: "sound (merge_group ev p)" for p
    unfolding merge_group_def by (intro sound_intros; simp)
  show "sound (merge_duplicate_source_refs ev)" "sound (supersede_claim_ids ev ids)"
    unfolding merge_duplicate_source_refs_def supersede_claim_ids_def
    by (intro sound_intros g; simp)+
qed

lemma sound_consolidate [sound_intros]:
  "sound (consolidate_report ev1 ev2 ev3)" "sound (consolidate ev1 ev2 ev3)"
  unfolding consolidate_report_def consolidate_def by (intro sound_intros)+

lemma sound_ingest [sound_intros]:
  "sound (ingest_extractor_facts evs ev1 ev2 ev3 agent kind source scope facts)"
  unfolding ingest_extractor_facts_def Let_def by (intro sound_intros)

end
