(* ===== verification/Hyperedges.thy ===== *)
theory Hyperedges
  imports Claims
begin

section \<open>Hyperedges\<close>

text \<open>
  \<open>crates/aver-core/src/hyperedges.rs\<close>: n-ary relations with roles, their write path and the
  substring search over the active ones.
\<close>

definition validate_hyperedge_field :: "str \<Rightarrow> str \<Rightarrow> unit result" where
  "validate_hyperedge_field field v = ensure (\<not> blank v) (EInvalidHyperedgeField field)"

definition validate_hyperedge_participant_field :: "str \<Rightarrow> str \<Rightarrow> unit result" where
  "validate_hyperedge_participant_field field v =
     ensure (\<not> blank v) (EInvalidHyperedgeParticipant field)"

fun check_each :: "('a \<Rightarrow> unit result) \<Rightarrow> 'a list \<Rightarrow> unit result" where
  "check_each f [] = Inr ()"
| "check_each f (x # xs) = rbind (f x) (\<lambda>_. check_each f xs)"

lemma check_each_ok [result_simps]: "check_each f xs = Inr u \<longleftrightarrow> (\<forall>x \<in> set xs. f x = Inr ())"
  by (induction xs) (auto simp: result_simps)

definition hyperedge_fields_ok :: "hyperedge_input \<Rightarrow> unit result" where
  "hyperedge_fields_ok h =
     rbind (validate_hyperedge_field ''predicate'' (hi_predicate h)) (\<lambda>_.
     rbind (ensure (hi_source_refs h \<noteq> []) (EInvalidHyperedgeField ''source_refs'')) (\<lambda>_.
     rbind (check_each (validate_hyperedge_field ''source_refs'') (hi_source_refs h)) (\<lambda>_.
     rbind (ensure (hi_participants h \<noteq> []) (EInvalidHyperedgeParticipant ''role'')) (\<lambda>_.
     rbind (check_each (\<lambda>p.
              rbind (validate_hyperedge_participant_field ''role'' (pi_role p)) (\<lambda>_.
              validate_hyperedge_participant_field ''entity'' (pi_entity p))) (hi_participants h)) (\<lambda>_.
     validate_confidence (hi_confidence h))))))"

definition hyperedge_content :: "hyperedge_input \<Rightarrow> str" where
  "hyperedge_content h =
     join '' '' ([hi_predicate h, provenance_as_str (hi_provenance h), show_f64 (hi_confidence h)]
                 @ hi_source_refs h @ concat (map (\<lambda>p. [pi_role p, pi_entity p]) (hi_participants h)))"

definition hyperedge_record :: "int \<Rightarrow> int \<Rightarrow> hyperedge_input \<Rightarrow> log_record" where
  "hyperedge_record now i h =
     AddHyperedge now i (hi_predicate h) (provenance_as_str (hi_provenance h)) (hi_confidence h)
       (hi_source_refs h) (hi_participants h)"

definition validate_hyperedge_write :: "hyperedge_input \<Rightarrow> unit op" where
  "validate_hyperedge_write h =
     op_then (op_of (hyperedge_fields_ok h))
    (op_then (privacy_filter_recording (hyperedge_content h))
    (op_then (privacy_paths_recording (hi_source_refs h))
    (op_then (privacy_paths_recording (map pi_entity (hi_participants h)))
             (op_read (\<lambda>d. validate_ontology (db_graph d) (hi_predicate h) (hi_provenance h))))))"

definition add_hyperedge :: "env \<Rightarrow> hyperedge_input \<Rightarrow> int op" where
  "add_hyperedge ev h =
     op_then (validate_hyperedge_write h)
       (mint_and_log ev Log (\<lambda>i. hyperedge_record (en_now ev) i h))"

subsection \<open>Reads\<close>

definition hyperedge_participants :: "int \<Rightarrow> graph \<Rightarrow> participant list" where
  "hyperedge_participants i g =
     [\<lparr> p_id = j, p_role = pr_role p, p_entity = pr_entity p \<rparr>.
        (j, p) \<leftarrow> g_participants g, pr_hyperedge_id p = i]"

definition hyperedge_of :: "graph \<Rightarrow> int \<Rightarrow> hyperedge_row \<Rightarrow> hyperedge" where
  "hyperedge_of g i h =
     \<lparr> h_id = i, h_predicate = hr_predicate h, h_provenance = hr_provenance h,
       h_confidence = hr_confidence h, h_source_refs = hr_source_refs h, h_status = hr_status h,
       h_created_at = hr_created_at h, h_updated_at = hr_updated_at h,
       h_participants = hyperedge_participants i g \<rparr>"

definition get_hyperedge :: "int \<Rightarrow> db \<Rightarrow> hyperedge result" where
  "get_hyperedge i d =
     rbind (ok_or (EMissingHyperedge i) (map_of (g_hyperedges (db_graph d)) i)) (\<lambda>h.
     Inr (hyperedge_of (db_graph d) i h))"

definition edge_matches :: "str \<Rightarrow> hyperedge \<Rightarrow> bool" where
  "edge_matches needle h \<longleftrightarrow>
     contains_sub needle (to_ascii_lowercase (h_predicate h))
     \<or> list_ex (\<lambda>r. contains_sub needle (to_ascii_lowercase r)) (h_source_refs h)
     \<or> list_ex (\<lambda>p. contains_sub needle (to_ascii_lowercase (p_role p))
                    \<or> contains_sub needle (to_ascii_lowercase (p_entity p))) (h_participants h)"

definition active_hyperedges_matching :: "str option \<Rightarrow> db \<Rightarrow> hyperedge list" where
  "active_hyperedges_matching query d =
     [h \<leftarrow> map (\<lambda>(i, row). hyperedge_of (db_graph d) i row)
           [(i, row) \<leftarrow> g_hyperedges (db_graph d). hr_status row = Active].
        case query of None \<Rightarrow> True | Some q \<Rightarrow> edge_matches (to_ascii_lowercase q) h]"

definition list_active_hyperedges :: "db \<Rightarrow> hyperedge list" where
  "list_active_hyperedges = active_hyperedges_matching None"

definition recall_hyperedges :: "str \<Rightarrow> db \<Rightarrow> hyperedge list result" where
  "recall_hyperedges q d =
     rbind (validate_recall_query q) (\<lambda>_. Inr (active_hyperedges_matching (Some q) d))"

definition traverse_hyperedges :: "str \<Rightarrow> db \<Rightarrow> hyperedge list result" where
  "traverse_hyperedges entity d =
     rbind (validate_hyperedge_participant_field ''entity'' entity) (\<lambda>_.
     Inr (active_hyperedges_matching (Some entity) d))"

lemma quiet_hyperedge_gate [quiet_intros, simp]: "quiet (validate_hyperedge_write h)"
  unfolding validate_hyperedge_write_def by (intro quiet_intros)

lemma sound_hyperedge [sound_intros]: "sound (add_hyperedge ev h)"
  unfolding add_hyperedge_def hyperedge_record_def
  by (intro sound_intros quiet_hyperedge_gate [THEN sound_quiet]; simp)

end
