(* ===== verification/Vectors.thy ===== *)
theory Vectors
  imports Claims
begin

section \<open>Vector chunks\<close>

text \<open>
  The writes and reads of \<open>crates/aver-core/src/vectors.rs\<close> that keep embedding rows. The
  embedding client is an HTTP service: \<open>embedder\<close> is a parameter.
\<close>

definition insert_vector_chunk :: "env \<Rightarrow> int \<Rightarrow> str \<Rightarrow> str \<Rightarrow> f64 list option \<Rightarrow> int op" where
  "insert_vector_chunk ev claim_id txt model emb =
     mint_and_log ev Log (\<lambda>i. AddVectorChunk (en_now ev) i claim_id txt model emb)"

definition add_vector_chunk :: "env \<Rightarrow> int \<Rightarrow> str \<Rightarrow> str \<Rightarrow> int op" where
  "add_vector_chunk ev claim_id txt model =
     op_then (ensure_claim_exists claim_id)
    (op_then (op_of (validate_vector_chunk_text txt))
    (op_then (op_of (validate_embedding_model model))
    (op_then (privacy_filter_recording txt)
    (op_then (privacy_filter_path_recording model)
             (insert_vector_chunk ev claim_id txt model None)))))"

definition add_vector_chunk_with_embedding ::
  "env \<Rightarrow> int \<Rightarrow> str \<Rightarrow> str \<Rightarrow> f64 list \<Rightarrow> int op" where
  "add_vector_chunk_with_embedding ev claim_id txt model e =
     op_then (ensure_claim_exists claim_id)
    (op_then (op_of (validate_vector_chunk_text txt))
    (op_then (op_of (validate_embedding_model model))
    (op_then (op_of (validate_embedding_vector e))
    (op_then (privacy_filter_recording txt)
    (op_then (privacy_filter_path_recording model)
             (insert_vector_chunk ev claim_id txt model (Some e)))))))"

definition add_vector_chunk_for_claim :: "env \<Rightarrow> int \<Rightarrow> str \<Rightarrow> int op" where
  "add_vector_chunk_for_claim ev claim_id model =
     op_then (ensure_claim_exists claim_id)
    (op_bind (op_read (get_claim claim_id)) (\<lambda>c.
     add_vector_chunk ev claim_id (claim_text c) model))"

definition add_embedded_vector_chunk_for_claim ::
  "(str \<Rightarrow> f64 list result) \<Rightarrow> env \<Rightarrow> int \<Rightarrow> str \<Rightarrow> int op" where
  "add_embedded_vector_chunk_for_claim embedder ev claim_id model =
     op_then (ensure_claim_exists claim_id)
    (op_bind (op_read (get_claim claim_id)) (\<lambda>c.
     op_bind (op_of (embedder (claim_text c))) (\<lambda>e.
     add_vector_chunk_with_embedding ev claim_id (claim_text c) model e)))"

definition chunk_of :: "int \<Rightarrow> chunk_row \<Rightarrow> vector_chunk" where
  "chunk_of i v =
     \<lparr> v_id = i, v_claim_id = vr_claim_id v, v_text = vr_text v, v_embedding_model = vr_model v,
       v_embedding = vr_embedding v \<rparr>"

definition get_vector_chunk :: "int \<Rightarrow> db \<Rightarrow> vector_chunk result" where
  "get_vector_chunk i d =
     rbind (ok_or (EMissingVectorChunk i) (map_of (g_chunks (db_graph d)) i)) (\<lambda>v. Inr (chunk_of i v))"

definition list_vector_chunks_for_claim :: "int \<Rightarrow> db \<Rightarrow> vector_chunk list result" where
  "list_vector_chunks_for_claim claim_id d =
     rbind (get_claim claim_id d) (\<lambda>_.
     Inr [chunk_of i v. (i, v) \<leftarrow> g_chunks (db_graph d), vr_claim_id v = claim_id])"

definition vector_chunk_embedding_status :: "db \<Rightarrow> nat \<times> nat" where
  "vector_chunk_embedding_status d =
     (let vs = tbl_rows (g_chunks (db_graph d))
      in (length [v \<leftarrow> vs. vr_embedding v \<noteq> None], length vs))"

text \<open>One transaction for each chunk without an embedding, the n-th under \<open>evs n\<close>.\<close>

definition backfill_one :: "(str \<Rightarrow> f64 list result) \<Rightarrow> env \<Rightarrow> int \<Rightarrow> str \<Rightarrow> unit op" where
  "backfill_one embedder ev chunk_id txt =
     op_bind (op_of (embedder txt)) (\<lambda>e.
     transaction ev (logged ev Log (EmbedVectorChunk (en_now ev) chunk_id e)))"

definition backfill_vector_embeddings ::
  "(str \<Rightarrow> f64 list result) \<Rightarrow> (nat \<Rightarrow> env) \<Rightarrow> nat op" where
  "backfill_vector_embeddings embedder evs =
     op_bind (op_read (\<lambda>d. Inr [(i, vr_text v). (i, v) \<leftarrow> g_chunks (db_graph d),
                                                vr_embedding v = None])) (\<lambda>rows.
     op_bind (op_each (\<lambda>(n, i, txt). backfill_one embedder (evs n) i txt) (enumerate 0 rows)) (\<lambda>us.
     op_ret (length us)))"

lemma sound_chunks [sound_intros]:
  "sound (insert_vector_chunk ev c txt model emb)" "sound (add_vector_chunk ev c txt model)"
  "sound (add_vector_chunk_with_embedding ev c txt model e)"
  "sound (add_vector_chunk_for_claim ev c model)"
  "sound (add_embedded_vector_chunk_for_claim embedder ev c model)"
  unfolding add_embedded_vector_chunk_for_claim_def add_vector_chunk_for_claim_def
    add_vector_chunk_with_embedding_def add_vector_chunk_def insert_vector_chunk_def
  by (intro sound_intros; simp)+

lemma sound_backfill [sound_intros]: "sound (backfill_vector_embeddings embedder evs)"
  unfolding backfill_vector_embeddings_def backfill_one_def by (intro sound_intros; simp)

end
