(* ===== verification/Episodic.thy ===== *)
theory Episodic
  imports Claims
begin

section \<open>Events and observations\<close>

text \<open>
  \<open>crates/aver-core/src/episodic.rs\<close>: the episodic log, observations over it with their
  content-hash ids, coverage, pruning, the continuity summary and the extraction triggers.
\<close>

subsection \<open>Events\<close>

definition event_content :: "event_write \<Rightarrow> str" where
  "event_content w =
     join '' '' [ew_agent_id w, agent_kind_as_str (ew_agent_kind w), ew_session_id w, ew_kind w,
                 ew_payload w, ew_source w]"

definition event_fields_ok :: "event_write \<Rightarrow> unit result" where
  "event_fields_ok w =
     rbind (validate_event_field ''session_id'' (ew_session_id w)) (\<lambda>_.
     rbind (validate_event_field ''kind'' (ew_kind w)) (\<lambda>_.
     rbind (validate_event_field ''source'' (ew_source w)) (\<lambda>_.
     rbind (validate_agent_id (ew_agent_id w)) (\<lambda>_.
     validate_scope (ew_scope w)))))"

definition event_record :: "int \<Rightarrow> int \<Rightarrow> event_write \<Rightarrow> log_record" where
  "event_record now i w =
     RecordEvent now i (ew_session_id w) (ew_kind w) (ew_payload w) (ew_source w) (ew_agent_id w)
       (agent_kind_as_str (ew_agent_kind w)) (ew_scope w)"

definition record_event :: "env \<Rightarrow> event_write \<Rightarrow> int op" where
  "record_event ev w =
     op_then (op_of (event_fields_ok w))
    (op_then (privacy_filter_recording (event_content w))
    (op_then (privacy_filter_path_recording (ew_source w))
             (mint_and_log ev Events (\<lambda>i. event_record (en_now ev) i w))))"

definition parse_event :: "event \<Rightarrow> event result" where
  "parse_event e = rbind (agent_kind_from_str (e_agent_kind e)) (\<lambda>_. Inr e)"

definition get_event :: "int \<Rightarrow> db \<Rightarrow> event result" where
  "get_event i d =
     rbind (ok_or (EMissingEvent i) (map_of (e_events (db_episodes d)) i)) parse_event"

definition conversion_failure :: "'a result \<Rightarrow> 'a result" where
  "conversion_failure r =
     (case r of Inl _ \<Rightarrow> Inl (ESqlite ''conversion failure'') | Inr x \<Rightarrow> Inr x)"

definition list_events_for_session :: "str \<Rightarrow> db \<Rightarrow> event list result" where
  "list_events_for_session session d =
     rbind (validate_event_field ''session_id'' session) (\<lambda>_.
     rmap (\<lambda>e. conversion_failure (parse_event e))
       [e \<leftarrow> tbl_rows (e_events (db_episodes d)). e_session_id e = session])"

subsection \<open>Content hashes\<close>

definition fnv_offset :: "64 word" where
  "fnv_offset = 0xcbf29ce484222325"

definition fnv_prime :: "64 word" where
  "fnv_prime = 0x100000001b3"

definition fnv1a :: "64 word list \<Rightarrow> 64 word" where
  "fnv1a bytes = foldl (\<lambda>h b. (h XOR b) * fnv_prime) fnv_offset bytes"

definition str_bytes :: "str \<Rightarrow> 64 word list" where
  "str_bytes = map of_char"

definition le_bytes :: "int \<Rightarrow> 64 word list" where
  "le_bytes i = map (\<lambda>k. take_bit 8 (drop_bit (8 * k) (word_of_int i))) [0..<8]"

definition hex_digit :: "nat \<Rightarrow> char" where
  "hex_digit n = ''0123456789abcdef'' ! n"

definition hex16 :: "64 word \<Rightarrow> str" where
  "hex16 w = map (\<lambda>k. hex_digit (unat (take_bit 4 (drop_bit (4 * k) w)))) (rev [0..<16])"

definition observation_id :: "str \<Rightarrow> str \<Rightarrow> int list \<Rightarrow> str" where
  "observation_id session content ids =
     hex16 (fnv1a (str_bytes session @ [0xff] @ str_bytes content @ [0xfe]
                   @ concat (map le_bytes ids)))"

definition observation_prune_marker_id :: "str \<Rightarrow> str list \<Rightarrow> int \<Rightarrow> str" where
  "observation_prune_marker_id session ids t =
     take 12 (hex16 (fnv1a (str_bytes session @ [0xfd] @ le_bytes t @ [0xfc]
                            @ concat (map str_bytes ids))))"

subsection \<open>Observations\<close>

definition observation_fields_ok :: "observation_write \<Rightarrow> unit result" where
  "observation_fields_ok w =
     rbind (validate_event_field ''session_id'' (ow_session_id w)) (\<lambda>_.
     rbind (validate_observation_field ''content'' (ow_content w)) (\<lambda>_.
     rbind (validate_observation_field ''derivation'' (ow_derivation w)) (\<lambda>_.
     rbind (validate_scope (ow_scope w)) (\<lambda>_.
     ensure (ow_source_event_ids w \<noteq> []) (EMissingEventProvenance 0)))))"

definition source_event :: "str \<Rightarrow> db \<Rightarrow> int \<Rightarrow> event result" where
  "source_event session d i =
     rbind (get_event i d) (\<lambda>e.
     if e_session_id e \<noteq> session then Inl (EMissingEventProvenance i) else Inr e)"

definition observation_record ::
  "int \<Rightarrow> str \<Rightarrow> observation_write \<Rightarrow> event \<Rightarrow> log_record" where
  "observation_record now i w first_event =
     RecordObservation now i (ow_session_id w) (ow_content w) (relevance_as_str (ow_relevance w))
       (ow_source_event_ids w) (e_agent_id first_event) (e_agent_kind first_event)
       (ow_derivation w) (ow_scope w)"

definition log_observation :: "env \<Rightarrow> observation_write \<Rightarrow> str \<Rightarrow> event list \<Rightarrow> str op" where
  "log_observation ev w i events =
     op_bind (op_read (\<lambda>d. Inr (map_of (o_observations (db_observed d)) i))) (\<lambda>existing.
     case existing of
       Some o1 \<Rightarrow>
         if o_session_id o1 = ow_session_id w \<and> o_content o1 = ow_content w
            \<and> o_source_event_ids o1 = ow_source_event_ids w
         then op_ret i else op_of (Inl (EObservationIdCollision i))
     | None \<Rightarrow>
         op_then (logged ev Observations (observation_record (en_now ev) i w (hd events))) (op_ret i))"

definition record_observation :: "env \<Rightarrow> observation_write \<Rightarrow> str op" where
  "record_observation ev w =
     op_then (op_of (observation_fields_ok w))
    (op_then (privacy_filter_recording
               (join '' '' [ow_session_id w, ow_content w, ow_derivation w]))
    (op_then (privacy_filter_path_recording (ow_derivation w))
    (op_bind (op_read (\<lambda>d. rmap (source_event (ow_session_id w) d) (ow_source_event_ids w))) (\<lambda>events.
     log_observation ev w
       (observation_id (ow_session_id w) (ow_content w) (ow_source_event_ids w)) events))))"

subsection \<open>Reading observations\<close>

definition parse_observation :: "observation \<Rightarrow> observation result" where
  "parse_observation o1 =
     rbind (relevance_from_str (o_relevance o1)) (\<lambda>_.
     rbind (agent_kind_from_str (o_agent_kind o1)) (\<lambda>_. Inr o1))"

definition get_observation :: "str \<Rightarrow> db \<Rightarrow> observation result" where
  "get_observation i d =
     rbind (validate_observation_field ''id'' i) (\<lambda>_.
     rbind (ok_or (EMissingObservation i) (map_of (o_observations (db_observed d)) i)) (\<lambda>o1.
     conversion_failure (parse_observation o1)))"

definition pruned_ids :: "str \<Rightarrow> db \<Rightarrow> str list" where
  "pruned_ids session d =
     concat [m_pruned_ids m. m \<leftarrow> tbl_rows (o_markers (db_observed d)), m_session_id m = session]"

definition session_observations :: "str \<Rightarrow> db \<Rightarrow> observation list" where
  "session_observations session d =
     sort_key (\<lambda>o1. (o_ts o1, o_id o1))
       [o1 \<leftarrow> tbl_rows (o_observations (db_observed d)). o_session_id o1 = session]"

definition list_observations_for_session :: "str \<Rightarrow> db \<Rightarrow> observation list result" where
  "list_observations_for_session session d =
     rbind (validate_event_field ''session_id'' session) (\<lambda>_.
     rmap (\<lambda>o1. get_observation (o_id o1) d)
       [o1 \<leftarrow> session_observations session d. o_id o1 \<notin> set (pruned_ids session d)])"

record coverage =
  cov_event_ids :: "int list"
  cov_covered :: "int list"
  cov_uncovered :: "int list"

definition observation_coverage :: "str \<Rightarrow> db \<Rightarrow> coverage result" where
  "observation_coverage session d =
     rbind (validate_event_field ''session_id'' session) (\<lambda>_.
     rbind (list_events_for_session session d) (\<lambda>events.
     rbind (list_observations_for_session session d) (\<lambda>obs.
     let ids = map e_id events; covered = concat (map o_source_event_ids obs)
     in Inr \<lparr> cov_event_ids = ids, cov_covered = [i \<leftarrow> ids. i \<in> set covered],
              cov_uncovered = [i \<leftarrow> ids. i \<notin> set covered] \<rparr>)))"

record observation_recall =
  or_observation :: observation
  or_events :: "event list"
  or_audit_status :: "str option"
  or_prune_marker_id :: "str option"

text \<open>The markers of a session, latest first (\<open>ORDER BY ts DESC, id DESC\<close>).\<close>

definition prune_marker_id_for_observation :: "str \<Rightarrow> str \<Rightarrow> db \<Rightarrow> str option result" where
  "prune_marker_id_for_observation session i d =
     rbind (validate_event_field ''session_id'' session) (\<lambda>_.
     rbind (validate_observation_field ''id'' i) (\<lambda>_.
     Inr (map_option fst (find (\<lambda>(k, m). i \<in> set (m_pruned_ids m))
       (rev (sort_key (\<lambda>(k, m). (m_ts m, k))
               [(k, m) \<leftarrow> o_markers (db_observed d). m_session_id m = session]))))))"

definition recall_observation :: "str \<Rightarrow> db \<Rightarrow> observation_recall result" where
  "recall_observation i d =
     rbind (get_observation i d) (\<lambda>o1.
     rbind (rmap (\<lambda>e. get_event e d) (o_source_event_ids o1)) (\<lambda>events.
     rbind (prune_marker_id_for_observation (o_session_id o1) i d) (\<lambda>marker.
     Inr \<lparr> or_observation = o1, or_events = events,
           or_audit_status = map_option (\<lambda>_. ''pruned'') marker, or_prune_marker_id = marker \<rparr>)))"

subsection \<open>Observers\<close>

record observation_draft =
  od_content :: str
  od_relevance :: relevance
  od_source_event_ids :: "int list"
  od_derivation :: str

text \<open>The ids of a draft no earlier draft or observation covers, and the set they extend.\<close>

fun take_uncovered :: "int list \<Rightarrow> int set \<Rightarrow> int list \<times> int set" where
  "take_uncovered [] seen = ([], seen)"
| "take_uncovered (i # is) seen =
     (if i \<in> seen then take_uncovered is seen
      else let (new, seen') = take_uncovered is (insert i seen) in (i # new, seen'))"

fun propose_drafts ::
  "(nat \<Rightarrow> env) \<Rightarrow> str \<Rightarrow> nat \<Rightarrow> observation_draft list \<Rightarrow> int set \<Rightarrow> str list op" where
  "propose_drafts evs session n [] seen = op_ret []"
| "propose_drafts evs session n (x # xs) seen =
     (let (ids, seen') = take_uncovered (od_source_event_ids x) seen
      in if ids = [] then propose_drafts evs session n xs seen'
         else op_bind (record_observation (evs n)
                         (observation_write_new session (od_content x) (od_relevance x) ids
                            (od_derivation x))) (\<lambda>i.
              op_bind (propose_drafts evs session (Suc n) xs seen') (\<lambda>is.
              op_ret (i # is))))"

definition propose_observations_from_observer ::
  "(event list \<Rightarrow> observation_draft list result) \<Rightarrow> (nat \<Rightarrow> env) \<Rightarrow> str \<Rightarrow> str list op" where
  "propose_observations_from_observer observe evs session =
     op_bind (op_read (list_events_for_session session)) (\<lambda>events.
     op_bind (op_of (observe events)) (\<lambda>drafts.
     op_bind (op_read (observation_coverage session)) (\<lambda>cov.
     propose_drafts evs session 0 drafts (set (cov_covered cov)))))"

subsection \<open>Pruning\<close>

definition prune_choice :: "str \<Rightarrow> nat \<Rightarrow> db \<Rightarrow> str list result" where
  "prune_choice session keep d =
     rbind (validate_event_field ''session_id'' session) (\<lambda>_.
     rbind (list_observations_for_session session d) (\<lambda>obs.
     if length obs \<le> keep then Inr []
     else rbind (observation_coverage session d) (\<lambda>cov.
          if cov_uncovered cov \<noteq> [] then Inr []
          else Inr (map o_id (take (length obs - keep)
                 (sort_key (\<lambda>o1. (case relevance_from_str (o_relevance o1) of
                                    Inr rel \<Rightarrow> rank rel | Inl _ \<Rightarrow> 0, o_ts o1, o_id o1)) obs))))))"

definition prune_observations :: "env \<Rightarrow> str \<Rightarrow> nat \<Rightarrow> nat op" where
  "prune_observations ev session keep =
     op_bind (op_read (prune_choice session keep)) (\<lambda>ids.
     if ids = [] then op_ret 0
     else op_then (logged ev Observations
            (PruneObservations (en_now ev)
               (observation_prune_marker_id session ids (en_now ev)) session ids))
          (op_ret (length ids)))"

subsection \<open>Continuity summary\<close>

definition show_int_list :: "int list \<Rightarrow> str" where
  "show_int_list is = ''['' @ join '', '' (map show_int is) @ '']''"

definition format_range :: "int \<times> int \<Rightarrow> str" where
  "format_range p = (if fst p = snd p then show_int (fst p)
                     else show_int (fst p) @ ''-'' @ show_int (snd p))"

text \<open>Uncovered events adjacent in session order, as first-last pairs.\<close>

fun uncovered_ranges :: "int set \<Rightarrow> int list \<Rightarrow> (int \<times> int) option \<Rightarrow> (int \<times> int) list" where
  "uncovered_ranges un [] None = []"
| "uncovered_ranges un [] (Some p) = [p]"
| "uncovered_ranges un (i # is) cur =
     (if i \<in> un
      then uncovered_ranges un is (Some (case cur of None \<Rightarrow> (i, i) | Some (a, _) \<Rightarrow> (a, i)))
      else (case cur of None \<Rightarrow> [] | Some p \<Rightarrow> [p]) @ uncovered_ranges un is None)"

definition summary_line :: "observation \<Rightarrow> str" where
  "summary_line o1 =
     ''- ['' @ o_relevance o1 @ ''] '' @ o_content o1 @ '' (id='' @ o_id o1 @ '', source_events=''
     @ show_int_list (o_source_event_ids o1) @ '')'' @ [CHR 0x0A]"

definition assemble_compaction_summary :: "str \<Rightarrow> db \<Rightarrow> str result" where
  "assemble_compaction_summary session d =
     (let title = ''# Aver session continuity summary'' @ [CHR 0x0A, CHR 0x0A]
      in rbind (list_observations_for_session session d) (\<lambda>obs.
         if obs = [] then Inr (title @ ''No observations recorded.'' @ [CHR 0x0A])
         else rbind (observation_coverage session d) (\<lambda>cov.
              Inr (title @ concat (map summary_line obs)
                   @ (if cov_uncovered cov = [] then []
                      else ''continuity is incomplete; uncovered event ranges: ''
                           @ join '', '' (map format_range
                               (uncovered_ranges (set (cov_uncovered cov)) (cov_event_ids cov) None))
                           @ [CHR 0x0A])))))"

subsection \<open>Extraction triggers\<close>

record extraction_decision =
  ed_should_extract :: bool
  ed_reasons :: "trigger_reason list"

definition sql_trim :: "str \<Rightarrow> str" where
  "sql_trim s = rev (dropWhile ((=) CHR '' '') (rev (dropWhile ((=) CHR '' '') s)))"

text \<open>\<open>LENGTH\<close> counts up to the first NUL; what \<open>REPLACE\<close> takes away are the spaces.\<close>

definition payload_tokens :: "str \<Rightarrow> nat" where
  "payload_tokens p =
     (let t = sql_trim p
      in if t = [] then 0
         else length [c \<leftarrow> takeWhile (\<lambda>c. c \<noteq> CHR 0x00) t. c = CHR '' ''] + 1)"

definition event_triggers :: "trigger_reason list" where
  "event_triggers = [ExplicitRemember, SessionEnd, Correction, CommitCompleted, IdleCompaction]"

definition extraction_decision ::
  "str \<Rightarrow> nat \<Rightarrow> nat option \<Rightarrow> db \<Rightarrow> extraction_decision result" where
  "extraction_decision session event_threshold token_threshold d =
     rbind (validate_event_field ''session_id'' session) (\<lambda>_.
     rbind (ensure (event_threshold \<noteq> 0) EInvalidEventThreshold) (\<lambda>_.
     rbind (ensure (token_threshold \<noteq> Some 0) EInvalidEventThreshold) (\<lambda>_.
     let events = [e \<leftarrow> tbl_rows (e_events (db_episodes d)). e_session_id e = session];
         explicit = [r \<leftarrow> event_triggers. list_ex (\<lambda>e. e_kind e = trigger_reason_as_str r) events]
     in rbind (observation_coverage session d) (\<lambda>cov.
        let reasons = explicit
              @ (if cov_uncovered cov \<noteq> [] then [UncoveredCoverageGap] else [])
              @ (if event_threshold \<le> length events then [EventCountThreshold] else [])
              @ (case token_threshold of
                   None \<Rightarrow> []
                 | Some n \<Rightarrow>
                     if n \<le> sum_list (map (payload_tokens \<circ> e_payload) events)
                     then [ObservationTokenThreshold] else [])
        in Inr \<lparr> ed_should_extract = (reasons \<noteq> []), ed_reasons = reasons \<rparr>))))"

definition should_extract_memories :: "str \<Rightarrow> nat \<Rightarrow> db \<Rightarrow> bool result" where
  "should_extract_memories session event_threshold d =
     rbind (extraction_decision session event_threshold None d) (\<lambda>x.
     Inr (list_ex (\<lambda>r. r \<noteq> UncoveredCoverageGap) (ed_reasons x)))"

subsection \<open>Soundness\<close>

lemma sound_event [sound_intros]: "sound (record_event ev w)"
  unfolding record_event_def event_record_def by (intro sound_intros; simp)

lemma sound_observation [sound_intros]: "sound (record_observation ev w)"
  unfolding record_observation_def log_observation_def observation_record_def
  by (intro sound_intros; simp)

lemma sound_propose_drafts [sound_intros]: "sound (propose_drafts evs session n xs seen)"
proof (induction xs arbitrary: n seen)
  case Nil
  show ?case by (simp add: sound_atoms)
next
  case (Cons x xs)
  show ?case
    unfolding propose_drafts.simps(2) Let_def by (intro sound_intros Cons.IH)
qed

lemma sound_observer [sound_intros]:
  "sound (propose_observations_from_observer observe evs session)"
  unfolding propose_observations_from_observer_def by (intro sound_intros)

lemma sound_prune [sound_intros]: "sound (prune_observations ev session keep)"
  unfolding prune_observations_def by (intro sound_intros; simp)

end
