(* ===== verification/Candidates.thy ===== *)
theory Candidates
  imports Episodic
begin

section \<open>Candidate claims\<close>

text \<open>
  \<open>crates/aver-core/src/candidates.rs\<close>: claims an extractor proposes from an event wait as
  PENDING candidates until they are promoted to a claim or rejected.
\<close>

definition parse_candidate :: "candidate_row \<Rightarrow> candidate_row result" where
  "parse_candidate k = conversion_failure (rbind (provenance_from_str (k_provenance k)) (\<lambda>_. Inr k))"

definition get_candidate_claim :: "int \<Rightarrow> db \<Rightarrow> candidate_row result" where
  "get_candidate_claim i d =
     rbind (ok_or (EMissingCandidate i) (map_of (e_candidates (db_episodes d)) i)) parse_candidate"

definition event_exists :: "int \<Rightarrow> db \<Rightarrow> bool" where
  "event_exists i d = (map_of (e_events (db_episodes d)) i \<noteq> None)"

definition list_candidate_claims ::
  "str option \<Rightarrow> str option \<Rightarrow> db \<Rightarrow> candidate_row list result" where
  "list_candidate_claims session status d =
     rbind (case session of None \<Rightarrow> Inr () | Some s \<Rightarrow> validate_event_field ''session_id'' s) (\<lambda>_.
     rbind (case status of None \<Rightarrow> Inr () | Some s \<Rightarrow> validate_candidate_status_filter s) (\<lambda>_.
     rmap parse_candidate
       [k \<leftarrow> tbl_rows (e_candidates (db_episodes d)).
          (case status of None \<Rightarrow> True | Some s \<Rightarrow> k_status k = s)
          \<and> (case session of
               None \<Rightarrow> True
             | Some s \<Rightarrow> (case map_of (e_events (db_episodes d)) (k_event_id k) of
                           None \<Rightarrow> False | Some e \<Rightarrow> e_session_id e = s))]))"

definition list_candidate_claims_for_event :: "int \<Rightarrow> db \<Rightarrow> candidate_row list result" where
  "list_candidate_claims_for_event event_id d =
     rbind (ensure (event_exists event_id d) (EMissingEventProvenance event_id)) (\<lambda>_.
     rmap parse_candidate
       [k \<leftarrow> tbl_rows (e_candidates (db_episodes d)). k_event_id k = event_id])"

subsection \<open>Proposing\<close>

definition candidate_gate :: "candidate_write \<Rightarrow> unit op" where
  "candidate_gate w =
     op_then (op_read (\<lambda>d. ensure (event_exists (kw_event_id w) d)
                             (EMissingEventProvenance (kw_event_id w))))
    (op_then (op_of (
       rbind (validate_claim_field ''subject'' (kw_subject w)) (\<lambda>_.
       rbind (validate_claim_field ''predicate'' (kw_predicate w)) (\<lambda>_.
       rbind (validate_claim_field ''object'' (kw_object w)) (\<lambda>_.
       validate_scope (kw_scope w))))))
    (op_then (privacy_filter_recording (join '' '' [kw_subject w, kw_predicate w, kw_object w]))
             (privacy_paths_recording [kw_subject w, kw_object w])))"

definition candidate_record :: "int \<Rightarrow> int \<Rightarrow> candidate_write \<Rightarrow> log_record" where
  "candidate_record now i w =
     ProposeCandidateClaim now i (kw_event_id w) (kw_subject w) (kw_predicate w) (kw_object w)
       (kw_scope w)"

definition propose_candidate_claim :: "env \<Rightarrow> candidate_write \<Rightarrow> int op" where
  "propose_candidate_claim ev w =
     op_then (candidate_gate w) (mint_and_log ev Events (\<lambda>i. candidate_record (en_now ev) i w))"

record candidate_draft =
  cd_event_id :: int
  cd_subject :: str
  cd_predicate :: str
  cd_object :: str

definition propose_claims_from_extractor ::
  "(event list \<Rightarrow> candidate_draft list result) \<Rightarrow> (nat \<Rightarrow> env) \<Rightarrow> str \<Rightarrow> int list op" where
  "propose_claims_from_extractor extract evs session =
     op_bind (op_read (list_events_for_session session)) (\<lambda>events.
     op_bind (op_of (extract events)) (\<lambda>drafts.
     op_each (\<lambda>(n, x). propose_candidate_claim (evs n)
                (candidate_write_new (cd_event_id x) (cd_subject x) (cd_predicate x) (cd_object x)))
       (enumerate 0 drafts)))"

subsection \<open>Promotion\<close>

definition promotion_claim ::
  "int \<Rightarrow> int \<Rightarrow> candidate_row \<Rightarrow> event \<Rightarrow> provenance \<Rightarrow> f64 \<Rightarrow> log_record" where
  "promotion_claim now i k e prov conf =
     AddClaim now i (k_subject k) (k_predicate k) (k_object k) (''event:'' @ show_int (e_id e))
       (e_agent_id e) (e_agent_kind e) conf (Some (provenance_as_str prov)) (k_scope k)"

text \<open>Both lines are appended before either is applied.\<close>

definition log_promotion :: "env \<Rightarrow> log_record \<Rightarrow> log_record \<Rightarrow> unit op" where
  "log_promotion ev claim_rec promotion_rec =
     op_then (append_jsonl ev Log claim_rec)
    (op_then (append_jsonl ev Events promotion_rec)
    (op_then (apply_op claim_rec) (apply_op promotion_rec)))"

definition promote_candidate_claim_inner ::
  "env \<Rightarrow> int \<Rightarrow> (provenance \<times> f64) option \<Rightarrow> decision option \<Rightarrow> int op" where
  "promote_candidate_claim_inner ev candidate_id attribution dec =
     op_bind (op_read (get_candidate_claim candidate_id)) (\<lambda>k.
     if k_status k = ''REJECTED''
     then op_of (Inl (EInvalidCandidateStatus candidate_id (k_status k)))
     else case k_promoted_claim_id k of
       Some claim_id \<Rightarrow> op_ret claim_id
     | None \<Rightarrow>
         op_bind (op_read (get_event (k_event_id k))) (\<lambda>e.
         op_bind (op_of (case attribution of
                           Some a \<Rightarrow> Inr a
                         | None \<Rightarrow> rbind (provenance_from_str (k_provenance k)) (\<lambda>p.
                                    Inr (p, k_confidence k)))) (\<lambda>(prov, conf).
         op_then (op_read (\<lambda>d. validate_ontology (db_graph d) (k_predicate k) prov))
         (transaction ev
           (op_bind (mint_op ev) (\<lambda>i.
            op_then (log_promotion ev (promotion_claim (en_now ev) i k e prov conf)
                       (PromoteCandidateClaim (en_now ev) candidate_id i dec))
                    (op_ret i)))))))"

definition promote_candidate_claim :: "env \<Rightarrow> int \<Rightarrow> int op" where
  "promote_candidate_claim ev candidate_id =
     promote_candidate_claim_inner ev candidate_id None None"

subsection \<open>Rejection\<close>

text \<open>The status read again under the write lock: \<open>Some ()\<close> when the rejection is to be logged.\<close>

definition reject_check :: "int \<Rightarrow> str \<Rightarrow> db \<Rightarrow> unit option result" where
  "reject_check candidate_id reason d =
     (case map_of (e_candidates (db_episodes d)) candidate_id of
        None \<Rightarrow> Inl (EMissingCandidate candidate_id)
      | Some k \<Rightarrow>
          if k_status k = ''REJECTED''
          then (if k_rejection_reason k = Some reason then Inr None
                else Inl (EInvalidCandidateStatus candidate_id (k_status k)))
          else if k_status k \<noteq> ''PENDING''
          then Inl (EInvalidCandidateStatus candidate_id (k_status k))
          else Inr (Some ()))"

definition reject_candidate_claim_inner ::
  "env \<Rightarrow> int \<Rightarrow> str \<Rightarrow> decision option \<Rightarrow> unit op" where
  "reject_candidate_claim_inner ev candidate_id reason dec =
     op_bind (op_read (get_candidate_claim candidate_id)) (\<lambda>k.
     if k_status k = ''PROMOTED''
     then op_of (Inl (EInvalidCandidateStatus candidate_id (k_status k)))
     else
       op_then (op_of (validate_rejection_reason reason))
      (op_then (privacy_filter_recording reason)
      (transaction ev
        (op_bind (op_read (reject_check candidate_id reason)) (\<lambda>todo.
         case todo of
           None \<Rightarrow> op_ret ()
         | Some u \<Rightarrow> logged ev Events
                       (RejectCandidateClaim (en_now ev) candidate_id reason dec))))))"

definition reject_candidate_claim :: "env \<Rightarrow> int \<Rightarrow> str \<Rightarrow> unit op" where
  "reject_candidate_claim ev candidate_id reason =
     reject_candidate_claim_inner ev candidate_id reason None"

subsection \<open>Soundness\<close>

lemma sound_propose [sound_intros]:
  "sound (propose_candidate_claim ev w)" "sound (propose_claims_from_extractor extract evs session)"
proof -
  have "quiet (candidate_gate w)" for w
    unfolding candidate_gate_def by (intro quiet_intros)
  then show p: "sound (propose_candidate_claim ev w)" for ev w
    unfolding propose_candidate_claim_def candidate_record_def
    by (intro sound_intros sound_quiet; simp)
  then show "sound (propose_claims_from_extractor extract evs session)"
    unfolding propose_claims_from_extractor_def by (intro sound_intros)
qed

lemma append_cases:
  assumes "append_jsonl ev k r s = (q, s')"
  obtains (kept) e where "q = Inl e" "s' = s"
    | (line) e where "q = Inl e" "s' = push_log k r s"
    | (written) "q = Inr ()" "s' = push_log k r s"
proof (cases "en_disk ev (log_of k s) r")
  case Appended
  with assms show thesis by (intro written) (simp_all add: append_jsonl_def)
next
  case (Not_Appended e)
  with assms show thesis by (intro kept [of e]) (simp_all add: append_jsonl_def)
next
  case (Unsynced e)
  with assms show thesis by (intro line [of e]) (simp_all add: append_jsonl_def)
qed

lemma apply_op_cases:
  assumes "apply_op r s = (q, s')"
  obtains (bad) e where "q = Inl e" "s' = s"
    | (good) d where "q = Inr ()" "project r (st_db s) = Inr d" "s' = s \<lparr> st_db := d \<rparr>"
proof (cases "apply_record r (st_db s)")
  case (Inl e)
  with assms show thesis by (intro bad [of e]) (simp_all add: apply_op_def)
next
  case (Inr x)
  obtain a d where "x = (a, d)" by (cases x)
  with Inr assms show thesis
    by (intro good [of d]) (simp_all add: apply_op_def project_def)
qed

lemma derails_push:
  assumes "q = Inl e" and "log_of k s' = log_of k s @ [r]"
  shows "derails q s s'"
proof -
  from assms(2) have "log_of k s' \<noteq> log_of k s" by simp
  with assms(1) show ?thesis unfolding derails_def same_logs_def by auto
qed

lemma sound_log_promotion [sound_intros]:
  assumes "series_of c = Log" and "series_of p = Events"
  shows "sound (log_promotion ev c p)"
  unfolding sound_def
proof (intro allI impI)
  fix s q s'
  assume run: "log_promotion ev c p s = (q, s')"
  let ?goal = "logs_grow s s' \<and> (in_sync s \<longrightarrow> in_sync s' \<or> derails q s s')"
  let ?s1 = "push_log Log c s" and ?s2 = "push_log Events p (push_log Log c s)"
  obtain q1 s1 where a1: "append_jsonl ev Log c s = (q1, s1)" by (cases "append_jsonl ev Log c s")
  from a1 show ?goal
  proof (cases rule: append_cases)
    case (kept e)
    with a1 run show ?thesis by (simp add: log_promotion_def op_then_def op_bind_def)
  next
    case (line e)
    with a1 run have q: "q = Inl e" "s' = ?s1" by (simp_all add: log_promotion_def op_then_def op_bind_def)
    with derails_push [OF q(1), of Log s' s c] show ?thesis by (simp add: logs_grow_def)
  next
    case written
    obtain q2 s2 where a2: "append_jsonl ev Events p ?s1 = (q2, s2)"
      by (cases "append_jsonl ev Events p ?s1")
    from a2 show ?thesis
    proof (cases rule: append_cases)
      case (kept e)
      with a1 written a2 run have q: "q = Inl e" "s' = ?s1"
        by (simp_all add: log_promotion_def op_then_def op_bind_def)
      with derails_push [OF q(1), of Log s' s c] show ?thesis by (simp add: logs_grow_def)
    next
      case (line e)
      with a1 written a2 run have q: "q = Inl e" "s' = ?s2"
        by (simp_all add: log_promotion_def op_then_def op_bind_def)
      with derails_push [OF q(1), of Log s' s c] show ?thesis by (simp add: logs_grow_def)
    next
      case written2: written
      have rest: "op_then (apply_op c) (apply_op p) ?s2 = (q, s')"
        using a1 written a2 written2 run by (simp add: log_promotion_def op_then_def op_bind_def)
      obtain q3 s3 where a3: "apply_op c ?s2 = (q3, s3)" by (cases "apply_op c ?s2")
      from a3 show ?thesis
      proof (cases rule: apply_op_cases)
        case (bad e)
        with a3 rest have q: "q = Inl e" "s' = ?s2" by (simp_all add: op_then_def op_bind_def)
        with derails_push [OF q(1), of Log s' s c] show ?thesis by (simp add: logs_grow_def)
      next
        case (good d1)
        with a3 rest have a4: "apply_op p (?s2 \<lparr> st_db := d1 \<rparr>) = (q, s')"
          by (simp add: op_then_def op_bind_def)
        then show ?thesis
        proof (cases rule: apply_op_cases)
          case (bad e)
          with derails_push [OF bad(1), of Log s' s c] show ?thesis by (simp add: logs_grow_def)
        next
          case (good d2)
          have "in_sync s'" if "in_sync s"
          proof -
            have "in_sync (?s1 \<lparr> st_db := d1 \<rparr>)"
              using in_sync_push [OF that _ assms(1)] \<open>project c (st_db ?s2) = Inr d1\<close> by simp
            then have "in_sync (push_log Events p (?s1 \<lparr> st_db := d1 \<rparr>) \<lparr> st_db := d2 \<rparr>)"
              using in_sync_push [OF _ _ assms(2)] good(2) by simp
            then show ?thesis using good(3) by (simp add: push_log.simps)
          qed
          with good(3) show ?thesis by (simp add: logs_grow_def)
        qed
      qed
    qed
  qed
qed

lemma sound_promote [sound_intros]:
  "sound (promote_candidate_claim_inner ev i attribution dec)" "sound (promote_candidate_claim ev i)"
  unfolding promote_candidate_claim_def promote_candidate_claim_inner_def promotion_claim_def
  by (intro sound_intros; simp)+

lemma sound_reject [sound_intros]:
  "sound (reject_candidate_claim_inner ev i reason dec)" "sound (reject_candidate_claim ev i reason)"
  unfolding reject_candidate_claim_def reject_candidate_claim_inner_def
  by (intro sound_intros; simp)+

end
