(* ===== verification/Store_Steps.thy ===== *)
theory Store_Steps
  imports Hyperedges Vectors Candidates
begin

section \<open>The life of a store\<close>

text \<open>
  The public write operations as a step relation: \<open>store_call s failed s'\<close> is one call with any
  arguments under any \<open>env\<close>, \<open>failed\<close> when it derails (fails after a line reached the log).
  \<open>store_history\<close> are the states any calls lead to, \<open>store_reached\<close> those reached without
  derailing; \<open>reached_in_sync\<close> is their invariant, by rule induction.
\<close>

inductive store_call :: "store \<Rightarrow> bool \<Rightarrow> store \<Rightarrow> bool" where
  "add_claim ev w s = (q, s') \<Longrightarrow> store_call s (derails q s s') s'"
| "ingest_extractor_facts evs ev1 ev2 ev3 ag k src sc fs s = (qs, s') \<Longrightarrow> store_call s (derails qs s s') s'"
| "add_contradiction ev i reason s = (q, s') \<Longrightarrow> store_call s (derails q s s') s'"
| "contradict ev1 ev2 i reason n s = (qx, s') \<Longrightarrow> store_call s (derails qx s s') s'"
| "retire_claim ev i reason s = (qu, s') \<Longrightarrow> store_call s (derails qu s s') s'"
| "decay_contradicted_confidence ev s = (qn, s') \<Longrightarrow> store_call s (derails qn s s') s'"
| "decay_inferred_confidence_at exp64 ev t tau s = (qn, s') \<Longrightarrow> store_call s (derails qn s s') s'"
| "consolidate_report ev1 ev2 ev3 s = (qc, s') \<Longrightarrow> store_call s (derails qc s s') s'"
| "add_hyperedge ev h s = (q, s') \<Longrightarrow> store_call s (derails q s s') s'"
| "add_vector_chunk ev i txt model s = (q, s') \<Longrightarrow> store_call s (derails q s s') s'"
| "add_vector_chunk_with_embedding ev i txt model e s = (q, s') \<Longrightarrow> store_call s (derails q s s') s'"
| "backfill_vector_embeddings embedder evs s = (qn, s') \<Longrightarrow> store_call s (derails qn s s') s'"
| "record_event ev x s = (q, s') \<Longrightarrow> store_call s (derails q s s') s'"
| "record_observation ev o1 s = (qo, s') \<Longrightarrow> store_call s (derails qo s s') s'"
| "propose_observations_from_observer observe evs session s = (qos, s') \<Longrightarrow> store_call s (derails qos s s') s'"
| "prune_observations ev session keep s = (qn, s') \<Longrightarrow> store_call s (derails qn s s') s'"
| "propose_candidate_claim ev k s = (q, s') \<Longrightarrow> store_call s (derails q s s') s'"
| "propose_claims_from_extractor extract evs session s = (qs, s') \<Longrightarrow> store_call s (derails qs s s') s'"
| "promote_candidate_claim_inner ev i attribution dec s = (q, s') \<Longrightarrow> store_call s (derails q s s') s'"
| "reject_candidate_claim_inner ev i reason dec s = (qu, s') \<Longrightarrow> store_call s (derails qu s s') s'"

inductive store_reached :: "store \<Rightarrow> bool" where
  fresh: "store_reached fresh_store"
| step: "store_reached s \<Longrightarrow> store_call s False s' \<Longrightarrow> store_reached s'"

inductive store_history :: "store \<Rightarrow> bool" where
  start: "store_history fresh_store"
| call: "store_history s \<Longrightarrow> store_call s failed s' \<Longrightarrow> store_history s'"

lemma sound_call:
  "in_sync s \<Longrightarrow> sound m \<Longrightarrow> failed = derails q s s' \<Longrightarrow> m s = (q, s') \<Longrightarrow> in_sync s' \<or> failed"
  unfolding sound_def by blast

lemma store_call_in_sync:
  assumes "store_call s failed s'" and "in_sync s"
  shows "in_sync s' \<or> failed"
  using assms(1)
  by cases (rule sound_call [OF assms(2)], rule sound_intros, assumption, assumption)+

lemma reached_in_sync: "store_reached s \<Longrightarrow> in_sync s"
  by (induction rule: store_reached.induct) (auto intro: fresh_in_sync dest: store_call_in_sync)

end
