(* ===== verification/Progress.thy ===== *)
theory Progress
  imports Store_Steps
begin

section \<open>A validated write applies\<close>

text \<open>
  The log is written before the projection, so a record the projection refuses poisons the
  log. Here each handler is shown to succeed on what the validation lets through, provided the
  clock is not behind the rows it touches and the minted id is free.
\<close>

definition clock_ok :: "int \<Rightarrow> graph \<Rightarrow> bool" where
  "clock_ok now g \<longleftrightarrow> 0 < now \<and> tbl_all (\<lambda>_ e. er_created_at e \<le> now) (g_entities g)"

lemma check_all_passes: "passes cs \<Longrightarrow> check_all cs = Inr ()"
  by (simp add: check_all_ok)

lemma type_id_row:
  assumes ok: "hierarchy_ok t" and id: "type_id_on t n = Some i"
  shows "\<exists>row. map_of t i = Some row \<and> 0 < i"
proof -
  have "tbl_ok t" using ok by (simp add: hierarchy_ok_iff)
  then obtain row where "map_of t i = Some row" using id by (rule type_id_on_get)
  moreover from this ok have "0 < i" by (auto simp: hierarchy_ok_iff dest: tbl_all_get)
  ultimately show ?thesis by blast
qed

lemma vocab_facts:
  assumes "graph_ok g"
  shows "hierarchy_ok (g_predicate_types g)" "hierarchy_ok (g_entity_types g)"
    "\<exists>j. type_id_on (g_predicate_types g) ''relates_to'' = Some j"
    "\<exists>j. type_id_on (g_entity_types g) ''Thing'' = Some j"
  using assms by (auto simp: graph_ok_def vocab_ok_def)

lemma ensure_predicate_progress:
  assumes ok: "graph_ok g" and pred: "\<not> sql_blank pred"
    and agent: "\<not> sql_blank agent" "charset_ok agent" and now: "0 < now"
  shows "\<exists>g'. ensure_predicate_known pred prov agent now g = Inr g'"
proof (cases "predicate_known g pred")
  case True
  then show ?thesis by (auto simp: ensure_predicate_known_def predicate_known_def)
next
  case False
  let ?t = "g_predicate_types g"
  let ?i = "next_rowid ?t"
  obtain j where j: "type_id_on ?t ''relates_to'' = Some j" using vocab_facts(3) [OF ok] by blast
  obtain row where row: "map_of ?t j = Some row" "0 < j"
    using type_id_row [OF vocab_facts(1) [OF ok] j] by blast
  have tok: "tbl_ok ?t" using vocab_facts(1) [OF ok] by (simp add: hierarchy_ok_iff)
  from row(1) have "j \<in> fst ` set ?t" by (metis domI dom_map_of_conv_image_fst)
  then have less: "j < ?i" using next_rowid_fresh [OF tok] by blast
  let ?row = "extended_ptype pred prov j now"
  let ?t' = "?t @ [(?i, ?row)]"
  have snoc: "tbl_put ?i ?row ?t = ?t'"
    using next_rowid_fresh [OF tok] by (intro tbl_put_snoc) auto
  from False j have new: "type_id_on ?t pred = None" and ne: "pred \<noteq> ''relates_to''"
    by (auto simp: predicate_known_def)
  have "type_id_on ?t' ''relates_to'' \<noteq> None" using j by (simp add: type_id_on_append)
  moreover have "type_id_on ?t' pred \<noteq> None"
    by (simp add: type_id_on_None extended_simps del: not_None_eq)
  ultimately have known: "type_id_on ?t' ''relates_to'' \<noteq> None" "type_id_on ?t' pred \<noteq> None"
    by simp_all
  let ?g1 = "g \<lparr> g_predicate_types := ?t' \<rparr>"
  have "insert_predicate_type ?row g = Inr ?g1"
    using pred new row less snoc
    by (simp add: insert_predicate_type_def Let_def check_all_ok extended_simps check_all_passes)
  moreover have "\<exists>g'. insert_extension (extended_entry pred agent now) (rebuild_predicate_closure ?g1) = Inr g'"
    using pred agent now known ne
    by (simp add: insert_extension_def check_all_passes extended_simps rebuild_predicate_closure_def
        sql_blank_def)
  ultimately show ?thesis
    using False j by (auto simp: ensure_predicate_known_def predicate_known_def)
qed

lemma ensure_entity_progress:
  assumes ok: "graph_ok g" and clk: "clock_ok now g" and name: "\<not> sql_blank n"
  shows "\<exists>g'. ensure_entity_on n now g = Inr g' \<and> clock_ok now g'"
proof -
  obtain th where th: "type_id_on (g_entity_types g) ''Thing'' = Some th"
    using vocab_facts(4) [OF ok] by blast
  let ?ty = "case type_id_on (g_entity_types g) (infer_entity_type_name_on g n) of
               None \<Rightarrow> th | Some i \<Rightarrow> i"
  have ty: "0 < ?ty \<and> map_of (g_entity_types g) ?ty \<noteq> None"
    using type_id_row [OF vocab_facts(2) [OF ok]] th by (auto split: option.split)
  have now: "0 < now" using clk by (simp add: clock_ok_def)
  show ?thesis
  proof (cases "map_of (g_entities g) n")
    case None
    let ?e = "\<lparr> er_type_id = ?ty, er_requires_review = (?ty = th), er_created_at = now,
               er_last_seen_at = now \<rparr>"
    have "insert_entity n ?e g = Inr (g \<lparr> g_entities := tbl_put n ?e (g_entities g) \<rparr>)"
      using name now ty by (simp add: insert_entity_def check_all_passes entity_checks_def entity_seen_checks_def)
    moreover have "tbl_all (\<lambda>_ e. er_created_at e \<le> now) (tbl_put n ?e (g_entities g))"
      using ok clk by (intro tbl_all_put) (auto simp: graph_ok_def entities_inv_def clock_ok_def)
    ultimately show ?thesis
      using None th now by (simp add: ensure_entity_on_def Let_def clock_ok_def)
  next
    case (Some e)
    have old: "passes (entity_checks g n e)" "er_created_at e \<le> now"
      using ok clk Some by (auto simp: graph_ok_def entities_inv_def clock_ok_def dest: tbl_all_get)
    have upd: "update_entity n e e' g = Inr (g \<lparr> g_entities := tbl_put n e' (g_entities g) \<rparr>)
        \<and> clock_ok now (g \<lparr> g_entities := tbl_put n e' (g_entities g) \<rparr>)"
      if "er_last_seen_at e' = now" "er_created_at e' = er_created_at e"
        "er_type_id e' = er_type_id e \<or> er_type_id e' = ?ty" for e'
    proof
      show "update_entity n e e' g = Inr (g \<lparr> g_entities := tbl_put n e' (g_entities g) \<rparr>)"
        using that old ty now
        by (auto simp: update_entity_def check_all_passes entity_checks_def entity_seen_checks_def)
      have "tbl_all (\<lambda>_ e. er_created_at e \<le> now) (tbl_put n e' (g_entities g))"
        using ok clk old that by (intro tbl_all_put) (auto simp: graph_ok_def entities_inv_def clock_ok_def)
      then show "clock_ok now (g \<lparr> g_entities := tbl_put n e' (g_entities g) \<rparr>)"
        using now by (simp add: clock_ok_def)
    qed
    then show ?thesis
      using Some th by (simp add: ensure_entity_on_def Let_def)
  qed
qed

lemma ensure_predicate_entities:
  "ensure_predicate_known p prov ag now g = Inr g' \<Longrightarrow>
    g_entities g' = g_entities g \<and> g_claims g' = g_claims g \<and> g_hyperedges g' = g_hyperedges g
    \<and> g_entity_types g' = g_entity_types g"
  by (auto simp: ensure_predicate_known_def insert_predicate_type_def insert_extension_def
      rebuild_predicate_closure_def Let_def result_simps split: if_splits)

text \<open>A claim that passes the field checks is accepted.\<close>

lemma add_claim_progress:
  assumes ok: "graph_ok g" and clk: "clock_ok now g" and free: "map_of (g_claims g) i = None"
    and names: "\<not> sql_blank subj" "\<not> sql_blank pred" "\<not> sql_blank obj" "\<not> sql_blank source"
    and agent: "\<not> sql_blank agent" "charset_ok agent"
    and scope: "\<not> sql_blank scope" "scope_charset_ok scope" and conf: "in_unit conf"
  shows "\<exists>g'. ap_add_claim now i subj pred obj source agent kind conf prov scope g = Inr (Applied, g')"
proof -
  have now: "0 < now" using clk by (simp add: clock_ok_def)
  obtain g1 where g1: "ensure_predicate_known pred prov agent now g = Inr g1"
    using ensure_predicate_progress [OF ok names(2) agent now] by blast
  have s1: "step_ok g g1" "predicate_known g1 pred" using ensure_predicate_ok [OF ok g1] by simp_all
  have c1: "clock_ok now g1" using clk ensure_predicate_entities [OF g1] by (simp add: clock_ok_def)
  obtain g2 where g2: "ensure_entity_on subj now g1 = Inr g2" "clock_ok now g2"
    using ensure_entity_progress [OF step_okD(1) [OF s1(1)] c1 names(1)] by blast
  have s2: "step_ok g1 g2" using ensure_entity_ok [OF step_okD(1) [OF s1(1)] g2(1)] by simp
  obtain g3 where g3: "ensure_entity_on obj now g2 = Inr g3"
    using ensure_entity_progress [OF step_okD(1) [OF s2] g2(2) names(3)] by blast
  have s3: "step_ok g2 g3" using ensure_entity_ok [OF step_okD(1) [OF s2] g3] by simp
  have known: "predicate_known g3 pred"
    using s1(2) step_okD(2) [OF s2] step_okD(2) [OF s3] by (simp add: grows_def)
  show ?thesis
    using free g1 g2(1) g3 now names agent scope conf known
    by (simp add: ap_add_claim_def applied_def insert_claim_def check_all_passes claim_checks_def
        confidence_checks_def source_refs_checks_def last_seen_checks_def)
qed

end
