(* ===== verification/Store_Props.thy ===== *)
theory Store_Props
  imports Progress
begin

section \<open>What the store guarantees\<close>

text \<open>
  The properties of the write path: what a call logs and stores, what a refused call leaves,
  that log and projection stay in step over every history, and when adding a claim can poison the
  log.
\<close>

subsection \<open>A sample history\<close>

definition good_env :: "int \<Rightarrow> i64 \<Rightarrow> env" where
  "good_env now ms =
     \<lparr> en_busy = False, en_now = now, en_ms = ms, en_hash = 5, en_disk = (\<lambda>_ _. Appended) \<rparr>"

definition sample_write :: claim_write where
  "sample_write = claim_write_new ''aver'' ''uses'' ''SQLite'' ''README''"

definition sample_env :: env where
  "sample_env = good_env 1735689600 1735689600000"

definition sample_store :: store where
  "sample_store = snd (add_claim sample_env sample_write fresh_store)"

lemma sample_run:
  "add_claim sample_env sample_write fresh_store = (Inr 129525350400005, sample_store)"
proof -
  have "fst (add_claim sample_env sample_write fresh_store) = Inr 129525350400005" by code_simp
  then show ?thesis by (simp add: sample_store_def prod_eq_iff)
qed

lemma sample_reached: "store_reached sample_store"
  using store_reached.step [OF store_reached.fresh] store_call.intros(1) [OF sample_run]
  by (simp add: derails_def)

subsection \<open>Log and projection\<close>

text \<open>
  The log is the source of truth: in every state a store reaches, whatever mixture of
  write operations, refusals and retries led there, the three logs read one after the other
  rebuild exactly the projection the store holds.
\<close>

theorem logs_rebuild_projection:
  assumes "store_reached s"
  shows "rfold project (st_log s @ st_events s @ st_observations s) init_db = Inr (st_db s)"
  using in_sync_replays [OF reached_in_sync [OF assms]] .

theorem logs_rebuild_projection_witness:
  "rfold project (st_log sample_store @ st_events sample_store @ st_observations sample_store) init_db
     = Inr (st_db sample_store)"
  using sample_reached by (rule logs_rebuild_projection)

subsection \<open>Adding a claim\<close>

definition disk_ok :: "env \<Rightarrow> bool" where
  "disk_ok ev \<longleftrightarrow> (\<forall>log r. en_disk ev log r = Appended)"

definition fresh_id :: "env \<Rightarrow> store \<Rightarrow> int" where
  "fresh_id ev s = sint (mint (st_last s) (en_ms ev) (en_hash ev))"

lemma mint_and_log_run:
  assumes "disk_ok ev" and "\<not> en_busy ev"
    and "apply_record (rec (fresh_id ev s)) (st_db s) = Inr (a, d)"
  shows "mint_and_log ev k rec s =
    (Inr (fresh_id ev s),
     push_log k (rec (fresh_id ev s)) (s \<lparr> st_last := mint (st_last s) (en_ms ev) (en_hash ev) \<rparr>)
       \<lparr> st_db := d \<rparr>)"
  using assms
  by (simp add: mint_and_log_def transaction_def op_bind_def mint_op_def op_then_def logged_def
      append_jsonl_def disk_ok_def apply_op_def op_ret_def fresh_id_def Let_def)

lemma charset_ok_agent: "list_all agent_char v \<Longrightarrow> charset_ok v"
  by (simp add: charset_ok_def)

lemma claim_fields_facts:
  assumes "claim_fields_ok w = Inr u"
  shows "\<not> sql_blank (cw_subject w)" "\<not> sql_blank (cw_predicate w)" "\<not> sql_blank (cw_object w)"
    "\<not> sql_blank (cw_source w)" "\<not> sql_blank (cw_scope w)" "scope_charset_ok (cw_scope w)"
    "in_unit (cw_confidence w)" "\<not> sql_blank (cw_agent_id w)" "charset_ok (cw_agent_id w)"
  using assms agent_id_not_sql_blank [of "cw_agent_id w"]
  by (auto simp: claim_fields_ok_def result_simps valid_simps scope_charset_ok_def charset_ok_def
      dest: not_blank_not_sql_blank)

lemma claim_write_applies:
  assumes "graph_ok (db_graph d)" and "clock_ok now (db_graph d)"
    and "map_of (g_claims (db_graph d)) i = None" and "claim_fields_ok w = Inr u"
  shows "\<exists>d'. apply_record (claim_record now i w) d = Inr (Applied, d')"
proof -
  obtain g' where "ap_add_claim now i (cw_subject w) (cw_predicate w) (cw_object w) (cw_source w)
      (cw_agent_id w) (cw_agent_kind w) (cw_confidence w) (cw_provenance w) (cw_scope w)
      (db_graph d) = Inr (Applied, g')"
    using add_claim_progress [OF assms(1-3)] claim_fields_facts [OF assms(4)] by blast
  then show ?thesis
    by (simp add: apply_record_def claim_record_def claim_provenance_def akind.from_as prov.from_as)
qed

definition disk_atomic :: "env \<Rightarrow> bool" where
  "disk_atomic ev \<longleftrightarrow> (\<forall>log r e. en_disk ev log r \<noteq> Unsynced e)"

lemma quiet_failed:
  "quiet m \<Longrightarrow> m s = (q, s') \<Longrightarrow> \<not> derails r s s'"
  using same_data_logs unfolding quiet_def derails_def by blast

lemma quiet_then_run:
  assumes "quiet m" and "op_then m n s = (q, s')"
  shows "same_logs s s' \<or> (\<exists>u t. m s = (Inr u, t) \<and> same_data s t \<and> n t = (q, s'))"
  using assms same_data_logs unfolding op_then_cases quiet_def by blast

lemma mint_and_log_atomic:
  assumes "disk_atomic ev" and "mint_and_log ev k rec s = (q, s')"
    and "is_ok (apply_record (rec (fresh_id ev s)) (st_db s))"
  shows "\<not> derails q s s'"
  using assms(2) [unfolded mint_and_log_def]
proof (cases rule: transaction_cases)
  case busy
  then show ?thesis by (simp add: derails_def)
next
  case (ok x)
  then show ?thesis by (simp add: derails_def)
next
  case (fail e t)
  let ?s1 = "s \<lparr> st_last := mint (st_last s) (en_ms ev) (en_hash ev) \<rparr>"
  from fail(1) have "logged ev k (rec (fresh_id ev s)) ?s1 = (Inl e, t)"
    by (auto simp: op_bind_cases op_then_cases op_basic mint_op_def Let_def fresh_id_def)
  then have "t = ?s1"
  proof (cases rule: logged_cases)
    case (line e')
    obtain a d where ap: "apply_record (rec (fresh_id ev s)) (st_db ?s1) = Inr (a, d)"
      using assms(3) by (auto simp: is_ok_iff)
    have "en_disk ev (log_of k ?s1) (rec (fresh_id ev s)) \<noteq> Unsynced e" for e
      using assms(1) by (simp add: disk_atomic_def)
    with \<open>logged ev k (rec (fresh_id ev s)) ?s1 = (Inl e, t)\<close> ap show ?thesis
      by (auto simp: logged_def op_then_cases append_jsonl_def apply_op_def split: append_outcome.splits)
  qed simp_all
  with fail(3) show ?thesis by (simp add: derails_def same_logs_def)
qed

text \<open>
  C4. When adding a claim poisons the log, that is, fails after its line was logged, it is not for
  what the claim says: there is no claim the validation lets through and the schema then refuses. The
  clock was behind the creation of an entity the store knows (or not positive), the minted id was
  taken, or the disk failed between append and sync.
\<close>

theorem add_claim_poisons_only_if:
  assumes "db_ok (st_db s)" and "add_claim ev w s = (q, s')" and "derails q s s'"
  shows "\<not> clock_ok (en_now ev) (db_graph (st_db s))
    \<or> map_of (g_claims (db_graph (st_db s))) (fresh_id ev s) \<noteq> None
    \<or> \<not> disk_atomic ev"
proof (rule ccontr)
  assume "\<not> ?thesis"
  then have clock: "clock_ok (en_now ev) (db_graph (st_db s))"
    and free: "map_of (g_claims (db_graph (st_db s))) (fresh_id ev s) = None"
    and disk: "disk_atomic ev" by simp_all
  from assms(2) have run: "op_then (validate_claim_write w)
      (mint_and_log ev Log (\<lambda>i. claim_record (en_now ev) i w)) s = (q, s')"
    by (simp add: add_claim_def insert_claim_op_def)
  from assms(3) have "\<not> same_logs s s'" by (simp add: derails_def)
  with quiet_then_run [OF quiet_claim_gate(1) run] obtain u t where
    v: "validate_claim_write w s = (Inr u, t)"
    and m: "mint_and_log ev Log (\<lambda>i. claim_record (en_now ev) i w) t = (q, s')" by blast
  from v have t: "t = s" and f: "claim_fields_ok w = Inr ()"
    by (auto simp: validate_claim_write_def op_then_cases op_basic privacy_filter_recording_ok
        privacy_paths_recording_ok simp del: privacy_paths_recording.simps)
  have "is_ok (apply_record (claim_record (en_now ev) (fresh_id ev s) w) (st_db s))"
    using claim_write_applies [OF _ clock free f] assms(1) by (auto simp: db_ok_def is_ok_iff)
  with mint_and_log_atomic [OF disk m] assms(3) show False by (simp add: t)
qed

text \<open>
  It happens: one second behind the claim that introduced an entity, another claim about it is
  logged and then refused, since an entity must not be seen before it was created.
\<close>

definition behind_env :: env where
  "behind_env = good_env 1735689599 1735689599000"

definition behind_write :: claim_write where
  "behind_write = claim_write_new ''aver'' ''uses'' ''Git'' ''README''"

definition behind_outcome :: "int result \<times> store \<Rightarrow> store \<Rightarrow> bool \<times> nat \<times> nat" where
  "behind_outcome x s = (is_ok (fst x), length (st_log (snd x)), length (st_log s))"

lemma clock_behind_poisons:
  "behind_outcome (add_claim behind_env behind_write sample_store) sample_store = (False, 2, 1)"
  by code_simp

lemma behind_id_free: "map_of (g_claims (db_graph (st_db sample_store))) (fresh_id behind_env sample_store) = None"
  by code_simp

theorem add_claim_poisons_only_if_witness:
  "derails (fst (add_claim behind_env behind_write sample_store)) sample_store
     (snd (add_claim behind_env behind_write sample_store))
   \<and> \<not> clock_ok (en_now behind_env) (db_graph (st_db sample_store))"
proof -
  have "log_of Log (snd (add_claim behind_env behind_write sample_store)) \<noteq> log_of Log sample_store"
    using clock_behind_poisons by (auto simp: behind_outcome_def)
  then have derails: "derails (fst (add_claim behind_env behind_write sample_store)) sample_store
      (snd (add_claim behind_env behind_write sample_store))"
    using clock_behind_poisons unfolding behind_outcome_def derails_def same_logs_def by blast
  have "db_ok (st_db sample_store)" using in_sync_ok [OF reached_in_sync [OF sample_reached]] .
  moreover have "disk_atomic behind_env" by (simp add: disk_atomic_def behind_env_def good_env_def)
  ultimately show ?thesis
    using add_claim_poisons_only_if [OF _ surjective_pairing derails] behind_id_free derails by blast
qed

definition stored_row :: "env \<Rightarrow> int \<Rightarrow> claim_write \<Rightarrow> claim_row" where
  "stored_row ev i w =
     \<lparr> c_id = i, c_subject = cw_subject w, c_predicate = cw_predicate w, c_object = cw_object w,
       c_provenance = cw_provenance w, c_confidence = cw_confidence w, c_status = Active,
       c_source_refs = [cw_source w], c_agent_id = cw_agent_id w, c_agent_kind = cw_agent_kind w,
       c_write_ts = en_now ev, c_last_verified_at = Some (en_now ev), c_scope = cw_scope w,
       cr_created_at = en_now ev, cr_last_seen_at = en_now ev \<rparr>"

lemma claim_record_row:
  assumes "apply_record (claim_record (en_now ev) i w) d = Inr (Applied, d')"
  shows "map_of (g_claims (db_graph d')) i = Some (stored_row ev i w)"
  using assms
  by (auto simp: apply_record_def claim_record_def claim_provenance_def akind.from_as prov.from_as
      result_simps ap_add_claim_def insert_claim_def map_of_tbl_put stored_row_def already_def
      split: option.splits if_splits)

text \<open>
  A claim that passes validation, the privacy gate and the vocabulary check is stored: the
  call returns the minted id, the claims log grows by exactly the line that records it and the
  other logs by nothing, and the projection has an ACTIVE row under that id with the content
  of the write, its source as only source reference and the write time as all of its times.
\<close>

theorem add_claim_stores:
  assumes "db_ok (st_db s)" and "clock_ok (en_now ev) (db_graph (st_db s))"
    and "map_of (g_claims (db_graph (st_db s))) (fresh_id ev s) = None"
    and "disk_ok ev" and "\<not> en_busy ev" and "claim_fields_ok w = Inr ()"
    and "privacy_filter (claim_content w) = Inr ()"
    and "\<forall>p \<in> {cw_subject w, cw_object w, cw_source w}. privacy_filter_path p = Inr ()"
    and "validate_ontology (db_graph (st_db s)) (cw_predicate w) (cw_provenance w) = Inr ()"
  shows "\<exists>s'. add_claim ev w s = (Inr (fresh_id ev s), s')
    \<and> st_log s' = st_log s @ [claim_record (en_now ev) (fresh_id ev s) w]
    \<and> st_events s' = st_events s \<and> st_observations s' = st_observations s
    \<and> map_of (g_claims (db_graph (st_db s'))) (fresh_id ev s) = Some (stored_row ev (fresh_id ev s) w)"
proof -
  let ?i = "fresh_id ev s"
  obtain d where d: "apply_record (claim_record (en_now ev) ?i w) (st_db s) = Inr (Applied, d)"
    using claim_write_applies [OF _ assms(2,3,6)] assms(1) by (auto simp: db_ok_def)
  have "validate_claim_write w s = (Inr (), s)"
    using assms(6-9)
    by (auto simp: validate_claim_write_def op_then_cases op_basic privacy_filter_recording_ok
        privacy_paths_recording_ok simp del: privacy_paths_recording.simps)
  then show ?thesis
    using mint_and_log_run [where rec = "\<lambda>i. claim_record (en_now ev) i w" and k = Log, OF assms(4,5) d]
      claim_record_row [OF d]
    by (simp add: add_claim_def insert_claim_op_def op_then_def op_bind_def push_log.simps)
qed

theorem add_claim_stores_witness:
  "\<exists>s'. add_claim sample_env sample_write fresh_store = (Inr (fresh_id sample_env fresh_store), s')
    \<and> st_log s' = [claim_record 1735689600 (fresh_id sample_env fresh_store) sample_write]"
proof -
  have "db_ok (st_db fresh_store)" "clock_ok (en_now sample_env) (db_graph (st_db fresh_store))"
    "map_of (g_claims (db_graph (st_db fresh_store))) (fresh_id sample_env fresh_store) = None"
    by (simp_all add: clock_ok_def fresh_store_def init_db_def init_tables sample_env_def
        good_env_def init_db_ok [unfolded init_db_def])
  moreover have "disk_ok sample_env" "\<not> en_busy sample_env"
    by (simp_all add: disk_ok_def sample_env_def good_env_def)
  moreover have "claim_fields_ok sample_write = Inr ()" by code_simp
  moreover have "privacy_filter (claim_content sample_write) = Inr ()" by code_simp
  moreover have "\<forall>p \<in> {cw_subject sample_write, cw_object sample_write, cw_source sample_write}.
      privacy_filter_path p = Inr ()"
    by code_simp
  moreover have "validate_ontology (db_graph (st_db fresh_store)) (cw_predicate sample_write)
      (cw_provenance sample_write) = Inr ()"
    by code_simp
  ultimately obtain s' where
    "add_claim sample_env sample_write fresh_store = (Inr (fresh_id sample_env fresh_store), s')"
    "st_log s' = st_log fresh_store @
       [claim_record (en_now sample_env) (fresh_id sample_env fresh_store) sample_write]"
    using add_claim_stores [of fresh_store sample_env sample_write] by blast
  moreover have "st_log fresh_store = []" "en_now sample_env = 1735689600"
    by (simp_all add: fresh_store_def sample_env_def good_env_def)
  ultimately show ?thesis by auto
qed

end
