(* ===== verification/Log_Crash.thy ===== *)
theory Log_Crash
  imports Log_Files "HOL-Library.Multiset"
begin

section \<open>Rotation survives a crash\<close>

subsection \<open>Names\<close>

lemma series_name_inj: "series_name j = series_name k \<longleftrightarrow> j = k"
  by (cases j; cases k) simp_all

lemma series_rest_iff: "series_rest k name = Some rest \<longleftrightarrow> name = series_name k @ ''.'' @ rest"
  by (simp add: series_rest_def strip_prefix_eq)

lemma series_rest_other: "j \<noteq> k \<Longrightarrow> series_rest j (series_name k @ ''.'' @ rest) = None"
  by (cases j; cases k) (auto simp: series_rest_def strip_prefix_def)

lemma series_rest_own: "series_rest j (series_name k @ ''.'' @ rest) = (if j = k then Some rest else None)"
  using series_rest_other by (simp add: series_rest_iff)

lemma any_series_rest_own: "any_series_rest (series_name k @ ''.'' @ rest) = Some rest"
  by (cases k) (simp_all add: any_series_rest_def ROTATED_LOG_SERIES_def series_rest_def strip_prefix_def)

lemma strip_suffix_append: "length y = length z \<Longrightarrow> strip_suffix y (x @ z) = (if y = z then Some x else None)"
  by (auto simp: strip_suffix_def suffix_def)

lemma strip_suffix_longer:
  "length z < length y \<Longrightarrow> take (length z) (rev y) \<noteq> rev z \<Longrightarrow> strip_suffix y (x @ z) = None"
  by (auto simp: strip_suffix_def suffix_to_prefix prefix_def append_eq_append_conv_if)

lemma strip_suffix_shorter:
  "length y < length z \<Longrightarrow> strip_suffix y (x @ z) = (if suffix y z then Some (x @ take (length z - length y) z) else None)"
  by (auto simp: strip_suffix_def suffix_def append_eq_append_conv2)

lemmas suffix_rules = strip_suffix_append strip_suffix_longer strip_suffix_shorter

lemma ext_gz [simp]:
  "strip_suffix ''.jsonl.gz'' (x @ ''.jsonl.gz'') = Some x"
  "strip_suffix ''.jsonl.gz'' (x @ ''.jsonl'') = None"
  "strip_suffix ''.jsonl.gz'' (x @ ''.jsonl.gz.tmp'') = None"
  "strip_suffix ''.jsonl.gz'' ''jsonl'' = None"
  by (simp_all add: suffix_rules suffix_to_prefix strip_suffix_def)

lemma ext_plain [simp]:
  "strip_suffix ''.jsonl'' (x @ ''.jsonl'') = Some x"
  "strip_suffix ''.jsonl'' (x @ ''.jsonl.gz'') = None"
  "strip_suffix ''.jsonl'' ''jsonl'' = None"
  by (simp_all add: suffix_rules suffix_to_prefix strip_suffix_def)

lemma ext_tmp [simp]:
  "strip_suffix ''.jsonl.gz.tmp'' (x @ ''.jsonl.gz.tmp'') = Some x"
  "strip_suffix ''.jsonl.gz.tmp'' (x @ ''.jsonl.gz'') = None"
  "strip_suffix ''.jsonl.gz.tmp'' (x @ ''.jsonl'') = None"
  "strip_suffix ''.jsonl.gz.tmp'' ''jsonl'' = None"
  by (simp_all add: suffix_rules suffix_to_prefix strip_suffix_def)

definition tmp_name :: "series \<Rightarrow> nat \<Rightarrow> str" where
  "tmp_name k n = series_name k @ ''.'' @ show_nat n @ ''.jsonl.gz.tmp''"

lemma tmp_name_eq: "archive_name k n @ ''.tmp'' = tmp_name k n"
  by (simp add: archive_name_def tmp_name_def)

lemma plain_gz: "plain_name k n @ ''.gz'' = archive_name k n"
  by (simp add: archive_name_def plain_name_def)

lemma own_names:
  "archive_name k n = series_name k @ ''.'' @ (show_nat n @ ''.jsonl.gz'')"
  "plain_name k n = series_name k @ ''.'' @ (show_nat n @ ''.jsonl'')"
  "tmp_name k n = series_name k @ ''.'' @ (show_nat n @ ''.jsonl.gz.tmp'')"
  "active_name k = series_name k @ ''.'' @ ''jsonl''"
  by (simp_all add: archive_name_def plain_name_def active_name_def tmp_name_def)

lemma index_names:
  assumes "n < 2 ^ 32"
  shows "archive_index j (archive_name k n) = (if j = k then Some n else None)"
    "archive_index j (plain_name k n) = None" "archive_index j (tmp_name k n) = None"
    "archive_index j (active_name k) = None"
    "rotation_index j (plain_name k n) = (if j = k then Some n else None)"
    "rotation_index j (archive_name k n) = (if j = k then Some n else None)"
  unfolding own_names archive_index_def rotation_index_def opt_bind_def series_rest_own
  using parse_u32_show [OF assms] by simp_all

lemma kind_names:
  assumes "n < 2 ^ 32"
  shows "stale_tmp (tmp_name k n)" "\<not> stale_tmp (plain_name k n)" "\<not> stale_tmp (archive_name k n)"
    "\<not> stale_tmp (active_name k)" "pending_plain (plain_name k n)" "\<not> pending_plain (tmp_name k n)"
    "\<not> pending_plain (archive_name k n)" "\<not> pending_plain (active_name k)"
  unfolding own_names stale_tmp_def pending_plain_def opt_bind_def any_series_rest_own
  using parse_u32_show [OF assms] by (simp_all add: show_nat_def)

subsection \<open>Tidy directories\<close>

definition tidy :: "dir \<Rightarrow> bool" where
  "tidy d \<longleftrightarrow> distinct (map fst d) \<and> (\<forall>name \<in> set (map fst d). \<not> stale_tmp name \<and> \<not> pending_plain name)"

lemma foldl_max: "foldl max m ns = Max (insert m (set ns))"
  for m :: "'a :: linorder"
proof (induction ns arbitrary: m)
  case (Cons a ns)
  have "Max (insert (max m a) (set ns)) = Max (insert m (insert a (set ns)))"
    by (cases "ns = []") (simp_all add: max.assoc)
  with Cons show ?case by simp
qed simp

lemma map_filter_set: "y \<in> set (List.map_filter f xs) \<longleftrightarrow> (\<exists>x \<in> set xs. f x = Some y)"
  by (force simp: List.map_filter_def)

lemma rotation_index_bound: "rotation_index k name = Some m \<Longrightarrow> m < 2 ^ 32"
  by (auto simp: rotation_index_def opt_bind_def split: option.splits dest: parse_u32_bound)

lemma next_index_above:
  assumes "rotation_index k name = Some m" and "name \<in> set (map fst d)"
    and "next_rotation_index k d \<noteq> 0"
  shows "m < next_rotation_index k d"
proof -
  let ?ns = "List.map_filter (rotation_index k) (map fst d)"
  let ?M = "Max (insert 0 (set ?ns))"
  have m: "m \<in> set ?ns" using assms(1,2) by (auto simp: map_filter_set)
  then have "m \<le> ?M" by simp
  moreover have "?M \<in> insert 0 (set ?ns)" by (intro Max_in) auto
  then have "?M < 2 ^ 32" using rotation_index_bound by (auto simp: map_filter_set)
  then have "?M + 1 = 2 ^ 32 \<or> ?M + 1 < 2 ^ 32" by linarith
  with assms(3) have "next_rotation_index k d = ?M + 1"
    by (auto simp: next_rotation_index_def foldl_max)
  ultimately show ?thesis by simp
qed

lemma next_index_bound: "next_rotation_index k d < 2 ^ 32"
  by (simp add: next_rotation_index_def)

subsection \<open>Files at the end of the listing\<close>

lemma upd_new: "k \<notin> fst ` set d \<Longrightarrow> AList.update k v (d @ e) = d @ AList.update k v e"
  by (induction d) auto

lemma del_append: "AList.delete k (d @ e) = AList.delete k d @ AList.delete k e"
  by (simp add: AList.delete_eq)

lemma del_absent: "k \<notin> fst ` set d \<Longrightarrow> AList.delete k d = d"
  by (rule AList.delete_id)

lemma get_absent: "k \<notin> fst ` set d \<Longrightarrow> map_of (d @ e) k = map_of e k"
  by (induction d) auto

declare map_of_append [simp del]

lemmas listing_simps = upd_new del_append del_absent get_absent

lemma fs_run_simps [simp]:
  "fs_run [] d = d" "fs_run (x # xs) d = fs_run xs (fs_exec x d)"
  "fs_run (xs @ ys) d = fs_run ys (fs_run xs d)"
  by (simp_all add: fs_run_def)

lemma append_blocks:
  assumes "k \<notin> fst ` set d"
  shows "fs_run (map (Append k) bs) (d @ [(k, c)]) = d @ [(k, c @ concat bs)]"
  using assms by (induction bs arbitrary: c) (simp_all add: listing_simps)

text \<open>What a crash during the rotation of \<open>b\<close> can leave, the other files being \<open>d0\<close>.\<close>

inductive remains :: "gz_codec \<Rightarrow> series \<Rightarrow> nat \<Rightarrow> str \<Rightarrow> dir \<Rightarrow> dir \<Rightarrow> bool" where
  moved: "remains gz k n b d0 (d0 @ [(plain_name k n, b)])"
| zipping: "remains gz k n b d0 (d0 @ [(plain_name k n, b), (tmp_name k n, x)])"
| zipped: "remains gz k n b d0 (d0 @ [(plain_name k n, b), (archive_name k n, concat (gz_blocks gz b))])"
| rotated: "remains gz k n b d0 (d0 @ [(archive_name k n, concat (gz_blocks gz b))])"
| finished: "remains gz k n b d0 (d0 @ [(archive_name k n, concat (gz_blocks gz b)), (active_name k, [])])"

definition unused :: "series \<Rightarrow> nat \<Rightarrow> dir \<Rightarrow> bool" where
  "unused k n d \<longleftrightarrow>
     (\<forall>name \<in> {active_name k, plain_name k n, tmp_name k n, archive_name k n}. name \<notin> fst ` set d)"

lemma names_apart [simp]:
  "plain_name k n \<noteq> tmp_name k n" "plain_name k n \<noteq> archive_name k n" "plain_name k n \<noteq> active_name k"
  "tmp_name k n \<noteq> archive_name k n" "tmp_name k n \<noteq> active_name k" "archive_name k n \<noteq> active_name k"
  by (auto simp: own_names)

lemmas names_apart' [simp] = names_apart [symmetric]

lemma prefix_map_D: "prefix p (map f xs) \<Longrightarrow> \<exists>ys. p = map f ys"
  by (metis prefix_def append_eq_map_conv)

definition rotation_ops :: "gz_codec \<Rightarrow> series \<Rightarrow> nat \<Rightarrow> str \<Rightarrow> fs_op list" where
  "rotation_ops gz k n b =
     [Rename (active_name k) (plain_name k n), Create (tmp_name k n)]
     @ map (Append (tmp_name k n)) (gz_blocks gz b)
     @ [Rename (tmp_name k n) (archive_name k n), Remove (plain_name k n), Append (active_name k) []]"

lemma rotation_ops_prefix:
  assumes "prefix p (rotation_ops gz k n b)" and "map_of d (active_name k) = Some b"
    and "unused k n (AList.delete (active_name k) d)"
  shows "fs_run p d = d \<or> remains gz k n b (AList.delete (active_name k) d) (fs_run p d)"
proof -
  let ?d0 = "AList.delete (active_name k) d"
  have fresh: "plain_name k n \<notin> fst ` set ?d0" "tmp_name k n \<notin> fst ` set ?d0"
    "archive_name k n \<notin> fst ` set ?d0" "active_name k \<notin> fst ` set ?d0"
    using assms(3) by (simp_all add: unused_def)
  have start: "fs_exec (Rename (active_name k) (plain_name k n)) d = ?d0 @ [(plain_name k n, b)]"
    using assms(2) fresh by (simp add: upd_new [where e = "[]", simplified])
  have blocks: "fs_run (map (Append (tmp_name k n)) bs) (?d0 @ [(plain_name k n, b), (tmp_name k n, [])])
      = ?d0 @ [(plain_name k n, b), (tmp_name k n, concat bs)]" for bs
    using append_blocks [of "tmp_name k n" "?d0 @ [(plain_name k n, b)]" bs "[]"] fresh by simp
  from assms(1) consider "p = []" | "p = [Rename (active_name k) (plain_name k n)]"
    | bs where "p = [Rename (active_name k) (plain_name k n), Create (tmp_name k n)]
        @ map (Append (tmp_name k n)) bs"
    | q where "p = [Rename (active_name k) (plain_name k n), Create (tmp_name k n)]
        @ map (Append (tmp_name k n)) (gz_blocks gz b) @ q"
        "prefix q [Rename (tmp_name k n) (archive_name k n), Remove (plain_name k n), Append (active_name k) []]"
    unfolding rotation_ops_def by (fastforce simp: prefix_append prefix_Cons dest: prefix_map_D)
  then show ?thesis
  proof cases
    case 2
    with start show ?thesis by (simp add: remains.moved del: fs_exec.simps)
  next
    case 3
    have "fs_run p d = ?d0 @ [(plain_name k n, b), (tmp_name k n, concat bs)]"
      unfolding 3 using start fresh blocks by (simp add: listing_simps)
    then show ?thesis by (simp add: remains.zipping)
  next
    case 4
    have "fs_run p d = fs_run q (?d0 @ [(plain_name k n, b), (tmp_name k n, concat (gz_blocks gz b))])"
      unfolding 4(1) using start fresh blocks by (simp add: listing_simps)
    with 4(2) fresh show ?thesis
      by (auto simp: prefix_Cons listing_simps
          intro: remains.intros remains.zipping [of gz k n b ?d0 "concat (gz_blocks gz b)"])
  qed simp
qed

subsection \<open>Recovery\<close>

definition recovered :: "gz_codec \<Rightarrow> dir \<Rightarrow> dir" where
  "recovered gz d = fs_run (fst (finalize_pending_rotations gz False d)) d"

lemma tidy_filters:
  assumes "tidy d"
  shows "filter stale_tmp (map fst d) = []" "filter pending_plain (map fst d) = []"
  using assms by (auto simp: tidy_def filter_empty_conv)

lemma recovered_tidy: "tidy d \<Longrightarrow> recovered gz d = d"
  by (simp add: recovered_def finalize_pending_rotations_def tidy_filters fs_then_def fs_do_def)

lemma tidy_delete: "tidy d \<Longrightarrow> tidy (AList.delete x d)"
  by (auto simp: tidy_def AList.delete_eq intro: distinct_map_filter)

lemma tidy_append:
  "tidy (d @ [(x, c)]) \<longleftrightarrow> tidy d \<and> x \<notin> fst ` set d \<and> \<not> stale_tmp x \<and> \<not> pending_plain x"
  by (auto simp: tidy_def)

lemma recovered_remains:
  assumes tidy: "tidy d0" and fresh: "unused k n d0" and n: "n < 2 ^ 32"
    and codec: "snd (gz_read gz (concat (gz_blocks gz b))) = None"
    and r: "remains gz k n b d0 d"
  shows "recovered gz d = d0 @ [(archive_name k n, concat (gz_blocks gz b))]
    \<or> recovered gz d = d0 @ [(archive_name k n, concat (gz_blocks gz b)), (active_name k, [])]"
proof -
  note names = kind_names [OF n, of k]
  note filters = tidy_filters [OF tidy]
  have free: "plain_name k n \<notin> fst ` set d0" "tmp_name k n \<notin> fst ` set d0"
    "archive_name k n \<notin> fst ` set d0" "active_name k \<notin> fst ` set d0"
    using fresh by (simp_all add: unused_def)
  have zip: "fs_run (fst (fs_each (finalize_one gz) [plain_name k n] (d0 @ [(plain_name k n, b)])))
      (d0 @ [(plain_name k n, b)]) = d0 @ [(archive_name k n, concat (gz_blocks gz b))]"
    using free append_blocks [of "tmp_name k n" "d0 @ [(plain_name k n, b)]" "gz_blocks gz b" "[]"]
    by (simp add: finalize_one_def gzip_file_def fs_then_def fs_do_def plain_gz tmp_name_eq
        listing_simps Let_def)
  from r show ?thesis
  proof cases
    case moved
    with zip names filters show ?thesis
      by (simp add: recovered_def finalize_pending_rotations_def fs_then_def fs_do_def
          split: prod.splits option.splits)
  next
    case (zipping x)
    have "fs_run [Remove (tmp_name k n)] d = d0 @ [(plain_name k n, b)]"
      using zipping free by (simp add: listing_simps)
    with zip names filters zipping show ?thesis
      by (simp add: recovered_def finalize_pending_rotations_def fs_then_def fs_do_def
          split: prod.splits option.splits)
  next
    case zipped
    with codec names filters free show ?thesis
      by (simp add: recovered_def finalize_pending_rotations_def fs_then_def fs_do_def
          finalize_one_def plain_gz gz_intact_def listing_simps Let_def)
  next
    case rotated
    then have "tidy d" using tidy free names by (simp add: tidy_append)
    with rotated show ?thesis by (simp add: recovered_tidy)
  next
    case finished
    then have "d = (d0 @ [(archive_name k n, concat (gz_blocks gz b))]) @ [(active_name k, [])]" by simp
    moreover from this have "tidy d" using tidy free names by (simp add: tidy_append del: append_assoc)
    ultimately show ?thesis by (simp add: recovered_tidy)
  qed
qed

subsection \<open>What replay reads\<close>

definition archives :: "series \<Rightarrow> dir \<Rightarrow> (nat \<times> str) list" where
  "archives k d =
     List.map_filter (\<lambda>name. map_option (\<lambda>n. (n, name)) (archive_index k name)) (map fst d)"

lemma map_filter_append: "List.map_filter f (xs @ ys) = List.map_filter f xs @ List.map_filter f ys"
  by (simp add: List.map_filter_def)

lemma archives_append: "archives k (d @ e) = archives k d @ archives k e"
  by (simp add: archives_def map_filter_append)

lemma archives_delete: "archive_index k name = None \<Longrightarrow> archives k (AList.delete name d) = archives k d"
  by (induction d) (auto simp: archives_def List.map_filter_def)

lemma archives_mem: "(n, name) \<in> set (archives k d) \<longleftrightarrow> name \<in> fst ` set d \<and> archive_index k name = Some n"
  by (auto simp: archives_def map_filter_set)

lemma sort_key_max:
  assumes "\<forall>y \<in> set xs. f y < f x"
  shows "sort_key f (xs @ [x]) = sort_key f xs @ [x]"
proof (rule properties_for_sort_key)
  show "sorted (map f (sort_key f xs @ [x]))"
    using assms by (auto simp: sorted_append intro: less_imp_le)
  fix k
  assume "k \<in> set (sort_key f xs @ [x])"
  show "filter (\<lambda>y. f k = f y) (sort_key f xs @ [x]) = filter (\<lambda>y. f k = f y) (xs @ [x])"
    using sort_key_stable [of f "f k" xs] by (simp add: eq_commute)
qed simp

definition archived_lines :: "gz_codec \<Rightarrow> dir \<Rightarrow> (nat \<times> str) list \<Rightarrow> str list" where
  "archived_lines gz d as =
     concat (map (\<lambda>(_, name). lines (fst (open_log_reader gz d name))) (sort_key fst as))"

lemma series_lines_eq:
  "series_lines gz k d = archived_lines gz d (archives k d)
     @ (case map_of d (active_name k) of None \<Rightarrow> [] | Some b \<Rightarrow> lines b)"
proof -
  have "\<not> ends_with (active_name k) ''.gz''"
    by (simp add: active_name_def suffix_to_prefix)
  then show ?thesis
    by (auto simp: series_lines_def series_inputs_def archived_lines_def archives_def
        open_log_reader_def map_concat comp_def case_prod_unfold split: option.splits)
qed

lemma archived_lines_cong:
  assumes "\<And>n name. (n, name) \<in> set as \<Longrightarrow> map_of d name = map_of e name"
  shows "archived_lines gz d as = archived_lines gz e as"
  unfolding archived_lines_def open_log_reader_def using assms
  by (intro arg_cong [where f = concat] map_cong) (auto split: prod.splits)

lemma archived_lines_max:
  assumes "\<forall>(m, _) \<in> set as. m < n"
  shows "archived_lines gz d (as @ [(n, name)])
    = archived_lines gz d as @ lines (fst (open_log_reader gz d name))"
proof -
  have "sort_key fst (as @ [(n, name)]) = sort_key fst as @ [(n, name)]"
    using assms by (intro sort_key_max) auto
  then show ?thesis by (simp add: archived_lines_def)
qed

lemma archive_is_rotation: "archive_index k name = Some n \<Longrightarrow> rotation_index k name = Some n"
  by (auto simp: archive_index_def rotation_index_def opt_bind_def split: option.splits)

lemma lines_Nil [simp]: "lines [] = []"
  by (simp add: lines_def)

lemma series_lines_rotated:
  assumes d: "map_of d (active_name k) = Some b" and n: "n = next_rotation_index k d" "n \<noteq> 0"
    and fresh: "unused k n d0" and d0: "d0 = AList.delete (active_name k) d"
    and codec: "gz_read gz z = (b, None)" and e: "e = [] \<or> e = [(active_name k, [])]"
  shows "series_lines gz j (d0 @ (archive_name k n, z) # e) = series_lines gz j d"
proof -
  let ?D = "d0 @ (archive_name k n, z) # e"
  have bound: "n < 2 ^ 32" using next_index_bound n(1) by simp
  have free: "archive_name k n \<notin> fst ` set d0" "active_name k \<notin> fst ` set d0"
    using fresh by (simp_all add: unused_def)
  have arch: "archives j ?D = archives j d @ (if j = k then [(n, archive_name k n)] else [])"
    unfolding d0 using e index_names [OF bound] archives_delete [of j "active_name k" d]
    by (auto simp: archives_append) (auto simp: archives_def List.map_filter_def)
  have same: "map_of ?D name = map_of d name"
    if "name \<noteq> archive_name k n" "name \<noteq> active_name k" for name
    using that e by (auto simp: d0 map_of_append map_add_def delete_conv' split: option.splits)
  have old: "archived_lines gz ?D (archives j d) = archived_lines gz d (archives j d)"
  proof (rule archived_lines_cong)
    fix m name
    assume m: "(m, name) \<in> set (archives j d)"
    then have "name \<noteq> active_name k" using index_names(4) [OF bound] by (auto simp: archives_mem)
    moreover from this m free(1) have "name \<noteq> archive_name k n"
      by (force simp: archives_mem d0 AList.delete_eq)
    ultimately show "map_of ?D name = map_of d name" by (intro same)
  qed
  show ?thesis
  proof (cases "j = k")
    case True
    have "\<forall>(m, _) \<in> set (archives k d). m < n"
      using next_index_above [of k _ _ d] archive_is_rotation n by (fastforce simp: archives_mem)
    moreover have "fst (open_log_reader gz ?D (archive_name k n)) = b"
      using free(1) codec by (simp add: open_log_reader_def listing_simps archive_name_def suffix_to_prefix)
    moreover have "(case map_of ?D (active_name k) of None \<Rightarrow> [] | Some c \<Rightarrow> lines c) = []"
      using free(2) e by (auto simp: listing_simps)
    ultimately show ?thesis
      using True arch old d by (simp add: series_lines_eq archived_lines_max)
  next
    case False
    then have "active_name j \<noteq> archive_name k n" "active_name j \<noteq> active_name k"
      by (cases j; cases k; auto simp: active_name_def archive_name_def series_name_inj)+
    with False arch old same show ?thesis by (simp add: series_lines_eq)
  qed
qed

text \<open>
  C3. Rotating a log is crash safe: whatever prefix of the file operations of a rotation a crash
  lets happen, recovery at the next open leaves every series with exactly the lines it had
  before, in the same order, and no intermediate file. (The index must not have reached the
  end of its 32 bits, and the decoder must read back what the encoder wrote.)
\<close>

theorem rotation_survives_crash:
  assumes "tidy d" and "next_rotation_index k d \<noteq> 0"
    and "\<forall>b. gz_read gz (concat (gz_blocks gz b)) = (b, None)"
    and "prefix p (fst (maybe_rotate_log gz held k d))"
  shows "series_lines gz j (recovered gz (fs_run p d)) = series_lines gz j d
    \<and> tidy (recovered gz (fs_run p d))"
proof -
  let ?n = "next_rotation_index k d" and ?d0 = "AList.delete (active_name k) d"
  note n = next_index_bound [of k d]
  have tidy0: "tidy ?d0" using assms(1) by (rule tidy_delete)
  have none: "name \<notin> fst ` set d" if "rotation_index k name = Some ?n" for name
    using next_index_above [OF that _ assms(2)] by auto
  have fresh: "unused k ?n ?d0"
    using none index_names(5,6) [OF n, of k k] kind_names(1) [OF n, of k] assms(1)
    by (auto simp: unused_def tidy_def AList.delete_eq)
  show ?thesis
  proof (cases "fst (maybe_rotate_log gz held k d) = []")
    case True
    with assms(1,4) show ?thesis by (simp add: recovered_tidy)
  next
    case False
    then obtain b where b: "map_of d (active_name k) = Some b"
      by (auto simp: maybe_rotate_log_def log_rotation_needed_def split: if_splits option.splits)
    have "fst (maybe_rotate_log gz held k d) = rotation_ops gz k ?n b"
      using False b fresh
      by (auto simp: maybe_rotate_log_def Let_def fs_then_def fs_do_def gzip_file_def rotation_ops_def
          tmp_name_eq unused_def upd_new [where e = "[]", simplified] listing_simps split: if_splits)
    with rotation_ops_prefix [OF _ b fresh] assms(4) consider "fs_run p d = d"
      | "remains gz k ?n b ?d0 (fs_run p d)" by auto
    then show ?thesis
    proof cases
      case 1
      with assms(1) show ?thesis by (simp add: recovered_tidy)
    next
      case 2
      let ?z = "concat (gz_blocks gz b)"
      from recovered_remains [OF tidy0 fresh n _ 2] assms(3) obtain e where
        e: "recovered gz (fs_run p d) = ?d0 @ (archive_name k ?n, ?z) # e"
        "e = [] \<or> e = [(active_name k, [])]" by auto
      have "tidy (?d0 @ [(archive_name k ?n, ?z)])"
        using tidy0 fresh kind_names [OF n, of k] by (simp add: tidy_append unused_def)
      then have "tidy (recovered gz (fs_run p d))"
        using e fresh kind_names [OF n, of k] tidy_append [of "?d0 @ [(archive_name k ?n, ?z)]"]
        by (auto simp: unused_def)
      with e series_lines_rotated [OF b refl assms(2) fresh refl _ e(2), of gz ?z] assms(3)
      show ?thesis by simp
    qed
  qed
qed

definition stored_gz :: gz_codec where
  "stored_gz = \<lparr> gz_blocks = (\<lambda>b. [b]), gz_read = (\<lambda>z. (z, None)) \<rparr>"

definition big_log :: str where
  "big_log = replicate (64 * 1024 * 1024) (CHR ''x'')"

lemma length_big_log: "length big_log = 67108864"
  unfolding big_log_def length_replicate by simp

definition sample_dir :: dir where
  "sample_dir = [(''log.jsonl'', big_log), (''log.2.jsonl.gz'', ''a''), (''events.jsonl'', ''b'')]"

theorem rotation_survives_crash_witness:
  "series_lines stored_gz Log (recovered stored_gz (fs_run
     [Rename ''log.jsonl'' ''log.3.jsonl'', Create ''log.3.jsonl.gz.tmp''] sample_dir))
   = series_lines stored_gz Log sample_dir"
proof -
  have names: "map fst sample_dir = [''log.jsonl'', ''log.2.jsonl.gz'', ''events.jsonl'']"
    by (simp add: sample_dir_def)
  have "distinct (map fst sample_dir)" unfolding names by simp
  moreover have "\<forall>name \<in> set (map fst sample_dir). \<not> stale_tmp name \<and> \<not> pending_plain name"
    unfolding names by code_simp
  ultimately have "tidy sample_dir" by (simp add: tidy_def)
  moreover have n: "next_rotation_index Log sample_dir = 3"
  proof -
    have "rotation_index Log ''log.jsonl'' = None" "rotation_index Log ''log.2.jsonl.gz'' = Some 2"
      "rotation_index Log ''events.jsonl'' = None" by code_simp+
    then show ?thesis by (simp add: next_rotation_index_def names List.map_filter_def)
  qed
  moreover have "prefix [Rename ''log.jsonl'' ''log.3.jsonl'', Create ''log.3.jsonl.gz.tmp'']
      (fst (maybe_rotate_log stored_gz False Log sample_dir))"
  proof -
    have "show_nat 3 = ''3''" by code_simp
    then have names: "active_name Log = ''log.jsonl''" "plain_name Log 3 = ''log.3.jsonl''"
      "archive_name Log 3 = ''log.3.jsonl.gz''"
      by (simp_all add: active_name_def plain_name_def archive_name_def)
    have "log_rotation_needed sample_dir ''log.jsonl''"
      by (simp add: log_rotation_needed_def sample_dir_def length_big_log LOG_ROTATE_MAX_BYTES_def)
    moreover have "map_of (fs_exec (Rename ''log.jsonl'' ''log.3.jsonl'') sample_dir) ''log.3.jsonl''
        = Some big_log"
      by (simp add: sample_dir_def)
    ultimately show ?thesis
      by (simp add: maybe_rotate_log_def n names fs_then_def fs_do_def gzip_file_def
          del: fs_exec.simps)
  qed
  moreover have "\<forall>b. gz_read stored_gz (concat (gz_blocks stored_gz b)) = (b, None)"
    by (simp add: stored_gz_def)
  ultimately show ?thesis
    using rotation_survives_crash [of sample_dir Log stored_gz
        "[Rename ''log.jsonl'' ''log.3.jsonl'', Create ''log.3.jsonl.gz.tmp'']" False Log] by simp
qed

end
