(* ===== verification/Replay_Props.thy ===== *)
theory Replay_Props
  imports Replay Store_Props Log_Crash
begin

section \<open>What replay guarantees\<close>

subsection \<open>A sample memory directory\<close>

definition sample_line :: str where
  "sample_line = ''{add_claim}''"

definition sample_json :: json_codec where
  "sample_json =
     \<lparr> js_record = (\<lambda>l. if l = sample_line then Inr (hd (st_log sample_store)) else Inl ''expected value''),
       js_kind = (\<lambda>l. Inl ''expected value'') \<rparr>"

definition sample_files :: dir where
  "sample_files = [(''log.jsonl'', sample_line @ [CHR 0x0A]), (''events.jsonl'', [])]"

definition sample_memory :: memory_dir where
  "sample_memory = \<lparr> md_path = ''memory'', md_files = sample_files, md_db = None \<rparr>"

lemma sample_reads:
  "series_lines stored_gz Log sample_files = [sample_line]"
  "series_lines stored_gz Events sample_files = []"
  "series_lines stored_gz Observations sample_files = []"
  "intact stored_gz sample_files" "utf8_valid sample_line" "\<not> blank sample_line"
  unfolding intact_def by code_simp+

lemma sample_logs: "st_log sample_store = [hd (st_log sample_store)]" "st_events sample_store = []"
  "st_observations sample_store = []"
proof -
  have "length (st_log (snd (add_claim sample_env sample_write fresh_store))) = 1" by code_simp
  then show "st_log sample_store = [hd (st_log sample_store)]"
    unfolding sample_store_def by (metis One_nat_def length_0_conv length_Suc_conv list.sel(1))
  have "st_events (snd (add_claim sample_env sample_write fresh_store)) = []"
    "st_observations (snd (add_claim sample_env sample_write fresh_store)) = []" by code_simp+
  then show "st_events sample_store = []" "st_observations sample_store = []"
    by (simp_all add: sample_store_def)
qed

lemma sample_stored: "stored_in stored_gz sample_json sample_store sample_files"
proof -
  have "written_as sample_json (log_of k sample_store) (series_lines stored_gz k sample_files)" for k
  proof (cases k)
    case Log
    have "js_record sample_json sample_line = Inr (hd (st_log sample_store))"
      by (simp add: sample_json_def)
    then have "written_as sample_json [hd (st_log sample_store)] [sample_line]"
      using sample_reads(5,6) by (simp add: written_as_def)
    with Log sample_logs(1) show ?thesis by (simp add: sample_reads)
  qed (simp_all add: sample_reads sample_logs written_as_def)
  with sample_reads(4) show ?thesis by (simp add: stored_in_def)
qed

subsection \<open>Rebuilding\<close>

text \<open>
  C1. Replay is the inverse of logging. Take any history of calls in which no call failed after its
  line was logged (\<open>store_reached\<close>; a call that does so can leave logs that do not replay), and files
  that hold the lines of the logs, spread over archives and active files in any way. With the lock
  free, and forced or over a database without claims, replay then succeeds in either mode,
  quarantines nothing, and the database it swaps in is the projection the store had.
\<close>

theorem replay_rebuilds_store:
  assumes "store_reached s" and "stored_in gz js s (md_files m)"
    and "force \<or> claim_count (md_db m) = 0"
  shows "\<exists>p. replay_with_mode gz js False force mode m = (Inr p, m \<lparr> md_db := Some (st_db s) \<rparr>)
    \<and> rp_quarantined p = []"
proof -
  obtain p where "rebuild gz js mode (md_path m) (md_files m) = Inr (p, st_db s)" "rp_quarantined p = []"
    using rebuild_reached [OF reached_in_sync [OF assms(1)] assms(2)] by blast
  with assms(3) show ?thesis by (auto simp: replay_with_mode_def)
qed

theorem replay_rebuilds_store_witness:
  "\<exists>p. replay_with_mode stored_gz sample_json False False Strict sample_memory
     = (Inr p, sample_memory \<lparr> md_db := Some (st_db sample_store) \<rparr>) \<and> rp_quarantined p = []"
  using sample_stored
  by (intro replay_rebuilds_store [OF sample_reached])
    (simp_all add: sample_memory_def claim_count_def)

subsection \<open>The two modes\<close>

lemma lenient_line: "replay_line js Strict path n x st = Inr st' \<Longrightarrow> replay_line js Lenient path n x st = Inr st'"
  by (auto simp: replay_line_def split: sum.splits if_splits)

lemma rfold_mono:
  "rfold f xs s = Inr s' \<Longrightarrow> (\<And>x t t'. f x t = Inr t' \<Longrightarrow> g x t = Inr t') \<Longrightarrow> rfold g xs s = Inr s'"
proof (induction xs arbitrary: s)
  case (Cons x xs)
  then obtain t where "f x s = Inr t" "rfold f xs t = Inr s'" by (auto simp: result_simps)
  with Cons show ?case by auto
qed simp

lemma lenient_rebuild: "rebuild gz js Strict base d = Inr st \<Longrightarrow> rebuild gz js Lenient base d = Inr st"
  unfolding rebuild_def replay_file_def
  by (erule rfold_mono, erule rfold_mono) (auto intro: lenient_line)

text \<open>
  Lenient replay only adds tolerance: where strict replay succeeds, lenient replay reports
  the same counts and builds the same database.
\<close>

theorem lenient_extends_strict:
  assumes "replay gz js held force m = (Inr p, m')"
  shows "replay_with_mode gz js held force Lenient m = (Inr p, m')"
  using assms lenient_rebuild
  by (auto simp: replay_def replay_with_mode_def split: if_splits sum.splits prod.splits)

theorem lenient_extends_strict_witness:
  "\<exists>p m'. replay stored_gz sample_json False False sample_memory = (Inr p, m')
     \<and> replay_with_mode stored_gz sample_json False False Lenient sample_memory = (Inr p, m')"
proof -
  obtain p where "replay stored_gz sample_json False False sample_memory
     = (Inr p, sample_memory \<lparr> md_db := Some (st_db sample_store) \<rparr>)"
    using rebuild_reached [OF reached_in_sync [OF sample_reached] sample_stored,
        where mode = Strict and base = "''memory''"]
    by (auto simp: replay_def replay_with_mode_def sample_memory_def claim_count_def)
  with lenient_extends_strict [OF this] show ?thesis by blast
qed

lemma apply_log_line_cases:
  assumes "apply_log_line js path n l st = Inr st'"
  obtains r a where "apply_record r (snd st) = Inr (a, snd st')"
proof -
  from assms obtain r where "(case apply_record r (snd st) of Inl e \<Rightarrow> Inl (locate_error path n e)
      | Inr (Duplicate, d) \<Rightarrow> Inr (fst st, d) | Inr (Applied, d) \<Rightarrow> Inr (count_record r (fst st), d)) = Inr st'"
    by (auto simp: apply_log_line_def result_simps)
  then show thesis
    using that by (cases "apply_record r (snd st)") (auto split: prod.splits applied.splits)
qed

lemma line_preserves:
  assumes "replay_line js mode path n x st = Inr st'" and "db_ok (snd st)"
  shows "db_ok (snd st')"
proof -
  from assms(1) consider "snd st' = snd st" | l where "apply_log_line js path n l st = Inr st'"
    by (auto simp: replay_line_def split: sum.splits if_splits replay_mode.splits)
  then show ?thesis
  proof cases
    case 2
    then show ?thesis using assms(2) apply_record_ok by (elim apply_log_line_cases) blast
  qed (use assms(2) in simp)
qed

lemma file_preserves:
  assumes "replay_file gz js mode base d path st = Inr st'" and "db_ok (snd st)"
  shows "db_ok (snd st')"
proof (rule rfold_invariant [where P = "\<lambda>st. db_ok (snd st)", OF assms(1) [unfolded replay_file_def]])
  show "db_ok (snd (walked st))" using assms(2) by (simp add: walked_def)
qed (auto intro: line_preserves)

lemma rebuild_preserves: "rebuild gz js mode base d = Inr (p, db) \<Longrightarrow> db_ok db"
  using rfold_invariant [where P = "\<lambda>st. db_ok (snd st)", of "replay_file gz js mode base d"
      "collect_replay_inputs d" "(empty_report, init_db)" "(p, db)"] init_db_ok
  by (auto simp: rebuild_def intro: file_preserves)

text \<open>
  A replay is all or nothing: it never touches the log files; when it fails, the directory
  is as before, the old database included; when it succeeds, in either mode and whatever the
  lines are, the new database satisfies every constraint of the schema.
\<close>

theorem replay_all_or_nothing:
  "case replay_with_mode gz js held force mode m of
     (Inl e, m') \<Rightarrow> m' = m
   | (Inr p, m') \<Rightarrow> (\<exists>d. m' = m \<lparr> md_db := Some d \<rparr> \<and> db_ok d)"
  by (auto simp: replay_with_mode_def rebuild_preserves split: sum.splits prod.splits)

lemma rfold_total:
  assumes "\<And>x s. x \<in> set xs \<Longrightarrow> is_ok (f x s)"
  shows "is_ok (rfold f xs s)"
  using assms
proof (induction xs arbitrary: s)
  case (Cons x xs)
  then obtain t where "f x s = Inr t" by (force simp: is_ok_iff)
  with Cons show ?case by simp
qed simp

definition readable :: "gz_codec \<Rightarrow> dir \<Rightarrow> bool" where
  "readable gz d \<longleftrightarrow>
     (\<forall>name \<in> set (collect_replay_inputs d). \<forall>x \<in> set (reader_items (open_log_reader gz d name)). is_ok x)"

lemma lenient_line_total: "is_ok x \<Longrightarrow> is_ok (replay_line js Lenient path n x st)"
  by (auto simp: replay_line_def is_ok_iff split: sum.splits)

lemma set_enumerate_snd: "p \<in> set (enumerate n xs) \<Longrightarrow> snd p \<in> set xs"
  by (metis in_set_zip enumerate_eq_zip nth_mem)

text \<open>
  C33. Disaster recovery does not stop at a bad line: with the lock free, and forced or over a
  database without claims, lenient replay of files whose bytes can be read succeeds whatever the
  lines hold.
\<close>

theorem lenient_replay_succeeds:
  assumes "readable gz (md_files m)" and "force \<or> claim_count (md_db m) = 0"
  shows "is_ok (fst (replay_with_mode gz js False force Lenient m))"
proof -
  have "is_ok (rebuild gz js Lenient (md_path m) (md_files m))"
    unfolding rebuild_def replay_file_def
  proof (intro rfold_total)
    fix path st nx st'
    assume "path \<in> set (collect_replay_inputs (md_files m))"
      "nx \<in> set (enumerate 1 (reader_items (open_log_reader gz (md_files m) path)))"
    moreover from this(2) have "snd nx \<in> set (reader_items (open_log_reader gz (md_files m) path))"
      by (rule set_enumerate_snd)
    ultimately have "is_ok (snd nx)" using assms(1) by (auto simp: readable_def)
    then show "is_ok ((case nx of (n, x) \<Rightarrow> replay_line js Lenient (md_path m @ ''/'' @ path) n x) st')"
      by (simp add: case_prod_unfold lenient_line_total)
  qed
  with assms(2) show ?thesis
    by (auto simp: replay_with_mode_def is_ok_iff split: sum.splits)
qed

theorem lenient_replay_succeeds_witness:
  "is_ok (fst (replay_with_mode stored_gz sample_json False False Lenient
     (sample_memory \<lparr> md_files := [(''log.jsonl'', ''garbage'')] \<rparr>)))"
proof -
  have "readable stored_gz [(''log.jsonl'', ''garbage'')]"
    unfolding readable_def by code_simp
  then show ?thesis
    by (intro lenient_replay_succeeds) (simp_all add: sample_memory_def claim_count_def)
qed

end
