(* ===== verification/Log_Tail.thy ===== *)
theory Log_Tail
  imports Log_Files
begin

section \<open>The last line of a log\<close>

text \<open>
  Reading a log backwards in blocks gives its last line, whatever the block size and wherever
  the blocks cut lines and characters.
\<close>

subsection \<open>Decoding between newlines\<close>

lemma newline_not_cont [simp]: "\<not> byte_in 128 hi (CHR 0x0A)" "\<not> byte_in 160 hi (CHR 0x0A)"
  "\<not> byte_in 144 hi (CHR 0x0A)"
  by (simp_all add: byte_in_def)

lemma utf8_lead_second: "utf8_lead c = Some (n, lo, hi) \<Longrightarrow> n \<noteq> 1 \<Longrightarrow> \<not> byte_in lo hi (CHR 0x0A)"
  by (auto simp: utf8_lead_def split: if_splits)

lemma take_while_stop:
  "\<not> P x \<Longrightarrow> takeWhile P (take m (a @ x # b)) = takeWhile P (take m a)"
  by (cases "m \<le> length a") (auto simp: takeWhile_append take_Cons' takeWhile_eq_all_conv [THEN iffD2])

lemma utf8_step_newline:
  "utf8_step c (a @ CHR 0x0A # b) = utf8_step c a \<and> snd (utf8_step c a) \<le> length a"
proof -
  have le: "length (takeWhile P (take m t)) \<le> length t" for P m and t :: str
    using length_takeWhile_le [of P "take m t"] by simp
  show ?thesis
    using utf8_lead_second [of c]
    by (cases a) (auto simp: utf8_step_def take_while_stop le Let_def simp del: take_append split: option.splits)
qed

lemma lossy_newline: "from_utf8_lossy (a @ CHR 0x0A # b) = from_utf8_lossy a @ CHR 0x0A # from_utf8_lossy b"
proof (induction a rule: from_utf8_lossy.induct)
  case 1
  have "utf8_step (CHR 0x0A) b = (True, 0)"
    by (simp add: utf8_step_def utf8_lead_def byte_in_def)
  then show ?case by simp
next
  case (2 c s)
  obtain ok n where st: "utf8_step c s = (ok, n)" by (cases "utf8_step c s")
  with utf8_step_newline [of c s b] have "utf8_step c (s @ CHR 0x0A # b) = (ok, n)" "n \<le> length s"
    by simp_all
  with 2 [OF st [symmetric] refl] st show ?case by simp
qed

lemma lines_newline: "lines (a @ CHR 0x0A # b) = lines (a @ [CHR 0x0A]) @ lines b"
proof -
  let ?sp = "split_on ((=) (CHR 0x0A))"
  have "?sp (a @ CHR 0x0A # b) = ?sp a @ ?sp b" "?sp (a @ [CHR 0x0A]) = ?sp a @ [[]]"
    using split_on_append_sep [of "(=) (CHR 0x0A)" "CHR 0x0A" a] by simp_all
  then show ?thesis by (simp add: lines_def butlast_append Let_def)
qed

lemma last_filled_append:
  "last_filled (xs @ ys) = (case last_filled ys of None \<Rightarrow> last_filled xs | Some l \<Rightarrow> Some l)"
proof -
  have "find P (as @ bs) = (case find P as of None \<Rightarrow> find P bs | Some l \<Rightarrow> Some l)"
    for P :: "str \<Rightarrow> bool" and as bs
    by (induction as) auto
  then show ?thesis by (simp add: last_filled_def split: option.splits)
qed

lemma last_filled_None: "last_filled ls = None \<longleftrightarrow> (\<forall>l \<in> set ls. blank l)"
  by (auto simp: last_filled_def find_None_iff)

subsection \<open>Where the loop stops\<close>

abbreviation (input) ws :: "char \<Rightarrow> bool" where "ws \<equiv> is_ascii_whitespace"

lemma ws_newline [simp]: "ws (CHR 0x0A)" "ws (CHR 0x0D)" "\<not> ws (CHR 0xEF)"
  by (simp_all add: is_ascii_whitespace_def)

lemma tail_complete_split:
  assumes "tail_complete t"
  obtains x y c where "t = x @ CHR 0x0A # y" "c \<in> set y" "\<not> ws c"
proof -
  let ?d = "dropWhile ws (rev t)"
  have "rev t = takeWhile ws (rev t) @ ?d" by simp
  then have t: "t = rev ?d @ rev (takeWhile ws (rev t))" by (metis rev_append rev_rev_ident)
  from assms have n: "CHR 0x0A \<in> set (rev ?d)" by (simp add: tail_complete_def)
  have "?d \<noteq> []"
  proof
    assume "?d = []"
    with n have "CHR 0x0A \<in> set (rev ([] :: str))" by (simp only:)
    then show False by simp
  qed
  then have h: "?d \<noteq> []" "\<not> ws (hd ?d)" using hd_dropWhile [of ws "rev t"] by blast+
  from n obtain x y where xy: "rev ?d = x @ CHR 0x0A # y" by (meson split_list)
  have "last (rev ?d) = hd ?d" using h(1) by (simp add: last_rev)
  moreover have "last (rev ?d) = last (CHR 0x0A # y)" unfolding xy by simp
  ultimately have nw: "\<not> ws (last (CHR 0x0A # y))" using h(2) by metis
  have "y \<noteq> []" using nw by (rule contrapos_nn) simp
  moreover from this nw have "\<not> ws (last y)" by simp
  ultimately show thesis
    using t xy that [of x "y @ rev (takeWhile ws (rev t))" "last y"] by simp
qed

lemma tail_loop_stops:
  assumes "e \<le> length s" and "tail = drop e s" and "0 < blk"
  shows "\<exists>p. s = p @ tail_loop blk s e tail \<and> (p \<noteq> [] \<longrightarrow> tail_complete (tail_loop blk s e tail))"
  using assms
proof (induction blk s e tail rule: tail_loop.induct)
  case (1 blk s e tail)
  show ?case
  proof (cases "e = 0")
    case True
    with 1(3) show ?thesis by (auto simp: tail_loop.simps [of blk s 0])
  next
    case False
    let ?st = "e - blk"
    have t: "take (e - ?st) (drop ?st s) @ tail = drop ?st s"
      using 1(2,3) by (metis append_take_drop_id diff_le_self drop_drop le_add_diff_inverse2)
    show ?thesis
    proof (cases "tail_complete (drop ?st s)")
      case True
      then show ?thesis
        using False 1(4) t by (auto simp: tail_loop.simps [of blk s e] Let_def intro!: exI [of _ "take ?st s"])
    next
      case nc: False
      have "\<exists>p. s = p @ tail_loop blk s ?st (drop ?st s) \<and>
          (p \<noteq> [] \<longrightarrow> tail_complete (tail_loop blk s ?st (drop ?st s)))"
        using 1(1) [OF _ refl refl] False nc 1(2,4) t by simp
      then show ?thesis
        using False 1(4) t nc by (simp add: tail_loop.simps [of blk s e] Let_def)
    qed
  qed
qed

subsection \<open>White space\<close>

lemma lossy_white: "list_all ws (from_utf8_lossy s) \<Longrightarrow> list_all ws s"
proof (induction s rule: from_utf8_lossy.induct)
  case (2 c s)
  obtain ok n where st: "utf8_step c s = (ok, n)" by (cases "utf8_step c s")
  with 2 have ok: "ok" by (auto split: if_splits)
  with 2 st have "ws c" "list_all ws (take n s)" "list_all ws (drop n s)" by simp_all
  then show ?case by (metis append_take_drop_id list_all_append list.pred_inject(2))
qed simp

lemma split_chars: "c \<in> set s \<Longrightarrow> p c \<or> (\<exists>w \<in> set (split_on p s). c \<in> set w)"
  by (induction s) (auto split: list.splits)

lemma lines_chars: "c \<in> set s \<Longrightarrow> c = CHR 0x0A \<or> c = CHR 0x0D \<or> (\<exists>l \<in> set (lines s). c \<in> set l)"
proof -
  let ?w = "split_on ((=) (CHR 0x0A)) s"
  assume "c \<in> set s"
  with split_chars [of c s] consider "c = CHR 0x0A" | w where "w \<in> set ?w" "c \<in> set w" by metis
  then show ?thesis
  proof cases
    case 2
    have "set ?w = set (butlast ?w) \<union> {last ?w}"
      by (metis append_butlast_last_id list.set(1,2) set_append split_on_not_Nil)
    with 2(1) consider "w \<in> set (butlast ?w)" | "w = last ?w" by blast
    then show ?thesis
    proof cases
      case 1
      then have "strip_cr w \<in> set (lines s)" by (auto simp: lines_def Let_def)
      moreover have "c \<in> set (strip_cr w) \<or> c = CHR 0x0D"
        using 2(2) by (cases w rule: rev_cases) (auto simp: strip_cr_def)
      ultimately show ?thesis by blast
    next
      case 2
      with \<open>c \<in> set w\<close> have "w \<in> set (lines s)" by (auto simp: lines_def Let_def)
      with \<open>c \<in> set w\<close> show ?thesis by blast
    qed
  qed simp
qed

text \<open>
  C39. In a file whose blank lines hold only ASCII white space, the backward read finds the last
  non-blank line of the whole file, whatever the size of the blocks: where a block cuts a line or a
  character does not matter. (The stop condition of the loop recognises ASCII white space only, the
  search for the line all white space of Unicode;
  \<open>wide_blank_line_stops\<close> is a file where they differ.)
\<close>

theorem last_line_correct:
  assumes "0 < blk"
    and "\<forall>l \<in> set (lines (from_utf8_lossy s)). blank l \<longrightarrow> list_all is_ascii_whitespace l"
  shows "last_line blk s = last_filled (lines (from_utf8_lossy s))"
proof -
  let ?t = "tail_loop blk s (length s) []"
  obtain p where p: "s = p @ ?t" "p \<noteq> [] \<Longrightarrow> tail_complete ?t"
    using tail_loop_stops [of "length s" s "[]" blk] assms(1) by auto
  show ?thesis
  proof (cases "p = []")
    case True
    with p(1) show ?thesis by (simp add: last_line_def)
  next
    case False
    with p(2) obtain x y c where xy: "?t = x @ CHR 0x0A # y" "c \<in> set y" "\<not> ws c"
      by (metis tail_complete_split)
    then have s: "s = (p @ x) @ CHR 0x0A # y" using p(1) by simp
    have sub: "set (lines (from_utf8_lossy y)) \<subseteq> set (lines (from_utf8_lossy s))"
      unfolding s lossy_newline by (subst lines_newline) auto
    have "last_filled (lines (from_utf8_lossy y)) \<noteq> None"
    proof
      assume "last_filled (lines (from_utf8_lossy y)) = None"
      with sub assms(2) have "\<forall>l \<in> set (lines (from_utf8_lossy y)). list_all ws l"
        by (auto simp: last_filled_None)
      then have "list_all ws (from_utf8_lossy y)"
        unfolding list_all_iff using lines_chars [of _ "from_utf8_lossy y"] ws_newline by metis
      then have "list_all ws y" by (rule lossy_white)
      with xy(2,3) show False by (auto simp: list_all_iff)
    qed
    then obtain l where l: "last_filled (lines (from_utf8_lossy y)) = Some l" by blast
    have "last_filled (lines (from_utf8_lossy (a @ CHR 0x0A # y))) = Some l" for a
      unfolding lossy_newline by (subst lines_newline) (simp add: last_filled_append l)
    with xy(1) s show ?thesis by (metis last_line_def)
  qed
qed

text \<open>
  A last line of one no-break space: with blocks of two bytes the loop stops before it has read the
  line above, and reports that there is none.
\<close>

lemma wide_blank_line_stops:
  "last_line 2 (''ab'' @ [CHR 0x0A, CHR 0xC2, CHR 0xA0, CHR 0x0A]) = None"
  "last_filled (lines (from_utf8_lossy (''ab'' @ [CHR 0x0A, CHR 0xC2, CHR 0xA0, CHR 0x0A]))) = Some ''ab''"
  by code_simp+

theorem last_line_correct_witness:
  "last_line 1 ''ab\<newline>cd\<newline>'' = last_filled (lines (from_utf8_lossy ''ab\<newline>cd\<newline>''))"
proof -
  have "\<forall>l \<in> set (lines (from_utf8_lossy ''ab\<newline>cd\<newline>'')). blank l \<longrightarrow> list_all is_ascii_whitespace l"
    by code_simp
  then show ?thesis using last_line_correct [of 1 "''ab\<newline>cd\<newline>''"] by simp
qed

end
