(* ===== verification/Store_Relation.thy ===== *)
theory Store_Relation
  imports Store_Steps
begin

section \<open>Relations every call keeps\<close>

text \<open>
  An operation is built from a few primitive effects: minting an id, counting a rejection,
  appending a line, applying a record, and rolling a transaction back. The locale
  \<open>store_relation\<close> is the contract of a relation between the store before and after that each
  effect keeps; then every public call keeps it. Its interpretations are the growth of the
  logs, the filing of each record in the log of its series, and the way the projection changes: only
  by applied records.
\<close>

lemma series_of_records [simp]: "series_of (claim_record t i w) = Log" "series_of (hyperedge_record t i h) = Log"
  "series_of (event_record t i x) = Events" "series_of (candidate_record t i c) = Events"
  "series_of (observation_record t id1 w1 e) = Observations"
  "series_of (promotion_claim t i k e2 prov conf) = Log"
  by (simp_all add: claim_record_def hyperedge_record_def event_record_def candidate_record_def
      observation_record_def promotion_claim_def)

locale store_relation =
  fixes keeps :: "store \<Rightarrow> store \<Rightarrow> bool"
  assumes keeps_refl: "keeps s s"
    and keeps_trans: "keeps s t \<Longrightarrow> keeps t u \<Longrightarrow> keeps s u"
    and keeps_mint: "keeps s (s \<lparr> st_last := mint (st_last s) ms h \<rparr>)"
    and keeps_reject: "keeps s (s \<lparr> st_rejections := rj \<rparr>)"
    and keeps_push: "series_of r = k \<Longrightarrow> keeps s (push_log k r s)"
    and keeps_apply: "project r (st_db s) = Inr d \<Longrightarrow> keeps s (s \<lparr> st_db := d \<rparr>)"
    and keeps_rollback: "keeps s t \<Longrightarrow> keeps s (t \<lparr> st_db := st_db s, st_rejections := st_rejections s \<rparr>)"
begin

definition keeping :: "'a op \<Rightarrow> bool" where
  "keeping m \<longleftrightarrow> (\<forall>s q s'. m s = (q, s') \<longrightarrow> keeps s s')"

lemma keeping_basic: "keeping (op_ret x)" "keeping (op_of r)" "keeping (op_read f)" "keeping (mint_op ev)"
  "keeping (record_privacy_rejection rj)"
  by (auto simp: keeping_def op_basic mint_op_def Let_def record_privacy_rejection_def keeps_refl
      keeps_mint keeps_reject)

lemma keeping_bind: "keeping m \<Longrightarrow> (\<And>x. keeping (f x)) \<Longrightarrow> keeping (op_bind m f)"
  unfolding keeping_def op_bind_cases by (blast intro: keeps_trans)

lemma keeping_then: "keeping m \<Longrightarrow> keeping n \<Longrightarrow> keeping (op_then m n)"
  unfolding op_then_def by (rule keeping_bind)

lemma keeping_each: "(\<And>x. keeping (f x)) \<Longrightarrow> keeping (op_each f xs)"
  by (induction xs) (simp_all add: keeping_bind keeping_basic)

lemma keeping_recording: "keeping (recording v)" "keeping (privacy_filter_recording c)"
  "keeping (privacy_filter_path_recording p)" "keeping (privacy_paths_recording ps)"
proof -
  show r: "keeping (recording v)" for v
    by (cases v) (auto simp: recording_def intro: keeping_then keeping_basic)
  show p: "keeping (privacy_filter_recording c)" "keeping (privacy_filter_path_recording p)" for p
    by (simp_all add: privacy_filter_recording_def privacy_filter_path_recording_def r)
  show "keeping (privacy_paths_recording ps)"
    by (induction ps) (auto intro: keeping_then p keeping_basic)
qed

lemma keeping_append: "series_of r = k \<Longrightarrow> keeping (append_jsonl ev k r)"
  unfolding keeping_def by (auto elim!: append_cases intro: keeps_refl keeps_push)

lemma keeping_apply: "keeping (apply_op r)"
  unfolding keeping_def by (auto elim!: apply_op_cases intro: keeps_refl keeps_apply)

lemma keeping_logged: "series_of r = k \<Longrightarrow> keeping (logged ev k r)"
  unfolding logged_def by (intro keeping_then keeping_append keeping_apply)

lemma keeping_transaction: "keeping m \<Longrightarrow> keeping (transaction ev m)"
  unfolding keeping_def by (auto elim!: transaction_cases intro: keeps_refl keeps_rollback)

lemma keeping_if: "keeping m \<Longrightarrow> keeping n \<Longrightarrow> keeping (if b then m else n)"
  by simp

lemma keeping_option: "keeping m \<Longrightarrow> (\<And>y. keeping (f y)) \<Longrightarrow> keeping (case x of None \<Rightarrow> m | Some y \<Rightarrow> f y)"
  by (cases x) simp_all

lemma keeping_prod: "(\<And>a b. keeping (f a b)) \<Longrightarrow> keeping (case p of (a, b) \<Rightarrow> f a b)"
  by (cases p) simp

lemmas keeping_rules = keeping_basic keeping_recording keeping_logged keeping_append keeping_apply
  keeping_transaction keeping_then keeping_bind keeping_each keeping_if keeping_option keeping_prod

lemma keeping_claims: "keeping (validate_claim_write w)" "keeping (insert_claim_op ev w)"
  "keeping (add_claim ev w)" "keeping (ensure_claim_exists i)" "keeping (log_contradiction ev i reason n)"
  unfolding add_claim_def insert_claim_op_def mint_and_log_def validate_claim_write_def
    ensure_claim_exists_def log_contradiction_def
  by (intro keeping_rules; simp)+

lemma keeping_consolidation: "keeping (log_decay ev f)" "keeping (consolidate_report ev1 ev2 ev3)"
  unfolding consolidate_report_def merge_duplicate_source_refs_def merge_group_def
    decay_contradicted_confidence_def log_decay_def supersede_claim_ids_def
  by (intro keeping_rules; simp)+

lemma keeping_lifecycle: "keeping (add_contradiction ev i reason)" "keeping (contradict ev1 ev2 i reason n)"
  "keeping (retire_claim ev i reason)" "keeping (decay_contradicted_confidence ev)"
  unfolding add_contradiction_def contradict_def retire_claim_def decay_contradicted_confidence_def
  by (intro keeping_rules keeping_claims keeping_consolidation; simp)+

lemma keeping_inferred: "keeping (decay_inferred_confidence_at exp64 ev t tau)"
  by (cases tau) (auto simp: decay_inferred_confidence_at_def keeping_basic keeping_consolidation)

lemma keeping_ingest: "keeping (ingest_extractor_facts evs ev1 ev2 ev3 ag k src sc fs)"
  unfolding ingest_extractor_facts_def Let_def
  by (intro keeping_rules keeping_claims keeping_consolidation; simp)

lemma keeping_hyperedge: "keeping (add_hyperedge ev h)"
  unfolding add_hyperedge_def validate_hyperedge_write_def mint_and_log_def by (intro keeping_rules; simp)

lemma keeping_chunks: "keeping (add_vector_chunk ev i txt model)"
  "keeping (add_vector_chunk_with_embedding ev i txt model e)"
  "keeping (backfill_vector_embeddings embedder evs)"
  unfolding add_vector_chunk_def add_vector_chunk_with_embedding_def insert_vector_chunk_def
    mint_and_log_def backfill_vector_embeddings_def backfill_one_def
  by (intro keeping_rules keeping_claims; simp)+

lemma keeping_episodic: "keeping (record_event ev x)" "keeping (record_observation ev o1)"
  "keeping (prune_observations ev session keep)"
  unfolding record_event_def record_observation_def log_observation_def prune_observations_def
    mint_and_log_def
  by (intro keeping_rules; simp)+

lemma keeping_drafts: "keeping (propose_drafts evs session n xs seen)"
  by (induction xs arbitrary: n seen)
    (auto simp: Let_def keeping_basic split: prod.split intro!: keeping_bind keeping_episodic)

lemma keeping_observer: "keeping (propose_observations_from_observer observe evs session)"
  unfolding propose_observations_from_observer_def by (intro keeping_rules keeping_drafts; simp)

lemma keeping_candidates: "keeping (propose_candidate_claim ev k)"
  "keeping (promote_candidate_claim_inner ev i attribution dec)"
  "keeping (reject_candidate_claim_inner ev i reason dec)"
  unfolding propose_candidate_claim_def candidate_gate_def mint_and_log_def
    promote_candidate_claim_inner_def log_promotion_def reject_candidate_claim_inner_def
  by (intro keeping_rules; simp)+

lemma keeping_extractor: "keeping (propose_claims_from_extractor extract evs session)"
  unfolding propose_claims_from_extractor_def by (intro keeping_rules keeping_candidates; simp)

lemma keeping_run: "keeping m \<Longrightarrow> m s = (q, s') \<Longrightarrow> keeps s s'"
  unfolding keeping_def by blast

theorem store_call_keeps: "store_call s failed s' \<Longrightarrow> keeps s s'"
  by (erule store_call.cases)
    (simp only:, erule keeping_run [rotated],
     (rule keeping_claims keeping_consolidation keeping_lifecycle keeping_inferred keeping_ingest keeping_hyperedge
        keeping_chunks keeping_episodic keeping_observer keeping_candidates keeping_extractor)+)+

end

subsection \<open>Logs grow, projections change by applied records\<close>

lemma logs_grow_push: "logs_grow s (push_log k r s)"
  by (simp add: logs_grow_def)

interpretation growth: store_relation logs_grow
proof
  show "logs_grow s s" "logs_grow s (push_log k r s)" for s k r
    by (simp_all add: logs_grow_push)
  show "logs_grow s t \<Longrightarrow> logs_grow t u \<Longrightarrow> logs_grow s u" for s t u
    by (rule logs_grow_trans)
qed (simp_all add: logs_grow_def)

text \<open>What a log gains are records that belong to it.\<close>

definition filed :: "store \<Rightarrow> store \<Rightarrow> bool" where
  "filed s s' \<longleftrightarrow> (\<forall>k. \<exists>ls. log_of k s' = log_of k s @ ls \<and> (\<forall>r \<in> set ls. series_of r = k))"

lemma filed_trans: "filed s t \<Longrightarrow> filed t u \<Longrightarrow> filed s u"
  unfolding filed_def by (metis UnE append.assoc set_append)

interpretation filing: store_relation filed
proof
  show "filed s s" for s by (simp add: filed_def)
  show "filed s t \<Longrightarrow> filed t u \<Longrightarrow> filed s u" for s t u by (rule filed_trans)
  show "filed s (push_log k r s)" if "series_of r = k" for s k r
    using that by (auto simp: filed_def)
qed (auto simp: filed_def)

definition derived :: "store \<Rightarrow> store \<Rightarrow> bool" where
  "derived s s' \<longleftrightarrow> (\<exists>rs. rfold project rs (st_db s) = Inr (st_db s'))"

interpretation trace: store_relation derived
proof
  show "derived s s" for s
    unfolding derived_def by (rule exI [of _ "[]"]) simp
  show "derived s u" if st: "derived s t" "derived t u" for s t u
  proof -
    from st obtain rs qs where "rfold project rs (st_db s) = Inr (st_db t)"
      "rfold project qs (st_db t) = Inr (st_db u)" unfolding derived_def by blast
    then have "rfold project (rs @ qs) (st_db s) = Inr (st_db u)" by (simp add: rfold_append)
    then show ?thesis unfolding derived_def by blast
  qed
  show "derived s (s \<lparr> st_db := d \<rparr>)" if "project r (st_db s) = Inr d" for s r d
    unfolding derived_def using that by (intro exI [of _ "[r]"]) simp
qed (auto simp: derived_def intro: exI [of _ "[]"])

inductive store_calls :: "store \<Rightarrow> store \<Rightarrow> bool" where
  none: "store_calls s s"
| more: "store_calls s t \<Longrightarrow> store_call t failed u \<Longrightarrow> store_calls s u"

lemma calls_derived: "store_calls s s' \<Longrightarrow> derived s s'"
  by (induction rule: store_calls.induct)
    (auto intro: trace.keeps_refl trace.keeps_trans trace.store_call_keeps)

lemma calls_filed: "store_calls s s' \<Longrightarrow> filed s s'"
  by (induction rule: store_calls.induct)
    (auto intro: filing.keeps_refl filing.keeps_trans filing.store_call_keeps)

lemma calls_grow: "store_calls s s' \<Longrightarrow> logs_grow s s'"
  by (induction rule: store_calls.induct)
    (auto intro: logs_grow_trans growth.store_call_keeps)

lemma derived_invariant:
  assumes "derived s s'" and "\<And>d. R d d" and "\<And>d e f. R d e \<Longrightarrow> R e f \<Longrightarrow> R d f"
    and "\<And>r d a d'. apply_record r d = Inr (a, d') \<Longrightarrow> R d d'"
  shows "R (st_db s) (st_db s')"
proof -
  from assms(1) obtain rs where "rfold project rs (st_db s) = Inr (st_db s')"
    unfolding derived_def by blast
  then show ?thesis
    by (rule rfold_invariant [where P = "R (st_db s)"])
      (use assms(2-4) in \<open>auto simp: project_eq\<close>)
qed

end
