(* ===== verification/Privacy_Flow.thy ===== *)
theory Privacy_Flow
  imports Store_Props
begin

section \<open>No secret reaches the log\<close>

text \<open>
  The privacy filter guards every write path, and what later writes copy out of the projection
  (a promoted candidate, merged source references, the agent of an observed event) was guarded
  when it was first logged. \<open>gated\<close> is the contract of an operation that keeps logs and
  projection free of secrets.
\<close>

named_theorems gated_intros \<open>operations that write only filtered text\<close>

subsection \<open>Clean text\<close>

definition clean_word :: "str \<Rightarrow> bool" where
  "clean_word tok \<longleftrightarrow> list_all (\<lambda>(pre, n). \<not> (starts_with tok pre \<and> n \<le> length tok)) secret_prefixes"

definition clean_alnum :: "str \<Rightarrow> bool" where
  "clean_alnum tok \<longleftrightarrow> \<not> is_aws_access_key tok \<and> \<not> high_entropy tok"

definition clean :: "str \<Rightarrow> bool" where
  "clean s \<longleftrightarrow> list_all clean_word (split_on secret_token_boundary s) \<and> list_all clean_alnum (alnum_tokens s)
     \<and> list_all (\<lambda>tok. \<not> is_jwt tok) (split_on jwt_token_boundary s)
     \<and> list_all (\<lambda>m. \<not> contains_sub s m) private_key_markers"

lemma privacy_filter_clean: "privacy_filter c = Inr u \<Longrightarrow> clean c"
proof -
  assume passed: "privacy_filter c = Inr u"
  then have "\<not> list_ex is_jwt (split_on jwt_token_boundary c)"
    by (simp add: privacy_filter_def split: if_splits)
  with privacy_filter_passes [OF passed] show "clean c"
    by (auto simp: clean_def clean_word_def clean_alnum_def has_token_def list_all_iff list_ex_iff)
qed

lemma space_boundary [simp]: "secret_token_boundary (CHR '' '')" "secret_token_boundary (CHR '':'')"
  "jwt_token_boundary (CHR '' '')" "jwt_token_boundary (CHR '':'')"
  "\<not> is_ascii_alphanumeric (CHR '' '')" "\<not> is_ascii_alphanumeric (CHR '':'')"
  by (simp_all add: secret_token_boundary_def jwt_token_boundary_def ascii_defs less_eq_char_def)

lemma contains_sub_chars: "contains_sub s m \<Longrightarrow> set m \<subseteq> set s"
  by (auto simp: contains_sub_iff)

lemma contains_sub_around: "contains_sub a m \<or> contains_sub b m \<Longrightarrow> contains_sub (a @ c # b) m"
  unfolding contains_sub_iff by (metis append.assoc append_Cons)

lemma contains_sub_split:
  assumes "contains_sub (a @ c # b) m" and "c \<notin> set m"
  shows "contains_sub a m \<or> contains_sub b m"
proof -
  from assms(1) obtain x y where e: "a @ c # b = x @ m @ y" by (auto simp: contains_sub_iff)
  then consider u where "a = x @ u" "u @ c # b = m @ y" | u where "a @ u = x" "c # b = u @ m @ y"
    by (auto simp: append_eq_append_conv2)
  then show ?thesis
  proof cases
    case 1
    then consider v where "u = m @ v" | v where "u @ v = m" "c # b = v @ y"
      by (auto simp: append_eq_append_conv2)
    then show ?thesis
    proof cases
      case (2 v)
      with assms(2) have "v = []" by (cases v) auto
      with 1 2 show ?thesis by (metis append_Nil2 contains_sub_iff)
    qed (use 1 in \<open>auto simp: contains_sub_iff\<close>)
  next
    case (2 u)
    then show ?thesis
      by (cases u; cases m) (use assms(2) in \<open>auto simp: contains_sub_iff\<close>)
  qed
qed

lemma clean_piece:
  assumes "secret_token_boundary c" and "jwt_token_boundary c" and "\<not> is_ascii_alphanumeric c"
  shows "clean (a @ c # b) \<Longrightarrow> clean a \<and> clean b"
  using assms contains_sub_around [of a _ b c]
  by (auto simp: clean_def alnum_tokens_def split_on_append_sep list_all_iff)

lemma clean_colon: "clean (a @ CHR '':'' # b) \<longleftrightarrow> clean a \<and> clean b"
proof
  assume ab: "clean a \<and> clean b"
  have "list_all (\<lambda>m. CHR '':'' \<notin> set m) private_key_markers" by code_simp
  with ab have "list_all (\<lambda>m. \<not> contains_sub (a @ CHR '':'' # b) m) private_key_markers"
    unfolding clean_def list_all_iff by (blast dest: contains_sub_split)
  with ab show "clean (a @ CHR '':'' # b)"
    by (auto simp: clean_def alnum_tokens_def split_on_append_sep)
qed (rule clean_piece, simp_all)

lemma clean_Nil [simp]: "clean []"
  by code_simp

lemma clean_join: "clean (join '' '' ws) \<Longrightarrow> list_all clean ws"
  by (induction ws rule: induct_list012) (auto dest!: clean_piece [of "CHR '' ''", rotated 3])

lemma filtered_pieces: "privacy_filter (join '' '' ws) = Inr u \<Longrightarrow> list_all clean ws"
  using privacy_filter_clean by (metis clean_join)

lemma clean_retired: "clean reason \<Longrightarrow> clean (retired_marker reason)"
proof -
  have "clean ''retired''" by code_simp
  moreover assume "clean reason"
  ultimately have "clean (''retired'' @ CHR '':'' # reason)" by (simp only: clean_colon)
  then show ?thesis by (simp add: retired_marker_def)
qed

lemma digits_clean:
  assumes "\<forall>c \<in> set s. is_ascii_digit c"
  shows "clean s" "clean (CHR ''-'' # s)"
proof -
  have al: "\<forall>c \<in> set s. is_ascii_alphanumeric c" using assms by (simp add: is_ascii_alphanumeric_def)
  have "set s \<subseteq> char_of ` {48 ..< 58 :: nat}"
  proof
    fix c
    assume "c \<in> set s"
    with assms have "(of_char c :: nat) \<in> {48 ..< 58}"
      by (auto simp: is_ascii_digit_def less_eq_char_def)
    then show "c \<in> char_of ` {48 ..< 58 :: nat}" by (metis char_of_char image_eqI)
  qed
  moreover have "card (char_of ` {48 ..< 58 :: nat}) \<le> 22"
    using card_image_le [of "{48 ..< 58 :: nat}" char_of] by simp
  ultimately have "\<not> high_entropy s" by (intro few_distinct_not_high_entropy) (meson card_mono finite_atLeastLessThan finite_imageI le_trans)
  moreover have "\<not> is_aws_access_key s"
    using assms by (cases s) (auto simp: is_aws_access_key_def is_ascii_digit_def less_eq_char_def)
  ultimately have alnum: "list_all clean_alnum (alnum_tokens s)"
    using al by (simp add: alnum_tokens_def split_on_no_sep clean_alnum_def)
  have "clean_word s" "clean_word (CHR ''-'' # s)"
    using assms
    by (cases s; auto simp: clean_word_def secret_prefixes_def is_ascii_digit_def less_eq_char_def)+
  moreover have "split_on secret_token_boundary s = [s]"
    "split_on secret_token_boundary (CHR ''-'' # s) = [CHR ''-'' # s]"
    using al by (intro split_on_no_sep; auto simp: secret_token_boundary_def)+
  moreover have "alnum_tokens (CHR ''-'' # s) = [] # alnum_tokens s"
    by (simp add: alnum_tokens_def ascii_defs less_eq_char_def)
  moreover have "clean_alnum []" by code_simp
  moreover have plain: "list_all (\<lambda>tok. \<not> is_jwt tok) (split_on jwt_token_boundary t)"
    "list_all (\<lambda>m. \<not> contains_sub t m) private_key_markers" if "t = s \<or> t = CHR ''-'' # s" for t
  proof -
    have "\<not> is_ascii_digit (CHR ''.'')" "\<not> is_ascii_digit (CHR ''K'')"
      by (simp_all add: is_ascii_digit_def less_eq_char_def)
    then have "CHR ''.'' \<notin> set s" "CHR ''K'' \<notin> set s" using assms by blast+
    then have dots: "\<forall>c \<in> set t. c \<noteq> CHR ''.''" "CHR ''K'' \<notin> set t"
      using that by auto
    have bare: "\<forall>c \<in> set t. \<not> jwt_token_boundary c"
      using that al by (auto simp: jwt_token_boundary_def)
    have "split_on ((=) (CHR ''.'')) t = [t]" using dots(1) by (intro split_on_no_sep) auto
    with bare show "list_all (\<lambda>tok. \<not> is_jwt tok) (split_on jwt_token_boundary t)"
      by (simp add: split_on_no_sep is_jwt_def)
    have "list_all (\<lambda>m. CHR ''K'' \<in> set m) private_key_markers" by code_simp
    with dots(2) show "list_all (\<lambda>m. \<not> contains_sub t m) private_key_markers"
      by (auto simp: list_all_iff dest: contains_sub_chars)
  qed
  ultimately show "clean s" "clean (CHR ''-'' # s)"
    using alnum plain [OF disjI1 [OF refl]] plain [OF disjI2 [OF refl]]
    unfolding clean_def by (simp_all only: list.pred_inject simp_thms)
qed

lemma clean_event_ref: "clean (''event:'' @ show_int i)"
proof -
  have "clean (show_int i)"
    using digits_clean digits_of_digits by (simp add: show_int_def)
  moreover have "clean ''event''" by code_simp
  ultimately have "clean (''event'' @ CHR '':'' # show_int i)" by (simp only: clean_colon)
  then show ?thesis by simp
qed

subsection \<open>Clean logs and projections\<close>

text \<open>
  The free text of a record that is filtered. (Not filtered: scopes, checked against a character
  set, embedding model names, checked as paths only, and the model names of decisions.)
\<close>

fun record_texts :: "log_record \<Rightarrow> str list" where
  "record_texts (AddClaim _ _ subj pred obj source agent _ _ _ _) = [subj, pred, obj, source, agent]"
| "record_texts (AddHyperedge _ _ pred _ _ refs parts) =
     pred # refs @ map pi_role parts @ map pi_entity parts"
| "record_texts (RecordEvent _ _ session kind payload source agent _ _) =
     [session, kind, payload, source, agent]"
| "record_texts (RecordObservation _ _ session content _ _ agent _ derivation _) =
     [session, content, agent, derivation]"
| "record_texts (PruneObservations _ _ session _) = [session]"
| "record_texts (RetireClaim _ _ reason) = [reason]"
| "record_texts (AddContradiction _ _ _ reason _) = [reason]"
| "record_texts (ProposeCandidateClaim _ _ _ subj pred obj _) = [subj, pred, obj]"
| "record_texts (RejectCandidateClaim _ _ reason _) = [reason]"
| "record_texts (MergeSourceRefs _ _ refs _) = refs"
| "record_texts (AddVectorChunk _ _ _ txt _ _) = [txt]"
| "record_texts _ = []"

definition clean_record :: "log_record \<Rightarrow> bool" where
  "clean_record r \<longleftrightarrow> list_all clean (record_texts r)"

definition rows_all :: "('v \<Rightarrow> bool) \<Rightarrow> ('k, 'v) table \<Rightarrow> bool" where
  "rows_all P t \<longleftrightarrow> (\<forall>v \<in> snd ` set t. P v)"

definition clean_candidate :: "candidate_row \<Rightarrow> bool" where
  "clean_candidate k \<longleftrightarrow> clean (k_subject k) \<and> clean (k_predicate k) \<and> clean (k_object k)"

definition refs_clean :: "graph \<Rightarrow> bool" where
  "refs_clean g \<longleftrightarrow> rows_all (\<lambda>c. list_all clean (c_source_refs c)) (g_claims g)"

definition episodes_clean :: "episodes \<Rightarrow> bool" where
  "episodes_clean p \<longleftrightarrow>
     rows_all clean_candidate (e_candidates p) \<and> rows_all (\<lambda>e. clean (e_agent_id e)) (e_events p)"

definition observed_clean :: "observed \<Rightarrow> bool" where
  "observed_clean b \<longleftrightarrow> rows_all (\<lambda>o1. clean (o_session_id o1)) (o_observations b)"

definition clean_db :: "db \<Rightarrow> bool" where
  "clean_db d \<longleftrightarrow>
     refs_clean (db_graph d) \<and> episodes_clean (db_episodes d) \<and> observed_clean (db_observed d)"

definition clean_store :: "store \<Rightarrow> bool" where
  "clean_store s \<longleftrightarrow> clean_db (st_db s) \<and> (\<forall>k. list_all clean_record (log_of k s))"

lemma set_tbl_put: "set (tbl_put k v t) \<subseteq> insert (k, v) (set t)"
  by (induction t) auto

lemma rows_all_put: "rows_all P t \<Longrightarrow> P v \<Longrightarrow> rows_all P (tbl_put k v t)"
  using set_tbl_put [of k v t] by (force simp: rows_all_def)

lemma rows_all_get: "rows_all P t \<Longrightarrow> map_of t k = Some v \<Longrightarrow> P v"
  by (force simp: rows_all_def dest!: map_of_SomeD)

subsection \<open>Applying a clean record\<close>

lemma refs_clean_same: "g_claims g' = g_claims g \<Longrightarrow> refs_clean g' = refs_clean g"
  by (simp add: refs_clean_def)

lemma refs_clean_put: "refs_clean g \<Longrightarrow> list_all clean (c_source_refs c) \<Longrightarrow> refs_clean (put_claim i c g)"
  by (simp add: refs_clean_def put_claim_def rows_all_put)

lemma refs_clean_get: "refs_clean g \<Longrightarrow> map_of (g_claims g) i = Some c \<Longrightarrow> list_all clean (c_source_refs c)"
  by (auto simp: refs_clean_def dest: rows_all_get)

lemma refs_clean_add:
  "ap_add_claim t i subj pred obj source agent kind conf prov scope g = Inr (a, g') \<Longrightarrow>
    clean source \<Longrightarrow> refs_clean g \<Longrightarrow> refs_clean g'"
  by (auto simp: ap_add_claim_def applied_def already_def insert_claim_def result_simps
      refs_clean_def intro!: rows_all_put dest!: vocabulary_claims split: option.splits if_splits)

lemma participant_same: "add_participant t i p g = Inr g' \<Longrightarrow> g_claims g' = g_claims g"
  by (auto simp: add_participant_def insert_participant_def result_simps vocabulary_claims)

lemma refs_clean_frame:
  "ap_add_hyperedge t i pred prov conf refs ps g = Inr (a, g') \<Longrightarrow> g_claims g' = g_claims g"
  "ap_add_contradiction t i c reason n g = Inr (a, g') \<Longrightarrow> g_claims g' = g_claims g"
  "ap_add_vector_chunk t i c txt model emb g = Inr (a, g') \<Longrightarrow> g_claims g' = g_claims g"
  "ap_embed_vector_chunk i e g = Inr (a, g') \<Longrightarrow> g_claims g' = g_claims g"
  by (auto simp: ap_add_hyperedge_def insert_hyperedge_def ap_add_contradiction_def
      insert_contradiction_def ap_add_vector_chunk_def ap_embed_vector_chunk_def insert_chunk_def
      index_embedding_def applied_def already_def result_simps
      dest!: vocabulary_claims rfold_frame [where g = g_claims, OF _ participant_same]
      split: option.splits if_splits)

lemma refs_clean_step:
  "supersede_one i g = Inr g' \<Longrightarrow> refs_clean g \<Longrightarrow> refs_clean g'"
  "decay_one ch g = Inr g' \<Longrightarrow> refs_clean g \<Longrightarrow> refs_clean g'"
  by (auto simp: supersede_one_def decay_one_def result_simps intro!: refs_clean_put
      dest: refs_clean_get split: option.splits if_splits)

lemma refs_clean_lifecycle:
  "ap_retire_claim t i reason g = Inr (a, g') \<Longrightarrow> clean reason \<Longrightarrow> refs_clean g \<Longrightarrow> refs_clean g'"
  "ap_merge_source_refs i refs promote g = Inr (a, g') \<Longrightarrow> list_all clean refs \<Longrightarrow> refs_clean g \<Longrightarrow> refs_clean g'"
  by (auto simp: ap_retire_claim_def ap_merge_source_refs_def applied_def already_def Let_def
      result_simps clean_retired intro!: refs_clean_put dest: refs_clean_get split: option.splits if_splits)

lemma refs_clean_fold:
  assumes "rfold f xs g = Inr g'" and "refs_clean g"
    and "\<And>x h h'. f x h = Inr h' \<Longrightarrow> refs_clean h \<Longrightarrow> refs_clean h'"
  shows "refs_clean g'"
  using rfold_invariant [where P = refs_clean, OF assms(1,2)] assms(3) by blast

lemma apply_graph_clean:
  "apply_graph r g = Inr (a, g') \<Longrightarrow> clean_record r \<Longrightarrow> refs_clean g \<Longrightarrow> refs_clean g'"
  by (cases "(r, g)" rule: apply_graph.cases)
    (auto simp: result_simps ap_supersede_claims_def ap_decay_confidence_def applied_def clean_record_def
      dest: refs_clean_frame refs_clean_same refs_clean_add refs_clean_lifecycle
      elim: refs_clean_fold [OF _ _ refs_clean_step(1)] refs_clean_fold [OF _ _ refs_clean_step(2)])

lemma clean_candidate_update [simp]:
  "clean_candidate (k \<lparr> k_status := st, k_promoted_claim_id := c \<rparr>) = clean_candidate k"
  "clean_candidate (k \<lparr> k_status := st, k_rejection_reason := r \<rparr>) = clean_candidate k"
  by (simp_all add: clean_candidate_def)

lemma episodes_clean_put:
  "episodes_clean p \<Longrightarrow> clean_candidate k \<Longrightarrow> episodes_clean (p \<lparr> e_candidates := tbl_put i k (e_candidates p) \<rparr>)"
  "episodes_clean p \<Longrightarrow> clean (e_agent_id e) \<Longrightarrow> episodes_clean (p \<lparr> e_events := tbl_put i e (e_events p) \<rparr>)"
  by (simp_all add: episodes_clean_def rows_all_put)

lemma episodes_clean_get:
  "episodes_clean p \<Longrightarrow> map_of (e_candidates p) i = Some k \<Longrightarrow> clean_candidate k"
  "episodes_clean p \<Longrightarrow> map_of (e_events p) i = Some e \<Longrightarrow> clean (e_agent_id e)"
  unfolding episodes_clean_def by (blast dest: rows_all_get)+

lemma ap_episodes_clean:
  "ap_promote_candidate g i c p = Inr (a, p') \<Longrightarrow> episodes_clean p \<Longrightarrow> episodes_clean p'"
  "ap_reject_candidate i reason p = Inr (a, p') \<Longrightarrow> episodes_clean p \<Longrightarrow> episodes_clean p'"
  "ap_record_event t i session kind payload source agent akind scope p = Inr (a, p') \<Longrightarrow>
    clean agent \<Longrightarrow> episodes_clean p \<Longrightarrow> episodes_clean p'"
  "ap_propose_candidate t i ev subj pred obj scope p = Inr (a, p') \<Longrightarrow>
    clean subj \<and> clean pred \<and> clean obj \<Longrightarrow> episodes_clean p \<Longrightarrow> episodes_clean p'"
  unfolding ap_promote_candidate_def ap_reject_candidate_def ap_record_event_def ap_propose_candidate_def
  by (auto simp: insert_event_def insert_candidate_def applied_def already_def Let_def result_simps
      clean_candidate_def [of "\<lparr> k_id = _, k_event_id = _, k_subject = _, k_predicate = _,
        k_object = _, k_provenance = _, k_confidence = _, k_status = _, k_promoted_claim_id = _,
        k_rejection_reason = _, k_scope = _, kr_created_at = _ \<rparr>"]
      intro!: episodes_clean_put dest: episodes_clean_get split: option.splits if_splits)

lemma apply_episodes_clean:
  "apply_episodes r g p = Inr (a, p') \<Longrightarrow> clean_record r \<Longrightarrow> episodes_clean p \<Longrightarrow> episodes_clean p'"
  by (cases "(r, g, p)" rule: apply_episodes.cases)
    (auto simp: result_simps clean_record_def dest: ap_episodes_clean)

lemma apply_observed_clean:
  "apply_observed r b = Inr (a, b') \<Longrightarrow> clean_record r \<Longrightarrow> observed_clean b \<Longrightarrow> observed_clean b'"
  by (cases "(r, b)" rule: apply_observed.cases)
    (auto simp: ap_record_observation_def insert_observation_def ap_prune_observations_def
      insert_marker_def applied_def already_def result_simps clean_record_def observed_clean_def
      intro!: rows_all_put split: option.splits if_splits)

lemma apply_record_clean:
  "apply_record r d = Inr (a, d') \<Longrightarrow> clean_record r \<Longrightarrow> clean_db d \<Longrightarrow> clean_db d'"
  by (auto simp: apply_record_def result_simps clean_db_def
      dest: apply_graph_clean apply_episodes_clean apply_observed_clean split: series.splits)

subsection \<open>Gated operations\<close>

definition gated :: "'a op \<Rightarrow> bool" where
  "gated m \<longleftrightarrow> (\<forall>s q s'. m s = (q, s') \<longrightarrow> clean_store s \<longrightarrow> clean_store s')"

lemma clean_same: "same_data s s' \<Longrightarrow> clean_store s \<Longrightarrow> clean_store s'"
  by (simp add: same_data_def clean_store_def)

lemma gated_quiet: "quiet m \<Longrightarrow> gated m"
  unfolding quiet_def gated_def by (blast intro: clean_same)

lemma gated_bind [gated_intros]: "gated m \<Longrightarrow> (\<And>x. gated (f x)) \<Longrightarrow> gated (op_bind m f)"
  unfolding gated_def op_bind_cases by blast

lemma gated_then [gated_intros]: "gated m \<Longrightarrow> gated n \<Longrightarrow> gated (op_then m n)"
  unfolding op_then_def by (rule gated_bind)

lemma gated_each [gated_intros]: "(\<And>x. gated (f x)) \<Longrightarrow> gated (op_each f xs)"
  by (induction xs) (simp_all add: gated_bind gated_quiet)

lemma gated_if [gated_intros]: "(b \<Longrightarrow> gated m) \<Longrightarrow> (\<not> b \<Longrightarrow> gated n) \<Longrightarrow> gated (if b then m else n)"
  by simp

lemma gated_read:
  "(\<And>s x. clean_store s \<Longrightarrow> f (st_db s) = Inr x \<Longrightarrow> gated (g x)) \<Longrightarrow> gated (op_bind (op_read f) g)"
  unfolding gated_def op_bind_cases op_basic by metis

lemma gated_guard:
  assumes "quiet m" and n: "\<And>s s'. clean_store s \<Longrightarrow> m s = (Inr (), s') \<Longrightarrow> gated n"
  shows "gated (op_then m n)"
  unfolding gated_def
proof (intro allI impI)
  fix s q s'
  assume "op_then m n s = (q, s')" and s: "clean_store s"
  then consider e where "m s = (Inl e, s')" | t where "m s = (Inr (), t)" "n t = (q, s')"
    by (auto simp: op_then_cases)
  then show "clean_store s'"
  proof cases
    case 1
    with assms(1) s show ?thesis unfolding quiet_def by (blast intro: clean_same)
  next
    case 2
    with assms(1) s have "clean_store t" unfolding quiet_def by (blast intro: clean_same)
    with n [OF s 2(1)] 2(2) show ?thesis unfolding gated_def by blast
  qed
qed

lemma gated_filter:
  "(clean c \<Longrightarrow> gated n) \<Longrightarrow> gated (op_then (privacy_filter_recording c) n)"
  by (rule gated_guard) (simp_all add: privacy_filter_recording_ok privacy_filter_clean)

lemma gated_path: "gated n \<Longrightarrow> gated (op_then (privacy_filter_path_recording p) n)"
  by (rule gated_then [OF gated_quiet [OF quiet_recording(3)]])

lemma clean_push: "clean_store s \<Longrightarrow> clean_record r \<Longrightarrow> clean_store (push_log k r s)"
  by (simp add: clean_store_def)

lemma gated_append: "clean_record r \<Longrightarrow> gated (append_jsonl ev k r)"
  unfolding gated_def by (auto elim!: append_cases intro: clean_push)

lemma clean_applied:
  "clean_store s \<Longrightarrow> project r (st_db s) = Inr d \<Longrightarrow> clean_record r \<Longrightarrow> clean_store (s \<lparr> st_db := d \<rparr>)"
  using apply_record_clean by (auto simp: project_eq clean_store_def)

lemma gated_apply: "clean_record r \<Longrightarrow> gated (apply_op r)"
  unfolding gated_def by (auto elim!: apply_op_cases intro: clean_applied)

lemma gated_logged: "clean_record r \<Longrightarrow> gated (logged ev k r)"
  unfolding logged_def by (intro gated_then gated_append gated_apply)

lemma gated_transaction [gated_intros]: "gated m \<Longrightarrow> gated (transaction ev m)"
  unfolding gated_def by (auto elim!: transaction_cases simp: clean_store_def)

lemma gated_mint [gated_intros]: "(\<And>i. clean_record (rec i)) \<Longrightarrow> gated (mint_and_log ev k rec)"
  unfolding mint_and_log_def by (intro gated_intros gated_logged gated_quiet quiet_basic)

lemmas gated_atoms [gated_intros] =
  quiet_basic [THEN gated_quiet] quiet_recording [THEN gated_quiet] quiet_paths [THEN gated_quiet]

lemma clean_no_texts [simp]:
  "clean_record (SupersedeClaims t ids)" "clean_record (DecayConfidence t chs)"
  "clean_record (PromoteCandidateClaim t i c d)" "clean_record (EmbedVectorChunk t i e)"
  by (simp_all add: clean_record_def)

subsection \<open>The operations\<close>

lemma claim_gate_clean:
  "validate_claim_write w s = (Inr (), s') \<Longrightarrow> clean_record (claim_record now i w)"
proof -
  assume "validate_claim_write w s = (Inr (), s')"
  then have "privacy_filter (claim_content w) = Inr ()"
    by (simp add: validate_claim_write_def op_then_cases op_basic privacy_filter_recording_ok
        del: privacy_paths_recording.simps)
  then have "list_all clean [cw_agent_id w, agent_kind_as_str (cw_agent_kind w), cw_subject w,
      cw_predicate w, cw_object w, cw_source w]"
    unfolding claim_content_def by (rule filtered_pieces)
  then show ?thesis by (simp add: claim_record_def clean_record_def)
qed

lemma gated_insert [gated_intros]: "gated (insert_claim_op ev w)" "gated (add_claim ev w)"
proof -
  show g: "gated (insert_claim_op ev w)"
    unfolding insert_claim_op_def
    by (rule gated_guard) (simp, intro gated_mint, erule claim_gate_clean)
  then show "gated (add_claim ev w)" by (simp add: add_claim_def)
qed

lemma gated_notes [gated_intros]:
  "gated (add_contradiction ev i reason)" "gated (retire_claim ev i reason)"
  "gated (contradict ev1 ev2 i reason n)"
proof -
  have log: "clean reason \<Longrightarrow> gated (log_contradiction ev i reason m)" for ev m
    unfolding log_contradiction_def by (intro gated_intros) (simp add: clean_record_def)
  show "gated (add_contradiction ev i reason)"
    unfolding add_contradiction_def
    by (intro gated_then gated_filter gated_quiet quiet_basic quiet_claim_gate log)
  show "gated (retire_claim ev i reason)"
    unfolding retire_claim_def
    by (intro gated_then gated_filter gated_transaction gated_logged gated_quiet quiet_basic)
      (simp add: clean_record_def)
  have add: "gated (case n of None \<Rightarrow> op_ret None | Some w \<Rightarrow> op_bind (add_claim ev1 w) (\<lambda>i. op_ret (Some i)))"
    by (cases n) (auto intro!: gated_intros)
  show "gated (contradict ev1 ev2 i reason n)"
    unfolding contradict_def
    by (intro gated_then gated_filter gated_bind gated_quiet quiet_basic quiet_claim_gate log add)
qed

lemma gated_decay [gated_intros]:
  "gated (log_decay ev f)" "gated (decay_contradicted_confidence ev)"
  "gated (decay_inferred_confidence_at exp64 ev now_ts tau)"
proof -
  show d: "gated (log_decay ev f)" for f
    unfolding log_decay_def by (intro gated_intros gated_logged; simp)
  then show "gated (decay_contradicted_confidence ev)"
    "gated (decay_inferred_confidence_at exp64 ev now_ts tau)"
    by (auto simp: decay_contradicted_confidence_def decay_inferred_confidence_at_def gated_atoms
        split: f64.split)
qed

lemma merged_refs_clean: "clean_store s \<Longrightarrow> list_all clean (merged_refs (db_graph (st_db s)) key)"
  by (force simp: merged_refs_def same_spo_def list_all_iff clean_store_def clean_db_def refs_clean_def
      rows_all_def)

lemma gated_consolidate [gated_intros]: "gated (consolidate_report ev1 ev2 ev3)"
proof -
  have g: "gated (merge_group ev p)" for ev p
    unfolding merge_group_def
    by (cases p)
      (auto intro!: gated_read gated_bind gated_logged gated_atoms merged_refs_clean simp: clean_record_def)
  have m: "gated (merge_duplicate_source_refs ev)" for ev
    unfolding merge_duplicate_source_refs_def by (intro gated_intros g)
  have "gated (supersede_claim_ids ev ids)" for ev ids
    unfolding supersede_claim_ids_def by (intro gated_intros gated_logged; simp)
  then show ?thesis
    unfolding consolidate_report_def by (intro gated_intros m)
qed

lemma gated_ingest [gated_intros]:
  "gated (ingest_extractor_facts evs ev1 ev2 ev3 agent kind source scope facts)"
proof -
  have "gated (op_each validate_claim_write ws)" for ws
    by (intro gated_quiet quiet_each) simp
  then show ?thesis
    unfolding ingest_extractor_facts_def Let_def
    by (intro gated_then gated_bind gated_atoms gated_consolidate gated_each) (auto intro: gated_insert gated_quiet)
qed

lemma gated_hyperedge [gated_intros]: "gated (add_hyperedge ev h)"
  unfolding add_hyperedge_def
proof (rule gated_guard)
  fix s s'
  assume "validate_hyperedge_write h s = (Inr (), s')"
  then have "list_all clean ([hi_predicate h, provenance_as_str (hi_provenance h), show_f64 (hi_confidence h)]
      @ hi_source_refs h @ concat (map (\<lambda>p. [pi_role p, pi_entity p]) (hi_participants h)))"
    by (intro filtered_pieces)
      (simp add: validate_hyperedge_write_def op_then_cases op_basic privacy_filter_recording_ok
        hyperedge_content_def del: privacy_paths_recording.simps)
  then have "clean_record (hyperedge_record (en_now ev) i h)" for i
    by (auto simp: clean_record_def hyperedge_record_def list_all_iff)
  then show "gated (mint_and_log ev Log (\<lambda>i. hyperedge_record (en_now ev) i h))" by (rule gated_mint)
qed simp

lemma gated_chunks [gated_intros]:
  "gated (add_vector_chunk ev c txt model)" "gated (add_vector_chunk_with_embedding ev c txt model e)"
  "gated (backfill_vector_embeddings embedder evs)"
proof -
  have ins: "clean txt \<Longrightarrow> gated (insert_vector_chunk ev c txt model emb)" for emb
    unfolding insert_vector_chunk_def by (intro gated_mint) (simp add: clean_record_def)
  show "gated (add_vector_chunk ev c txt model)" "gated (add_vector_chunk_with_embedding ev c txt model e)"
    unfolding add_vector_chunk_def add_vector_chunk_with_embedding_def
    by (intro gated_path gated_filter ins gated_then gated_quiet quiet_basic quiet_claim_gate; assumption)+
  show "gated (backfill_vector_embeddings embedder evs)"
    unfolding backfill_vector_embeddings_def backfill_one_def
    by (intro gated_intros) (auto intro!: gated_intros gated_logged)
qed

lemma gated_event [gated_intros]: "gated (record_event ev w)"
proof -
  have "privacy_filter (event_content w) = Inr () \<Longrightarrow> clean_record (event_record now i w)" for now i
    using filtered_pieces [of "[ew_agent_id w, agent_kind_as_str (ew_agent_kind w), ew_session_id w,
        ew_kind w, ew_payload w, ew_source w]" "()"]
    by (simp add: event_content_def event_record_def clean_record_def del: join.simps)
  then have "privacy_filter (event_content w) = Inr () \<Longrightarrow>
      gated (mint_and_log ev Events (\<lambda>i. event_record (en_now ev) i w))"
    by (intro gated_mint)
  then show ?thesis
    unfolding record_event_def
    by (intro gated_then [OF gated_atoms(2)] gated_guard [OF quiet_recording(2)] gated_path)
      (simp add: privacy_filter_recording_ok)
qed

lemma source_event_clean:
  assumes "clean_store s" and "rmap (source_event session (st_db s)) ids = Inr events"
  shows "e \<in> set events \<Longrightarrow> clean (e_agent_id e)"
  using assms(2)
proof (induction ids arbitrary: events)
  case (Cons i ids)
  have "clean (e_agent_id e1)" if "source_event session (st_db s) i = Inr e1" for e1
    using that assms(1) episodes_clean_get(2)
    by (auto simp: source_event_def get_event_def parse_event_def result_simps clean_store_def
        clean_db_def split: if_splits)
  with Cons show ?case by (auto simp: result_simps)
qed simp

lemma gated_observation [gated_intros]: "gated (record_observation ev w)"
proof -
  have log: "gated (log_observation ev w i events)"
    if "list_all clean [ow_session_id w, ow_content w, ow_derivation w]" "clean (e_agent_id (hd events))"
    for i events
  proof -
    have "gated (logged ev Observations (observation_record (en_now ev) i w (hd events)))"
      using that by (intro gated_logged) (simp add: clean_record_def observation_record_def)
    then show ?thesis
      unfolding log_observation_def
      by (intro gated_bind gated_atoms) (auto intro!: gated_intros split: option.split)
  qed
  show ?thesis
  proof (cases "ow_source_event_ids w = []")
    case True
    then have "observation_fields_ok w \<noteq> Inr u" for u
      by (auto simp: observation_fields_ok_def result_simps)
    then show ?thesis
      unfolding record_observation_def
      by (intro gated_guard [OF quiet_basic(2)]) (auto simp: op_basic)
  next
    case False
    have "gated (op_bind (op_read (\<lambda>d. rmap (source_event (ow_session_id w) d) (ow_source_event_ids w)))
        (\<lambda>events. log_observation ev w i events))"
      if "list_all clean [ow_session_id w, ow_content w, ow_derivation w]" for i
    proof (rule gated_read)
      fix s events
      assume s: "clean_store s" "rmap (source_event (ow_session_id w) (st_db s)) (ow_source_event_ids w) = Inr events"
      from False rmap_length [OF s(2)] have "hd events \<in> set events" by (intro hd_in_set) auto
      with source_event_clean [OF s] that show "gated (log_observation ev w i events)" by (intro log) auto
    qed
    then show ?thesis
      unfolding record_observation_def
      by (intro gated_then [OF gated_atoms(2)] gated_guard [OF quiet_recording(2)] gated_path)
        (metis filtered_pieces privacy_filter_recording_ok(1))
  qed
qed

lemma gated_drafts: "gated (propose_drafts evs session n xs seen)"
  by (induction xs arbitrary: n seen)
    (auto simp: Let_def split: prod.split intro!: gated_intros)

lemma gated_prune [gated_intros]: "gated (prune_observations ev session keep)"
  unfolding prune_observations_def
proof (rule gated_read)
  fix s ids
  assume s: "clean_store s" and ids: "prune_choice session keep (st_db s) = Inr ids"
  have "clean session" if "ids \<noteq> []"
  proof -
    from ids that obtain obs where "list_observations_for_session session (st_db s) = Inr obs"
        "\<not> length obs \<le> keep"
      by (auto simp: prune_choice_def result_simps split: if_splits)
    then have "session_observations session (st_db s) \<noteq> []"
      by (auto simp: list_observations_for_session_def result_simps)
    then obtain o1 where "o1 \<in> set (session_observations session (st_db s))"
      by (meson list.set_sel(1))
    then have "o1 \<in> set (tbl_rows (o_observations (db_observed (st_db s))))" "o_session_id o1 = session"
      by (auto simp: session_observations_def)
    with s show ?thesis
      by (auto simp: clean_store_def clean_db_def observed_clean_def rows_all_def)
  qed
  then show "gated (if ids = [] then op_ret 0
     else op_then (logged ev Observations (PruneObservations (en_now ev)
               (observation_prune_marker_id session ids (en_now ev)) session ids))
          (op_ret (length ids)))"
    by (auto intro!: gated_intros gated_logged simp: clean_record_def)
qed

lemma gated_observer [gated_intros]:
  "gated (propose_observations_from_observer observe evs session)"
  unfolding propose_observations_from_observer_def by (intro gated_intros gated_drafts)

lemma gated_propose [gated_intros]:
  "gated (propose_candidate_claim ev w)" "gated (propose_claims_from_extractor extract evs session)"
proof -
  show p: "gated (propose_candidate_claim ev w)" for ev w
    unfolding propose_candidate_claim_def
  proof (rule gated_guard)
    show "quiet (candidate_gate w)" unfolding candidate_gate_def by (intro quiet_intros)
    fix s s'
    assume "candidate_gate w s = (Inr (), s')"
    then have "privacy_filter (join '' '' [kw_subject w, kw_predicate w, kw_object w]) = Inr ()"
      by (simp add: candidate_gate_def op_then_cases op_basic privacy_filter_recording_ok
          del: privacy_paths_recording.simps)
    then show "gated (mint_and_log ev Events (\<lambda>i. candidate_record (en_now ev) i w))"
      using filtered_pieces by (intro gated_mint) (force simp: candidate_record_def clean_record_def simp del: join.simps)
  qed
  show "gated (propose_claims_from_extractor extract evs session)"
    unfolding propose_claims_from_extractor_def by (intro gated_intros) (auto intro: p)
qed

lemma get_candidate_row:
  assumes "get_candidate_claim i d = Inr k"
  shows "map_of (e_candidates (db_episodes d)) i = Some k"
proof -
  from assms obtain k1 where "map_of (e_candidates (db_episodes d)) i = Some k1" "parse_candidate k1 = Inr k"
    by (auto simp: get_candidate_claim_def result_simps)
  then show ?thesis
    by (cases "provenance_from_str (k_provenance k1)")
      (simp_all add: parse_candidate_def conversion_failure_def)
qed

lemma gated_promote [gated_intros]: "gated (promote_candidate_claim_inner ev i attribution dec)"
  unfolding promote_candidate_claim_inner_def
proof (rule gated_read)
  fix s k
  assume s: "clean_store s" and "get_candidate_claim i (st_db s) = Inr k"
  then have k: "clean_candidate k"
    unfolding clean_store_def clean_db_def by (blast intro: episodes_clean_get(1) get_candidate_row)
  have log: "gated (log_promotion ev (promotion_claim now j k e prov conf) (PromoteCandidateClaim t i j dec))"
    if "clean (e_agent_id e)" for now j e prov conf t
  proof -
    have "clean_record (promotion_claim now j k e prov conf)"
      using k that clean_event_ref by (simp add: clean_record_def promotion_claim_def clean_candidate_def)
    then show ?thesis
      unfolding log_promotion_def by (intro gated_then gated_append gated_apply) simp_all
  qed
  have event: "clean (e_agent_id e)" if "clean_store s" "get_event (k_event_id k) (st_db s) = Inr e" for s e
    using that episodes_clean_get(2)
    by (auto simp: get_event_def parse_event_def result_simps clean_store_def clean_db_def)
  show "gated (if k_status k = ''REJECTED''
     then op_of (Inl (EInvalidCandidateStatus i (k_status k)))
     else case k_promoted_claim_id k of
       Some claim_id \<Rightarrow> op_ret claim_id
     | None \<Rightarrow>
         op_bind (op_read (get_event (k_event_id k))) (\<lambda>e.
         op_bind (op_of (case attribution of Some a \<Rightarrow> Inr a
                         | None \<Rightarrow> rbind (provenance_from_str (k_provenance k)) (\<lambda>p. Inr (p, k_confidence k)))) (\<lambda>(prov, conf).
         op_then (op_read (\<lambda>d. validate_ontology (db_graph d) (k_predicate k) prov))
         (transaction ev
           (op_bind (mint_op ev) (\<lambda>ia.
            op_then (log_promotion ev (promotion_claim (en_now ev) ia k e prov conf)
                       (PromoteCandidateClaim (en_now ev) i ia dec))
                    (op_ret ia)))))))"
    by (auto intro!: gated_read gated_bind gated_then gated_transaction gated_atoms log event
        split: option.split)
qed

lemma gated_reject [gated_intros]: "gated (reject_candidate_claim_inner ev i reason dec)"
proof -
  have "clean reason \<Longrightarrow> gated (logged ev Events (RejectCandidateClaim t i reason dec))" for t
    by (intro gated_logged) (simp add: clean_record_def)
  then show ?thesis
    unfolding reject_candidate_claim_inner_def
    by (intro gated_bind gated_if gated_then [OF gated_atoms(2)] gated_filter gated_transaction gated_atoms)
      (auto intro!: gated_atoms split: option.split)
qed

subsection \<open>Every history\<close>

lemma gated_call: "clean_store s \<Longrightarrow> gated m \<Longrightarrow> m s = (q, s') \<Longrightarrow> clean_store s'"
  unfolding gated_def by blast

lemma store_call_clean:
  assumes "store_call s failed s'" and "clean_store s"
  shows "clean_store s'"
  using assms(1)
  by cases (rule gated_call [OF assms(2)], rule gated_intros, assumption)+

lemma fresh_clean: "clean_store fresh_store"
proof -
  have "log_of k fresh_store = []" for k by (cases k) (simp_all add: fresh_store_def)
  then show ?thesis
    by (simp add: clean_store_def clean_db_def refs_clean_def episodes_clean_def observed_clean_def
        rows_all_def fresh_store_def init_db_def init_tables)
qed

lemma history_clean: "store_history s \<Longrightarrow> clean_store s"
  by (induction rule: store_history.induct) (auto intro: fresh_clean dest: store_call_clean)

subsection \<open>What a secret is\<close>

text \<open>
  A token stands in a text between characters that can not belong to it, or at an end of the text.
  \<open>holds_secret\<close> lists the secrets the filter is there for, format by format: the headers of private
  keys; the tokens of services, known by prefix and length; JSON Web Tokens, three parts joined by
  dots; AWS access keys; and any token of more than 20 letters and digits with an entropy above 4.5
  bits.
\<close>

definition delimited :: "(char \<Rightarrow> bool) \<Rightarrow> str \<Rightarrow> str \<Rightarrow> bool" where
  "delimited boundary tok t \<longleftrightarrow>
     (\<forall>c \<in> set tok. \<not> boundary c)
     \<and> (\<exists>a b. t = a @ tok @ b \<and> (a = [] \<or> boundary (last a)) \<and> (b = [] \<or> boundary (hd b)))"

definition jwt_shape :: "str \<Rightarrow> bool" where
  "jwt_shape tok \<longleftrightarrow>
     (\<exists>header claims signature. tok = header @ ''.'' @ claims @ ''.'' @ signature
        \<and> CHR ''.'' \<notin> set (header @ claims @ signature) \<and> prefix ''eyJ'' header
        \<and> 10 \<le> length header \<and> 10 \<le> length claims \<and> 10 \<le> length signature)"

definition aws_key_shape :: "str \<Rightarrow> bool" where
  "aws_key_shape tok \<longleftrightarrow>
     length tok = 20 \<and> prefix ''AKIA'' tok \<and> (\<forall>c \<in> set tok. is_ascii_uppercase c \<or> is_ascii_digit c)"

definition key_headers :: "str list" where
  "key_headers =
     [''BEGIN PRIVATE KEY'', ''BEGIN OPENSSH PRIVATE KEY'', ''BEGIN ENCRYPTED PRIVATE KEY'',
      ''BEGIN PGP PRIVATE KEY BLOCK'', ''BEGIN RSA PRIVATE KEY'', ''BEGIN EC PRIVATE KEY'',
      ''BEGIN DSA PRIVATE KEY'', ''BEGIN SSH2 ENCRYPTED PRIVATE KEY'',
      ''PuTTY-User-Key-File-'', ''AGE-SECRET-KEY-'']"

definition holds_secret :: "str \<Rightarrow> bool" where
  "holds_secret t \<longleftrightarrow>
     (\<exists>h \<in> set key_headers. \<exists>a b. t = a @ h @ b)
     \<or> (\<exists>tok. delimited secret_token_boundary tok t
          \<and> (\<exists>(pre, n) \<in> set secret_prefixes. prefix pre tok \<and> n \<le> length tok))
     \<or> (\<exists>tok. delimited jwt_token_boundary tok t \<and> jwt_shape tok)
     \<or> (\<exists>tok. delimited (\<lambda>c. \<not> is_ascii_alphanumeric c) tok t
          \<and> (aws_key_shape tok \<or> 20 < length tok \<and> 9 / 2 < shannon_entropy tok))"

lemma delimited_token: "delimited boundary tok t \<Longrightarrow> tok \<in> set (split_on boundary t)"
  by (auto simp: delimited_def intro: split_on_token)

lemma jwt_shape_detected: "jwt_shape tok \<Longrightarrow> is_jwt tok"
proof -
  assume "jwt_shape tok"
  then obtain h c s where t: "tok = h @ CHR ''.'' # c @ CHR ''.'' # s" "CHR ''.'' \<notin> set (h @ c @ s)"
    and rest: "prefix ''eyJ'' h" "10 \<le> length h" "10 \<le> length c" "10 \<le> length s"
    by (auto simp: jwt_shape_def)
  have "split_on ((=) (CHR ''.'')) x = [x]" if "x = h \<or> x = c \<or> x = s" for x
    using that t(2) by (intro split_on_no_sep) auto
  then have "split_on ((=) (CHR ''.'')) tok = [h, c, s]"
    unfolding t(1) by (simp add: split_on_append_sep)
  with rest show "is_jwt tok" by (simp add: is_jwt_def)
qed

lemma clean_no_secret: "clean t \<Longrightarrow> \<not> holds_secret t"
proof -
  assume clean: "clean t"
  have "set key_headers = set private_key_markers"
    by (simp add: key_headers_def private_key_markers_def)
  moreover have "is_aws_access_key tok" if "aws_key_shape tok" for tok
    using that by (simp add: aws_key_shape_def is_aws_access_key_def list_all_iff)
  moreover have "high_entropy tok" if "20 < length tok" "9 / 2 < shannon_entropy tok" for tok
    using that by (simp add: high_entropy_def)
  ultimately show "\<not> holds_secret t"
    using clean delimited_token jwt_shape_detected unfolding holds_secret_def
    by (auto simp: clean_def clean_word_def clean_alnum_def alnum_tokens_def list_all_iff contains_sub_iff)
      (blast dest: delimited_token)+
qed

text \<open>
  C2. No secret is ever written to a log: after any sequence of calls, in any order, with any
  arguments, any clock and any disk failures, no filtered text of any line of any log holds a secret
  in one of the formats the filter knows. This covers the text that later calls copy out of the
  projection: promoted candidates, merged source references, agents of observed events.
\<close>

theorem no_secret_in_logs:
  assumes "store_history s" and "r \<in> set (log_of k s)" and "t \<in> set (record_texts r)"
  shows "\<not> holds_secret t"
proof (rule clean_no_secret)
  show "clean t"
    using history_clean [OF assms(1)] assms(2,3)
    by (auto simp: clean_store_def clean_record_def list_all_iff)
qed

definition token_event :: event_write where
  "token_event = event_write_new ''s1'' ''user_message'' ''use sk-short here'' ''chat''"

theorem no_secret_in_logs_witness:
  "\<exists>s. store_history s \<and> (\<exists>r. st_events s = [r] \<and> ''use sk-short here'' \<in> set (record_texts r))
    \<and> \<not> holds_secret ''use sk-short here''"
proof -
  obtain s where s: "s = snd (record_event sample_env token_event fresh_store)" by blast
  have hist: "store_history s"
    unfolding s using store_history.call [OF store_history.start store_call.intros(13)]
    by (metis prod.collapse)
  have "map record_texts (st_events (snd (record_event sample_env token_event fresh_store)))
      = [[''s1'', ''user_message'', ''use sk-short here'', ''chat'', ''local'']]"
    by code_simp
  then obtain r where r: "st_events s = [r]"
      "record_texts r = [''s1'', ''user_message'', ''use sk-short here'', ''chat'', ''local'']"
    unfolding s [symmetric] by (auto simp: map_eq_Cons_conv)
  then have "r \<in> set (log_of Events s)" "''use sk-short here'' \<in> set (record_texts r)" by simp_all
  with no_secret_in_logs [OF hist this] hist r(1) show ?thesis by blast
qed

end
