(* ===== verification/Store_Life.thy ===== *)
theory Store_Life
  imports Store_Relation Privacy_Flow
begin

section \<open>What no call ever changes\<close>

text \<open>
  Facts about single records, lifted to every sequence of calls through \<open>derived_invariant\<close>:
  the episodic rows are append-only, a candidate is decided at most once, and a store that was
  never derailed holds in its projection what its logs say.
\<close>

subsection \<open>Rows of the episodic tables\<close>

definition rows_kept :: "('v \<Rightarrow> 'v \<Rightarrow> bool) \<Rightarrow> ('k, 'v) table \<Rightarrow> ('k, 'v) table \<Rightarrow> bool" where
  "rows_kept R t t' \<longleftrightarrow> (\<forall>i v. map_of t i = Some v \<longrightarrow> (\<exists>v'. map_of t' i = Some v' \<and> R v v'))"

lemma rows_kept_refl: "(\<And>v. R v v) \<Longrightarrow> rows_kept R t t"
  by (auto simp: rows_kept_def)

lemma rows_kept_trans:
  "rows_kept R t u \<Longrightarrow> rows_kept R u w \<Longrightarrow> (\<And>a b c. R a b \<Longrightarrow> R b c \<Longrightarrow> R a c) \<Longrightarrow> rows_kept R t w"
  unfolding rows_kept_def by blast

lemma rows_kept_new: "map_of t i = None \<Longrightarrow> (\<And>v. R v v) \<Longrightarrow> rows_kept R t (tbl_put i w t)"
  by (auto simp: rows_kept_def map_of_tbl_put)

lemma rows_kept_put: "map_of t i = Some v \<Longrightarrow> R v w \<Longrightarrow> (\<And>v. R v v) \<Longrightarrow> rows_kept R t (tbl_put i w t)"
  by (auto simp: rows_kept_def map_of_tbl_put)

definition candidate_kept :: "candidate_row \<Rightarrow> candidate_row \<Rightarrow> bool" where
  "candidate_kept k k' \<longleftrightarrow>
     k' = k
     \<or> k_status k = ''PENDING''
       \<and> ((\<exists>c. k' = k \<lparr> k_status := ''PROMOTED'', k_promoted_claim_id := Some c \<rparr>)
          \<or> (\<exists>r. k' = k \<lparr> k_status := ''REJECTED'', k_rejection_reason := Some r \<rparr>))"

lemma candidate_kept_refl: "candidate_kept k k"
  by (simp add: candidate_kept_def)

lemma candidate_kept_promote:
  "k_status k = ''PENDING'' \<Longrightarrow>
    candidate_kept k (k \<lparr> k_status := ''PROMOTED'', k_promoted_claim_id := Some c \<rparr>)"
  by (auto simp: candidate_kept_def)

lemma candidate_kept_reject:
  "k_status k = ''PENDING'' \<Longrightarrow>
    candidate_kept k (k \<lparr> k_status := ''REJECTED'', k_rejection_reason := Some r \<rparr>)"
  by (auto simp: candidate_kept_def)

lemma candidate_kept_trans: "candidate_kept a b \<Longrightarrow> candidate_kept b c \<Longrightarrow> candidate_kept a c"
  by (auto simp: candidate_kept_def)

definition episodic_kept :: "db \<Rightarrow> db \<Rightarrow> bool" where
  "episodic_kept d d' \<longleftrightarrow>
     rows_kept (=) (e_events (db_episodes d)) (e_events (db_episodes d'))
     \<and> rows_kept candidate_kept (e_candidates (db_episodes d)) (e_candidates (db_episodes d'))
     \<and> rows_kept (=) (o_observations (db_observed d)) (o_observations (db_observed d'))"

lemma episodic_kept_refl: "episodic_kept d d"
  by (simp add: episodic_kept_def rows_kept_refl candidate_kept_refl)

lemma episodic_kept_trans: "episodic_kept d e \<Longrightarrow> episodic_kept e f \<Longrightarrow> episodic_kept d f"
  unfolding episodic_kept_def
  by (blast intro: rows_kept_trans [where R = "(=)"] rows_kept_trans [where R = candidate_kept]
      candidate_kept_trans trans)

lemma episodes_step:
  assumes "apply_episodes r g p = Inr (a, p')"
  shows "rows_kept (=) (e_events p) (e_events p') \<and> rows_kept candidate_kept (e_candidates p) (e_candidates p')"
  using assms
  by (cases "(r, g, p)" rule: apply_episodes.cases)
    (auto simp: ap_record_event_def insert_event_def ap_propose_candidate_def insert_candidate_def
      ap_promote_candidate_def ap_reject_candidate_def applied_def already_def Let_def result_simps
      rows_kept_refl candidate_kept_refl
      intro: rows_kept_new [where R = "(=)", OF _ refl]
        rows_kept_new [where R = candidate_kept, OF _ candidate_kept_refl]
        rows_kept_put [where R = candidate_kept, OF _ candidate_kept_promote candidate_kept_refl]
        rows_kept_put [where R = candidate_kept, OF _ candidate_kept_reject candidate_kept_refl]
      split: option.splits if_splits)

lemma observed_step:
  "apply_observed r b = Inr (a, b') \<Longrightarrow> rows_kept (=) (o_observations b) (o_observations b')"
  by (cases "(r, b)" rule: apply_observed.cases)
    (auto simp: ap_record_observation_def insert_observation_def ap_prune_observations_def
      insert_marker_def applied_def already_def result_simps rows_kept_refl intro!: rows_kept_new
      split: option.splits if_splits)

lemma apply_record_episodic: "apply_record r d = Inr (a, d') \<Longrightarrow> episodic_kept d d'"
  by (auto simp: apply_record_def result_simps episodic_kept_def rows_kept_refl candidate_kept_refl
      dest: episodes_step observed_step split: series.splits)

lemma calls_episodic: "store_calls s s' \<Longrightarrow> episodic_kept (st_db s) (st_db s')"
  by (rule derived_invariant [OF calls_derived])
    (auto intro: episodic_kept_refl episodic_kept_trans apply_record_episodic)

subsection \<open>A sample session\<close>

definition event_store :: store where
  "event_store = snd (record_event sample_env token_event fresh_store)"

definition candidate_store :: store where
  "candidate_store = snd (propose_candidate_claim (good_env 1735689601 1735689601000)
     (candidate_write_new 129525350400005 ''aver'' ''uses'' ''SQLite'') event_store)"

definition rejected_store :: store where
  "rejected_store = snd (reject_candidate_claim_inner (good_env 1735689602 1735689602000)
     129525354496005 ''duplicate'' None candidate_store)"

lemma sample_calls: "store_calls event_store candidate_store" "store_calls candidate_store rejected_store"
proof -
  show "store_calls event_store candidate_store"
    unfolding candidate_store_def
    by (rule store_calls.more [OF store_calls.none store_call.intros(17) [OF prod.collapse [symmetric]]])
  show "store_calls candidate_store rejected_store"
    unfolding rejected_store_def
    by (rule store_calls.more [OF store_calls.none store_call.intros(20) [OF prod.collapse [symmetric]]])
qed

lemma event_store_row: "map fst (e_events (db_episodes (st_db event_store))) = [129525350400005]"
  unfolding event_store_def by code_simp

lemma candidate_store_row: "map fst (e_candidates (db_episodes (st_db candidate_store))) = [129525354496005]"
  unfolding candidate_store_def event_store_def by code_simp

lemma rejected_store_row:
  "map k_status (tbl_rows (e_candidates (db_episodes (st_db rejected_store)))) = [''REJECTED'']"
  unfolding rejected_store_def candidate_store_def event_store_def by code_simp

text \<open>
  The episodic record is append-only: whatever calls follow, in any order and with any
  failures, every event and every observation is still stored, byte for byte the same.
\<close>

theorem episodic_rows_immutable:
  assumes "store_calls s s'"
  shows "rows_kept (=) (e_events (db_episodes (st_db s))) (e_events (db_episodes (st_db s')))
    \<and> rows_kept (=) (o_observations (db_observed (st_db s))) (o_observations (db_observed (st_db s')))"
  using calls_episodic [OF assms] by (auto simp: episodic_kept_def)

theorem episodic_rows_immutable_witness:
  "rows_kept (=) (e_events (db_episodes (st_db event_store)))
     (e_events (db_episodes (st_db candidate_store)))
   \<and> map fst (e_events (db_episodes (st_db event_store))) = [129525350400005]"
  using episodic_rows_immutable [OF sample_calls(1)] event_store_row by blast

text \<open>
  C27. A candidate claim is decided at most once: it keeps its id, event and content for ever,
  and either stays as it is or goes from PENDING to PROMOTED, with a claim id, or from PENDING
  to REJECTED, with a reason; after that nothing about it changes.
\<close>

theorem candidate_decided_once:
  assumes "store_calls s s'"
  shows "rows_kept candidate_kept (e_candidates (db_episodes (st_db s)))
    (e_candidates (db_episodes (st_db s')))"
  using calls_episodic [OF assms] by (auto simp: episodic_kept_def)

theorem candidate_decided_once_witness:
  "rows_kept candidate_kept (e_candidates (db_episodes (st_db candidate_store)))
     (e_candidates (db_episodes (st_db rejected_store)))
   \<and> map fst (e_candidates (db_episodes (st_db candidate_store))) = [129525354496005]
   \<and> map k_status (tbl_rows (e_candidates (db_episodes (st_db rejected_store)))) = [''REJECTED'']"
  using candidate_decided_once [OF sample_calls(2)] candidate_store_row rejected_store_row by blast

end
