(* ===== verification/Log_Poison.thy ===== *)
theory Log_Poison
  imports Store_Life
begin

section \<open>Calls that poison the log\<close>

text \<open>
  A call that validates less than the schema demands appends its line and then fails. The line
  stays: the log no longer replays. For claims, \<open>Store_Props\<close> leaves only the clock, a taken id and
  the disk as causes; here is a call for which the arguments are the cause.
\<close>

definition all_logs :: "store \<Rightarrow> log_record list" where
  "all_logs s = st_log s @ st_events s @ st_observations s"

lemma poisoned_observations:
  assumes "in_sync s" and "apply_record r (st_db s) = Inl e"
  shows "rfold project (all_logs (push_log Observations r s)) init_db = Inl e"
proof -
  have "project r (st_db s) = Inl e" using assms(2) by (simp add: project_def)
  moreover have "all_logs (push_log Observations r s) = all_logs s @ [r]"
    by (simp add: all_logs_def push_log.simps)
  ultimately show ?thesis
    using in_sync_replays [OF assms(1)] by (simp add: rfold_snoc flip: all_logs_def)
qed

text \<open>The observations table is built from the observations log alone.\<close>

lemma project_observed:
  "project r d = Inr d' \<Longrightarrow> series_of r \<noteq> Observations \<Longrightarrow> db_observed d' = db_observed d"
  "project r d = Inr d' \<Longrightarrow> project r f = Inr f' \<Longrightarrow> db_observed d = db_observed f \<Longrightarrow>
     series_of r = Observations \<Longrightarrow> db_observed d' = db_observed f'"
  by (auto simp: project_eq apply_record_def result_simps split: series.splits)

lemma observed_frame:
  "rfold project rs d = Inr d' \<Longrightarrow> \<forall>r \<in> set rs. series_of r \<noteq> Observations \<Longrightarrow> db_observed d' = db_observed d"
  by (induction rs arbitrary: d) (auto simp: result_simps dest: project_observed(1))

lemma observed_run:
  "rfold project rs d = Inr d' \<Longrightarrow> rfold project rs f = Inr f' \<Longrightarrow> db_observed d = db_observed f \<Longrightarrow>
     \<forall>r \<in> set rs. series_of r = Observations \<Longrightarrow> db_observed d' = db_observed f'"
proof (induction rs arbitrary: d f)
  case (Cons r rs)
  then obtain d1 f1 where "project r d = Inr d1" "rfold project rs d1 = Inr d'"
    "project r f = Inr f1" "rfold project rs f1 = Inr f'" by (auto simp: result_simps)
  with Cons project_observed(2) show ?case by (metis list.set_intros(1,2))
qed simp

lemma in_sync_filed: "in_sync s \<Longrightarrow> r \<in> set (log_of k s) \<Longrightarrow> series_of r = k"
  unfolding in_sync_def by force

lemma poisoned_for_good:
  assumes "in_sync s" and "series_of r = Observations" and "apply_record r (st_db s) = Inl e"
    and "store_calls (push_log Observations r s) t"
  shows "\<not> is_ok (rfold project (all_logs t) init_db)"
proof
  assume "is_ok (rfold project (all_logs t) init_db)"
  then obtain d where d: "rfold project (all_logs t) init_db = Inr d" by (auto simp: is_ok_iff)
  have filed: "\<exists>ls. log_of k t = log_of k (push_log Observations r s) @ ls \<and> (\<forall>r \<in> set ls. series_of r = k)" for k
    using calls_filed [OF assms(4)] unfolding filed_def by blast
  obtain xs where xs: "st_observations t = st_observations s @ r # xs"
    using filed [of Observations] by (auto simp: push_log.simps)
  have others: "series_of q \<noteq> Observations" if "q \<in> set (st_log t @ st_events t)" for q
    using that filed [of Log] filed [of Events] in_sync_filed [OF assms(1), of q Log]
      in_sync_filed [OF assms(1), of q Events]
    by (auto simp: push_log.simps)
  from d obtain d1 d2 d3 where run: "rfold project (st_log t @ st_events t) init_db = Inr d1"
    "rfold project (st_observations s) d1 = Inr d2" "project r d2 = Inr d3"
    by (auto simp: all_logs_def xs rfold_append result_simps)
  obtain b1 where old: "rfold project (st_log s @ st_events s) init_db = Inr b1"
    "rfold project (st_observations s) b1 = Inr (st_db s)"
    using in_sync_replays [OF assms(1)] by (auto simp: rfold_append result_simps)
  have "db_observed d1 = db_observed init_db"
    using observed_frame [OF run(1)] others by blast
  moreover have "db_observed b1 = db_observed init_db"
    using observed_frame [OF old(1)] in_sync_filed [OF assms(1), of _ Log] in_sync_filed [OF assms(1), of _ Events]
    by fastforce
  ultimately have "db_observed d2 = db_observed (st_db s)"
    using observed_run [OF run(2) old(2)] in_sync_filed [OF assms(1), of _ Observations] by simp
  with assms(2,3) run(3) show False
    by (auto simp: project_eq apply_record_def result_simps)
qed

text \<open>
  C32. An observation that cites the same event twice poisons the log: it passes every check of
  \<open>record_observation\<close>, its line is appended, the unique-elements trigger refuses the row, the
  call fails, and from then on the logs can no longer be replayed: not now, and not after any further
  calls, whatever they are and whether they succeed. (The event ids are not checked for duplicates
  before the append.)
\<close>

theorem duplicate_sources_poison_log:
  assumes "store_reached s" and "disk_ok ev" and "observation_fields_ok w = Inr ()"
    and "privacy_filter (join '' '' [ow_session_id w, ow_content w, ow_derivation w]) = Inr ()"
    and "privacy_filter_path (ow_derivation w) = Inr ()"
    and "rmap (source_event (ow_session_id w) (st_db s)) (ow_source_event_ids w) = Inr events"
    and "map_of (o_observations (db_observed (st_db s)))
           (observation_id (ow_session_id w) (ow_content w) (ow_source_event_ids w)) = None"
    and "\<not> distinct (ow_source_event_ids w)"
  shows "\<exists>e s'. record_observation ev w s = (Inl e, s') \<and> derails (Inl e :: str result) s s'
    \<and> rfold project (all_logs s') init_db = Inl e
    \<and> (\<forall>t. store_calls s' t \<longrightarrow> \<not> is_ok (rfold project (all_logs t) init_db))"
proof -
  let ?i = "observation_id (ow_session_id w) (ow_content w) (ow_source_event_ids w)"
  let ?r = "observation_record (en_now ev) ?i w (hd events)"
  obtain e where e: "apply_record ?r (st_db s) = Inl e"
  proof (cases "apply_record ?r (st_db s)")
    case (Inr x)
    then have False
      using assms(7,8)
      by (auto simp: apply_record_def observation_record_def ap_record_observation_def applied_def
          insert_observation_def observation_checks_def result_simps)
    then show thesis ..
  qed
  let ?s' = "push_log Observations ?r s"
  have "record_observation ev w s = (Inl e, ?s')"
    using assms(2-7) e
    by (simp add: record_observation_def log_observation_def op_then_def op_bind_def op_of_def op_read_def
        privacy_filter_recording_def privacy_filter_path_recording_def recording_def op_ret_def
        logged_def append_jsonl_def disk_ok_def apply_op_def)
  moreover have "derails (Inl e :: str result) s ?s'"
    by (rule derails_push [of _ e Observations]) simp_all
  ultimately show ?thesis
    using poisoned_observations [OF reached_in_sync [OF assms(1)] e]
      poisoned_for_good [OF reached_in_sync [OF assms(1)] _ e] series_of_records(5) by blast
qed

definition doubled_observation :: observation_write where
  "doubled_observation =
     observation_write_new ''s1'' ''uses SQLite'' Medium [129525350400005, 129525350400005] ''event''"

lemma event_reached: "store_reached event_store"
proof -
  have "is_ok (fst (record_event sample_env token_event fresh_store))" by code_simp
  then have "\<not> derails (fst (record_event sample_env token_event fresh_store)) fresh_store event_store"
    by (simp add: derails_def)
  with store_call.intros(13) [of sample_env token_event fresh_store, OF prod.collapse [symmetric]]
    store_reached.step [OF store_reached.fresh]
  show ?thesis by (simp add: event_store_def)
qed

theorem duplicate_sources_poison_log_witness:
  "\<exists>e s'. record_observation sample_env doubled_observation event_store = (Inl e, s')
    \<and> rfold project (all_logs s') init_db = Inl e"
proof -
  have "is_ok (rmap (source_event (ow_session_id doubled_observation) (st_db event_store))
      (ow_source_event_ids doubled_observation))"
    unfolding event_store_def by code_simp
  then obtain events where events: "rmap (source_event (ow_session_id doubled_observation) (st_db event_store))
      (ow_source_event_ids doubled_observation) = Inr events" by (rule is_okE)
  have "o_observations (db_observed (st_db event_store)) = []"
    unfolding event_store_def by code_simp
  moreover have "observation_fields_ok doubled_observation = Inr ()"
    "privacy_filter (join '' '' [ow_session_id doubled_observation, ow_content doubled_observation,
       ow_derivation doubled_observation]) = Inr ()"
    "privacy_filter_path (ow_derivation doubled_observation) = Inr ()"
    "\<not> distinct (ow_source_event_ids doubled_observation)"
    by code_simp+
  moreover have "disk_ok sample_env" by (simp add: disk_ok_def sample_env_def good_env_def)
  ultimately show ?thesis
    using duplicate_sources_poison_log [OF event_reached _ _ _ _ events, of sample_env] by auto
qed

end
