(* ===== verification/Consolidation.thy ===== *)
theory Consolidation
  imports Store_Life
begin

section \<open>What consolidation leaves\<close>

text \<open>
  After a successful consolidation no active claim duplicates an older one and no single-valued
  predicate keeps an active value next to a newer different one. The comparison counts claims
  of every status, which loses facts that were retired and asserted again.
\<close>

subsection \<open>Superseding\<close>

definition superseding :: "int set \<Rightarrow> graph \<Rightarrow> graph \<Rightarrow> bool" where
  "superseding X g g' \<longleftrightarrow>
     tbl_ok (g_claims g')
     \<and> (\<forall>i. map_of (g_claims g') i =
            map_option (\<lambda>c. if i \<in> X then c \<lparr> c_status := Superseded \<rparr> else c) (map_of (g_claims g) i))
     \<and> g_predicate_types g' = g_predicate_types g \<and> g_predicate_alias g' = g_predicate_alias g"

lemma superseded_id: "c \<lparr> c_status := Superseded \<rparr> = c \<longleftrightarrow> c_status c = Superseded" for c :: claim_row
  by (cases c) auto

lemma superseding_none: "tbl_ok (g_claims g) \<Longrightarrow> superseding {} g g"
  by (simp add: superseding_def option.map_id0 [unfolded id_def])

lemma supersede_one_superseding:
  assumes "supersede_one i g = Inr g'" and "tbl_ok (g_claims g)"
  shows "superseding {i} g g'"
proof -
  obtain c where "map_of (g_claims g) i = Some c" and
    "g' = (if c_status c = Superseded then g else put_claim i (c \<lparr> c_status := Superseded \<rparr>) g)"
    using assms(1) by (auto simp: supersede_one_def split: option.splits if_splits)
  then show ?thesis
    using assms(2) tbl.ok_put [of "g_claims g"]
    by (auto simp: superseding_def put_claim_def map_of_tbl_put superseded_id option.map_id0 [unfolded id_def]
        intro!: option.expand)
qed

lemma superseding_trans: "superseding X g h \<Longrightarrow> superseding Y h k \<Longrightarrow> superseding (X \<union> Y) g k"
  by (auto simp: superseding_def option.map_comp comp_def intro!: option.map_cong)

lemma supersede_all:
  "rfold supersede_one ids g = Inr g' \<Longrightarrow> tbl_ok (g_claims g) \<Longrightarrow> superseding (set ids) g g'"
proof (induction ids arbitrary: g)
  case Nil
  then show ?case by (simp add: superseding_none)
next
  case (Cons i ids)
  then obtain h where h: "supersede_one i g = Inr h" "rfold supersede_one ids h = Inr g'"
    by (auto simp: result_simps)
  with Cons.prems have s: "superseding {i} g h" by (intro supersede_one_superseding)
  then have "tbl_ok (g_claims h)" by (simp add: superseding_def)
  with Cons.IH h(2) superseding_trans [OF s] show ?case by fastforce
qed

lemma single_valued_superseding: "superseding X g g' \<Longrightarrow> single_valued g' p = single_valued g p"
  by (simp add: superseding_def single_valued_def)

subsection \<open>The two queries\<close>

lemma first_same_spo:
  assumes "tbl_ok (g_claims g)" and "map_of (g_claims g) i = Some c"
  shows "i \<noteq> fst (hd (same_spo g (spo c))) \<longleftrightarrow>
    (\<exists>j n. map_of (g_claims g) j = Some n \<and> spo n = spo c \<and> j < i)"
proof -
  let ?l = "same_spo g (spo c)"
  have mem: "(j, n) \<in> set ?l \<longleftrightarrow> map_of (g_claims g) j = Some n \<and> spo n = spo c" for j n
    using tbl.entries_get [OF assms(1)] by (auto simp: same_spo_def)
  have sorted: "sorted_wrt (\<lambda>p q. fst p < fst q) ?l"
    using assms(1) by (simp add: same_spo_def tbl_ok_def sorted_wrt_map sorted_wrt_filter)
  from mem assms(2) have i: "(i, c) \<in> set ?l" by simp
  then obtain h t where l: "?l = h # t" by (cases ?l) auto
  with sorted have least: "\<forall>p \<in> set t. fst h < fst p" by simp
  show ?thesis
  proof
    assume "i \<noteq> fst (hd ?l)"
    with i l least have "fst h < i" by auto
    moreover from l mem [of "fst h" "snd h"] have "map_of (g_claims g) (fst h) = Some (snd h)"
      "spo (snd h) = spo c" by simp_all
    ultimately show "\<exists>j n. map_of (g_claims g) j = Some n \<and> spo n = spo c \<and> j < i" by blast
  next
    assume "\<exists>j n. map_of (g_claims g) j = Some n \<and> spo n = spo c \<and> j < i"
    then obtain j n where "(j, n) \<in> set ?l" "j < i" using mem by blast
    with l least show "i \<noteq> fst (hd ?l)" by auto
  qed
qed

lemma duplicate_ids_iff:
  assumes "tbl_ok (g_claims g)"
  shows "i \<in> set (duplicate_ids g) \<longleftrightarrow>
    (\<exists>c. map_of (g_claims g) i = Some c \<and> c_status c = Active
       \<and> (\<exists>j n. map_of (g_claims g) j = Some n \<and> spo n = spo c \<and> j < i))"
proof -
  have "i \<in> set (duplicate_ids g) \<longleftrightarrow> (\<exists>c. map_of (g_claims g) i = Some c \<and> c_status c = Active
      \<and> i \<noteq> fst (hd (same_spo g (spo c))))"
    using tbl.entries_get [OF assms] by (auto simp: duplicate_ids_def)
  then show ?thesis using first_same_spo [OF assms] by blast
qed

lemma conflict_ids_iff:
  assumes "tbl_ok (g_claims g)"
  shows "i \<in> set (conflict_ids g) \<longleftrightarrow>
    (\<exists>c. map_of (g_claims g) i = Some c \<and> c_status c = Active \<and> single_valued g (c_predicate c)
       \<and> (\<exists>j n. map_of (g_claims g) j = Some n \<and> c_subject n = c_subject c
            \<and> c_predicate n = c_predicate c \<and> c_object n \<noteq> c_object c \<and> i < j))"
proof -
  have "i \<in> set (conflict_ids g) \<longleftrightarrow> (\<exists>c. (i, c) \<in> set (g_claims g) \<and> c_status c = Active
      \<and> single_valued g (c_predicate c) \<and> (\<exists>(j, n) \<in> set (g_claims g). c_subject n = c_subject c
            \<and> c_predicate n = c_predicate c \<and> c_object n \<noteq> c_object c \<and> i < j))"
    by (auto simp: conflict_ids_def list_ex_iff)
  then show ?thesis by (simp add: tbl.entries_get [OF assms] Bex_def)
qed

lemma superseding_get:
  assumes "superseding X g g'"
  shows "map_of (g_claims g') i = Some c' \<longleftrightarrow>
    (\<exists>c. map_of (g_claims g) i = Some c \<and> c' = (if i \<in> X then c \<lparr> c_status := Superseded \<rparr> else c))"
  using assms by (auto simp: superseding_def)

definition consolidated :: "graph \<Rightarrow> bool" where
  "consolidated g \<longleftrightarrow>
     (\<forall>i c j n. map_of (g_claims g) i = Some c \<and> c_status c = Active \<and> map_of (g_claims g) j = Some n
        \<longrightarrow> \<not> (spo n = spo c \<and> j < i)
          \<and> \<not> (single_valued g (c_predicate c) \<and> c_subject n = c_subject c
               \<and> c_predicate n = c_predicate c \<and> c_object n \<noteq> c_object c \<and> i < j))"

lemma consolidates:
  assumes "tbl_ok (g_claims g)" and "superseding (set (duplicate_ids g)) g h"
    and "superseding (set (conflict_ids h)) h k"
  shows "consolidated k"
proof -
  have okh: "tbl_ok (g_claims h)" using assms(2) by (simp add: superseding_def)
  note gets = superseding_get [OF assms(2)] superseding_get [OF assms(3)]
  show ?thesis
    unfolding consolidated_def
  proof (intro allI impI, elim conjE)
    fix i c j n
    assume c: "map_of (g_claims k) i = Some c" "c_status c = Active"
      and n: "map_of (g_claims k) j = Some n"
    from c have ch: "map_of (g_claims h) i = Some c" "i \<notin> set (conflict_ids h)"
      by (auto simp: gets(2) superseded_id split: if_splits)
    from n obtain nh where nh: "map_of (g_claims h) j = Some nh" "c_subject nh = c_subject n"
      "c_predicate nh = c_predicate n" "c_object nh = c_object n" by (auto simp: gets(2))
    from ch(1) c(2) have cg: "map_of (g_claims g) i = Some c" "i \<notin> set (duplicate_ids g)"
      by (auto simp: gets(1) superseded_id split: if_splits)
    from nh obtain ng where ng: "map_of (g_claims g) j = Some ng" "spo ng = spo n"
      by (auto simp: gets(1) spo_def split: if_splits)
    have "\<not> (spo n = spo c \<and> j < i)"
      using cg c(2) ng by (auto simp: duplicate_ids_iff [OF assms(1)])
    moreover have "\<not> (single_valued k (c_predicate c) \<and> c_subject n = c_subject c
        \<and> c_predicate n = c_predicate c \<and> c_object n \<noteq> c_object c \<and> i < j)"
    proof
      assume "single_valued k (c_predicate c) \<and> c_subject n = c_subject c
        \<and> c_predicate n = c_predicate c \<and> c_object n \<noteq> c_object c \<and> i < j"
      with nh have "c_subject nh = c_subject c" "c_predicate nh = c_predicate c"
        "c_object nh \<noteq> c_object c" "i < j" "single_valued h (c_predicate c)"
        using single_valued_superseding [OF assms(3)] by auto
      with ch(1) c(2) nh(1) have "i \<in> set (conflict_ids h)"
        unfolding conflict_ids_iff [OF okh] by blast
      with ch(2) show False by simp
    qed
    ultimately show "\<not> (spo n = spo c \<and> j < i) \<and> \<not> (single_valued k (c_predicate c)
        \<and> c_subject n = c_subject c \<and> c_predicate n = c_predicate c \<and> c_object n \<noteq> c_object c \<and> i < j)"
      by blast
  qed
qed

lemma supersede_claim_ids_run:
  assumes "supersede_claim_ids ev ids s = (Inr n, s')" and "tbl_ok (g_claims (db_graph (st_db s)))"
  shows "superseding (set ids) (db_graph (st_db s)) (db_graph (st_db s'))"
proof (cases "ids = []")
  case True
  with assms show ?thesis
    by (auto simp: supersede_claim_ids_def op_basic superseding_none)
next
  case False
  with assms(1) have "logged ev Log (SupersedeClaims (en_now ev) ids) s = (Inr (), s')"
    by (auto simp: supersede_claim_ids_def op_then_cases op_basic)
  then show ?thesis
  proof (cases rule: logged_cases)
    case (written d)
    then have "rfold supersede_one ids (db_graph (st_db s)) = Inr (db_graph d)"
      by (auto simp: project_eq apply_record_def ap_supersede_claims_def applied_def result_simps)
    with supersede_all [OF _ assms(2)] written(3) show ?thesis by simp
  qed simp_all
qed

lemma report_consolidates:
  assumes "store_reached s" and "consolidate_report ev1 ev2 ev3 s = (Inr r, s')"
  shows "consolidated (db_graph (st_db s'))"
proof -
  obtain merged t1 decayed t2 u where run:
    "merge_duplicate_source_refs ev1 s = (Inr merged, t1)"
    "decay_contradicted_confidence ev2 t1 = (Inr decayed, t2)"
    "transaction ev3
       (op_bind (op_read (\<lambda>d. Inr (duplicate_ids (db_graph d)))) (\<lambda>dup.
        op_bind (supersede_claim_ids ev3 dup) (\<lambda>n.
        op_bind (op_read (\<lambda>d. Inr (conflict_ids (db_graph d)))) (\<lambda>conf.
        op_bind (supersede_claim_ids ev3 conf) (\<lambda>m. op_ret (n + m)))))) t2 = (Inr u, s')"
    using assms(2) by (auto simp: consolidate_report_def op_bind_cases op_basic)
  have "in_sync t1"
    using run(1) reached_in_sync [OF assms(1)] sound_merge(2)
    unfolding sound_def by (metis derails_def is_ok_simps(1))
  then have "in_sync t2"
    using run(2) sound_decay(2) unfolding sound_def by (metis derails_def is_ok_simps(1))
  then have ok: "tbl_ok (g_claims (db_graph (st_db t2)))"
    using in_sync_ok by (auto simp: db_ok_def graph_ok_def claims_inv_def tbl_all_def)
  from run(3) obtain n t3 m where steps:
    "supersede_claim_ids ev3 (duplicate_ids (db_graph (st_db t2))) t2 = (Inr n, t3)"
    "supersede_claim_ids ev3 (conflict_ids (db_graph (st_db t3))) t3 = (Inr m, s')"
    by (auto elim!: transaction_cases simp: op_bind_cases op_basic)
  have dup: "superseding (set (duplicate_ids (db_graph (st_db t2)))) (db_graph (st_db t2)) (db_graph (st_db t3))"
    by (rule supersede_claim_ids_run [OF steps(1) ok])
  then have "tbl_ok (g_claims (db_graph (st_db t3)))" by (simp add: superseding_def)
  with consolidates [OF ok dup] supersede_claim_ids_run [OF steps(2)] show ?thesis by blast
qed

text \<open>
  C5. Consolidation does what it says: when it succeeds, no active claim repeats the subject,
  predicate and object of an older claim, and no active claim of a single-valued predicate (or
  alias of one) has a newer claim with the same subject and predicate and another object.
\<close>

theorem consolidation_complete:
  assumes "store_reached s" and "consolidate_report ev1 ev2 ev3 s = (Inr r, s')"
  shows "consolidated (db_graph (st_db s'))"
  by (rule report_consolidates [OF assms])

theorem consolidation_complete_witness:
  "\<exists>r s'. consolidate_report sample_env sample_env sample_env sample_store = (Inr r, s')
     \<and> consolidated (db_graph (st_db s'))"
proof -
  have "is_ok (fst (consolidate_report sample_env sample_env sample_env sample_store))"
    unfolding sample_store_def by code_simp
  then obtain r where "fst (consolidate_report sample_env sample_env sample_env sample_store) = Inr r"
    by (rule is_okE)
  then have "consolidate_report sample_env sample_env sample_env sample_store
      = (Inr r, snd (consolidate_report sample_env sample_env sample_env sample_store))"
    by (simp add: prod_eq_iff)
  with consolidation_complete [OF sample_reached this] show ?thesis by blast
qed

text \<open>
  A claim asserted again after an older claim with the same content was retired does not
  survive consolidation, although it is the only active one.
\<close>

lemma reasserted_claim_superseded:
  assumes "store_reached s" and "consolidate_report ev1 ev2 ev3 s = (Inr r, s')"
    and "map_of (g_claims (db_graph (st_db s))) i = Some c" and "c_status c = Invalidated"
    and "map_of (g_claims (db_graph (st_db s))) j = Some n" and "spo n = spo c" and "i < j"
  shows "\<exists>n'. map_of (g_claims (db_graph (st_db s'))) j = Some n' \<and> c_status n' \<noteq> Active"
proof -
  have "derived s s'"
    using trace.store_call_keeps [OF store_call.intros(8) [OF assms(2)]] .
  then have kept: "claims_kept (db_graph (st_db s)) (db_graph (st_db s'))"
    by (rule derived_invariant [where R = "\<lambda>d e. claims_kept (db_graph d) (db_graph e)"])
      (auto intro: claims_kept_trans apply_graph_kept simp: apply_record_def result_simps split: series.splits)
  obtain c' n' where rows: "map_of (g_claims (db_graph (st_db s'))) i = Some c'" "same_claim c c'"
    "map_of (g_claims (db_graph (st_db s'))) j = Some n'" "same_claim n n'"
    using kept assms(3,5) unfolding claims_kept_def by blast
  then have "spo c' = spo n'" using assms(6) by (simp add: same_claim_def spo_def)
  with report_consolidates [OF assms(1,2)] rows assms(7) have "c_status n' \<noteq> Active"
    unfolding consolidated_def by metis
  with rows(3) show ?thesis by blast
qed

end
