(* ===== verification/Web_Scopes.thy ===== *)
theory Web_Scopes
  imports Validation Log_Files Types
begin

section \<open>The server's scopes and origins\<close>

text \<open>
  \<open>crates/aver-server/src/scopes.rs\<close> (the OAuth scopes and their lists), \<open>scope_resolution.rs\<close>
  (which memory scope a request runs in) and \<open>origin.rs\<close> (which browser requests are accepted).
  The crate \<open>url\<close> is a parameter: \<open>parse\<close> gives the scheme, host and port of a URL.
\<close>

subsection \<open>OAuth scopes\<close>

datatype oauth_scope =
    ClaimsRead | ClaimsWrite | EventsWrite | CandidatesManage | ObservationsRead | ObservationsWrite

definition SUPPORTED :: "oauth_scope list" where
  "SUPPORTED = [ClaimsRead, ClaimsWrite, EventsWrite, CandidatesManage, ObservationsRead, ObservationsWrite]"

fun oauth_scope_as_str :: "oauth_scope \<Rightarrow> str" where
  "oauth_scope_as_str ClaimsRead = ''claims:read''"
| "oauth_scope_as_str ClaimsWrite = ''claims:write''"
| "oauth_scope_as_str EventsWrite = ''events:write''"
| "oauth_scope_as_str CandidatesManage = ''candidates:manage''"
| "oauth_scope_as_str ObservationsRead = ''observations:read''"
| "oauth_scope_as_str ObservationsWrite = ''observations:write''"

text \<open>The error carries the raw text.\<close>

definition oauth_scope_from_str :: "str \<Rightarrow> str + oauth_scope" where
  "oauth_scope_from_str s =
     (if s = ''claims:read'' then Inr ClaimsRead
      else if s = ''claims:write'' then Inr ClaimsWrite
      else if s = ''events:write'' then Inr EventsWrite
      else if s = ''candidates:manage'' then Inr CandidatesManage
      else if s = ''observations:read'' then Inr ObservationsRead
      else if s = ''observations:write'' then Inr ObservationsWrite
      else Inl s)"

interpretation oscope: str_enum oauth_scope_as_str "\<lambda>s. map_sum (EEnumParse ''Scope'') id (oauth_scope_from_str s)"
proof
  fix x :: oauth_scope
  show "map_sum (EEnumParse ''Scope'') id (oauth_scope_from_str (oauth_scope_as_str x)) = Inr x"
    by (cases x) (simp_all add: oauth_scope_from_str_def)
qed (auto simp: oauth_scope_from_str_def split: if_splits)

definition split_ascii_whitespace :: "str \<Rightarrow> str list" where
  "split_ascii_whitespace s = [w \<leftarrow> split_on is_ascii_whitespace s. w \<noteq> []]"

definition parse_scope_list :: "str \<Rightarrow> str + oauth_scope list" where
  "parse_scope_list s = rmap oauth_scope_from_str (split_ascii_whitespace s)"

definition parse_scope_list_lossy :: "str \<Rightarrow> oauth_scope list" where
  "parse_scope_list_lossy s =
     List.map_filter (\<lambda>raw. case oauth_scope_from_str raw of Inl _ \<Rightarrow> None | Inr x \<Rightarrow> Some x)
       (split_ascii_whitespace s)"

definition serialize_scope_list :: "oauth_scope list \<Rightarrow> str" where
  "serialize_scope_list scopes =
     foldl (\<lambda>out s. if s \<in> set scopes
                    then (if out = [] then out else out @ '' '') @ oauth_scope_as_str s else out)
       [] SUPPORTED"

text \<open>\<open>encode_scopes\<close> and \<open>decode_scopes\<close> of \<open>auth.rs\<close>: how a row stores a list of scopes.\<close>

definition encode_scopes :: "str list \<Rightarrow> str" where
  "encode_scopes scopes = join '' '' scopes"

definition decode_scopes :: "str \<Rightarrow> str list" where
  "decode_scopes raw = split_ascii_whitespace raw"

subsection \<open>Round trips\<close>

definition word_ok :: "str \<Rightarrow> bool" where
  "word_ok w \<longleftrightarrow> w \<noteq> [] \<and> (\<forall>c \<in> set w. \<not> is_ascii_whitespace c)"

lemma split_join_words:
  assumes "\<forall>w \<in> set ws. word_ok w"
  shows "split_ascii_whitespace (join '' '' ws) = ws"
  using assms
proof (induction "'' ''" ws rule: join.induct)
  case 1
  then show ?case by (simp add: split_ascii_whitespace_def)
next
  case (2 w)
  then show ?case by (simp add: split_ascii_whitespace_def split_on_no_sep word_ok_def)
next
  case (3 w v ws)
  have "is_ascii_whitespace (CHR '' '')" by (simp add: is_ascii_whitespace_def)
  with 3 show ?case
    by (simp add: split_ascii_whitespace_def split_on_append_sep split_on_no_sep word_ok_def)
qed

lemma scope_words: "word_ok (oauth_scope_as_str s)"
  by (cases s) (simp_all add: word_ok_def is_ascii_whitespace_def)

lemma serialize_join:
  "serialize_scope_list scopes = join '' '' (map oauth_scope_as_str [s \<leftarrow> SUPPORTED. s \<in> set scopes])"
  unfolding serialize_scope_list_def SUPPORTED_def by simp

lemma oauth_from_as: "oauth_scope_from_str (oauth_scope_as_str s) = Inr s"
  by (cases s) (simp_all add: oauth_scope_from_str_def)

lemma parse_words:
  "rmap oauth_scope_from_str (map oauth_scope_as_str xs) = Inr xs"
  "List.map_filter (\<lambda>raw. case oauth_scope_from_str raw of Inl _ \<Rightarrow> None | Inr x \<Rightarrow> Some x)
     (map oauth_scope_as_str xs) = xs"
  by (induction xs) (simp_all add: oauth_from_as List.map_filter_simps)

text \<open>
  Scope lists survive the wire and the database: a serialised list of scopes parses back,
  strictly and leniently, to the same set in canonical order without duplicates.
\<close>

theorem scope_list_roundtrip:
  "parse_scope_list (serialize_scope_list scopes) = Inr [s \<leftarrow> SUPPORTED. s \<in> set scopes]
   \<and> parse_scope_list_lossy (serialize_scope_list scopes) = [s \<leftarrow> SUPPORTED. s \<in> set scopes]
   \<and> set [s \<leftarrow> SUPPORTED. s \<in> set scopes] = set scopes"
proof -
  let ?xs = "[s \<leftarrow> SUPPORTED. s \<in> set scopes]"
  have "split_ascii_whitespace (serialize_scope_list scopes) = map oauth_scope_as_str ?xs"
    unfolding serialize_join by (rule split_join_words) (auto simp: scope_words)
  moreover have "s \<in> set SUPPORTED" for s by (cases s) (simp_all add: SUPPORTED_def)
  ultimately show ?thesis
    by (auto simp: parse_scope_list_def parse_scope_list_lossy_def parse_words simp del: filter.simps)
qed

lemma decode_encode: "\<forall>w \<in> set ws. word_ok w \<Longrightarrow> decode_scopes (encode_scopes ws) = ws"
  by (simp add: decode_scopes_def encode_scopes_def split_join_words)

lemma decoded_words: "\<forall>w \<in> set (decode_scopes raw). word_ok w"
  using split_on_pieces by (fastforce simp: decode_scopes_def split_ascii_whitespace_def word_ok_def)

subsection \<open>The scope of a request\<close>

record resolved_scope =
  rs_scope :: str
  rs_default_walk :: scope_walk

definition MAX_SCOPE_LEN :: nat where
  "MAX_SCOPE_LEN = 256"

text \<open>The error text is cut to what the checks add to it.\<close>

definition validate_scope_source :: "str \<Rightarrow> str \<Rightarrow> str + unit" where
  "validate_scope_source scope src =
     rbind (ensure (\<not> blank scope) (src @ '': scope must not be blank'')) (\<lambda>_.
     rbind (ensure (length scope \<le> MAX_SCOPE_LEN) (src @ '': scope exceeds 256 bytes'')) (\<lambda>_.
     rbind (ensure (list_all scope_char scope) (src @ '': scope contains invalid characters'')) (\<lambda>_.
     ensure (\<not> list_ex (\<lambda>segment. segment = []) (split_on ((=) (CHR ''/'')) scope))
       (src @ '': scope contains an empty path segment''))))"

fun pick_scope :: "(str option \<times> str) list \<Rightarrow> str + str" where
  "pick_scope [] = Inr ''global''"
| "pick_scope ((v, src) # rest) =
     (case v of
        Some s \<Rightarrow> if \<not> blank s then rbind (validate_scope_source s src) (\<lambda>_. Inr s) else pick_scope rest
      | None \<Rightarrow> pick_scope rest)"

definition resolve_scope :: "str option \<Rightarrow> str option \<Rightarrow> str option \<Rightarrow> str option \<Rightarrow> str + resolved_scope" where
  "resolve_scope param_scope header_scope header_default env_default =
     rbind (pick_scope [(param_scope, ''param scope''), (header_scope, ''X-Aver-Scope''),
                        (header_default, ''X-Aver-Scope-Default''), (env_default, ''AVER_DEFAULT_SCOPE'')])
       (\<lambda>scope. Inr \<lparr> rs_scope = scope,
                      rs_default_walk = (if scope = ''global'' then ScopeAny else ScopeAncestors) \<rparr>)"

lemma scope_source_ok:
  "validate_scope_source s src = Inr u \<longleftrightarrow>
    \<not> blank s \<and> length s \<le> MAX_SCOPE_LEN \<and> list_all scope_char s
    \<and> [] \<notin> set (split_on ((=) (CHR ''/'')) s)"
  by (auto simp: validate_scope_source_def result_simps list_ex_iff)

lemma pick_scope_valid:
  "pick_scope sources = Inr s \<Longrightarrow>
    s = ''global'' \<or> (\<exists>src. (Some s, src) \<in> set sources \<and> validate_scope_source s src = Inr ())"
  by (induction sources) (auto simp: result_simps split: option.splits if_splits)

text \<open>The first source that is set and not blank decides, or its error is the answer.\<close>

lemma pick_scope_first:
  "pick_scope (before @ (Some s, src) # after) =
    (if \<forall>(v, _) \<in> set before. opt_all blank v
     then (if blank s then pick_scope after else rbind (validate_scope_source s src) (\<lambda>_. Inr s))
     else pick_scope before)"
  by (induction before) (auto split: option.splits)

lemma pick_scope_unset: "\<forall>(v, _) \<in> set sources. opt_all blank v \<Longrightarrow> pick_scope sources = Inr ''global''"
  by (induction sources) (auto split: option.splits)

text \<open>
  The scope a request runs in is one the memory store accepts, of at most 256 bytes and
  without empty path segments; it is the first of the sources that is set and not blank, and
  \<open>global\<close> only when that source says so or none is set.
\<close>

theorem resolved_scope_accepted:
  assumes "resolve_scope p h df env = Inr r"
  shows "validate_scope (rs_scope r) = Inr () \<and> length (rs_scope r) \<le> MAX_SCOPE_LEN
    \<and> [] \<notin> set (split_on ((=) (CHR ''/'')) (rs_scope r))
    \<and> Some (rs_scope r) = (case find (\<lambda>v. \<not> opt_all blank v) [p, h, df, env] of
                               None \<Rightarrow> Some ''global'' | Some v \<Rightarrow> v)"
proof -
  let ?sources = "[(p, ''param scope''), (h, ''X-Aver-Scope''), (df, ''X-Aver-Scope-Default''),
    (env, ''AVER_DEFAULT_SCOPE'')]"
  from assms have pick: "pick_scope ?sources = Inr (rs_scope r)"
    by (auto simp: resolve_scope_def result_simps)
  have global: "validate_scope_source ''global'' [] = Inr ()" by code_simp
  have "validate_scope_source (rs_scope r) [] = Inr ()"
    using pick_scope_valid [OF pick] global by (auto simp: scope_source_ok)
  moreover have "Some (rs_scope r) = (case find (\<lambda>v. \<not> opt_all blank v) [p, h, df, env] of
      None \<Rightarrow> Some ''global'' | Some v \<Rightarrow> v)"
    using pick by (auto simp: result_simps opt_all_iff split: option.splits if_splits)
  ultimately show ?thesis by (simp add: scope_source_ok valid_simps)
qed

lemma resolved_scope_accepted_witness:
  "Some ''proj/a'' = (case find (\<lambda>v. \<not> opt_all blank v) [None, Some '''', Some ''proj/a'', Some ''x''] of
      None \<Rightarrow> Some ''global'' | Some v \<Rightarrow> v) \<and> validate_scope ''proj/a'' = Inr ()"
proof -
  have "resolve_scope None (Some '''') (Some ''proj/a'') (Some ''x'')
      = Inr \<lparr> rs_scope = ''proj/a'', rs_default_walk = ScopeAncestors \<rparr>"
    by code_simp
  from resolved_scope_accepted [OF this] show ?thesis by simp
qed

subsection \<open>Origins\<close>

record url =
  u_scheme :: str
  u_host :: "str option"
  u_port :: "nat option"

text \<open>
  The headers of a request under their lower-case names: for each header the text that the HTTP
  library's \<open>HeaderValue::to_str\<close> gives, \<open>None\<close> where it fails.
\<close>

type_synonym headers = "(str \<times> str option) list"

datatype origin_error = CrossSiteFetch | InvalidOriginHeader | OriginNotAllowed

definition header_text :: "headers \<Rightarrow> str \<Rightarrow> str option" where
  "header_text hs name = (case map_of hs name of None \<Rightarrow> None | Some text \<Rightarrow> text)"

definition eq_ignore_ascii_case :: "str \<Rightarrow> str \<Rightarrow> bool" where
  "eq_ignore_ascii_case a b \<longleftrightarrow> to_ascii_lowercase a = to_ascii_lowercase b"

definition origins_match :: "url \<Rightarrow> url \<Rightarrow> bool" where
  "origins_match a b \<longleftrightarrow> u_scheme a = u_scheme b \<and> u_host a = u_host b \<and> u_port a = u_port b"

definition has_non_cross_site_fetch_metadata :: "headers \<Rightarrow> bool" where
  "has_non_cross_site_fetch_metadata hs \<longleftrightarrow>
     (case header_text hs ''sec-fetch-site'' of
        None \<Rightarrow> False
      | Some site \<Rightarrow> eq_ignore_ascii_case site ''same-origin'' \<or> eq_ignore_ascii_case site ''same-site''
                     \<or> eq_ignore_ascii_case site ''none'')"

definition validate_browser_origin ::
  "(str \<Rightarrow> url option) \<Rightarrow> headers \<Rightarrow> url list \<Rightarrow> origin_error + unit" where
  "validate_browser_origin parse hs allowed_base_urls =
     (if opt_all (\<lambda>site. \<not> eq_ignore_ascii_case site ''cross-site'') (header_text hs ''sec-fetch-site'')
      then (case map_of hs ''origin'' of
              None \<Rightarrow> Inr ()
            | Some origin_header \<Rightarrow>
                rbind (ok_or InvalidOriginHeader origin_header) (\<lambda>origin_str.
                if eq_ignore_ascii_case origin_str ''null'' \<and> has_non_cross_site_fetch_metadata hs then Inr ()
                else rbind (ok_or InvalidOriginHeader (parse origin_str)) (\<lambda>origin_url.
                     ensure (list_ex (origins_match origin_url) allowed_base_urls) OriginNotAllowed)))
      else Inl CrossSiteFetch)"

text \<open>
  A request with an \<open>Origin\<close> passes only from an allowed base URL: it is accepted exactly when
  the browser does not call it cross-site, and its origin is absent, is \<open>null\<close> with fetch metadata
  that rules cross-site out, or has the scheme, host and port of an allowed base URL.
\<close>

theorem browser_origin_accepted:
  "validate_browser_origin parse hs allowed = Inr () \<longleftrightarrow>
    \<not> (\<exists>site. header_text hs ''sec-fetch-site'' = Some site \<and> eq_ignore_ascii_case site ''cross-site'')
    \<and> (map_of hs ''origin'' = None
       \<or> (\<exists>o_str. header_text hs ''origin'' = Some o_str
            \<and> (eq_ignore_ascii_case o_str ''null'' \<and> has_non_cross_site_fetch_metadata hs
               \<or> (\<exists>u. parse o_str = Some u \<and> (\<exists>base. base \<in> set allowed \<and> origins_match u base)))))"
  by (auto simp: validate_browser_origin_def header_text_def opt_all_iff result_simps list_ex_iff
      split: option.splits if_splits)

end
