(* ===== verification/Auth.thy ===== *)
theory Auth
  imports Web_Scopes Tables "HOL-Library.Word" "HOL-Library.Product_Lexorder"
begin

unbundle bit_operations_syntax

section \<open>The authorization database\<close>

text \<open>
  \<open>AuthDb\<close> of \<open>crates/aver-server/src/auth.rs\<close> and the PKCE check of \<open>oauth.rs\<close>: clients, users,
  consents, sessions, authorization codes and tokens, each table keyed by its primary key. What
  the code draws at random (codes, tokens, token families, session ids) and the clock are
  arguments; \<open>digest\<close> stands for the SHA-256 in URL-safe base64 that hashes tokens and PKCE
  verifiers, \<open>parse\<close> for \<open>Url::parse\<close>. An error carries its message. JSON columns hold the
  decoded list; foreign keys are on, as in every bundled SQLite of rusqlite.
\<close>

type_synonym 'a auth_result = "str + 'a"

record token_row =
  tk_user :: str
  tk_client :: "str option"
  tk_family :: str
  tk_created_at :: int
  tk_expires_at :: int
  tk_revoked_at :: "int option"
  tk_scopes :: str

record code_row =
  ac_client :: str
  ac_user :: str
  ac_challenge :: str
  ac_redirect :: str
  ac_used_at :: "int option"
  ac_expires_at :: int
  ac_created_at :: int
  ac_scopes :: str

record client_row =
  oc_name :: str
  oc_redirect_uris :: "str list"
  oc_created_at :: int

record user_row =
  us_kind :: str
  us_external_id :: "str option"
  us_created_at :: int

record consent_row =
  cn_scopes :: str
  cn_granted_at :: int
  cn_last_used_at :: "int option"
  cn_revoked_at :: "int option"

record session_row =
  ss_user :: str
  ss_created_at :: int
  ss_expires_at :: int

record auth_db =
  ad_access :: "(str, token_row) table"
  ad_codes :: "(str, code_row) table"
  ad_clients :: "(str, client_row) table"
  ad_refresh :: "(str, token_row) table"
  ad_users :: "(str, user_row) table"
  ad_consents :: "(str \<times> str, consent_row) table"
  ad_sessions :: "(str, session_row) table"
  ad_secrets :: "(str, str) table"

definition empty_auth_db :: auth_db where
  "empty_auth_db =
     \<lparr> ad_access = [], ad_codes = [], ad_clients = [], ad_refresh = [], ad_users = [],
       ad_consents = [], ad_sessions = [], ad_secrets = [] \<rparr>"

subsection \<open>Time limits\<close>

definition ACCESS_TOKEN_TTL_SECS :: int where "ACCESS_TOKEN_TTL_SECS = 60 * 60"
definition REFRESH_TOKEN_TTL_SECS :: int where "REFRESH_TOKEN_TTL_SECS = 30 * 24 * 60 * 60"
definition CODE_TTL_SECS :: int where "CODE_TTL_SECS = 600"

subsection \<open>PKCE\<close>

text \<open>The comparison that takes the same time wherever the first difference is.\<close>

definition byte_of :: "char \<Rightarrow> 8 word" where
  "byte_of c = word_of_nat (of_char c)"

definition constant_time_eq :: "str \<Rightarrow> str \<Rightarrow> bool" where
  "constant_time_eq a b =
     (if length a \<noteq> length b then False
      else foldl (\<lambda>diff (x, y). diff OR (byte_of x XOR byte_of y)) 0 (zip a b) = 0)"

definition verify_pkce_s256 :: "(str \<Rightarrow> str) \<Rightarrow> str \<Rightarrow> str \<Rightarrow> bool" where
  "verify_pkce_s256 digest verifier challenge = constant_time_eq (digest verifier) challenge"

lemma byte_of_inj: "byte_of c = byte_of d \<longleftrightarrow> c = d"
proof
  assume "byte_of c = byte_of d"
  then have "unat (word_of_nat (of_char c) :: 8 word) = unat (word_of_nat (of_char d) :: 8 word)"
    by (simp add: byte_of_def)
  then have "(of_char c :: nat) = of_char d"
    by (simp add: unat_of_nat)
  then show "c = d" by simp
qed simp

lemma word_or_zero: "(x OR y) = 0 \<longleftrightarrow> x = 0 \<and> y = (0 :: 'a::len word)"
  by (auto simp: bit_eq_iff bit_simps)

lemma word_xor_zero: "(x XOR y) = 0 \<longleftrightarrow> x = (y :: 'a::len word)"
  by (metis bit.xor_self xor.left_neutral xor.assoc xor.right_neutral)

lemma diff_fold:
  "foldl (\<lambda>diff (x, y). diff OR (byte_of x XOR byte_of y)) d ps = 0 \<longleftrightarrow>
    d = 0 \<and> (\<forall>(x, y) \<in> set ps. x = y)"
  by (induction ps arbitrary: d) (auto simp: word_or_zero word_xor_zero byte_of_inj split_beta)

lemma same_bytes: "constant_time_eq a b \<longleftrightarrow> list_all2 (=) a b"
  by (simp add: constant_time_eq_def diff_fold list_all2_iff)

text \<open>
  The constant-time comparison of secrets, which ors the exclusive ors of all bytes, is equality.
\<close>

lemma constant_time_eq_correct: "constant_time_eq a b \<longleftrightarrow> a = b"
  by (simp add: same_bytes list.rel_eq)

lemma verify_pkce [simp]: "verify_pkce_s256 digest v ch \<longleftrightarrow> digest v = ch"
  by (simp add: verify_pkce_s256_def same_bytes list.rel_eq)

subsection \<open>Clients\<close>

definition redirect_uri_allowed :: "(str \<Rightarrow> url option) \<Rightarrow> str \<Rightarrow> bool" where
  "redirect_uri_allowed parse uri =
     (case parse uri of
        None \<Rightarrow> False
      | Some u \<Rightarrow>
          if u_scheme u = ''https'' then True
          else if u_scheme u = ''http''
            then (case u_host u of
                    None \<Rightarrow> False
                  | Some host \<Rightarrow> host = ''localhost'' \<or> host = ''127.0.0.1'' \<or> host = ''::1'')
          else False)"

definition insert_row :: "'k::linorder \<Rightarrow> 'v \<Rightarrow> ('k, 'v) table \<Rightarrow> ('k, 'v) table auth_result" where
  "insert_row k v t = (if map_of t k = None then Inr (tbl_put k v t) else Inl ''UNIQUE constraint failed'')"

definition register_client ::
  "(str \<Rightarrow> url option) \<Rightarrow> int \<Rightarrow> str \<Rightarrow> str \<Rightarrow> str list \<Rightarrow> auth_db \<Rightarrow> (str \<times> auth_db) auth_result" where
  "register_client parse now uuid client_name redirect_uris d =
     rbind (ensure (\<not> blank client_name) ''client_name is required'') (\<lambda>_.
     rbind (ensure (redirect_uris \<noteq> []) ''at least one redirect_uri is required'') (\<lambda>_.
     rbind (ensure (list_all (redirect_uri_allowed parse) redirect_uris)
              ''redirect_uris must be HTTPS URLs or loopback HTTP URLs'') (\<lambda>_.
     let client_id = ''aver-'' @ uuid
     in rbind (insert_row client_id
                 \<lparr> oc_name = client_name, oc_redirect_uris = redirect_uris, oc_created_at = now \<rparr>
                 (ad_clients d)) (\<lambda>t.
        Inr (client_id, d \<lparr> ad_clients := t \<rparr>)))))"

definition get_client :: "str \<Rightarrow> auth_db \<Rightarrow> client_row option" where
  "get_client client_id d = map_of (ad_clients d) client_id"

definition client_allows_redirect_uri :: "str \<Rightarrow> str \<Rightarrow> auth_db \<Rightarrow> bool" where
  "client_allows_redirect_uri client_id redirect_uri d =
     (case get_client client_id d of None \<Rightarrow> False | Some c \<Rightarrow> redirect_uri \<in> set (oc_redirect_uris c))"

subsection \<open>Codes and tokens\<close>

definition store_authorization_code ::
  "int \<Rightarrow> str \<Rightarrow> str \<Rightarrow> str \<Rightarrow> str \<Rightarrow> str \<Rightarrow> str list \<Rightarrow> auth_db \<Rightarrow> auth_db auth_result" where
  "store_authorization_code now code client_id user_id code_challenge redirect_uri granted d =
     rbind (insert_row code
              \<lparr> ac_client = client_id, ac_user = user_id, ac_challenge = code_challenge,
                ac_redirect = redirect_uri, ac_used_at = None, ac_expires_at = now + CODE_TTL_SECS,
                ac_created_at = now, ac_scopes = encode_scopes granted \<rparr> (ad_codes d)) (\<lambda>t.
     Inr (d \<lparr> ad_codes := t \<rparr>))"

text \<open>
  Opening the database gives the rows of an older schema, whose expiry is the default 0, a fresh
  lifetime.
\<close>

definition open_auth_db :: "int \<Rightarrow> auth_db \<Rightarrow> auth_db" where
  "open_auth_db now d =
     (let renew = (\<lambda>ttl row. if tk_expires_at row = 0 then row \<lparr> tk_expires_at := now + ttl \<rparr> else row)
      in d \<lparr> ad_access := map (\<lambda>(k, row). (k, renew ACCESS_TOKEN_TTL_SECS row)) (ad_access d),
             ad_refresh := map (\<lambda>(k, row). (k, renew REFRESH_TOKEN_TTL_SECS row)) (ad_refresh d) \<rparr>)"

text \<open>What one issue of a token pair draws at random.\<close>

record token_draw =
  td_access :: str
  td_refresh :: str
  td_family :: str

definition token_row_of :: "int \<Rightarrow> int \<Rightarrow> str \<Rightarrow> str option \<Rightarrow> str \<Rightarrow> str list \<Rightarrow> token_row" where
  "token_row_of now ttl user_id client_id family_id granted =
     \<lparr> tk_user = user_id, tk_client = client_id, tk_family = family_id, tk_created_at = now,
       tk_expires_at = now + ttl, tk_revoked_at = None, tk_scopes = encode_scopes granted \<rparr>"

definition issue_token_pair_in ::
  "(str \<Rightarrow> str) \<Rightarrow> int \<Rightarrow> token_draw \<Rightarrow> str \<Rightarrow> str option \<Rightarrow> str \<Rightarrow> str list \<Rightarrow> auth_db \<Rightarrow> auth_db" where
  "issue_token_pair_in digest now r user_id client_id family_id granted d =
     d \<lparr> ad_access := tbl_put (digest (td_access r))
           (token_row_of now ACCESS_TOKEN_TTL_SECS user_id client_id family_id granted) (ad_access d),
         ad_refresh := tbl_put (digest (td_refresh r))
           (token_row_of now REFRESH_TOKEN_TTL_SECS user_id client_id family_id granted) (ad_refresh d) \<rparr>"

definition exchange_checks ::
  "(str \<Rightarrow> str) \<Rightarrow> int \<Rightarrow> str \<Rightarrow> str \<Rightarrow> str \<Rightarrow> code_row \<Rightarrow> unit auth_result" where
  "exchange_checks digest now client_id code_verifier redirect_uri c =
     rbind (ensure (ac_used_at c = None) ''authorization code already used'') (\<lambda>_.
     rbind (ensure (ac_client c = client_id) ''client_id mismatch'') (\<lambda>_.
     rbind (ensure (verify_pkce_s256 digest code_verifier (ac_challenge c)) ''PKCE verifier mismatch'') (\<lambda>_.
     rbind (ensure (now < ac_expires_at c) ''authorization code expired'') (\<lambda>_.
     ensure (ac_redirect c = redirect_uri) ''redirect_uri mismatch''))))"

definition exchange_authorization_code_for_tokens ::
  "(str \<Rightarrow> str) \<Rightarrow> int \<Rightarrow> token_draw \<Rightarrow> str \<Rightarrow> str \<Rightarrow> str \<Rightarrow> str \<Rightarrow> auth_db \<Rightarrow> auth_db auth_result" where
  "exchange_authorization_code_for_tokens digest now r code client_id code_verifier redirect_uri d =
     rbind (ok_or ''Query returned no rows'' (map_of (ad_codes d) code)) (\<lambda>c.
     rbind (exchange_checks digest now client_id code_verifier redirect_uri c) (\<lambda>_.
     let d = d \<lparr> ad_codes := tbl_put code (c \<lparr> ac_used_at := Some now \<rparr>) (ad_codes d) \<rparr>
     in Inr (issue_token_pair_in digest now r (ac_user c) (Some client_id) (td_family r)
               (decode_scopes (ac_scopes c)) d)))"

definition revoke_row :: "(token_row \<Rightarrow> bool) \<Rightarrow> int \<Rightarrow> token_row \<Rightarrow> token_row" where
  "revoke_row P now row =
     (if P row \<and> tk_revoked_at row = None then row \<lparr> tk_revoked_at := Some now \<rparr> else row)"

definition revoke_where :: "(token_row \<Rightarrow> bool) \<Rightarrow> int \<Rightarrow> (str, token_row) table \<Rightarrow> (str, token_row) table" where
  "revoke_where P now t = map (\<lambda>(k, row). (k, revoke_row P now row)) t"

definition revoke_token_family :: "int \<Rightarrow> str \<Rightarrow> auth_db \<Rightarrow> auth_db" where
  "revoke_token_family now family_id d =
     d \<lparr> ad_access := revoke_where (\<lambda>row. tk_family row = family_id) now (ad_access d),
         ad_refresh := revoke_where (\<lambda>row. tk_family row = family_id) now (ad_refresh d) \<rparr>"

text \<open>The refresh grant fails with a changed database when it detects reuse, so it returns both.\<close>

definition refresh_access_token ::
  "(str \<Rightarrow> str) \<Rightarrow> int \<Rightarrow> token_draw \<Rightarrow> str \<Rightarrow> auth_db \<Rightarrow> unit auth_result \<times> auth_db" where
  "refresh_access_token digest now r refresh_token d =
     (let token_hash = digest refresh_token
      in case map_of (ad_refresh d) token_hash of
           None \<Rightarrow> (Inl ''unknown refresh token'', d)
         | Some row \<Rightarrow>
             if tk_revoked_at row \<noteq> None
             then (Inl ''refresh token reuse detected; token family revoked'',
                   revoke_token_family now (tk_family row) d)
             else if \<not> now < tk_expires_at row then (Inl ''refresh token expired'', d)
             else let d = d \<lparr> ad_refresh := tbl_put token_hash (row \<lparr> tk_revoked_at := Some now \<rparr>) (ad_refresh d) \<rparr>
                  in (Inr (), issue_token_pair_in digest now r (tk_user row) (tk_client row) (tk_family row)
                                (decode_scopes (tk_scopes row)) d))"

definition live :: "int \<Rightarrow> token_row \<Rightarrow> bool" where
  "live now row \<longleftrightarrow> tk_revoked_at row = None \<and> now < tk_expires_at row"

definition access_token_grant :: "int \<Rightarrow> str \<Rightarrow> auth_db \<Rightarrow> (str \<times> str option \<times> str) option" where
  "access_token_grant now token_hash d =
     (case map_of (ad_access d) token_hash of
        None \<Rightarrow> None
      | Some row \<Rightarrow> if live now row then Some (tk_user row, tk_client row, tk_scopes row) else None)"

definition store_access_token_hash ::
  "int \<Rightarrow> str \<Rightarrow> str \<Rightarrow> str \<Rightarrow> str list \<Rightarrow> auth_db \<Rightarrow> auth_db" where
  "store_access_token_hash now family token_hash user_id granted d =
     d \<lparr> ad_access := tbl_put token_hash
           (token_row_of now ACCESS_TOKEN_TTL_SECS user_id None family granted) (ad_access d) \<rparr>"

subsection \<open>Users, consents, sessions\<close>

datatype user_kind = Local | Header | Oidc str

fun to_columns :: "user_kind \<Rightarrow> str \<times> str option" where
  "to_columns Local = (''local'', None)"
| "to_columns Header = (''header'', None)"
| "to_columns (Oidc issuer) = (''oidc'', Some issuer)"

definition from_columns :: "str \<Rightarrow> str option \<Rightarrow> user_kind auth_result" where
  "from_columns kind external_id =
     (if kind = ''local'' then Inr Local
      else if kind = ''header'' then Inr Header
      else if kind = ''oidc'' then rbind (ok_or ''oidc user is missing external_id'' external_id) (\<lambda>i. Inr (Oidc i))
      else Inl (''unknown user kind '' @ kind))"

lemma user_kind_roundtrip: "from_columns (fst (to_columns k)) (snd (to_columns k)) = Inr k"
  by (cases k) (simp_all add: from_columns_def)

record user =
  ur_id :: str
  ur_kind :: user_kind
  ur_external_id :: "str option"
  ur_created_at :: int

definition upsert_user :: "user \<Rightarrow> auth_db \<Rightarrow> auth_db auth_result" where
  "upsert_user u d =
     rbind (ensure (\<not> blank (ur_id u)) ''user id is required'') (\<lambda>_.
     rbind (ensure (0 < ur_created_at u) ''user created_at must be positive'') (\<lambda>_.
     let (kind, encoded) = to_columns (ur_kind u);
         external = (case encoded of Some e \<Rightarrow> Some e | None \<Rightarrow> ur_external_id u);
         created = (case map_of (ad_users d) (ur_id u) of None \<Rightarrow> ur_created_at u | Some old \<Rightarrow> us_created_at old)
     in Inr (d \<lparr> ad_users := tbl_put (ur_id u)
                 \<lparr> us_kind = kind, us_external_id = external, us_created_at = created \<rparr> (ad_users d) \<rparr>)))"

definition get_user :: "str \<Rightarrow> auth_db \<Rightarrow> user option auth_result" where
  "get_user user_id d =
     (case map_of (ad_users d) user_id of
        None \<Rightarrow> Inr None
      | Some u \<Rightarrow> rbind (from_columns (us_kind u) (us_external_id u)) (\<lambda>k.
          Inr (Some \<lparr> ur_id = user_id, ur_kind = k, ur_external_id = us_external_id u,
                      ur_created_at = us_created_at u \<rparr>)))"

definition record_consent :: "int \<Rightarrow> str \<Rightarrow> str \<Rightarrow> str list \<Rightarrow> auth_db \<Rightarrow> auth_db auth_result" where
  "record_consent now user_id client_id granted d =
     rbind (ensure (\<not> blank user_id) ''user_id is required'') (\<lambda>_.
     rbind (ensure (\<not> blank client_id) ''client_id is required'') (\<lambda>_.
     rbind (ensure (map_of (ad_users d) user_id \<noteq> None) ''FOREIGN KEY constraint failed'') (\<lambda>_.
     let used = (case map_of (ad_consents d) (user_id, client_id) of None \<Rightarrow> None | Some c \<Rightarrow> cn_last_used_at c)
     in Inr (d \<lparr> ad_consents := tbl_put (user_id, client_id)
                 \<lparr> cn_scopes = encode_scopes granted, cn_granted_at = now, cn_last_used_at = used,
                   cn_revoked_at = None \<rparr> (ad_consents d) \<rparr>))))"

definition get_consent :: "str \<Rightarrow> str \<Rightarrow> auth_db \<Rightarrow> consent_row option" where
  "get_consent user_id client_id d = map_of (ad_consents d) (user_id, client_id)"

definition revoke_consent :: "int \<Rightarrow> str \<Rightarrow> str \<Rightarrow> auth_db \<Rightarrow> auth_db" where
  "revoke_consent now user_id client_id d =
     (let mine = (\<lambda>row. tk_user row = user_id \<and> tk_client row = Some client_id)
      in d \<lparr> ad_consents := tbl_upd (user_id, client_id) (\<lambda>c. c \<lparr> cn_revoked_at := Some now \<rparr>) (ad_consents d),
             ad_access := revoke_where mine now (ad_access d),
             ad_refresh := revoke_where mine now (ad_refresh d) \<rparr>)"

definition touch_consent_last_used :: "int \<Rightarrow> str \<Rightarrow> str \<Rightarrow> auth_db \<Rightarrow> auth_db" where
  "touch_consent_last_used now user_id client_id d =
     d \<lparr> ad_consents := tbl_upd (user_id, client_id) (\<lambda>c. c \<lparr> cn_last_used_at := Some now \<rparr>) (ad_consents d) \<rparr>"

definition create_session :: "int \<Rightarrow> str \<Rightarrow> str \<Rightarrow> int \<Rightarrow> auth_db \<Rightarrow> auth_db auth_result" where
  "create_session now session_id user_id ttl_secs d =
     rbind (ensure (\<not> blank user_id) ''user_id is required'') (\<lambda>_.
     rbind (ensure (0 < ttl_secs) ''session ttl must be positive'') (\<lambda>_.
     rbind (ensure (map_of (ad_users d) user_id \<noteq> None) ''FOREIGN KEY constraint failed'') (\<lambda>_.
     rbind (insert_row session_id
              \<lparr> ss_user = user_id, ss_created_at = now, ss_expires_at = now + ttl_secs \<rparr> (ad_sessions d)) (\<lambda>t.
     Inr (d \<lparr> ad_sessions := t \<rparr>)))))"

definition get_session :: "int \<Rightarrow> str \<Rightarrow> auth_db \<Rightarrow> session_row option" where
  "get_session now session_id d =
     (case map_of (ad_sessions d) session_id of
        None \<Rightarrow> None
      | Some s \<Rightarrow> if ss_expires_at s \<le> now then None else Some s)"

definition delete_session :: "str \<Rightarrow> auth_db \<Rightarrow> auth_db" where
  "delete_session session_id d = d \<lparr> ad_sessions := [(k, v) \<leftarrow> ad_sessions d. k \<noteq> session_id] \<rparr>"


text \<open>A server secret is drawn once: \<open>bytes\<close> is the draw, which only the first call uses.\<close>

definition get_or_create_server_secret :: "str \<Rightarrow> str \<Rightarrow> auth_db \<Rightarrow> (str \<times> auth_db) auth_result" where
  "get_or_create_server_secret bytes name d =
     rbind (ensure (\<not> blank name) ''secret name is required'') (\<lambda>_.
     case map_of (ad_secrets d) name of
       Some v \<Rightarrow> Inr (v, d)
     | None \<Rightarrow> Inr (bytes, d \<lparr> ad_secrets := tbl_put name bytes (ad_secrets d) \<rparr>))"

end
