(* ===== verification/Auth_Steps.thy ===== *)
theory Auth_Steps
  imports Auth
begin

section \<open>Histories of the authorization database\<close>

text \<open>
  One step is one successful call on the database, or a refused refresh, which may change it.
  The arguments of a call and the clock are arbitrary. The random draws carry what the code
  relies on: a new token hash and a new family are not yet in the tables. A run collects the
  labels of its steps, the latest last.
\<close>

datatype auth_event =
    Registered str
  | CodeStored str
  | Exchanged str
  | Rotated str
  | Refused str
  | ConsentRevoked str str
  | Quiet

definition tokens :: "auth_db \<Rightarrow> token_row set" where
  "tokens d = ran (map_of (ad_access d)) \<union> ran (map_of (ad_refresh d))"

definition families :: "auth_db \<Rightarrow> str set" where
  "families d = tk_family ` tokens d"

definition fresh_tokens :: "(str \<Rightarrow> str) \<Rightarrow> token_draw \<Rightarrow> auth_db \<Rightarrow> bool" where
  "fresh_tokens digest r d \<longleftrightarrow>
     map_of (ad_access d) (digest (td_access r)) = None \<and>
     map_of (ad_refresh d) (digest (td_refresh r)) = None"

inductive auth_step :: "(str \<Rightarrow> str) \<Rightarrow> auth_db \<Rightarrow> auth_event \<Rightarrow> auth_db \<Rightarrow> bool"
  for digest :: "str \<Rightarrow> str" where
  register: "register_client parse now uuid name uris d = Inr (client_id, d') \<Longrightarrow>
    auth_step digest d (Registered client_id) d'"
| store_code: "store_authorization_code now code client_id user_id challenge uri granted d = Inr d' \<Longrightarrow>
    auth_step digest d (CodeStored code) d'"
| exchange: "exchange_authorization_code_for_tokens digest now r code client_id verifier uri d = Inr d' \<Longrightarrow>
    fresh_tokens digest r d \<Longrightarrow> td_family r \<notin> families d \<Longrightarrow>
    auth_step digest d (Exchanged code) d'"
| rotate: "refresh_access_token digest now r t d = (Inr (), d') \<Longrightarrow>
    fresh_tokens digest r d \<Longrightarrow> auth_step digest d (Rotated (digest t)) d'"
| refuse: "refresh_access_token digest now r t d = (Inl e, d') \<Longrightarrow>
    auth_step digest d (Refused (digest t)) d'"
| store_token: "map_of (ad_access d) token_hash = None \<Longrightarrow> family \<notin> families d \<Longrightarrow>
    auth_step digest d Quiet (store_access_token_hash now family token_hash user_id granted d)"
| upsert: "upsert_user u d = Inr d' \<Longrightarrow> auth_step digest d Quiet d'"
| consent: "record_consent now user_id client_id granted d = Inr d' \<Longrightarrow> auth_step digest d Quiet d'"
| revoke: "auth_step digest d (ConsentRevoked user_id client_id) (revoke_consent now user_id client_id d)"
| touch: "auth_step digest d Quiet (touch_consent_last_used now user_id client_id d)"
| session: "create_session now session_id user_id ttl d = Inr d' \<Longrightarrow> auth_step digest d Quiet d'"
| end_session: "auth_step digest d Quiet (delete_session session_id d)"
| secret: "get_or_create_server_secret bytes name d = Inr (v, d') \<Longrightarrow> auth_step digest d Quiet d'"
| reopen: "auth_step digest d Quiet (open_auth_db now d)"

inductive auth_run :: "(str \<Rightarrow> str) \<Rightarrow> auth_db \<Rightarrow> auth_event list \<Rightarrow> auth_db \<Rightarrow> bool"
  for digest :: "str \<Rightarrow> str" and d :: auth_db where
  none: "auth_run digest d [] d"
| more: "auth_run digest d evs d' \<Longrightarrow> auth_step digest d' ev d'' \<Longrightarrow> auth_run digest d (evs @ [ev]) d''"

subsection \<open>What each operation does to the tables\<close>

named_theorems auth_simps \<open>lookups after the operations of the authorization database\<close>

lemma map_of_map_values: "map_of (map (\<lambda>(k, v). (k, f v)) t) k = map_option f (map_of t k)"
  by (induction t) auto

lemma map_of_revoke_where [auth_simps]:
  "map_of (revoke_where P now t) k = map_option (revoke_row P now) (map_of t k)"
  unfolding revoke_where_def by (rule map_of_map_values)

lemmas auth_defs =
  register_client_def store_authorization_code_def exchange_authorization_code_for_tokens_def
  upsert_user_def record_consent_def revoke_consent_def touch_consent_last_used_def
  create_session_def delete_session_def get_or_create_server_secret_def open_auth_db_def
  store_access_token_hash_def insert_row_def issue_token_pair_in_def exchange_checks_def

lemma token_row_of_sel [simp]:
  "tk_user (token_row_of now ttl u c f g) = u" "tk_client (token_row_of now ttl u c f g) = c"
  "tk_family (token_row_of now ttl u c f g) = f" "tk_revoked_at (token_row_of now ttl u c f g) = None"
  "tk_scopes (token_row_of now ttl u c f g) = encode_scopes g"
  "tk_expires_at (token_row_of now ttl u c f g) = now + ttl"
  by (simp_all add: token_row_of_def)

subsection \<open>A code is exchanged once\<close>

definition code_used :: "str \<Rightarrow> auth_db \<Rightarrow> bool" where
  "code_used code d \<longleftrightarrow> (\<exists>c. map_of (ad_codes d) code = Some c \<and> ac_used_at c \<noteq> None)"

lemma refresh_codes [simp]: "ad_codes (snd (refresh_access_token digest now r t d)) = ad_codes d"
  by (auto simp: refresh_access_token_def issue_token_pair_in_def revoke_token_family_def Let_def
      split: option.splits)

lemma refresh_result_codes: "refresh_access_token digest now r t d = (res, d') \<Longrightarrow> ad_codes d' = ad_codes d"
  using refresh_codes [of digest now r t d] by simp

lemma exchange_needs_unused:
  assumes "exchange_authorization_code_for_tokens digest now r code client_id verifier uri d = Inr d'"
  shows "\<not> code_used code d" and "code_used code d'"
  using assms by (auto simp: auth_defs code_used_def Let_def result_simps map_of_tbl_put)

lemma step_keeps_used: "auth_step digest d ev d' \<Longrightarrow> code_used c d \<Longrightarrow> code_used c d'"
  by (induction rule: auth_step.induct)
    (auto simp: auth_defs code_used_def Let_def result_simps map_of_tbl_put
      dest: refresh_result_codes split: option.splits if_splits prod.splits)

lemma run_exchanges:
  assumes "auth_run digest d evs d'"
  shows "distinct [c. Exchanged c \<leftarrow> evs] \<and>
    (\<forall>c \<in> set [c. Exchanged c \<leftarrow> evs]. \<not> code_used c d \<and> code_used c d') \<and>
    (\<forall>c. code_used c d \<longrightarrow> code_used c d')"
  using assms
proof (induction rule: auth_run.induct)
  case (more evs d' ev d'')
  show ?case
  proof (cases "\<exists>c. ev = Exchanged c")
    case True
    then obtain c where ev: "ev = Exchanged c" by blast
    with more.hyps(2) have "\<not> code_used c d'" "code_used c d''"
      by (auto elim: auth_step.cases dest: exchange_needs_unused)
    then show ?thesis
      using more.IH step_keeps_used [OF more.hyps(2)] ev by auto
  next
    case False
    then have "[c. Exchanged c \<leftarrow> [ev]] = []" by (cases ev) auto
    then show ?thesis
      using more.IH step_keeps_used [OF more.hyps(2)] by auto
  qed
qed simp

text \<open>
  C19. In any history of the authorization database, whatever the clock, the arguments and the
  random draws, every authorization code is exchanged for tokens at most once, and one that was
  used before the history began is never exchanged in it.
\<close>

theorem code_exchanged_once:
  assumes "auth_run digest d evs d'"
  shows "distinct [c. Exchanged c \<leftarrow> evs] \<and> (\<forall>c. code_used c d \<longrightarrow> Exchanged c \<notin> set evs)"
  using run_exchanges [OF assms] by auto


subsection \<open>Token families\<close>

definition unrevoked :: "token_row \<Rightarrow> bool" where
  "unrevoked row \<longleftrightarrow> tk_revoked_at row = None"

lemma revoke_row_sel [simp]:
  "tk_user (revoke_row P now row) = tk_user row" "tk_client (revoke_row P now row) = tk_client row"
  "tk_family (revoke_row P now row) = tk_family row" "tk_scopes (revoke_row P now row) = tk_scopes row"
  "unrevoked (revoke_row P now row) \<longleftrightarrow> \<not> P row \<and> unrevoked row"
  by (auto simp: revoke_row_def unrevoked_def)

text \<open>One refresh token of a family at most can still be rotated.\<close>

definition one_live :: "(str \<rightharpoonup> token_row) \<Rightarrow> bool" where
  "one_live m \<longleftrightarrow>
     (\<forall>h1 h2 r1 r2. m h1 = Some r1 \<longrightarrow> m h2 = Some r2 \<longrightarrow>
        unrevoked r1 \<longrightarrow> unrevoked r2 \<longrightarrow> tk_family r1 = tk_family r2 \<longrightarrow> h1 = h2)"

abbreviation one_live_refresh :: "auth_db \<Rightarrow> bool" where
  "one_live_refresh d \<equiv> one_live (map_of (ad_refresh d))"

lemma one_live_upd:
  assumes "one_live m" and "\<And>h r. m h = Some r \<Longrightarrow> unrevoked r \<Longrightarrow> tk_family r = tk_family rr \<Longrightarrow> h = k"
  shows "one_live (m(k \<mapsto> rr))"
  using assms unfolding one_live_def by (auto split: if_splits)

lemma one_live_revoke: "one_live m \<Longrightarrow> \<not> unrevoked row \<Longrightarrow> one_live (m(k \<mapsto> row))"
  by (auto simp: one_live_def split: if_splits)

text \<open>A family is dead when it is known and every token of it is revoked.\<close>

definition family_dead :: "str \<Rightarrow> auth_db \<Rightarrow> bool" where
  "family_dead f d \<longleftrightarrow> f \<in> families d \<and> (\<forall>row \<in> tokens d. tk_family row = f \<longrightarrow> \<not> unrevoked row)"

text \<open>
  The grant a token carries: user, client, scope words and family. A token of a code carries the
  user, the client and the scope words of the code.
\<close>

definition same_grant :: "token_row \<Rightarrow> token_row \<Rightarrow> bool" where
  "same_grant a b \<longleftrightarrow> tk_user a = tk_user b \<and> tk_client a = tk_client b \<and> tk_family a = tk_family b \<and>
     decode_scopes (tk_scopes a) = decode_scopes (tk_scopes b)"

definition grant_of_code :: "code_row \<Rightarrow> token_row \<Rightarrow> bool" where
  "grant_of_code c row \<longleftrightarrow> tk_user row = ac_user c \<and> tk_client row = Some (ac_client c) \<and>
     decode_scopes (tk_scopes row) = decode_scopes (ac_scopes c)"

definition token_update :: "(token_row \<Rightarrow> token_row) \<Rightarrow> bool" where
  "token_update g \<longleftrightarrow> (\<forall>row. same_grant (g row) row \<and> (unrevoked (g row) \<longrightarrow> unrevoked row))"

text \<open>
  Every step changes the token tables in one of four ways: an update that keeps the grant of
  every row and revives none, a pair of a new family for a code now used, a rotation within a
  family, or an access token without a client of a new family.
\<close>

inductive token_effect :: "auth_db \<Rightarrow> str option \<Rightarrow> auth_db \<Rightarrow> bool" where
  update: "token_update ga \<Longrightarrow> token_update gr \<Longrightarrow>
    map_of (ad_access d') = (\<lambda>h. map_option ga (map_of (ad_access d) h)) \<Longrightarrow>
    map_of (ad_refresh d') = (\<lambda>h. map_option gr (map_of (ad_refresh d) h)) \<Longrightarrow> token_effect d None d'"
| new_pair: "map_of (ad_access d) ha = None \<Longrightarrow> map_of (ad_refresh d) hr = None \<Longrightarrow>
    tk_family ra \<notin> families d \<Longrightarrow> tk_family rr = tk_family ra \<Longrightarrow>
    map_of (ad_codes d') code = Some c \<Longrightarrow> ac_used_at c \<noteq> None \<Longrightarrow>
    grant_of_code c ra \<Longrightarrow> grant_of_code c rr \<Longrightarrow>
    map_of (ad_access d') = (map_of (ad_access d))(ha \<mapsto> ra) \<Longrightarrow>
    map_of (ad_refresh d') = (map_of (ad_refresh d))(hr \<mapsto> rr) \<Longrightarrow> token_effect d (Some code) d'"
| rotation: "map_of (ad_access d) ha = None \<Longrightarrow> map_of (ad_refresh d) hr = None \<Longrightarrow>
    map_of (ad_refresh d) old = Some row \<Longrightarrow> unrevoked row \<Longrightarrow>
    same_grant ra row \<Longrightarrow> same_grant rr row \<Longrightarrow>
    map_of (ad_access d') = (map_of (ad_access d))(ha \<mapsto> ra) \<Longrightarrow>
    map_of (ad_refresh d') = (map_of (ad_refresh d))(old \<mapsto> row \<lparr> tk_revoked_at := Some now \<rparr>, hr \<mapsto> rr) \<Longrightarrow>
    token_effect d None d'"
| new_access: "map_of (ad_access d) ha = None \<Longrightarrow> tk_family ra \<notin> families d \<Longrightarrow> tk_client ra = None \<Longrightarrow>
    map_of (ad_access d') = (map_of (ad_access d))(ha \<mapsto> ra) \<Longrightarrow>
    map_of (ad_refresh d') = map_of (ad_refresh d) \<Longrightarrow> token_effect d None d'"

lemma token_update_id: "token_update (\<lambda>row. row)"
  by (simp add: token_update_def same_grant_def)

lemma token_update_revoke: "token_update (revoke_row P now)"
  by (simp add: token_update_def same_grant_def)

lemma token_update_renew:
  "token_update (\<lambda>row. if tk_expires_at row = 0 then row \<lparr> tk_expires_at := e \<rparr> else row)"
  by (simp add: token_update_def unrevoked_def same_grant_def)

lemma effect_same:
  "ad_access d' = ad_access d \<Longrightarrow> ad_refresh d' = ad_refresh d \<Longrightarrow> token_effect d None d'"
  by (rule token_effect.update [OF token_update_id token_update_id])
    (simp_all add: fun_eq_iff option.map_ident)

lemma effect_revoke:
  "ad_access d' = revoke_where P now (ad_access d) \<Longrightarrow> ad_refresh d' = revoke_where P now (ad_refresh d) \<Longrightarrow>
    token_effect d None d'"
  by (rule token_effect.update [OF token_update_revoke [of P now] token_update_revoke [of P now]])
    (simp_all add: fun_eq_iff map_of_revoke_where)

lemma effect_open: "token_effect d None (open_auth_db now d)"
  by (rule token_effect.update [OF token_update_renew token_update_renew])
    (auto simp: open_auth_db_def Let_def map_of_map_values fun_eq_iff)

lemma decode_again [simp]: "decode_scopes (encode_scopes (decode_scopes raw)) = decode_scopes raw"
  by (simp add: decode_encode decoded_words)

lemma exchange_result:
  assumes "exchange_authorization_code_for_tokens digest now r code client_id verifier uri d = Inr d'"
  obtains c where "map_of (ad_codes d) code = Some c" and "ac_used_at c = None"
    and "ac_client c = client_id" and "digest verifier = ac_challenge c"
    and "now < ac_expires_at c" and "ac_redirect c = uri"
    and "map_of (ad_codes d') = (map_of (ad_codes d))(code \<mapsto> c \<lparr> ac_used_at := Some now \<rparr>)"
    and "map_of (ad_access d') = (map_of (ad_access d))(digest (td_access r) \<mapsto>
      token_row_of now ACCESS_TOKEN_TTL_SECS (ac_user c) (Some client_id) (td_family r) (decode_scopes (ac_scopes c)))"
    and "map_of (ad_refresh d') = (map_of (ad_refresh d))(digest (td_refresh r) \<mapsto>
      token_row_of now REFRESH_TOKEN_TTL_SECS (ac_user c) (Some client_id) (td_family r) (decode_scopes (ac_scopes c)))"
  using assms by (auto simp: auth_defs Let_def result_simps map_of_tbl_put)

lemma effect_exchange:
  assumes "exchange_authorization_code_for_tokens digest now r code client_id verifier uri d = Inr d'"
    and "fresh_tokens digest r d" and "td_family r \<notin> families d"
  shows "token_effect d (Some code) d'"
proof -
  from assms(1) show ?thesis
  proof (rule exchange_result, goal_cases)
    case (1 c)
    show ?case
      by (rule token_effect.new_pair [OF _ _ _ _ _ _ _ _ 1(8) 1(9), of code "c \<lparr> ac_used_at := Some now \<rparr>"])
        (use assms 1(3,7) in \<open>simp_all add: fresh_tokens_def grant_of_code_def\<close>)
  qed
qed

lemma rotate_result:
  assumes "refresh_access_token digest now r t d = (Inr (), d')"
  obtains row where "map_of (ad_refresh d) (digest t) = Some row" and "unrevoked row"
    and "now < tk_expires_at row"
    and "map_of (ad_access d') = (map_of (ad_access d))(digest (td_access r) \<mapsto>
      token_row_of now ACCESS_TOKEN_TTL_SECS (tk_user row) (tk_client row) (tk_family row) (decode_scopes (tk_scopes row)))"
    and "map_of (ad_refresh d') = (map_of (ad_refresh d))
      (digest t \<mapsto> row \<lparr> tk_revoked_at := Some now \<rparr>, digest (td_refresh r) \<mapsto>
       token_row_of now REFRESH_TOKEN_TTL_SECS (tk_user row) (tk_client row) (tk_family row) (decode_scopes (tk_scopes row)))"
  using assms
  by (auto simp: refresh_access_token_def unrevoked_def issue_token_pair_in_def Let_def map_of_tbl_put
      split: option.splits if_splits)

lemma effect_rotate:
  assumes "refresh_access_token digest now r t d = (Inr (), d')" and "fresh_tokens digest r d"
  shows "token_effect d None d'"
proof -
  from assms(1) show ?thesis
  proof (rule rotate_result, goal_cases)
    case (1 row)
    show ?case
      by (rule token_effect.rotation [OF _ _ 1(1,2) _ _ 1(4,5)])
        (use assms(2) in \<open>simp_all add: fresh_tokens_def same_grant_def\<close>)
  qed
qed

lemma effect_refuse:
  assumes "refresh_access_token digest now r t d = (Inl e, d')"
  shows "token_effect d None d'"
proof -
  from assms have "d' = d \<or> (\<exists>f. d' = revoke_token_family now f d)"
    by (auto simp: refresh_access_token_def Let_def split: option.splits if_splits)
  then show ?thesis
    by (auto simp: revoke_token_family_def intro: effect_same effect_revoke)
qed

text \<open>The code an event exchanges.\<close>

fun exchanged_code :: "auth_event \<Rightarrow> str option" where
  "exchanged_code (Exchanged code) = Some code"
| "exchanged_code ev = None"

lemma step_effect: "auth_step digest d ev d' \<Longrightarrow> token_effect d (exchanged_code ev) d'"
proof (induction rule: auth_step.induct)
  case (store_token d token_hash family now user_id granted)
  then show ?case
    unfolding exchanged_code.simps
    by (intro token_effect.new_access [of d token_hash])
      (auto simp: store_access_token_hash_def map_of_tbl_put)
next
  case (revoke d user_id client_id now)
  show ?case
    unfolding exchanged_code.simps by (rule effect_revoke) (simp_all add: revoke_consent_def Let_def)
qed (auto simp: register_client_def store_authorization_code_def upsert_user_def record_consent_def
      touch_consent_last_used_def create_session_def delete_session_def
      get_or_create_server_secret_def Let_def result_simps
      intro: effect_same effect_open effect_exchange effect_rotate effect_refuse
      split: option.splits prod.splits)


subsection \<open>The invariants\<close>

lemma tokens_mem:
  "row \<in> tokens d \<longleftrightarrow> (\<exists>h. map_of (ad_access d) h = Some row) \<or> (\<exists>h. map_of (ad_refresh d) h = Some row)"
  by (auto simp: tokens_def ran_def)

lemma same_grant_refl [simp]: "same_grant row row"
  by (simp add: same_grant_def)

lemma same_grant_revoked [simp]: "same_grant (row \<lparr> tk_revoked_at := x \<rparr>) row"
  by (simp add: same_grant_def)

lemma not_revived [simp]: "\<not> unrevoked (row \<lparr> tk_revoked_at := Some now \<rparr>)"
  by (simp add: unrevoked_def)

definition code_grants :: "auth_db \<Rightarrow> str \<Rightarrow> token_row \<Rightarrow> bool" where
  "code_grants d code row \<longleftrightarrow>
     (\<exists>c. map_of (ad_codes d) code = Some c \<and> ac_used_at c \<noteq> None \<and> grant_of_code c row)"

definition from_code :: "auth_db \<Rightarrow> token_row \<Rightarrow> bool" where
  "from_code d row \<longleftrightarrow> tk_client row = None \<or> (\<exists>code. code_grants d code row)"

text \<open>Where a token after a step comes from.\<close>

definition descends :: "auth_db \<Rightarrow> token_row \<Rightarrow> bool" where
  "descends d row \<longleftrightarrow> (\<exists>old \<in> tokens d. same_grant row old \<and> (unrevoked row \<longrightarrow> unrevoked old))"

lemma descendsI: "old \<in> tokens d \<Longrightarrow> same_grant row old \<Longrightarrow> (unrevoked row \<Longrightarrow> unrevoked old) \<Longrightarrow> descends d row"
  by (auto simp: descends_def)

lemma effect_tokens:
  assumes "token_effect d ex d'" and "row \<in> tokens d'"
  shows "descends d row \<or>
    tk_family row \<notin> families d \<and> (tk_client row = None \<or> (\<exists>code. ex = Some code \<and> code_grants d' code row))"
  using assms(1)
proof cases
  case (update ga gr)
  with assms(2) obtain old g where "old \<in> tokens d" "row = g old" "token_update g"
    by (auto simp: tokens_mem)
  then show ?thesis by (auto simp: token_update_def intro: descendsI)
next
  case (new_pair ha hr ra rr code c)
  have "row \<in> tokens d \<or> row = ra \<or> row = rr"
    using assms(2) new_pair(10,11) by (auto simp: tokens_mem split: if_splits)
  moreover have "code_grants d' code ra" "code_grants d' code rr"
    using new_pair by (auto simp: code_grants_def)
  ultimately show ?thesis
    using new_pair(1,4,5) by (auto intro: descendsI)
next
  case (rotation ha hr old r ra rr now)
  have r: "r \<in> tokens d" using rotation(4) by (auto simp: tokens_mem)
  have "row \<in> tokens d \<or> row = ra \<or> row = rr \<or> row = r \<lparr> tk_revoked_at := Some now \<rparr>"
    using assms(2) rotation(8,9) by (auto simp: tokens_mem split: if_splits)
  then show ?thesis
    using rotation(5-7) r by (auto intro: descendsI)
next
  case (new_access ha ra)
  have "row \<in> tokens d \<or> row = ra"
    using assms(2) new_access(5,6) by (auto simp: tokens_mem split: if_splits)
  then show ?thesis
    using new_access by (auto intro: descendsI)
qed

lemma effect_families:
  assumes "token_effect d ex d'"
  shows "families d \<subseteq> families d'"
proof -
  have kept: "\<exists>new \<in> tokens d'. tk_family new = tk_family row" if "row \<in> tokens d" for row
    using assms
  proof cases
    case (update ga gr)
    then show ?thesis
      using that by (fastforce simp: tokens_mem token_update_def same_grant_def)
  next
    case (new_pair ha hr ra rr code c)
    then have "row \<in> tokens d'"
      using that unfolding tokens_mem by (metis fun_upd_apply option.distinct(1))
    then show ?thesis by blast
  next
    case (rotation ha hr old r ra rr now)
    then have "row \<in> tokens d' \<or> row = r"
      using that unfolding tokens_mem by (metis fun_upd_apply option.distinct(1) option.inject)
    moreover have "rr \<in> tokens d'" "tk_family rr = tk_family r"
      using rotation(7,9) by (auto simp: tokens_mem same_grant_def)
    ultimately show ?thesis by blast
  next
    case (new_access ha ra)
    then have "row \<in> tokens d'"
      using that unfolding tokens_mem by (metis fun_upd_apply option.distinct(1))
    then show ?thesis by blast
  qed
  show ?thesis
  proof
    fix f
    assume "f \<in> families d"
    then obtain row where "row \<in> tokens d" "f = tk_family row" by (auto simp: families_def)
    with kept [of row] show "f \<in> families d'" by (metis families_def image_eqI)
  qed
qed

lemma effect_dead:
  assumes "token_effect d ex d'" and "family_dead f d"
  shows "family_dead f d'"
proof -
  have "\<not> unrevoked row" if "row \<in> tokens d'" "tk_family row = f" for row
    using effect_tokens [OF assms(1) that(1)] that(2) assms(2)
    by (auto simp: descends_def family_dead_def same_grant_def)
  then show ?thesis
    using assms(2) effect_families [OF assms(1)] by (auto simp: family_dead_def)
qed

text \<open>Every token a client holds stems from a code of that user and client that was exchanged.\<close>

definition tokens_from_codes :: "auth_db \<Rightarrow> bool" where
  "tokens_from_codes d \<longleftrightarrow> (\<forall>row \<in> tokens d. from_code d row)"

lemma step_keeps_used_code:
  "auth_step digest d ev d' \<Longrightarrow> map_of (ad_codes d) code = Some c \<Longrightarrow> ac_used_at c \<noteq> None \<Longrightarrow>
    map_of (ad_codes d') code = Some c"
  by (induction rule: auth_step.induct)
    (auto simp: auth_defs Let_def result_simps map_of_tbl_put
      dest: refresh_result_codes split: option.splits if_splits prod.splits)

lemma step_from_codes:
  assumes "auth_step digest d ev d'" and "tokens_from_codes d"
  shows "tokens_from_codes d'"
  unfolding tokens_from_codes_def
proof
  fix row
  assume "row \<in> tokens d'"
  from effect_tokens [OF step_effect [OF assms(1)] this] show "from_code d' row"
  proof
    assume "descends d row"
    then obtain old where "old \<in> tokens d" and grant: "same_grant row old"
      by (auto simp: descends_def)
    with assms(2) have "from_code d old" by (simp add: tokens_from_codes_def)
    with grant show ?thesis
      using step_keeps_used_code [OF assms(1)]
      unfolding from_code_def code_grants_def grant_of_code_def same_grant_def by metis
  qed (auto simp: from_code_def)
qed

lemma effect_one_live:
  assumes "token_effect d ex d'" and "one_live_refresh d"
  shows "one_live_refresh d'"
  using assms(1)
proof cases
  case (update ga gr)
  have same: "unrevoked (gr row) \<Longrightarrow> unrevoked row" "tk_family (gr row) = tk_family row" for row
    using update(3) by (simp_all add: token_update_def same_grant_def)
  then show ?thesis
    using assms(2) update(5) unfolding one_live_def by auto
next
  case (new_pair ha hr ra rr code c)
  have "tk_family row \<noteq> tk_family rr" if "map_of (ad_refresh d) h = Some row" for h row
    using that new_pair(4,5) by (metis families_def image_eqI tokens_mem)
  then show ?thesis
    unfolding new_pair(11) by (intro one_live_upd assms(2)) blast
next
  case (rotation ha hr old row ra rr now)
  let ?m = "(map_of (ad_refresh d))(old \<mapsto> row \<lparr> tk_revoked_at := Some now \<rparr>)"
  have m: "one_live ?m" by (rule one_live_revoke [OF assms(2)]) simp
  have no: "False" if "?m h = Some r" "unrevoked r" "tk_family r = tk_family rr" for h r
    using rotation(4,5,7) that assms(2)
    by (auto simp: one_live_def same_grant_def unrevoked_def split: if_splits)
  show ?thesis
    unfolding rotation(9) by (rule one_live_upd [OF m]) (use no in blast)
next
  case (new_access ha ra)
  then show ?thesis using assms(2) by simp
qed

lemma run_invariants:
  assumes "auth_run digest d evs d'"
  shows "one_live_refresh d \<Longrightarrow> one_live_refresh d'" and "family_dead f d \<Longrightarrow> family_dead f d'"
    and "tokens_from_codes d \<Longrightarrow> tokens_from_codes d'"
  using assms
  by (induction rule: auth_run.induct)
    (auto dest: effect_one_live [OF step_effect] effect_dead [OF step_effect] step_from_codes)

lemma empty_auth_invariants: "one_live_refresh empty_auth_db" "tokens_from_codes empty_auth_db"
  by (simp_all add: one_live_def tokens_from_codes_def tokens_def empty_auth_db_def)

text \<open>
  C23. In every database the code can reach, each token family has at most one refresh token that
  can still be rotated, and every access or refresh token of a client carries the user, the
  client and exactly the scopes of an authorization code that was exchanged.
\<close>

theorem reachable_tokens:
  assumes "auth_run digest empty_auth_db evs d"
  shows "one_live_refresh d \<and> tokens_from_codes d"
  using run_invariants [OF assms] empty_auth_invariants by blast

lemma revoke_token_family_dead:
  assumes "row \<in> tokens d"
  shows "family_dead (tk_family row) (revoke_token_family now (tk_family row) d)"
proof -
  have "token_effect d None (revoke_token_family now (tk_family row) d)"
    by (rule effect_revoke) (simp_all add: revoke_token_family_def)
  from effect_families [OF this] assms
  have "tk_family row \<in> families (revoke_token_family now (tk_family row) d)"
    by (auto simp: families_def)
  then show ?thesis
    by (auto simp: family_dead_def tokens_mem revoke_token_family_def map_of_revoke_where)
qed

lemma dead_no_grant:
  assumes "family_dead f d" and "map_of (ad_access d) h = Some row" and "tk_family row = f"
  shows "access_token_grant now h d = None"
  using assms by (auto simp: family_dead_def tokens_mem access_token_grant_def live_def unrevoked_def)

lemma dead_no_rotation:
  assumes "family_dead f d" and "map_of (ad_refresh d) (digest t) = Some row" and "tk_family row = f"
  shows "\<not> is_ok (fst (refresh_access_token digest now r t d))"
  using assms by (auto simp: family_dead_def tokens_mem refresh_access_token_def unrevoked_def Let_def)

text \<open>
  C20. A refresh token presented after its rotation or revocation revokes its whole family for
  good: the call fails, and in every later state no access token of the family is accepted and no
  refresh token of it can be rotated.
\<close>

theorem reuse_kills_family:
  assumes "map_of (ad_refresh d) (digest t) = Some row" and "\<not> unrevoked row"
    and "refresh_access_token digest now r t d = (res, d1)" and "auth_run digest d1 evs d2"
  shows "res = Inl ''refresh token reuse detected; token family revoked'' \<and>
    (\<forall>h a later. map_of (ad_access d2) h = Some a \<longrightarrow> tk_family a = tk_family row \<longrightarrow>
       access_token_grant later h d2 = None) \<and>
    (\<forall>t' b later r'. map_of (ad_refresh d2) (digest t') = Some b \<longrightarrow> tk_family b = tk_family row \<longrightarrow>
       \<not> is_ok (fst (refresh_access_token digest later r' t' d2)))"
proof -
  from assms(1) have "row \<in> tokens d" by (auto simp: tokens_mem)
  moreover have "res = Inl ''refresh token reuse detected; token family revoked''"
    and "d1 = revoke_token_family now (tk_family row) d"
    using assms(1-3) by (auto simp: refresh_access_token_def unrevoked_def Let_def)
  ultimately have "res = Inl ''refresh token reuse detected; token family revoked''"
    and "family_dead (tk_family row) d2"
    using revoke_token_family_dead run_invariants(2) [OF assms(4)] by auto
  then show ?thesis
    using dead_no_grant dead_no_rotation by auto
qed


subsection \<open>Revoking a consent\<close>

definition client_out :: "str \<Rightarrow> str \<Rightarrow> auth_db \<Rightarrow> bool" where
  "client_out user_id client_id d \<longleftrightarrow>
     (\<forall>row \<in> tokens d. tk_user row = user_id \<longrightarrow> tk_client row = Some client_id \<longrightarrow> \<not> unrevoked row)"

definition code_for :: "str \<Rightarrow> str \<Rightarrow> str \<Rightarrow> auth_db \<Rightarrow> bool" where
  "code_for user_id client_id code d \<longleftrightarrow>
     (\<exists>c. map_of (ad_codes d) code = Some c \<and> ac_user c = user_id \<and> ac_client c = client_id)"

lemma revoke_consent_out: "client_out user_id client_id (revoke_consent now user_id client_id d)"
  unfolding client_out_def
proof (intro ballI impI)
  fix row
  assume row: "row \<in> tokens (revoke_consent now user_id client_id d)"
    "tk_user row = user_id" "tk_client row = Some client_id"
  let ?mine = "\<lambda>row. tk_user row = user_id \<and> tk_client row = Some client_id"
  from row(1) obtain z where "row = revoke_row ?mine now z"
    by (auto simp: tokens_mem revoke_consent_def map_of_revoke_where Let_def)
  with row(2,3) show "\<not> unrevoked row" by simp
qed

lemma step_client_out:
  assumes "auth_step digest d ev d'" and "client_out user_id client_id d"
    and "\<And>code. ev = Exchanged code \<Longrightarrow> \<not> code_for user_id client_id code d'"
  shows "client_out user_id client_id d'"
  unfolding client_out_def
proof (intro ballI impI)
  fix row
  assume row: "row \<in> tokens d'" "tk_user row = user_id" "tk_client row = Some client_id"
  have "\<not> (exchanged_code ev = Some code \<and> code_grants d' code row)" for code
    using assms(3) row(2,3)
    by (cases ev) (auto simp: code_grants_def code_for_def grant_of_code_def)
  with effect_tokens [OF step_effect [OF assms(1)] row(1)] row(3) have "descends d row" by auto
  then show "\<not> unrevoked row"
    using assms(2) row(2,3) by (auto simp: descends_def client_out_def same_grant_def)
qed

lemma used_code_for:
  "auth_run digest d evs d' \<Longrightarrow> code_used code d \<Longrightarrow> code_for u c code d' \<longleftrightarrow> code_for u c code d"
proof (induction rule: auth_run.induct)
  case (more evs d' ev d'')
  then obtain r where "map_of (ad_codes d') code = Some r" "ac_used_at r \<noteq> None"
    using run_exchanges code_used_def by blast
  with step_keeps_used_code [OF more.hyps(2)] more show ?case
    by (simp add: code_for_def)
qed simp

lemma run_client_out:
  assumes "auth_run digest d evs d'" and "client_out user_id client_id d"
    and "\<forall>code. Exchanged code \<in> set evs \<longrightarrow> \<not> code_for user_id client_id code d'"
  shows "client_out user_id client_id d'"
  using assms
proof (induction rule: auth_run.induct)
  case (more evs d' ev d'')
  have kept: "code_for user_id client_id code d'' \<longleftrightarrow> code_for user_id client_id code d'"
    if "Exchanged code \<in> set evs" for code
  proof -
    have "code_used code d'"
      using run_exchanges [OF more.hyps(1)] that by force
    then show ?thesis
      using used_code_for [OF auth_run.more [OF auth_run.none more.hyps(2)]] by blast
  qed
  then have "client_out user_id client_id d'"
    using more.IH more.prems by auto
  then show ?case
    by (rule step_client_out [OF more.hyps(2)]) (use more.prems in auto)
qed simp

text \<open>
  C24. After a consent is revoked no token of that user and client is accepted, and in every later
  history none is unless an authorization code of that user and client is exchanged again.
\<close>

theorem revoked_client_stays_out:
  assumes "auth_run digest (revoke_consent now user_id client_id d) evs d'"
    and "\<forall>code. Exchanged code \<in> set evs \<longrightarrow> \<not> code_for user_id client_id code d'"
    and "access_token_grant later h d' = Some (user_id, cl, scopes)"
  shows "cl \<noteq> Some client_id"
proof -
  from assms(3) obtain row where "row \<in> tokens d'" "unrevoked row" "tk_user row = user_id" "tk_client row = cl"
    by (auto simp: access_token_grant_def live_def unrevoked_def tokens_mem split: option.splits if_splits)
  then show ?thesis
    using run_client_out [OF assms(1) revoke_consent_out assms(2)] by (auto simp: client_out_def)
qed

text \<open>
  The exception is real: the revocation leaves the codes, so a code issued before it is still
  exchanged for live tokens after it.
\<close>

lemma revocation_leaves_codes:
  "is_ok (exchange_authorization_code_for_tokens digest now r code cl verifier uri (revoke_consent now' u c d)) \<longleftrightarrow>
    is_ok (exchange_authorization_code_for_tokens digest now r code cl verifier uri d)"
  by (auto simp: is_ok_iff auth_defs Let_def result_simps)

subsection \<open>Accounts\<close>

definition accounts_ok :: "auth_db \<Rightarrow> bool" where
  "accounts_ok d \<longleftrightarrow>
     (\<forall>u row. map_of (ad_users d) u = Some row \<longrightarrow> is_ok (from_columns (us_kind row) (us_external_id row))) \<and>
     (\<forall>i s. map_of (ad_sessions d) i = Some s \<longrightarrow> map_of (ad_users d) (ss_user s) \<noteq> None) \<and>
     fst ` dom (map_of (ad_consents d)) \<subseteq> dom (map_of (ad_users d))"

lemma map_of_without: "map_of [(k, v) \<leftarrow> t. k \<noteq> x] = (map_of t)(x := None)"
  by (induction t) (auto simp: fun_eq_iff)

lemma stored_kind_ok: "is_ok (from_columns (fst (to_columns k)) (case snd (to_columns k) of Some e \<Rightarrow> Some e | None \<Rightarrow> x))"
  by (cases k) (simp_all add: from_columns_def)

lemma accounts_ok_put_user:
  "accounts_ok d \<Longrightarrow> is_ok (from_columns (us_kind w) (us_external_id w)) \<Longrightarrow>
    accounts_ok (d \<lparr> ad_users := tbl_put u w (ad_users d) \<rparr>)"
  unfolding accounts_ok_def
  by (intro conjI) (simp_all add: map_of_tbl_put subset_insertI2)

lemma accounts_ok_upsert:
  assumes "upsert_user u d = Inr d'" and "accounts_ok d"
  shows "accounts_ok d'"
proof -
  from assms(1) obtain w where "d' = d \<lparr> ad_users := tbl_put (ur_id u) w (ad_users d) \<rparr>"
    and "is_ok (from_columns (us_kind w) (us_external_id w))"
    using stored_kind_ok [of "ur_kind u" "ur_external_id u"]
    by (auto simp: upsert_user_def Let_def result_simps split_beta)
  then show ?thesis using accounts_ok_put_user [OF assms(2)] by simp
qed

lemma refresh_accounts:
  assumes "refresh_access_token digest now r t d = (res, d')"
  shows "ad_users d' = ad_users d \<and> ad_sessions d' = ad_sessions d \<and> ad_consents d' = ad_consents d"
  using assms by (auto simp: refresh_access_token_def issue_token_pair_in_def revoke_token_family_def Let_def
      split: option.splits if_splits)

lemma accounts_frame:
  "accounts_ok d \<Longrightarrow> ad_users d' = ad_users d \<Longrightarrow> ad_sessions d' = ad_sessions d \<Longrightarrow>
    dom (map_of (ad_consents d')) = dom (map_of (ad_consents d)) \<Longrightarrow> accounts_ok d'"
  by (simp add: accounts_ok_def)

lemma step_accounts: "auth_step digest d ev d' \<Longrightarrow> accounts_ok d \<Longrightarrow> accounts_ok d'"
proof (induction rule: auth_step.induct)
  case (upsert u d d')
  then show ?case by (rule accounts_ok_upsert)
next
  case (consent now user_id client_id granted d d')
  then show ?case
    by (clarsimp simp: record_consent_def Let_def result_simps)
      (simp add: accounts_ok_def tbl.dom_put domIff)
next
  case (session now session_id user_id ttl d d')
  then show ?case
    by (clarsimp simp: create_session_def insert_row_def result_simps split: if_splits)
      (simp add: accounts_ok_def map_of_tbl_put)
next
  case (end_session d session_id)
  then show ?case by (auto simp: accounts_ok_def delete_session_def map_of_without)
next
  case (revoke d user_id client_id now)
  then show ?case
    by (rule accounts_frame) (simp_all add: revoke_consent_def Let_def tbl.dom_upd)
next
  case (touch d now user_id client_id)
  then show ?case
    by (rule accounts_frame) (simp_all add: touch_consent_last_used_def tbl.dom_upd)
qed (auto simp: register_client_def store_authorization_code_def
      exchange_authorization_code_for_tokens_def issue_token_pair_in_def store_access_token_hash_def
      get_or_create_server_secret_def open_auth_db_def Let_def result_simps
      elim!: accounts_frame dest: refresh_accounts split: option.splits)

text \<open>
  C25. In every reachable database the stored user kinds decode: loading a user never fails, and
  the user of every session and of every consent exists.
\<close>

theorem stored_users_decode:
  assumes "auth_run digest empty_auth_db evs d"
  shows "(\<forall>u. is_ok (get_user u d)) \<and>
    (\<forall>i s. map_of (ad_sessions d) i = Some s \<longrightarrow> get_user (ss_user s) d \<noteq> Inr None) \<and>
    (\<forall>u c row. get_consent u c d = Some row \<longrightarrow> get_user u d \<noteq> Inr None)"
proof -
  have "accounts_ok empty_auth_db" by (simp add: accounts_ok_def empty_auth_db_def)
  with assms have "accounts_ok d"
    by (induction rule: auth_run.induct) (auto dest: step_accounts)
  then show ?thesis
    by (fastforce simp: accounts_ok_def get_user_def get_consent_def is_ok_iff result_simps split: option.splits)
qed


subsection \<open>A sample history\<close>

definition sample_code :: code_row where
  "sample_code =
     \<lparr> ac_client = ''app'', ac_user = ''ann'', ac_challenge = ''v'', ac_redirect = ''cb'', ac_used_at = None,
       ac_expires_at = 610, ac_created_at = 10, ac_scopes = ''claims:read'' \<rparr>"

definition sample_draw :: token_draw where
  "sample_draw = \<lparr> td_access = ''a'', td_refresh = ''r'', td_family = ''f'' \<rparr>"

definition after_exchange :: auth_db where
  "after_exchange = empty_auth_db
     \<lparr> ad_codes := [(''c'', sample_code \<lparr> ac_used_at := Some 20 \<rparr>)],
       ad_access := [(''a'', token_row_of 20 ACCESS_TOKEN_TTL_SECS ''ann'' (Some ''app'') ''f'' [''claims:read''])],
       ad_refresh := [(''r'', token_row_of 20 REFRESH_TOKEN_TTL_SECS ''ann'' (Some ''app'') ''f'' [''claims:read''])] \<rparr>"

lemma auth_sample_run:
  "auth_run (\<lambda>x. x) empty_auth_db [CodeStored ''c'', Exchanged ''c''] after_exchange"
proof -
  let ?d = "empty_auth_db \<lparr> ad_codes := [(''c'', sample_code)] \<rparr>"
  have "store_authorization_code 10 ''c'' ''app'' ''ann'' ''v'' ''cb'' [''claims:read''] empty_auth_db = Inr ?d"
    by code_simp
  then have 1: "auth_step (\<lambda>x. x) empty_auth_db (CodeStored ''c'') ?d" by (rule auth_step.store_code)
  have "exchange_authorization_code_for_tokens (\<lambda>x. x) 20 sample_draw ''c'' ''app'' ''v'' ''cb'' ?d = Inr after_exchange"
    by code_simp
  then have 2: "auth_step (\<lambda>x. x) ?d (Exchanged ''c'') after_exchange"
    by (rule auth_step.exchange)
      (simp_all add: fresh_tokens_def families_def tokens_def empty_auth_db_def)
  from auth_run.more [OF auth_run.more [OF auth_run.none 1] 2] show ?thesis by simp
qed


theorem code_exchanged_once_witness:
  "distinct [c. Exchanged c \<leftarrow> [CodeStored ''c'', Exchanged ''c'']]"
  using code_exchanged_once [OF auth_sample_run] by (rule conjunct1)

theorem reachable_tokens_witness: "one_live_refresh after_exchange \<and> tokens_from_codes after_exchange"
  by (rule reachable_tokens [OF auth_sample_run])

theorem stored_users_decode_witness: "is_ok (get_user ''ann'' after_exchange)"
  using stored_users_decode [OF auth_sample_run] by blast

definition after_reuse :: "unit auth_result \<times> auth_db" where
  "after_reuse = refresh_access_token (\<lambda>x. x) 40 sample_draw ''r'' (revoke_token_family 30 ''f'' after_exchange)"

theorem reuse_kills_family_witness:
  "fst after_reuse = Inl ''refresh token reuse detected; token family revoked''"
proof -
  let ?row = "(token_row_of 20 REFRESH_TOKEN_TTL_SECS ''ann'' (Some ''app'') ''f'' [''claims:read''])
    \<lparr> tk_revoked_at := Some 30 \<rparr>"
  have "map_of (ad_refresh (revoke_token_family 30 ''f'' after_exchange)) ''r'' = Some ?row"
    by (simp add: revoke_token_family_def map_of_revoke_where after_exchange_def revoke_row_def token_row_of_def)
  moreover have "\<not> unrevoked ?row" by simp
  moreover have "refresh_access_token (\<lambda>x. x) 40 sample_draw ''r'' (revoke_token_family 30 ''f'' after_exchange) =
      (fst after_reuse, snd after_reuse)"
    by (simp add: after_reuse_def)
  ultimately show ?thesis
    using reuse_kills_family [where digest = "\<lambda>x. x" and t = "''r''", OF _ _ _ auth_run.none] by blast
qed

theorem revoked_client_stays_out_witness:
  "access_token_grant 40 ''a'' (revoke_consent 30 ''ann'' ''other'' after_exchange) =
      Some (''ann'', Some ''app'', ''claims:read'') \<and> Some ''app'' \<noteq> Some ''other''"
proof
  show grant: "access_token_grant 40 ''a'' (revoke_consent 30 ''ann'' ''other'' after_exchange) =
      Some (''ann'', Some ''app'', ''claims:read'')"
    by code_simp
  show "Some ''app'' \<noteq> Some ''other''"
    by (rule revoked_client_stays_out [OF auth_run.none _ grant]) simp
qed

end
