(* ===== verification/Consent.thy ===== *)
theory Consent
  imports Auth_Steps Ontology
begin

section \<open>The consent flow and the token endpoint\<close>

text \<open>
  The handlers of \<open>crates/aver-server/src/consent.rs\<close> and \<open>http.rs\<close>: the consent screen, the
  decision, the revocation, the registration, the token endpoint and the bearer check. A handler
  takes the database to a response and the database it leaves; most refusals leave it changed
  only by the sign-in. \<open>web\<close> holds what the handlers take from outside: the clock, the URL parser,
  the HMAC in URL-safe base64, the header-name parser, the digest and the random draws of one
  request. A response keeps the status and the arguments of the page template, for an unknown scope
  its raw text; rendering, the fixed security headers, the poisoned lock and SQLite failures are
  not modelled.
\<close>

record web =
  wv_now :: int
  wv_parse :: "str \<Rightarrow> url option"
  wv_mac :: "str \<Rightarrow> str \<Rightarrow> str"
  wv_header_name :: "str \<Rightarrow> str option"
  wv_digest :: "str \<Rightarrow> str"
  wv_session :: str
  wv_secret :: str
  wv_code :: str
  wv_uuid :: str
  wv_draw :: token_draw

record consent_deps =
  cf_base_url :: str
  cf_trusted_auth_header :: "str option"

definition SESSION_COOKIE_NAME :: str where "SESSION_COOKIE_NAME = ''aver_session''"
definition SESSION_TTL_SECS :: int where "SESSION_TTL_SECS = 24 * 60 * 60"
definition LOCAL_USER_ID :: str where "LOCAL_USER_ID = ''local''"
definition CSRF_SECRET_NAME :: str where "CSRF_SECRET_NAME = ''csrf_hmac''"

subsection \<open>Who is asking\<close>

definition sign_in :: "user \<Rightarrow> auth_db \<Rightarrow> user option auth_result \<times> auth_db" where
  "sign_in u d =
     (case upsert_user u d of
        Inl e \<Rightarrow> (Inl e, d)
      | Inr d' \<Rightarrow> (get_user (ur_id u) d', d'))"

definition header_user :: "web \<Rightarrow> headers \<Rightarrow> str option \<Rightarrow> str option" where
  "header_user w hs trusted =
     (case trusted of
        None \<Rightarrow> None
      | Some header_name \<Rightarrow>
          (case wv_header_name w (trim header_name) of
             None \<Rightarrow> None
           | Some name \<Rightarrow>
               (case header_text hs name of
                  None \<Rightarrow> None
                | Some text \<Rightarrow>
                    let raw = trim text;
                        user_id = trim (takeWhile (\<lambda>c. c \<noteq> CHR '','') raw)
                    in if raw = [] \<or> user_id = [] then None else Some user_id)))"

definition authenticate_request ::
  "web \<Rightarrow> bool \<Rightarrow> headers \<Rightarrow> str option \<Rightarrow> auth_db \<Rightarrow> user option auth_result \<times> auth_db" where
  "authenticate_request w loopback hs trusted d =
     (if loopback
      then sign_in \<lparr> ur_id = LOCAL_USER_ID, ur_kind = Local, ur_external_id = None, ur_created_at = wv_now w \<rparr> d
      else case header_user w hs trusted of
             None \<Rightarrow> (Inr None, d)
           | Some user_id \<Rightarrow>
               sign_in \<lparr> ur_id = user_id, ur_kind = Header, ur_external_id = None, ur_created_at = wv_now w \<rparr> d)"

fun find_cookie :: "str \<Rightarrow> str list \<Rightarrow> str option" where
  "find_cookie name [] = None"
| "find_cookie name (pair # rest) =
     (case split_once (CHR ''='') (trim pair) of
        Some (k, v) \<Rightarrow> if k = name then Some v else find_cookie name rest
      | None \<Rightarrow> find_cookie name rest)"

definition read_cookie :: "headers \<Rightarrow> str \<Rightarrow> str option" where
  "read_cookie hs name =
     (case header_text hs ''cookie'' of
        None \<Rightarrow> None
      | Some raw \<Rightarrow> find_cookie name (split_on (\<lambda>c. c = CHR '';'') raw))"

definition current_session :: "web \<Rightarrow> headers \<Rightarrow> auth_db \<Rightarrow> (str \<times> user) option" where
  "current_session w hs d =
     (case read_cookie hs SESSION_COOKIE_NAME of
        None \<Rightarrow> None
      | Some session_id \<Rightarrow>
          (case get_session (wv_now w) session_id d of
             None \<Rightarrow> None
           | Some s \<Rightarrow>
               (case get_user (ss_user s) d of
                  Inr (Some u) \<Rightarrow> Some (session_id, u)
                | _ \<Rightarrow> None)))"

definition session_cookie_header :: "str \<Rightarrow> int \<Rightarrow> str" where
  "session_cookie_header session_id ttl_secs =
     SESSION_COOKIE_NAME @ ''='' @ session_id @ ''; HttpOnly; SameSite=Lax; Path=/; Max-Age='' @ show_int ttl_secs"

definition ensure_session :: "web \<Rightarrow> headers \<Rightarrow> str \<Rightarrow> auth_db \<Rightarrow> ((str \<times> bool) \<times> auth_db) auth_result" where
  "ensure_session w hs user_id d =
     (case current_session w hs d of
        Some (session_id, u) \<Rightarrow>
          if ur_id u = user_id then Inr ((session_id, False), d)
          else rbind (create_session (wv_now w) (wv_session w) user_id SESSION_TTL_SECS d)
                 (\<lambda>d'. Inr ((wv_session w, True), d'))
      | None \<Rightarrow>
          rbind (create_session (wv_now w) (wv_session w) user_id SESSION_TTL_SECS d)
            (\<lambda>d'. Inr ((wv_session w, True), d')))"

subsection \<open>The anti-CSRF token\<close>

definition compute_csrf_token :: "(str \<Rightarrow> str \<Rightarrow> str) \<Rightarrow> str \<Rightarrow> str \<Rightarrow> str \<Rightarrow> str \<Rightarrow> str" where
  "compute_csrf_token mac server_secret session_id client_id code_challenge =
     mac server_secret (session_id @ ''|'' @ client_id @ ''|'' @ code_challenge)"

definition verify_csrf_token :: "(str \<Rightarrow> str \<Rightarrow> str) \<Rightarrow> str \<Rightarrow> str \<Rightarrow> str \<Rightarrow> str \<Rightarrow> str \<Rightarrow> bool" where
  "verify_csrf_token mac server_secret session_id client_id code_challenge presented =
     constant_time_eq (compute_csrf_token mac server_secret session_id client_id code_challenge) presented"

definition consent_covers :: "str list \<Rightarrow> str list \<Rightarrow> bool" where
  "consent_covers granted requested = list_all (\<lambda>r. list_ex (\<lambda>g. g = r) granted) requested"

subsection \<open>Responses\<close>

record consent_page =
  cp_client_id :: str
  cp_client_name :: str
  cp_redirect_uri :: str
  cp_registered_at :: int
  cp_scope_options :: "(str \<times> str \<times> bool) list"
  cp_hidden_inputs :: "(str \<times> str) list"
  cp_code_challenge :: str
  cp_code_challenge_method :: str
  cp_csrf_token :: str

datatype response =
    Message nat str str
  | ConsentScreen consent_page "str option"
  | RedirectTo str "(str \<times> str) list" "str option"

type_synonym handler = "auth_db \<Rightarrow> response \<times> auth_db"

definition redirect_with ::
  "web \<Rightarrow> str \<Rightarrow> str \<Rightarrow> str \<Rightarrow> str option \<Rightarrow> str option \<Rightarrow> response" where
  "redirect_with w redirect_uri key value state set_cookie =
     (case wv_parse w redirect_uri of
        None \<Rightarrow> Message 400 ''Invalid redirect_uri'' ''redirect_uri did not parse.''
      | Some _ \<Rightarrow>
          RedirectTo redirect_uri
            ((key, value) # (case state of None \<Rightarrow> [] | Some s \<Rightarrow> [(''state'', s)])) set_cookie)"

definition redirect_with_code :: "web \<Rightarrow> str \<Rightarrow> str \<Rightarrow> str option \<Rightarrow> str option \<Rightarrow> response" where
  "redirect_with_code w redirect_uri code state set_cookie =
     redirect_with w redirect_uri ''code'' code state set_cookie"

definition redirect_with_error :: "web \<Rightarrow> str \<Rightarrow> str \<Rightarrow> str option \<Rightarrow> response" where
  "redirect_with_error w redirect_uri error state =
     redirect_with w redirect_uri ''error'' error state None"

definition scope_checkbox_field :: "str \<Rightarrow> str" where
  "scope_checkbox_field scope = ''grant_'' @ map (\<lambda>c. if c = CHR '':'' then CHR ''_'' else c) scope"

definition scope_options :: "str list \<Rightarrow> (str \<times> str \<times> bool) list" where
  "scope_options requested =
     map (\<lambda>s. let scope = oauth_scope_as_str s
              in (scope_checkbox_field scope, scope, list_ex (\<lambda>r. r = scope) requested)) SUPPORTED"

definition parse_scope :: "str option \<Rightarrow> str list" where
  "parse_scope raw = split_ascii_whitespace (case raw of None \<Rightarrow> [] | Some r \<Rightarrow> r)"

subsection \<open>The authorize request\<close>

record authorize_query =
  aq_response_type :: str
  aq_client_id :: str
  aq_redirect_uri :: str
  aq_code_challenge :: str
  aq_code_challenge_method :: str
  aq_scope :: "str option"
  aq_state :: "str option"

definition render_consent_page ::
  "authorize_query \<Rightarrow> client_row \<Rightarrow> str list \<Rightarrow> str \<Rightarrow> consent_page" where
  "render_consent_page q client scopes csrf =
     \<lparr> cp_client_id = aq_client_id q, cp_client_name = oc_name client,
       cp_redirect_uri = aq_redirect_uri q, cp_registered_at = oc_created_at client,
       cp_scope_options = scope_options scopes,
       cp_hidden_inputs = (case aq_scope q of None \<Rightarrow> [] | Some s \<Rightarrow> [(''scope'', s)])
                          @ (case aq_state q of None \<Rightarrow> [] | Some s \<Rightarrow> [(''state'', s)]),
       cp_code_challenge = aq_code_challenge q,
       cp_code_challenge_method = aq_code_challenge_method q, cp_csrf_token = csrf \<rparr>"

fun origin_error_text :: "origin_error \<Rightarrow> str" where
  "origin_error_text CrossSiteFetch = ''cross-site fetch rejected''"
| "origin_error_text InvalidOriginHeader = ''invalid Origin header''"
| "origin_error_text OriginNotAllowed = ''Origin not in allowed base URLs''"

definition origin_refusal :: "web \<Rightarrow> consent_deps \<Rightarrow> headers \<Rightarrow> str \<Rightarrow> response option" where
  "origin_refusal w deps hs title =
     (case wv_parse w (cf_base_url deps) of
        None \<Rightarrow> Some (Message 500 ''Server misconfiguration'' ''AVER_BASE_URL is not a valid URL.'')
      | Some base \<Rightarrow>
          (case validate_browser_origin (wv_parse w) hs [base] of
             Inl e \<Rightarrow> Some (Message 403 title (origin_error_text e))
           | Inr _ \<Rightarrow> None))"

text \<open>A live consent that covers the request; an empty grant never does.\<close>

definition covering_consent :: "str \<Rightarrow> str \<Rightarrow> str list \<Rightarrow> auth_db \<Rightarrow> str list option" where
  "covering_consent user_id client_id scopes d =
     (case get_consent user_id client_id d of
        None \<Rightarrow> None
      | Some c \<Rightarrow>
          let granted = decode_scopes (cn_scopes c)
          in if cn_revoked_at c = None \<and> granted \<noteq> [] \<and> consent_covers granted scopes then Some granted else None)"

definition authorize_user ::
  "web \<Rightarrow> headers \<Rightarrow> authorize_query \<Rightarrow> client_row \<Rightarrow> str \<Rightarrow> handler" where
  "authorize_user w hs q client user_id d =
     (case ensure_session w hs user_id d of
        Inl _ \<Rightarrow> (Message 500 ''Server error'' ''Failed to create a browser session.'', d)
      | Inr ((session_id, created), d1) \<Rightarrow>
          let set_cookie = (if created then Some (session_cookie_header session_id SESSION_TTL_SECS) else None);
              scopes = parse_scope (aq_scope q)
          in (case covering_consent user_id (aq_client_id q) scopes d1 of
                Some granted \<Rightarrow>
                  let d2 = touch_consent_last_used (wv_now w) user_id (aq_client_id q) d1
                  in (case store_authorization_code (wv_now w) (wv_code w) (aq_client_id q) user_id
                             (aq_code_challenge q) (aq_redirect_uri q) granted d2 of
                        Inl _ \<Rightarrow> (Message 500 ''Server error'' ''Failed to mint an authorization code.'', d2)
                      | Inr d3 \<Rightarrow>
                          (redirect_with_code w (aq_redirect_uri q) (wv_code w) (aq_state q) set_cookie, d3))
              | None \<Rightarrow>
                  (case get_or_create_server_secret (wv_secret w) CSRF_SECRET_NAME d1 of
                     Inl _ \<Rightarrow> (Message 500 ''Server error'' ''Failed to load the anti-CSRF secret.'', d1)
                   | Inr (secret, d2) \<Rightarrow>
                       (ConsentScreen
                          (render_consent_page q client scopes
                             (compute_csrf_token (wv_mac w) secret session_id (aq_client_id q) (aq_code_challenge q)))
                          set_cookie, d2))))"

definition query_refusal :: "authorize_query \<Rightarrow> response option" where
  "query_refusal q =
     (if aq_response_type q \<noteq> ''code''
      then Some (Message 400 ''Unsupported response_type'' ''Aver only implements response_type=code.'')
      else if aq_code_challenge_method q \<noteq> ''S256''
      then Some (Message 400 ''Unsupported code_challenge_method'' ''PKCE S256 is required.'')
      else if aq_code_challenge q = []
      then Some (Message 400 ''Missing code_challenge'' ''code_challenge is required.'')
      else None)"

definition signed_in ::
  "web \<Rightarrow> consent_deps \<Rightarrow> bool \<Rightarrow> headers \<Rightarrow> (user \<Rightarrow> handler) \<Rightarrow> handler" where
  "signed_in w deps loopback hs k d =
     (case authenticate_request w loopback hs (cf_trusted_auth_header deps) d of
        (Inl _, d1) \<Rightarrow> (Message 500 ''Server error'' ''Authentication failed.'', d1)
      | (Inr None, d1) \<Rightarrow>
          (Message 403 ''Authorization unavailable'' ''Authentication is unavailable for this request.'', d1)
      | (Inr (Some u), d1) \<Rightarrow> k u d1)"

definition handle_loopback_get_authorize ::
  "web \<Rightarrow> consent_deps \<Rightarrow> bool \<Rightarrow> headers \<Rightarrow> authorize_query \<Rightarrow> handler" where
  "handle_loopback_get_authorize w deps loopback hs q d =
     (case query_refusal q of
        Some r \<Rightarrow> (r, d)
      | None \<Rightarrow>
          (case origin_refusal w deps hs ''Cross-site request rejected'' of
             Some r \<Rightarrow> (r, d)
           | None \<Rightarrow>
               signed_in w deps loopback hs (\<lambda>u d1.
                 case get_client (aq_client_id q) d1 of
                   None \<Rightarrow> (Message 400 ''Unknown client''
                               ''No OAuth client is registered with that client_id.'', d1)
                 | Some client \<Rightarrow>
                     if \<not> list_ex (\<lambda>uri. uri = aq_redirect_uri q) (oc_redirect_uris client)
                     then (Message 400 ''Redirect URI mismatch''
                             ''The redirect_uri does not match any registered URI for this client.'', d1)
                     else authorize_user w hs q client (ur_id u) d1) d))"

subsection \<open>The decision\<close>

record decision_form =
  df_client_id :: str
  df_redirect_uri :: str
  df_code_challenge :: str
  df_code_challenge_method :: str
  df_scope :: "str option"
  df_state :: "str option"
  df_csrf_token :: str
  df_decision :: str
  df_scope_selection_present :: "str option"
  df_extra_fields :: "(str \<times> str) list"

definition checked_scopes :: "(str \<times> str) list \<Rightarrow> str list" where
  "checked_scopes extra =
     filter (\<lambda>scope. map_of extra (scope_checkbox_field scope) = Some scope) (map oauth_scope_as_str SUPPORTED)"

definition selected_scopes_from_form :: "decision_form \<Rightarrow> str + str list" where
  "selected_scopes_from_form form =
     (let raw_scopes =
            (if df_scope_selection_present form \<noteq> None then join '' '' (checked_scopes (df_extra_fields form))
             else case df_scope form of None \<Rightarrow> [] | Some s \<Rightarrow> s)
      in rbind (parse_scope_list raw_scopes) (\<lambda>scopes. Inr (map oauth_scope_as_str scopes)))"

definition decide :: "web \<Rightarrow> decision_form \<Rightarrow> str \<Rightarrow> handler" where
  "decide w form user_id d =
     (if df_decision form = ''approve''
      then (case selected_scopes_from_form form of
              Inl e \<Rightarrow> (Message 400 ''Invalid scope'' e, d)
            | Inr scopes \<Rightarrow>
                (case record_consent (wv_now w) user_id (df_client_id form) scopes d of
                   Inl _ \<Rightarrow> (Message 500 ''Server error'' ''Failed to record consent.'', d)
                 | Inr d1 \<Rightarrow>
                     (case store_authorization_code (wv_now w) (wv_code w) (df_client_id form) user_id
                             (df_code_challenge form) (df_redirect_uri form) scopes d1 of
                        Inl _ \<Rightarrow> (Message 500 ''Server error'' ''Failed to mint an authorization code.'', d1)
                      | Inr d2 \<Rightarrow>
                          (redirect_with_code w (df_redirect_uri form) (wv_code w) (df_state form) None, d2))))
      else if df_decision form = ''deny''
      then (redirect_with_error w (df_redirect_uri form) ''access_denied'' (df_state form), d)
      else (Message 400 ''Invalid decision'' ''Form value 'decision' must be 'approve' or 'deny'.'', d))"

definition session_of_user :: "web \<Rightarrow> headers \<Rightarrow> user \<Rightarrow> (str \<Rightarrow> handler) \<Rightarrow> handler" where
  "session_of_user w hs u k d =
     (case current_session w hs d of
        None \<Rightarrow> (Message 400 ''Missing session'' ''No valid Aver session cookie was presented.'', d)
      | Some (session_id, session_user) \<Rightarrow>
          if ur_id session_user \<noteq> ur_id u
          then (Message 403 ''Wrong user'' ''Session does not match authenticated user.'', d)
          else k session_id d)"

definition handle_authorize_decision ::
  "web \<Rightarrow> consent_deps \<Rightarrow> bool \<Rightarrow> headers \<Rightarrow> decision_form \<Rightarrow> handler" where
  "handle_authorize_decision w deps loopback hs form =
     signed_in w deps loopback hs (\<lambda>u d.
       case origin_refusal w deps hs ''Cross-site POST rejected'' of
         Some r \<Rightarrow> (r, d)
       | None \<Rightarrow>
           if df_code_challenge_method form \<noteq> ''S256''
           then (Message 400 ''Unsupported code_challenge_method'' ''PKCE S256 is required.'', d)
           else session_of_user w hs u (\<lambda>session_id d.
             case get_or_create_server_secret (wv_secret w) CSRF_SECRET_NAME d of
               Inl _ \<Rightarrow> (Message 500 ''Server error'' ''Failed to load the anti-CSRF secret.'', d)
             | Inr (secret, d1) \<Rightarrow>
                 if \<not> verify_csrf_token (wv_mac w) secret session_id (df_client_id form)
                        (df_code_challenge form) (df_csrf_token form)
                 then (Message 400 ''Invalid CSRF token''
                         ''The form's anti-CSRF token did not match the session.'', d1)
                 else if \<not> client_allows_redirect_uri (df_client_id form) (df_redirect_uri form) d1
                 then (Message 400 ''Redirect URI mismatch''
                         ''The redirect_uri does not match any registered URI for this client.'', d1)
                 else decide w form (ur_id u) d1) d)"

text \<open>The revocation of a consent.\<close>

definition handle_revoke_consent ::
  "web \<Rightarrow> consent_deps \<Rightarrow> bool \<Rightarrow> headers \<Rightarrow> str \<Rightarrow> handler" where
  "handle_revoke_consent w deps loopback hs client_id =
     signed_in w deps loopback hs (\<lambda>u d.
       case origin_refusal w deps hs ''Cross-site POST rejected'' of
         Some r \<Rightarrow> (r, d)
       | None \<Rightarrow>
           session_of_user w hs u (\<lambda>_ d.
             if blank client_id
             then (Message 400 ''Missing client_id'' ''Form value 'client_id' is required.'', d)
             else if get_client client_id d = None
             then (Message 400 ''Unknown client'' ''No OAuth client is registered with that client_id.'', d)
             else (Message 200 ''Consent revoked''
                     ''The client's consent and its live tokens were revoked. Restart the client's OAuth flow (or revisit /oauth/authorize) to grant access again.'',
                   revoke_consent (wv_now w) (ur_id u) client_id d)) d)"

end
