(* ===== verification/Http.thy ===== *)
theory Http
  imports Consent Rust_Io
begin

section \<open>The HTTP surface\<close>

text \<open>
  What \<open>crates/aver-server/src/http.rs\<close> does with the authorization database: client
  registration, the token endpoint, the bearer check in front of the memory tools and the scope
  of a request. Then the server as a whole: a request is one of these or one of the consent
  handlers; every request is a history of calls on the database, and a bearer token that is
  accepted holds scopes that a user approved for that client.
\<close>

definition oauth_register :: "web \<Rightarrow> str option \<Rightarrow> str list \<Rightarrow> auth_db \<Rightarrow> (nat + str) \<times> auth_db" where
  "oauth_register w client_name redirect_uris d =
     (case register_client (wv_parse w) (wv_now w) (wv_uuid w)
             (case client_name of None \<Rightarrow> ''Aver MCP client'' | Some n \<Rightarrow> n) redirect_uris d of
        Inl _ \<Rightarrow> (Inl 400, d)
      | Inr (client_id, d') \<Rightarrow> (Inr client_id, d'))"

record token_request =
  tq_grant_type :: str
  tq_code :: str
  tq_client_id :: str
  tq_code_verifier :: str
  tq_redirect_uri :: str
  tq_refresh_token :: str

text \<open>A rejected form is \<open>None\<close>; the answer is an error status with its code, or the token pair.\<close>

definition oauth_token ::
  "web \<Rightarrow> token_request option \<Rightarrow> auth_db \<Rightarrow> ((nat \<times> str) + (str \<times> str)) \<times> auth_db" where
  "oauth_token w request d =
     (let pair = Inr (td_access (wv_draw w), td_refresh (wv_draw w)) in
      case request of
        None \<Rightarrow> (Inl (400, ''invalid_request''), d)
      | Some r \<Rightarrow>
          if tq_grant_type r = ''authorization_code''
          then if tq_code r = [] \<or> tq_client_id r = [] \<or> tq_code_verifier r = [] \<or> tq_redirect_uri r = []
               then (Inl (400, ''invalid_request''), d)
               else (case exchange_authorization_code_for_tokens (wv_digest w) (wv_now w) (wv_draw w)
                            (tq_code r) (tq_client_id r) (tq_code_verifier r) (tq_redirect_uri r) d of
                       Inl _ \<Rightarrow> (Inl (400, ''invalid_grant''), d)
                     | Inr d' \<Rightarrow> (pair, d'))
          else if tq_grant_type r = ''refresh_token''
          then if tq_refresh_token r = [] then (Inl (400, ''invalid_request''), d)
               else (case refresh_access_token (wv_digest w) (wv_now w) (wv_draw w) (tq_refresh_token r) d of
                       (Inl _, d') \<Rightarrow> (Inl (400, ''invalid_grant''), d')
                     | (Inr _, d') \<Rightarrow> (pair, d'))
          else (Inl (400, ''unsupported_grant_type''), d))"

text \<open>The scopes and the client a bearer token stands for, or the status of the refusal.\<close>

definition validate_bearer_token :: "web \<Rightarrow> headers \<Rightarrow> auth_db \<Rightarrow> nat + (oauth_scope list \<times> str option)" where
  "validate_bearer_token w hs d =
     (case Option.bind (header_text hs ''authorization'') (strip_prefix ''Bearer '') of
        None \<Rightarrow> Inl 401
      | Some token \<Rightarrow>
          (case access_token_grant (wv_now w) (wv_digest w token) d of
             None \<Rightarrow> Inl 401
           | Some (_, client_id, granted_scopes) \<Rightarrow> Inr (parse_scope_list_lossy granted_scopes, client_id)))"

definition resolve_request_scope :: "headers \<Rightarrow> str option \<Rightarrow> nat + resolved_scope" where
  "resolve_request_scope hs env_default =
     (case resolve_scope None (header_text hs ''x-aver-scope'') (header_text hs ''x-aver-scope-default'') env_default of
        Inl _ \<Rightarrow> Inl 400
      | Inr r \<Rightarrow> Inr r)"

subsection \<open>Requests\<close>

datatype request =
    Authorize bool headers authorize_query
  | Decision bool headers decision_form
  | RevokeConsent bool headers str
  | TokenGrant "token_request option"
  | RegisterClient "str option" "str list"

fun serve :: "web \<Rightarrow> consent_deps \<Rightarrow> request \<Rightarrow> auth_db \<Rightarrow> auth_db" where
  "serve w deps (Authorize loopback hs q) d = snd (handle_loopback_get_authorize w deps loopback hs q d)"
| "serve w deps (Decision loopback hs form) d = snd (handle_authorize_decision w deps loopback hs form d)"
| "serve w deps (RevokeConsent loopback hs client_id) d = snd (handle_revoke_consent w deps loopback hs client_id d)"
| "serve w deps (TokenGrant r) d = snd (oauth_token w r d)"
| "serve w deps (RegisterClient name uris) d = snd (oauth_register w name uris d)"

definition fresh_web :: "(str \<Rightarrow> str) \<Rightarrow> web \<Rightarrow> auth_db \<Rightarrow> bool" where
  "fresh_web digest w d \<longleftrightarrow>
     wv_digest w = digest \<and> fresh_tokens digest (wv_draw w) d \<and> td_family (wv_draw w) \<notin> families d"

subsection \<open>Every request is a history of database calls\<close>

definition steps :: "(str \<Rightarrow> str) \<Rightarrow> auth_db \<Rightarrow> auth_db \<Rightarrow> bool" where
  "steps digest d d' \<longleftrightarrow> (\<exists>evs. auth_run digest d evs d')"

lemma steps_refl [simp, intro]: "steps digest d d"
  unfolding steps_def using auth_run.none by blast

lemma auth_run_append: "auth_run digest d1 es2 d2 \<Longrightarrow> auth_run digest d es1 d1 \<Longrightarrow> auth_run digest d (es1 @ es2) d2"
proof (induction rule: auth_run.induct)
  case (more evs d' ev d'')
  then show ?case using auth_run.more [of digest d "es1 @ evs" d' ev d''] by simp
qed simp

lemma steps_trans: "steps digest d d1 \<Longrightarrow> steps digest d1 d2 \<Longrightarrow> steps digest d d2"
  unfolding steps_def using auth_run_append by blast

lemma steps_one: "auth_step digest d ev d' \<Longrightarrow> steps digest d d'"
  unfolding steps_def using auth_run.more [OF auth_run.none] by blast

lemma steps_sign_in: "steps digest d (snd (sign_in u d))"
  by (auto simp: sign_in_def intro: steps_one auth_step.upsert split: sum.split)

lemma steps_authenticate: "steps digest d (snd (authenticate_request w loopback hs trusted d))"
  by (auto simp: authenticate_request_def steps_sign_in split: option.split)

lemma steps_signed_in:
  assumes "\<And>u d. steps digest d (snd (k u d))"
  shows "steps digest d (snd (signed_in w deps loopback hs k d))"
  using steps_authenticate [of digest d w loopback hs "cf_trusted_auth_header deps"] assms
  by (auto simp: signed_in_def intro: steps_trans split: prod.splits sum.splits option.splits)

lemma steps_session_of_user:
  assumes "\<And>i d. steps digest d (snd (k i d))"
  shows "steps digest d (snd (session_of_user w hs u k d))"
  using assms by (auto simp: session_of_user_def split: option.split prod.split)

lemma steps_ensure_session: "ensure_session w hs user_id d = Inr (p, d') \<Longrightarrow> steps digest d d'"
  by (auto simp: ensure_session_def result_simps intro: steps_one auth_step.session
      split: option.splits prod.splits if_splits)

lemma steps_secret: "get_or_create_server_secret b n d = Inr (v, d') \<Longrightarrow> steps digest d d'"
  by (blast intro: steps_one auth_step.secret)

lemma steps_store_code:
  "store_authorization_code now code cl u ch uri granted d = Inr d' \<Longrightarrow> steps digest d d'"
  by (blast intro: steps_one auth_step.store_code)

lemma steps_touch: "steps digest d (touch_consent_last_used now u c d)"
  by (blast intro: steps_one auth_step.touch)

lemma steps_touch_store:
  "store_authorization_code now code cl u ch uri granted (touch_consent_last_used now' u' c' d) = Inr d' \<Longrightarrow>
    steps digest d d'"
  by (rule steps_trans [OF steps_touch steps_store_code])

lemma steps_authorize_user: "steps digest d (snd (authorize_user w hs q client user_id d))"
  unfolding authorize_user_def
  by (auto simp: Let_def split: sum.split prod.split option.split
      intro: steps_ensure_session steps_secret steps_touch steps_touch_store steps_trans)

lemma steps_decide: "steps digest d (snd (decide w form user_id d))"
  unfolding decide_def
  by (auto split: sum.split
      intro: steps_trans steps_store_code steps_one [OF auth_step.consent])

lemma request_is_history:
  assumes "fresh_web digest w d"
  shows "steps digest d (serve w deps req d)"
proof (cases req)
  case (Authorize loopback hs q)
  show ?thesis
    unfolding Authorize serve.simps handle_loopback_get_authorize_def
    by (auto intro!: steps_signed_in steps_authorize_user split: option.split)
next
  case (Decision loopback hs form)
  show ?thesis
    unfolding Decision serve.simps handle_authorize_decision_def
    by (rule steps_signed_in)
      (auto intro!: steps_session_of_user split: option.split sum.split
        intro: steps_trans [OF steps_secret steps_decide] steps_secret)
next
  case (RevokeConsent loopback hs client_id)
  show ?thesis
    unfolding RevokeConsent serve.simps handle_revoke_consent_def
    by (rule steps_signed_in)
      (auto intro!: steps_session_of_user split: option.split intro: steps_one [OF auth_step.revoke])
next
  case (TokenGrant r)
  show ?thesis
    using assms unfolding TokenGrant serve.simps fresh_web_def
    by (auto simp: oauth_token_def Let_def split: option.split sum.split prod.split
        intro: steps_one [OF auth_step.exchange] steps_one [OF auth_step.rotate] steps_one [OF auth_step.refuse])
next
  case (RegisterClient name uris)
  show ?thesis
    unfolding RegisterClient serve.simps
    by (auto simp: oauth_register_def split: sum.split prod.split intro: steps_one [OF auth_step.register])
qed


subsection \<open>What a request leaves alone\<close>

definition same_code :: "code_row \<Rightarrow> code_row \<Rightarrow> bool" where
  "same_code a b \<longleftrightarrow> ac_client a = ac_client b \<and> ac_user a = ac_user b \<and> ac_challenge a = ac_challenge b \<and>
     ac_redirect a = ac_redirect b \<and> ac_scopes a = ac_scopes b"

text \<open>Clients stay as registered; codes and consents are those of before, up to marks on them.\<close>

definition keeps :: "auth_db \<Rightarrow> auth_db \<Rightarrow> bool" where
  "keeps d d' \<longleftrightarrow>
     (\<forall>k cl. get_client k d = Some cl \<longrightarrow> get_client k d' = Some cl) \<and>
     (\<forall>k c'. map_of (ad_codes d') k = Some c' \<longrightarrow> (\<exists>c. map_of (ad_codes d) k = Some c \<and> same_code c' c)) \<and>
     (\<forall>k n'. map_of (ad_consents d') k = Some n' \<longrightarrow>
        (\<exists>n. map_of (ad_consents d) k = Some n \<and> cn_scopes n' = cn_scopes n))"

lemma same_code_refl [simp]: "same_code c c"
  by (simp add: same_code_def)

lemma keeps_refl [simp, intro]: "keeps d d"
  by (simp add: keeps_def)

lemma keepsD:
  assumes "keeps d d'"
  shows "get_client k d = Some cl \<Longrightarrow> get_client k d' = Some cl"
    and "map_of (ad_codes d') k = Some c' \<Longrightarrow> \<exists>c. map_of (ad_codes d) k = Some c \<and> same_code c' c"
    and "map_of (ad_consents d') p = Some n' \<Longrightarrow>
      \<exists>n. map_of (ad_consents d) p = Some n \<and> cn_scopes n' = cn_scopes n"
  using assms unfolding keeps_def by blast+

lemma same_code_trans: "same_code a b \<Longrightarrow> same_code b c \<Longrightarrow> same_code a c"
  by (simp add: same_code_def)

lemma keeps_trans:
  assumes "keeps d d1" and "keeps d1 d2"
  shows "keeps d d2"
  unfolding keeps_def
proof (intro conjI allI impI)
  fix k c'
  assume "map_of (ad_codes d2) k = Some c'"
  then show "\<exists>c. map_of (ad_codes d) k = Some c \<and> same_code c' c"
    using keepsD(2) [OF assms(2)] keepsD(2) [OF assms(1)] same_code_trans by blast
next
  fix k n'
  assume "map_of (ad_consents d2) k = Some n'"
  then obtain n1 where "map_of (ad_consents d1) k = Some n1" "cn_scopes n' = cn_scopes n1"
    using keepsD(3) [OF assms(2)] by blast
  then show "\<exists>n. map_of (ad_consents d) k = Some n \<and> cn_scopes n' = cn_scopes n"
    using keepsD(3) [OF assms(1)] by fastforce
qed (use keepsD(1) [OF assms(1)] keepsD(1) [OF assms(2)] in blast)

lemma keeps_same:
  "ad_clients d' = ad_clients d \<Longrightarrow> ad_codes d' = ad_codes d \<Longrightarrow> ad_consents d' = ad_consents d \<Longrightarrow> keeps d d'"
  by (simp add: keeps_def get_client_def)

lemma keeps_upsert: "upsert_user u d = Inr d' \<Longrightarrow> keeps d d'"
  by (rule keeps_same) (auto simp: upsert_user_def Let_def result_simps split: prod.splits)

lemma keeps_session: "create_session now i u ttl d = Inr d' \<Longrightarrow> keeps d d'"
  by (rule keeps_same) (auto simp: create_session_def result_simps)

lemma keeps_secret: "get_or_create_server_secret b n d = Inr (v, d') \<Longrightarrow> keeps d d'"
  by (rule keeps_same) (auto simp: get_or_create_server_secret_def result_simps split: option.splits)

lemma keeps_touch: "keeps d (touch_consent_last_used now u c d)"
  by (auto simp: keeps_def get_client_def touch_consent_last_used_def map_of_tbl_upd split: if_splits)

lemma keeps_revoke: "keeps d (revoke_consent now u c d)"
  by (auto simp: keeps_def get_client_def revoke_consent_def Let_def map_of_tbl_upd split: if_splits)

lemma keeps_exchange:
  "exchange_authorization_code_for_tokens digest now r code cl v uri d = Inr d' \<Longrightarrow> keeps d d'"
  by (auto simp: keeps_def get_client_def exchange_authorization_code_for_tokens_def issue_token_pair_in_def
      Let_def result_simps map_of_tbl_put same_code_def split: if_splits)

lemma keeps_refresh: "refresh_access_token digest now r t d = (res, d') \<Longrightarrow> keeps d d'"
  by (rule keeps_same)
    (auto simp: refresh_access_token_def issue_token_pair_in_def revoke_token_family_def Let_def
      split: option.splits if_splits)

lemma keeps_register: "register_client parse now uuid name uris d = Inr (i, d') \<Longrightarrow> keeps d d'"
  by (auto simp: keeps_def get_client_def register_client_def insert_row_def Let_def result_simps
      map_of_tbl_put split: if_splits)

lemma keeps_sign_in: "keeps d (snd (sign_in u d))"
  by (auto simp: sign_in_def intro: keeps_upsert split: sum.split)

lemma keeps_authenticate: "keeps d (snd (authenticate_request w loopback hs trusted d))"
  by (auto simp: authenticate_request_def keeps_sign_in split: option.split)

lemma keeps_ensure_session: "ensure_session w hs user_id d = Inr (p, d') \<Longrightarrow> keeps d d'"
  by (auto simp: ensure_session_def result_simps intro: keeps_session
      split: option.splits prod.splits if_splits)

subsection \<open>Approved scopes\<close>

definition supported :: "str list \<Rightarrow> bool" where
  "supported ws \<longleftrightarrow> set ws \<subseteq> range oauth_scope_as_str"

definition redirect_registered :: "auth_db \<Rightarrow> code_row \<Rightarrow> bool" where
  "redirect_registered d c \<longleftrightarrow>
     (\<exists>cl. get_client (ac_client c) d = Some cl \<and> ac_redirect c \<in> set (oc_redirect_uris cl))"

definition server_ok :: "auth_db \<Rightarrow> bool" where
  "server_ok d \<longleftrightarrow>
     (\<forall>k c. map_of (ad_codes d) k = Some c \<longrightarrow> redirect_registered d c \<and> supported (decode_scopes (ac_scopes c))) \<and>
     (\<forall>k n. map_of (ad_consents d) k = Some n \<longrightarrow> supported (decode_scopes (cn_scopes n)))"

lemma redirect_kept:
  "keeps d d' \<Longrightarrow> same_code c' c \<Longrightarrow> redirect_registered d c \<Longrightarrow> redirect_registered d' c'"
  unfolding redirect_registered_def same_code_def using keepsD(1) by fastforce

lemma keeps_ok:
  assumes "keeps d d'" and "server_ok d"
  shows "server_ok d'"
  unfolding server_ok_def
proof (intro conjI allI impI)
  fix k c'
  assume "map_of (ad_codes d') k = Some c'"
  then obtain c where c: "map_of (ad_codes d) k = Some c" "same_code c' c"
    using keepsD(2) [OF assms(1)] by blast
  with assms(2) have "redirect_registered d c" "supported (decode_scopes (ac_scopes c))"
    by (auto simp: server_ok_def)
  with c(2) show "redirect_registered d' c'" "supported (decode_scopes (ac_scopes c'))"
    using redirect_kept [OF assms(1)] by (auto simp: same_code_def)
next
  fix k n'
  assume "map_of (ad_consents d') k = Some n'"
  then obtain n where "map_of (ad_consents d) k = Some n" "cn_scopes n' = cn_scopes n"
    using keepsD(3) [OF assms(1)] by blast
  then show "supported (decode_scopes (cn_scopes n'))"
    using assms(2) unfolding server_ok_def by metis
qed

lemma supported_encode: "supported ws \<Longrightarrow> decode_scopes (encode_scopes ws) = ws"
  by (rule decode_encode) (auto simp: supported_def scope_words)

lemma store_code_ok:
  assumes "store_authorization_code now code cl u ch uri granted d = Inr d'" and "server_ok d"
    and "get_client cl d = Some client" and "uri \<in> set (oc_redirect_uris client)" and "supported granted"
  shows "server_ok d'"
  using assms
  by (auto simp: server_ok_def redirect_registered_def store_authorization_code_def insert_row_def
      get_client_def result_simps map_of_tbl_put supported_encode split: if_splits)

lemma record_consent_ok:
  assumes "record_consent now u cl granted d = Inr d'" and "server_ok d" and "supported granted"
  shows "server_ok d'"
  using assms
  by (auto simp: server_ok_def redirect_registered_def record_consent_def get_client_def Let_def
      result_simps map_of_tbl_put supported_encode split: if_splits)

lemma record_consent_clients: "record_consent now u cl granted d = Inr d' \<Longrightarrow> ad_clients d' = ad_clients d"
  by (auto simp: record_consent_def Let_def result_simps)

lemma parsed_supported: "selected_scopes_from_form form = Inr ws \<Longrightarrow> supported ws"
  by (auto simp: selected_scopes_from_form_def result_simps supported_def Let_def)

lemma covering_supported: "covering_consent u cl scopes d = Some granted \<Longrightarrow> server_ok d \<Longrightarrow> supported granted"
  by (auto simp: covering_consent_def get_consent_def server_ok_def Let_def split: option.splits if_splits)

lemma authorize_user_ok:
  assumes "server_ok d" and "get_client (aq_client_id q) d = Some client"
    and "aq_redirect_uri q \<in> set (oc_redirect_uris client)"
  shows "server_ok (snd (authorize_user w hs q client user_id d))"
proof (cases "ensure_session w hs user_id d")
  case (Inl e)
  then show ?thesis using assms(1) by (simp add: authorize_user_def)
next
  case (Inr p)
  then obtain i created d1 where es: "ensure_session w hs user_id d = Inr ((i, created), d1)"
    by (cases p) auto
  let ?d2 = "touch_consent_last_used (wv_now w) user_id (aq_client_id q) d1"
  have k1: "keeps d d1" by (rule keeps_ensure_session [OF es])
  have k2: "keeps d ?d2" by (rule keeps_trans [OF k1 keeps_touch])
  have ok: "server_ok d1" "server_ok ?d2"
    using keeps_ok [OF k1 assms(1)] keeps_ok [OF k2 assms(1)] by simp_all
  have client: "get_client (aq_client_id q) ?d2 = Some client"
    using k2 assms(2) by (simp add: keeps_def)
  show ?thesis
    using ok es assms(3) client
    by (auto simp: authorize_user_def Let_def split: sum.split prod.split option.split
        intro: store_code_ok covering_supported keeps_ok [OF keeps_secret])
qed

lemma decide_ok:
  assumes "server_ok d" and "client_allows_redirect_uri (df_client_id form) (df_redirect_uri form) d"
  shows "server_ok (snd (decide w form user_id d))"
proof -
  from assms(2) obtain client where client: "get_client (df_client_id form) d = Some client"
    and uri: "df_redirect_uri form \<in> set (oc_redirect_uris client)"
    by (auto simp: client_allows_redirect_uri_def split: option.splits)
  have both: "server_ok d2"
    if "store_authorization_code now code (df_client_id form) user_id ch (df_redirect_uri form) ws d1 = Inr d2"
      "record_consent now user_id (df_client_id form) ws d = Inr d1" "supported ws" for now code ch ws d1 d2
  proof (rule store_code_ok [OF that(1) record_consent_ok [OF that(2) assms(1) that(3)] _ uri that(3)])
    show "get_client (df_client_id form) d1 = Some client"
      using client record_consent_clients [OF that(2)] by (simp add: get_client_def)
  qed
  show ?thesis
    using assms(1)
    by (auto simp: decide_def split: sum.split intro: both record_consent_ok parsed_supported)
qed

lemma signed_in_ok:
  assumes "server_ok d" and "\<And>u d. server_ok d \<Longrightarrow> server_ok (snd (k u d))"
  shows "server_ok (snd (signed_in w deps loopback hs k d))"
  using keeps_ok [OF keeps_authenticate assms(1), of w loopback hs "cf_trusted_auth_header deps"] assms(2)
  by (auto simp: signed_in_def split: prod.splits sum.splits option.splits)

lemma session_of_user_ok:
  "server_ok d \<Longrightarrow> (\<And>i d. server_ok d \<Longrightarrow> server_ok (snd (k i d))) \<Longrightarrow> server_ok (snd (session_of_user w hs u k d))"
  by (auto simp: session_of_user_def split: option.split prod.split)

lemma serve_ok:
  assumes "server_ok d"
  shows "server_ok (serve w deps req d)"
proof (cases req)
  case (Authorize loopback hs q)
  show ?thesis
    unfolding Authorize serve.simps handle_loopback_get_authorize_def
    by (auto intro!: signed_in_ok authorize_user_ok assms simp: list_ex_iff split: option.split)
next
  case (Decision loopback hs form)
  show ?thesis
    unfolding Decision serve.simps handle_authorize_decision_def
    by (rule signed_in_ok [OF assms])
      (auto intro!: session_of_user_ok decide_ok split: option.split sum.split
        intro: keeps_ok [OF keeps_secret])
next
  case (RevokeConsent loopback hs client_id)
  show ?thesis
    unfolding RevokeConsent serve.simps handle_revoke_consent_def
    by (rule signed_in_ok [OF assms])
      (auto intro!: session_of_user_ok keeps_ok [OF keeps_revoke] split: option.split)
next
  case (TokenGrant r)
  show ?thesis
    unfolding TokenGrant serve.simps
    by (auto simp: oauth_token_def Let_def assms split: option.split sum.split prod.split
        intro: keeps_ok [OF keeps_exchange assms] keeps_ok [OF keeps_refresh assms])
next
  case (RegisterClient name uris)
  show ?thesis
    unfolding RegisterClient serve.simps
    by (auto simp: oauth_register_def assms split: sum.split prod.split intro: keeps_ok [OF keeps_register assms])
qed


subsection \<open>The server\<close>

inductive server_reached :: "(str \<Rightarrow> str) \<Rightarrow> consent_deps \<Rightarrow> auth_db \<Rightarrow> bool"
  for digest :: "str \<Rightarrow> str" and deps :: consent_deps where
  start: "server_reached digest deps empty_auth_db"
| request: "server_reached digest deps d \<Longrightarrow> fresh_web digest w d \<Longrightarrow> server_reached digest deps (serve w deps req d)"

lemma empty_ok: "server_ok empty_auth_db"
  by (simp add: server_ok_def empty_auth_db_def)

lemma reached_ok: "server_reached digest deps d \<Longrightarrow> server_ok d"
  by (induction rule: server_reached.induct) (auto intro: empty_ok serve_ok)

text \<open>
  Every state of the server is reached by a history of calls on the authorization database:
  whatever requests arrive, in any order, each handler composes its calls into such a history, so
  the laws of the histories hold of the server.
\<close>

lemma served_history: "server_reached digest deps d \<Longrightarrow> \<exists>evs. auth_run digest empty_auth_db evs d"
proof (induction rule: server_reached.induct)
  case start
  show ?case using auth_run.none by blast
next
  case (request d w req)
  then show ?case
    using request_is_history [OF request.hyps(2)] auth_run_append unfolding steps_def by blast
qed

lemma lossy_words: "supported (split_ascii_whitespace s) \<Longrightarrow>
    map oauth_scope_as_str (parse_scope_list_lossy s) = split_ascii_whitespace s"
proof -
  have "set ws \<subseteq> range oauth_scope_as_str \<Longrightarrow>
      map oauth_scope_as_str (List.map_filter
        (\<lambda>raw. case oauth_scope_from_str raw of Inl _ \<Rightarrow> None | Inr x \<Rightarrow> Some x) ws) = ws" for ws
    by (induction ws) (auto simp: List.map_filter_simps oauth_from_as)
  then show "supported (split_ascii_whitespace s) \<Longrightarrow> ?thesis"
    by (simp add: parse_scope_list_lossy_def supported_def)
qed

text \<open>
  A bearer token of a client that the server accepts stands for exactly the scopes of an
  authorization code of that client: one that was exchanged, whose redirect URI the client had
  registered, and no scope of which is unknown and dropped on the way.
\<close>

lemma bearer_code:
  assumes "server_reached digest deps d"
    and "validate_bearer_token w hs d = Inr (granted, Some client_id)"
  shows "\<exists>code c. map_of (ad_codes d) code = Some c \<and> ac_client c = client_id \<and> ac_used_at c \<noteq> None \<and>
    client_allows_redirect_uri client_id (ac_redirect c) d \<and>
    map oauth_scope_as_str granted = decode_scopes (ac_scopes c)"
proof -
  obtain evs where "auth_run digest empty_auth_db evs d"
    using served_history [OF assms(1)] by blast
  then have "tokens_from_codes d"
    using run_invariants(3) empty_auth_invariants(2) by blast
  moreover obtain row where row: "row \<in> tokens d" "tk_client row = Some client_id"
    and granted: "granted = parse_scope_list_lossy (tk_scopes row)"
    using assms(2) by (auto simp: validate_bearer_token_def access_token_grant_def tokens_mem
        split: option.splits if_splits)
  ultimately obtain code c where c: "map_of (ad_codes d) code = Some c" "ac_used_at c \<noteq> None"
    and grant: "grant_of_code c row"
    by (auto simp: tokens_from_codes_def from_code_def code_grants_def)
  have ok: "redirect_registered d c" "supported (decode_scopes (ac_scopes c))"
    using reached_ok [OF assms(1)] c(1) by (auto simp: server_ok_def)
  then have "map oauth_scope_as_str granted = decode_scopes (ac_scopes c)"
    using grant lossy_words [of "tk_scopes row"]
    by (simp add: granted grant_of_code_def decode_scopes_def)
  with c ok(1) grant row(2) show ?thesis
    by (intro exI [of _ code] exI [of _ c])
      (auto simp: grant_of_code_def redirect_registered_def client_allows_redirect_uri_def)
qed

subsection \<open>No code without a consent\<close>

definition consented :: "auth_db \<Rightarrow> code_row \<Rightarrow> bool" where
  "consented d c \<longleftrightarrow>
     (\<exists>n. get_consent (ac_user c) (ac_client c) d = Some n \<and> cn_revoked_at n = None \<and>
        decode_scopes (cn_scopes n) = decode_scopes (ac_scopes c))"

definition new_codes_consented :: "auth_db \<Rightarrow> auth_db \<Rightarrow> bool" where
  "new_codes_consented d d' \<longleftrightarrow>
     (\<forall>code c. map_of (ad_codes d) code = None \<longrightarrow> map_of (ad_codes d') code = Some c \<longrightarrow> consented d' c)"

lemma keeps_none: "keeps d d' \<Longrightarrow> map_of (ad_codes d) code = None \<Longrightarrow> map_of (ad_codes d') code = None"
  using keepsD(2) by (metis option.distinct(1) option.exhaust)

lemma keeps_new: "keeps d d1 \<Longrightarrow> new_codes_consented d1 d2 \<Longrightarrow> new_codes_consented d d2"
  unfolding new_codes_consented_def using keeps_none by blast

lemma keeps_no_new: "keeps d d' \<Longrightarrow> new_codes_consented d d'"
  using keeps_none by (fastforce simp: new_codes_consented_def)

lemma store_code_new:
  assumes "store_authorization_code now code cl u ch uri granted d = Inr d'"
    and "get_consent u cl d = Some n" and "cn_revoked_at n = None"
    and "decode_scopes (cn_scopes n) = decode_scopes (encode_scopes granted)"
  shows "new_codes_consented d d'"
  using assms
  by (auto simp: new_codes_consented_def consented_def get_consent_def store_authorization_code_def
      insert_row_def result_simps map_of_tbl_put split: if_splits)

lemma covering_stored:
  assumes "covering_consent u cl scopes d = Some granted"
    and "store_authorization_code now code cl u ch uri granted (touch_consent_last_used now' u cl d) = Inr d'"
  shows "new_codes_consented d d'"
proof -
  from assms(1) obtain n where n: "get_consent u cl d = Some n" "cn_revoked_at n = None"
    "granted = decode_scopes (cn_scopes n)"
    by (auto simp: covering_consent_def Let_def split: option.splits if_splits)
  then have "get_consent u cl (touch_consent_last_used now' u cl d) = Some (n \<lparr> cn_last_used_at := Some now' \<rparr>)"
    by (simp add: get_consent_def touch_consent_last_used_def map_of_tbl_upd)
  from store_code_new [OF assms(2) this] n(2,3)
  have "new_codes_consented (touch_consent_last_used now' u cl d) d'" by simp
  then show ?thesis by (rule keeps_new [OF keeps_touch])
qed

lemma authorize_user_new: "new_codes_consented d (snd (authorize_user w hs q client user_id d))"
proof (cases "ensure_session w hs user_id d")
  case (Inl e)
  then show ?thesis by (simp add: authorize_user_def keeps_no_new)
next
  case (Inr p)
  then obtain i created d1 where es: "ensure_session w hs user_id d = Inr ((i, created), d1)"
    by (cases p) auto
  have "keeps d d1" by (rule keeps_ensure_session [OF es])
  then show ?thesis
    by (rule keeps_new)
      (auto simp: authorize_user_def es Let_def split: sum.split prod.split option.split
        intro: covering_stored keeps_no_new keeps_touch keeps_secret)
qed

lemma decide_new: "new_codes_consented d (snd (decide w form user_id d))"
proof -
  have same: "map_of (ad_codes d1) = map_of (ad_codes d)" if "record_consent now u cl ws d = Inr d1" for now u cl ws d1
    using that by (auto simp: record_consent_def Let_def result_simps)
  have "new_codes_consented d1 d2"
    if "record_consent now u cl ws d = Inr d1" "store_authorization_code now' code cl u ch uri ws d1 = Inr d2"
    for now now' u cl ws d1 d2 code ch uri
    by (rule store_code_new [OF that(2)])
      (use that(1) in \<open>auto simp: record_consent_def get_consent_def Let_def result_simps map_of_tbl_put\<close>)
  with same have both: "new_codes_consented d d2"
    if "record_consent now u cl ws d = Inr d1" "store_authorization_code now' code cl u ch uri ws d1 = Inr d2"
    for now now' u cl ws d1 d2 code ch uri
    using that unfolding new_codes_consented_def by metis
  have "new_codes_consented d d1" if "record_consent now u cl ws d = Inr d1" for now u cl ws d1
    using same [OF that] by (simp add: new_codes_consented_def)
  then show ?thesis
    by (auto simp: decide_def keeps_no_new split: sum.split intro: both)
qed

lemma signed_in_new:
  assumes "\<And>u d. new_codes_consented d (snd (k u d))"
  shows "new_codes_consented d (snd (signed_in w deps loopback hs k d))"
  using keeps_authenticate [of d w loopback hs "cf_trusted_auth_header deps"] assms
  by (auto simp: signed_in_def intro: keeps_new keeps_no_new split: prod.splits sum.splits option.splits)

lemma session_of_user_new:
  "(\<And>i d. new_codes_consented d (snd (k i d))) \<Longrightarrow> new_codes_consented d (snd (session_of_user w hs u k d))"
  by (auto simp: session_of_user_def keeps_no_new split: option.split prod.split)

lemma serve_new: "new_codes_consented d (serve w deps req d)"
proof (cases req)
  case (Authorize loopback hs q)
  show ?thesis
    unfolding Authorize serve.simps handle_loopback_get_authorize_def
    by (auto intro!: signed_in_new authorize_user_new simp: keeps_no_new split: option.split)
next
  case (Decision loopback hs form)
  show ?thesis
    unfolding Decision serve.simps handle_authorize_decision_def
    by (rule signed_in_new)
      (auto intro!: session_of_user_new split: option.split sum.split simp: keeps_no_new
        intro: keeps_new [OF keeps_secret decide_new] keeps_no_new [OF keeps_secret])
next
  case (RevokeConsent loopback hs client_id)
  show ?thesis
    unfolding RevokeConsent serve.simps handle_revoke_consent_def
    by (rule signed_in_new)
      (auto intro!: session_of_user_new split: option.split simp: keeps_no_new keeps_revoke)
next
  case (TokenGrant r)
  show ?thesis
    unfolding TokenGrant serve.simps
    by (auto simp: oauth_token_def Let_def keeps_no_new split: option.split sum.split prod.split
        intro: keeps_no_new keeps_exchange keeps_refresh)
next
  case (RegisterClient name uris)
  show ?thesis
    unfolding RegisterClient serve.simps
    by (auto simp: oauth_register_def keeps_no_new split: sum.split prod.split
        intro: keeps_no_new keeps_register)
qed

text \<open>
  C21. No request makes an authorization code without a consent: the user and client of a code that
  a request issues have, when it is answered, an unrevoked consent of exactly the scopes the code
  carries.
\<close>

theorem code_needs_consent:
  assumes "map_of (ad_codes d) code = None" and "map_of (ad_codes (serve w deps req d)) code = Some c"
  shows "\<exists>n. get_consent (ac_user c) (ac_client c) (serve w deps req d) = Some n \<and>
    cn_revoked_at n = None \<and> decode_scopes (cn_scopes n) = decode_scopes (ac_scopes c)"
  using serve_new [of d w deps req] assms by (auto simp: new_codes_consented_def consented_def)

lemma sign_in_tables:
  "sign_in u d = (r, d') \<Longrightarrow> ad_codes d' = ad_codes d \<and> ad_consents d' = ad_consents d"
  by (auto simp: sign_in_def upsert_user_def Let_def result_simps split: sum.splits prod.splits)

lemma authenticate_tables:
  "authenticate_request w loopback hs trusted d = (r, d') \<Longrightarrow> ad_codes d' = ad_codes d \<and> ad_consents d' = ad_consents d"
  by (auto simp: authenticate_request_def dest: sign_in_tables split: if_splits option.splits)

lemma secret_result:
  "get_or_create_server_secret b n d = Inr (v, d') \<Longrightarrow>
    ad_codes d' = ad_codes d \<and> ad_consents d' = ad_consents d \<and> map_of (ad_secrets d') n = Some v \<and>
    ad_clients d' = ad_clients d"
  by (auto simp: get_or_create_server_secret_def result_simps map_of_tbl_put split: option.splits)

text \<open>
  C22. The decision form is protected: it changes consents or codes only when it approves, from the
  session of the user who is signed in, with the token that binds it to this session, client and code
  challenge, and to a redirect URI the client registered; and the browser does not call it
  cross-site, and names as its origin the server's own, or none, or \<open>null\<close> with fetch metadata that
  rules cross-site out.
\<close>

theorem decision_guarded:
  assumes "handle_authorize_decision w deps loopback hs form d = (r, d')"
    and "ad_codes d' \<noteq> ad_codes d \<or> ad_consents d' \<noteq> ad_consents d"
  shows "df_decision form = ''approve'' \<and>
    \<not> (\<exists>site. header_text hs ''sec-fetch-site'' = Some site \<and> eq_ignore_ascii_case site ''cross-site'') \<and>
    (map_of hs ''origin'' \<noteq> None \<longrightarrow> (\<exists>value. header_text hs ''origin'' = Some value \<and>
       (eq_ignore_ascii_case value ''null'' \<and> has_non_cross_site_fetch_metadata hs \<or>
        (\<exists>u base. wv_parse w value = Some u \<and> wv_parse w (cf_base_url deps) = Some base \<and>
           origins_match u base)))) \<and>
    (\<exists>u d1 session_id su secret d2.
       authenticate_request w loopback hs (cf_trusted_auth_header deps) d = (Inr (Some u), d1) \<and>
       current_session w hs d1 = Some (session_id, su) \<and> ur_id su = ur_id u \<and>
       get_or_create_server_secret (wv_secret w) CSRF_SECRET_NAME d1 = Inr (secret, d2) \<and>
       df_csrf_token form = wv_mac w secret (session_id @ ''|'' @ df_client_id form @ ''|'' @ df_code_challenge form) \<and>
       client_allows_redirect_uri (df_client_id form) (df_redirect_uri form) d1)"
proof -
  obtain x d1 where auth: "authenticate_request w loopback hs (cf_trusted_auth_header deps) d = (x, d1)"
    by (cases "authenticate_request w loopback hs (cf_trusted_auth_header deps) d") auto
  have same: "ad_codes d1 = ad_codes d" "ad_consents d1 = ad_consents d"
    using authenticate_tables [OF auth] by simp_all
  from assms auth same obtain u where u: "x = Inr (Some u)"
    by (auto simp: handle_authorize_decision_def signed_in_def split: sum.splits option.splits)
  from assms auth same u have origin: "origin_refusal w deps hs ''Cross-site POST rejected'' = None"
    by (auto simp: handle_authorize_decision_def signed_in_def split: option.splits)
  from assms auth same u origin obtain session_id su where
    session: "current_session w hs d1 = Some (session_id, su)" "ur_id su = ur_id u"
    by (auto simp: handle_authorize_decision_def signed_in_def session_of_user_def
        split: option.splits if_splits)
  from assms auth same u origin session obtain secret d2 where
    secret: "get_or_create_server_secret (wv_secret w) CSRF_SECRET_NAME d1 = Inr (secret, d2)"
    by (auto simp: handle_authorize_decision_def signed_in_def session_of_user_def
        split: sum.splits if_splits)
  have same2: "ad_codes d2 = ad_codes d" "ad_consents d2 = ad_consents d"
    and clients: "client_allows_redirect_uri i uri d2 = client_allows_redirect_uri i uri d1" for i uri
    using secret_result [OF secret] same by (simp_all add: client_allows_redirect_uri_def get_client_def)
  from assms auth same u origin session secret same2
  have csrf: "verify_csrf_token (wv_mac w) secret session_id (df_client_id form) (df_code_challenge form) (df_csrf_token form)"
    and uri: "client_allows_redirect_uri (df_client_id form) (df_redirect_uri form) d2"
    and decided: "decide w form (ur_id u) d2 = (r, d')"
    by (auto simp: handle_authorize_decision_def signed_in_def session_of_user_def split: if_splits)
  have "df_decision form = ''approve''"
    using decided assms(2) same2 by (auto simp: decide_def split: if_splits)
  moreover obtain base where base: "wv_parse w (cf_base_url deps) = Some base"
      "validate_browser_origin (wv_parse w) hs [base] = Inr ()"
    using origin by (auto simp: origin_refusal_def split: option.splits sum.splits)
  ultimately show ?thesis
    using auth u session secret csrf uri clients base(1) base(2) [unfolded browser_origin_accepted]
    by (auto simp: verify_csrf_token_def compute_csrf_token_def constant_time_eq_correct)
qed


subsection \<open>A sample session\<close>

definition sample_web :: web where
  "sample_web =
     \<lparr> wv_now = 100,
       wv_parse = (\<lambda>s. if prefix ''http://localhost'' s
                      then Some \<lparr> u_scheme = ''http'', u_host = Some ''localhost'', u_port = Some 80 \<rparr> else None),
       wv_mac = (\<lambda>key msg. key @ msg), wv_header_name = Some, wv_digest = (\<lambda>x. x), wv_session = ''s'',
       wv_secret = ''k'', wv_code = ''c'', wv_uuid = ''1'', wv_draw = sample_draw \<rparr>"

definition sample_deps :: consent_deps where
  "sample_deps = \<lparr> cf_base_url = ''http://localhost'', cf_trusted_auth_header = None \<rparr>"

definition sample_query :: authorize_query where
  "sample_query =
     \<lparr> aq_response_type = ''code'', aq_client_id = ''aver-1'', aq_redirect_uri = ''http://localhost/cb'',
       aq_code_challenge = ''v'', aq_code_challenge_method = ''S256'', aq_scope = Some ''claims:write'',
       aq_state = None \<rparr>"

definition sample_form :: decision_form where
  "sample_form =
     \<lparr> df_client_id = ''aver-1'', df_redirect_uri = ''http://localhost/cb'', df_code_challenge = ''v'',
       df_code_challenge_method = ''S256'', df_scope = Some ''claims:write'', df_state = None,
       df_csrf_token = ''ks|aver-1|v'', df_decision = ''approve'', df_scope_selection_present = None,
       df_extra_fields = [] \<rparr>"

definition sample_token_request :: token_request where
  "sample_token_request =
     \<lparr> tq_grant_type = ''authorization_code'', tq_code = ''c'', tq_client_id = ''aver-1'',
       tq_code_verifier = ''v'', tq_redirect_uri = ''http://localhost/cb'', tq_refresh_token = [] \<rparr>"

definition sample_cookie :: headers where
  "sample_cookie = [(''cookie'', Some ''aver_session=s'')]"

definition sample_client :: client_row where
  "sample_client =
     \<lparr> oc_name = ''a'', oc_redirect_uris = [''http://localhost/cb''], oc_created_at = 100 \<rparr>"

definition sample_registered :: auth_db where
  "sample_registered = empty_auth_db \<lparr> ad_clients := [(''aver-1'', sample_client)] \<rparr>"

definition sample_signed_in :: auth_db where
  "sample_signed_in = sample_registered
     \<lparr> ad_users := [(''local'', \<lparr> us_kind = ''local'', us_external_id = None, us_created_at = 100 \<rparr>)] \<rparr>"

definition sample_session :: auth_db where
  "sample_session = sample_signed_in
     \<lparr> ad_sessions := [(''s'', \<lparr> ss_user = ''local'', ss_created_at = 100, ss_expires_at = 86500 \<rparr>)] \<rparr>"

definition sample_screen :: auth_db where
  "sample_screen = sample_session \<lparr> ad_secrets := [(''csrf_hmac'', ''k'')] \<rparr>"

definition sample_issued :: code_row where
  "sample_issued =
     \<lparr> ac_client = ''aver-1'', ac_user = ''local'', ac_challenge = ''v'', ac_redirect = ''http://localhost/cb'',
       ac_used_at = None, ac_expires_at = 700, ac_created_at = 100, ac_scopes = ''claims:write'' \<rparr>"

definition sample_approved :: auth_db where
  "sample_approved = sample_screen
     \<lparr> ad_consents := [((''local'', ''aver-1''),
         \<lparr> cn_scopes = ''claims:write'', cn_granted_at = 100, cn_last_used_at = None, cn_revoked_at = None \<rparr>)],
       ad_codes := [(''c'', sample_issued)] \<rparr>"

definition sample_granted :: auth_db where
  "sample_granted = sample_approved
     \<lparr> ad_codes := [(''c'', sample_issued \<lparr> ac_used_at := Some 100 \<rparr>)],
       ad_access := [(''a'', token_row_of 100 ACCESS_TOKEN_TTL_SECS ''local'' (Some ''aver-1'') ''f'' [''claims:write''])],
       ad_refresh := [(''r'', token_row_of 100 REFRESH_TOKEN_TTL_SECS ''local'' (Some ''aver-1'') ''f'' [''claims:write''])] \<rparr>"

lemma sample_register:
  "serve sample_web sample_deps (RegisterClient (Some ''a'') [''http://localhost/cb'']) empty_auth_db = sample_registered"
  by code_simp

lemma sample_authorize: "serve sample_web sample_deps (Authorize True [] sample_query) sample_registered = sample_screen"
proof -
  let ?u = "\<lparr> ur_id = ''local'', ur_kind = Local, ur_external_id = None, ur_created_at = 100 \<rparr>"
  have 1: "query_refusal sample_query = None" by code_simp
  have 2: "origin_refusal sample_web sample_deps [] ''Cross-site request rejected'' = None" by code_simp
  have 3: "authenticate_request sample_web True [] (cf_trusted_auth_header sample_deps) sample_registered =
      (Inr (Some ?u), sample_signed_in)"
    by code_simp
  have 4: "get_client (aq_client_id sample_query) sample_signed_in = Some sample_client" by code_simp
  have 5: "ensure_session sample_web [] ''local'' sample_signed_in = Inr ((''s'', True), sample_session)"
    by code_simp
  have 6: "covering_consent ''local'' (aq_client_id sample_query) x sample_session = None" for x
    by (simp add: covering_consent_def get_consent_def sample_session_def sample_signed_in_def
        sample_registered_def empty_auth_db_def)
  have 7: "get_or_create_server_secret (wv_secret sample_web) CSRF_SECRET_NAME sample_session =
      Inr (''k'', sample_screen)"
    by code_simp
  have 8: "list_ex (\<lambda>uri. uri = aq_redirect_uri sample_query) (oc_redirect_uris sample_client)" by code_simp
  show ?thesis
    by (simp only: serve.simps handle_loopback_get_authorize_def signed_in_def 1 2 3 option.case prod.case
        sum.case 4 8 not_True_eq_False if_False user.select_convs authorize_user_def 5 6 7 Let_def snd_conv)
qed

lemma sample_decision:
  "serve sample_web sample_deps (Decision True sample_cookie sample_form) sample_screen = sample_approved"
  by code_simp

lemma sample_token: "serve sample_web sample_deps (TokenGrant (Some sample_token_request)) sample_approved = sample_granted"
  by code_simp

lemma no_tokens_fresh:
  "ad_access d = [] \<Longrightarrow> ad_refresh d = [] \<Longrightarrow> fresh_web (\<lambda>x. x) sample_web d"
  by (simp add: fresh_web_def fresh_tokens_def families_def tokens_def sample_web_def)

lemmas sample_states =
  empty_auth_db_def sample_registered_def sample_signed_in_def sample_session_def sample_screen_def
  sample_approved_def

lemma server_sample_reached: "server_reached (\<lambda>x. x) sample_deps sample_granted"
proof -
  have fresh: "fresh_web (\<lambda>x. x) sample_web d"
    if "d \<in> {empty_auth_db, sample_registered, sample_screen, sample_approved}" for d
    by (rule no_tokens_fresh) (use that in \<open>auto simp: sample_states\<close>)
  have "server_reached (\<lambda>x. x) sample_deps sample_registered"
    using server_reached.request [OF server_reached.start fresh] sample_register by (metis insertI1)
  then have "server_reached (\<lambda>x. x) sample_deps sample_screen"
    using server_reached.request [OF _ fresh] sample_authorize by (metis insertI1 insertI2)
  then have "server_reached (\<lambda>x. x) sample_deps sample_approved"
    using server_reached.request [OF _ fresh] sample_decision by (metis insertI1 insertI2)
  then show ?thesis
    using server_reached.request [OF _ fresh] sample_token by (metis insertI1 insertI2)
qed

lemma sample_bearer:
  "validate_bearer_token sample_web [(''authorization'', Some ''Bearer a'')] sample_granted =
    Inr ([ClaimsWrite], Some ''aver-1'')"
  by code_simp

theorem code_needs_consent_witness:
  "\<exists>n. get_consent ''local'' ''aver-1'' sample_approved = Some (n :: consent_row) \<and> cn_revoked_at n = None \<and>
    decode_scopes (cn_scopes n) = decode_scopes ''claims:write''"
proof -
  have "map_of (ad_codes sample_screen) ''c'' = None" by (simp add: sample_states)
  moreover have "map_of (ad_codes sample_approved) ''c'' = Some sample_issued" by (simp add: sample_approved_def)
  ultimately show ?thesis
    using code_needs_consent [of sample_screen "''c''" sample_web sample_deps
        "Decision True sample_cookie sample_form" sample_issued, unfolded sample_decision]
    by (simp add: sample_issued_def)
qed

theorem decision_guarded_witness:
  "\<exists>u d1. authenticate_request sample_web True sample_cookie None sample_screen = (Inr (Some u), d1 :: auth_db) \<and>
    (\<exists>i su. current_session sample_web sample_cookie d1 = Some (i, su) \<and> ur_id su = ur_id u)"
proof -
  have "snd (handle_authorize_decision sample_web sample_deps True sample_cookie sample_form sample_screen) =
      sample_approved"
    using sample_decision by simp
  then have "ad_codes (snd (handle_authorize_decision sample_web sample_deps True sample_cookie sample_form
      sample_screen)) \<noteq> ad_codes sample_screen"
    by (simp add: sample_states)
  then show ?thesis
    using decision_guarded [where w = sample_web and deps = sample_deps and loopback = True and
        hs = sample_cookie and form = sample_form and d = sample_screen, OF surjective_pairing]
    unfolding sample_deps_def consent_deps.select_convs by metis
qed

end
