(* ===== verification/Scopes.thy ===== *)
theory Scopes
  imports Types
begin

section \<open>Scope filters\<close>

text \<open>
  \<open>scope_filter_sql\<close> and \<open>escape_like_pattern\<close> of \<open>crates/aver-core/src/store.rs\<close> (ADR-0021):
  which rows a read in a scope admits. The filter is a SQL condition on the \<open>scope\<close> column;
  \<open>like_match\<close> is SQLite's \<open>LIKE ... ESCAPE '\'\<close>, which folds the case of ASCII letters.
\<close>

subsection \<open>LIKE\<close>

definition ascii_lower :: "char \<Rightarrow> char" where
  "ascii_lower c = hd (to_ascii_lowercase [c])"

definition continuation_byte :: "char \<Rightarrow> bool" where
  "continuation_byte c \<longleftrightarrow> 128 \<le> (of_char c :: nat) \<and> (of_char c :: nat) < 192"

fun like_match :: "str \<Rightarrow> str \<Rightarrow> bool" where
  "like_match [] t \<longleftrightarrow> t = []"
| "like_match (p # ps) [] \<longleftrightarrow> p = CHR ''%'' \<and> like_match ps []"
| "like_match (p # ps) (c # t) \<longleftrightarrow>
     (if p = CHR ''%'' then like_match ps (c # t) \<or> like_match (p # ps) t
      else if p = CHR ''_'' then like_match ps (dropWhile continuation_byte t)
      else if p = CHR 0x5C
        then (case ps of [] \<Rightarrow> False | q # qs \<Rightarrow> ascii_lower q = ascii_lower c \<and> like_match qs t)
      else ascii_lower p = ascii_lower c \<and> like_match ps t)"

subsection \<open>The filter\<close>

definition like_meta :: "char \<Rightarrow> bool" where
  "like_meta c \<longleftrightarrow> c = CHR 0x5C \<or> c = CHR ''_'' \<or> c = CHR ''%''"

definition escape_like_pattern :: "str \<Rightarrow> str" where
  "escape_like_pattern v = concat (map (\<lambda>c. if like_meta c then [CHR 0x5C, c] else [c]) v)"

text \<open>The SQL function \<open>replace(x, c, by)\<close> for a pattern of one character.\<close>

definition sql_replace :: "str \<Rightarrow> char \<Rightarrow> str \<Rightarrow> str" where
  "sql_replace x c r = concat (map (\<lambda>d. if d = c then r else [d]) x)"

definition sql_escape :: "str \<Rightarrow> str" where
  "sql_escape x =
     sql_replace (sql_replace (sql_replace x (CHR 0x5C) [CHR 0x5C, CHR 0x5C])
       (CHR ''_'') [CHR 0x5C, CHR ''_'']) (CHR ''%'') [CHR 0x5C, CHR ''%'']"

fun scope_filter_sql :: "str \<Rightarrow> scope_walk \<Rightarrow> str \<Rightarrow> bool" where
  "scope_filter_sql scope ScopeAny row = True"
| "scope_filter_sql scope ScopeExact row = (row = scope)"
| "scope_filter_sql scope ScopeDescendants row =
     (row = scope \<or> like_match (escape_like_pattern scope @ ''/%'') row)"
| "scope_filter_sql scope ScopeAncestors row =
     (row = ''global'' \<or> row = scope \<or> like_match (sql_escape row @ ''/%'') scope)"

subsection \<open>What it admits\<close>

lemma sql_escape_eq: "sql_escape x = escape_like_pattern x"
  by (induction x) (auto simp: sql_escape_def sql_replace_def escape_like_pattern_def like_meta_def)

lemma lower_Cons: "to_ascii_lowercase (c # s) = ascii_lower c # to_ascii_lowercase s"
  by (simp add: to_ascii_lowercase_def ascii_lower_def)

lemma lower_Nil [simp]: "to_ascii_lowercase [] = []"
  by (simp add: to_ascii_lowercase_def)

lemma lower_append: "to_ascii_lowercase (s @ t) = to_ascii_lowercase s @ to_ascii_lowercase t"
  by (simp add: to_ascii_lowercase_def)

lemma like_percent [simp]: "like_match ''%'' t"
  by (induction t) simp_all

lemma like_meta_plain:
  assumes "\<not> like_meta p"
  shows "like_match (p # ps) t \<longleftrightarrow>
    (\<exists>c u. t = c # u \<and> ascii_lower p = ascii_lower c \<and> like_match ps u)"
  using assms by (cases t) (auto simp: like_meta_def)

lemma like_escaped:
  "like_match (CHR 0x5C # p # ps) t \<longleftrightarrow>
    (\<exists>c u. t = c # u \<and> ascii_lower p = ascii_lower c \<and> like_match ps u)"
  by (cases t) auto

text \<open>An escaped pattern is a literal: a match is the literal up to the case of ASCII letters.\<close>

lemma like_escape:
  "like_match (escape_like_pattern p @ q) t \<longleftrightarrow>
    (\<exists>u v. t = u @ v \<and> to_ascii_lowercase u = to_ascii_lowercase p \<and> like_match q v)"
proof (induction p arbitrary: t)
  case Nil
  then show ?case
    by (auto simp: escape_like_pattern_def to_ascii_lowercase_def)
next
  case (Cons c p)
  have "like_match (escape_like_pattern (c # p) @ q) t \<longleftrightarrow>
      (\<exists>d w. t = d # w \<and> ascii_lower c = ascii_lower d \<and> like_match (escape_like_pattern p @ q) w)"
    by (cases "like_meta c") (simp_all add: escape_like_pattern_def like_escaped like_meta_plain)
  also have "\<dots> \<longleftrightarrow> (\<exists>u v. t = u @ v \<and> to_ascii_lowercase u = to_ascii_lowercase (c # p)
      \<and> like_match q v)"
    unfolding Cons.IH
  proof (intro iffI; elim exE conjE)
    fix d w u v
    assume "t = d # w" "ascii_lower c = ascii_lower d" "w = u @ v"
      "to_ascii_lowercase u = to_ascii_lowercase p" "like_match q v"
    then show "\<exists>u v. t = u @ v \<and> to_ascii_lowercase u = to_ascii_lowercase (c # p) \<and> like_match q v"
      by (intro exI [of _ "d # u"] exI [of _ v]) (simp add: lower_Cons)
  next
    fix u v
    assume *: "t = u @ v" "to_ascii_lowercase u = to_ascii_lowercase (c # p)" "like_match q v"
    then obtain d w where "u = d # w" by (cases u) (auto simp: lower_Cons)
    with * show "\<exists>d w. t = d # w \<and> ascii_lower c = ascii_lower d \<and>
        (\<exists>u v. w = u @ v \<and> to_ascii_lowercase u = to_ascii_lowercase p \<and> like_match q v)"
      by (auto simp: lower_Cons)
  qed
  finally show ?case .
qed

lemma ascii_lower_slash: "ascii_lower c = CHR ''/'' \<longleftrightarrow> c = CHR ''/''"
proof (cases "is_ascii_uppercase c")
  case True
  then have c: "65 \<le> (of_char c :: nat)" "(of_char c :: nat) \<le> 90"
    by (simp_all add: is_ascii_uppercase_def less_eq_char_def)
  have "ascii_lower c \<noteq> CHR ''/''"
  proof
    assume "ascii_lower c = CHR ''/''"
    with True have "char_of (of_char c + 32 :: nat) = CHR ''/''"
      by (simp add: ascii_lower_def to_ascii_lowercase_def)
    then have "of_char (char_of (of_char c + 32 :: nat) :: char) = (of_char (CHR ''/'') :: nat)"
      by (rule arg_cong)
    with c show False by simp
  qed
  with c show ?thesis by auto
qed (simp add: ascii_lower_def to_ascii_lowercase_def)

lemma like_below:
  "like_match (escape_like_pattern p @ ''/%'') t \<longleftrightarrow>
    prefix (to_ascii_lowercase p @ ''/'') (to_ascii_lowercase t)"
proof -
  have tail: "like_match ''/%'' v \<longleftrightarrow> (\<exists>w. v = CHR ''/'' # w)" for v
  proof -
    have slash: "ascii_lower (CHR ''/'') = CHR ''/''" by (simp add: ascii_lower_slash)
    have "CHR ''/'' = ascii_lower c \<longleftrightarrow> c = CHR ''/''" for c
      using ascii_lower_slash [of c] by metis
    then show ?thesis by (cases v) (simp_all add: slash)
  qed
  have "like_match (escape_like_pattern p @ ''/%'') t \<longleftrightarrow>
      (\<exists>u w. t = u @ CHR ''/'' # w \<and> to_ascii_lowercase u = to_ascii_lowercase p)"
    unfolding like_escape tail by auto
  also have "\<dots> \<longleftrightarrow> prefix (to_ascii_lowercase p @ ''/'') (to_ascii_lowercase t)"
  proof
    assume "\<exists>u w. t = u @ CHR ''/'' # w \<and> to_ascii_lowercase u = to_ascii_lowercase p"
    then obtain u w where "t = u @ CHR ''/'' # w" "to_ascii_lowercase u = to_ascii_lowercase p"
      by blast
    then have "to_ascii_lowercase t = (to_ascii_lowercase p @ ''/'') @ to_ascii_lowercase w"
      using ascii_lower_slash [of "CHR ''/''"] by (simp add: lower_append lower_Cons)
    then show "prefix (to_ascii_lowercase p @ ''/'') (to_ascii_lowercase t)"
      by (rule prefixI)
  next
    assume "prefix (to_ascii_lowercase p @ ''/'') (to_ascii_lowercase t)"
    then obtain w where "to_ascii_lowercase t = to_ascii_lowercase p @ CHR ''/'' # w"
      by (auto simp: prefix_def)
    then obtain u v where t: "t = u @ v" "to_ascii_lowercase u = to_ascii_lowercase p"
        "to_ascii_lowercase v = CHR ''/'' # w"
      by (auto simp: to_ascii_lowercase_def map_eq_append_conv)
    then obtain c v' where "v = c # v'" "ascii_lower c = CHR ''/''"
      by (cases v) (auto simp: lower_Cons)
    with t have "t = u @ CHR ''/'' # v'"
      by (simp add: ascii_lower_slash)
    with t(2)     show "\<exists>u w. t = u @ CHR ''/'' # w \<and> to_ascii_lowercase u = to_ascii_lowercase p"
      by blast
  qed
  finally show ?thesis .
qed

subsection \<open>The filter is a path prefix\<close>

definition below :: "str \<Rightarrow> str \<Rightarrow> bool" where
  "below scope row \<longleftrightarrow> prefix (to_ascii_lowercase scope @ ''/'') (to_ascii_lowercase row)"

text \<open>
  C18. The SQL scope filter is the path order of ADR-0021, up to the case of ASCII letters: the
  descendants of a scope are the scope and what lies below it in the path, its ancestors the
  root \<open>global\<close>, the scope and what it lies below; the escaping leaves no LIKE wildcard in a
  scope active, so \<open>_\<close> matches only itself.
\<close>

theorem scope_filter_is_path_order:
  "scope_filter_sql scope walk row =
     (case walk of
        ScopeAny \<Rightarrow> True
      | ScopeExact \<Rightarrow> row = scope
      | ScopeDescendants \<Rightarrow> row = scope \<or> below scope row
      | ScopeAncestors \<Rightarrow> row = ''global'' \<or> row = scope \<or> below row scope)"
  by (cases walk) (simp_all add: sql_escape_eq like_below below_def)

lemma below_trans:
  assumes "below a b" and "below b c"
  shows "below a c"
proof -
  from assms(1) obtain u where "to_ascii_lowercase b = to_ascii_lowercase a @ ''/'' @ u"
    by (auto simp: below_def prefix_def)
  moreover from assms(2) obtain v where "to_ascii_lowercase c = to_ascii_lowercase b @ ''/'' @ v"
    by (auto simp: below_def prefix_def)
  ultimately show ?thesis by (simp add: below_def)
qed

lemma below_irrefl: "\<not> below a a"
  using prefix_length_le by (fastforce simp: below_def)

text \<open>The case folding of LIKE is visible: siblings that differ in case share their subtrees,
  although the exact filter tells them apart.\<close>

lemma scope_filter_folds_case:
  "scope_filter_sql ''Team'' ScopeDescendants ''team/x''"
  "\<not> scope_filter_sql ''Team'' ScopeDescendants ''team''"
  "\<not> scope_filter_sql ''proj_a'' ScopeDescendants ''proj/a/x''"
  by code_simp+

end
