(* ===== verification/Suggest.thy ===== *)
theory Suggest
  imports Ontology Scopes "HOL-Library.Product_Lexorder"
begin

section \<open>Suggestions for unknown predicates\<close>

text \<open>
  The diagnostics of \<open>crates/aver-core/src/ontology.rs\<close> for a predicate that is not in the
  vocabulary: the edit distance row by row as the code computes it, the semantic hints, the
  closest accepted name and the message. \<open>chars_of\<close> gives the characters of a string as their
  UTF-8 encodings. The recursive distance \<open>levenshtein\<close> and edit scripts are the specification.
\<close>

subsection \<open>Characters\<close>

lemma dropWhile_shrinks [termination_simp]: "length (dropWhile p s) < Suc (length s)"
  by (simp add: length_dropWhile_le le_imp_less_Suc)

fun chars_of :: "str \<Rightarrow> str list" where
  "chars_of [] = []"
| "chars_of (c # s) = (c # takeWhile continuation_byte s) # chars_of (dropWhile continuation_byte s)"

lemma concat_chars_of [simp]: "concat (chars_of s) = s"
  by (induction s rule: chars_of.induct) auto

lemma chars_of_nonempty: "c \<in> set (chars_of s) \<Longrightarrow> c \<noteq> []"
  by (induction s rule: chars_of.induct) auto

subsection \<open>Edit distance\<close>

text \<open>
  One turn of the outer loop: the new row from the previous one. \<open>left\<close> is the new row's entry
  to the left, \<open>diag # ps\<close> the rest of the previous row.
\<close>

fun distance_row :: "'a \<Rightarrow> nat \<Rightarrow> nat list \<Rightarrow> 'a list \<Rightarrow> nat list" where
  "distance_row x left (diag # up # ps) (y # ys) =
     (let cell = min (min (up + 1) (left + 1)) (diag + (if x \<noteq> y then 1 else 0))
      in cell # distance_row x cell (up # ps) ys)"
| "distance_row x left ps ys = []"

definition next_row :: "'a list \<Rightarrow> nat list \<Rightarrow> nat \<times> 'a \<Rightarrow> nat list" where
  "next_row right previous = (\<lambda>(i, x). (i + 1) # distance_row x (i + 1) previous right)"

definition row_distance :: "'a list \<Rightarrow> 'a list \<Rightarrow> nat" where
  "row_distance left right =
     foldl (next_row right) [0..<length right + 1] (enumerate 0 left) ! length right"

definition edit_distance :: "str \<Rightarrow> str \<Rightarrow> nat" where
  "edit_distance left right = row_distance (chars_of left) (chars_of right)"

subsection \<open>Hints and the closest name\<close>

definition normalize_predicate_name :: "str \<Rightarrow> str" where
  "normalize_predicate_name name =
     map (\<lambda>c. if c = CHR ''-'' \<or> c = CHR '' '' then CHR ''_'' else ascii_lower c) (trim name)"

definition semantic_predicate_hint :: "str \<Rightarrow> str option" where
  "semantic_predicate_hint n =
     (if n \<in> {''deprioritizes'', ''prioritizes'', ''prioritises'', ''favors'', ''favours'', ''likes'',
              ''preference''} then Some ''prefers''
      else if n \<in> {''requires'', ''needs'', ''needed_by'', ''depends'', ''depends_upon''}
        then Some ''depends_on''
      else if n \<in> {''about'', ''related_to'', ''associated_with''} then Some ''relates_to''
      else if n \<in> {''owns'', ''owner'', ''owned''} then Some ''owns''
      else if n \<in> {''tests'', ''tested_by'', ''validates''} then Some ''tests''
      else if n \<in> {''fixes'', ''resolves'', ''repairs''} then Some ''fixes''
      else None)"

record predicate_name =
  pn_accepted :: str
  pn_canonical :: "str option"

record predicate_vocabulary =
  pv_predicates :: "str list"
  pv_aliases :: "str list"
  pv_candidates :: "predicate_name list"

definition closeness :: "str \<Rightarrow> predicate_name \<Rightarrow> nat \<times> nat \<times> str" where
  "closeness normalized c =
     (edit_distance normalized (normalize_predicate_name (pn_accepted c)),
      length (pn_accepted c), pn_accepted c)"

definition closer :: "str \<Rightarrow> (predicate_name \<times> nat) option \<Rightarrow> predicate_name \<Rightarrow> (predicate_name \<times> nat) option" where
  "closer normalized best c =
     (let distance = edit_distance normalized (normalize_predicate_name (pn_accepted c))
      in case best of
           None \<Rightarrow> Some (c, distance)
         | Some (b, best_distance) \<Rightarrow>
             if distance < best_distance
                \<or> (distance = best_distance \<and> length (pn_accepted c) < length (pn_accepted b))
                \<or> (distance = best_distance \<and> length (pn_accepted c) = length (pn_accepted b)
                   \<and> pn_accepted c < pn_accepted b)
             then Some (c, distance) else best)"

definition suggestion_threshold :: "nat \<Rightarrow> nat" where
  "suggestion_threshold n = (if n \<le> 4 then 1 else if n \<le> 8 then 2 else 3)"

definition suggest_unknown_predicate :: "str \<Rightarrow> predicate_name list \<Rightarrow> predicate_name option" where
  "suggest_unknown_predicate name candidates =
     (let normalized = normalize_predicate_name name;
          hinted = (case semantic_predicate_hint normalized of
                      None \<Rightarrow> None | Some h \<Rightarrow> find (\<lambda>c. pn_accepted c = h) candidates)
      in case hinted of
           Some c \<Rightarrow> Some c
         | None \<Rightarrow>
             (case foldl (closer normalized) None candidates of
                None \<Rightarrow> None
              | Some (c, distance) \<Rightarrow>
                  if distance \<le> suggestion_threshold (max (length normalized) (length (pn_accepted c)))
                  then Some c else None))"

subsection \<open>The vocabulary and the message\<close>

definition query_alias_rows :: "graph \<Rightarrow> (str \<times> str) list" where
  "query_alias_rows g =
     sort_key fst [(a, t_name row). (a, i) \<leftarrow> g_predicate_alias g,
                                    Some row \<leftarrow> [map_of (g_predicate_types g) i]]"

definition predicate_vocabulary_of :: "graph \<Rightarrow> predicate_vocabulary" where
  "predicate_vocabulary_of g =
     (let predicates = sort (map t_name (tbl_rows (g_predicate_types g)));
          alias_rows = query_alias_rows g
      in \<lparr> pv_predicates = predicates, pv_aliases = map fst alias_rows,
           pv_candidates = map (\<lambda>p. \<lparr> pn_accepted = p, pn_canonical = None \<rparr>) predicates
             @ map (\<lambda>(a, c). \<lparr> pn_accepted = a, pn_canonical = Some c \<rparr>) alias_rows \<rparr>)"

definition UNKNOWN_PREDICATE_LIST_LIMIT :: nat where
  "UNKNOWN_PREDICATE_LIST_LIMIT = 32"

definition ticked :: "str \<Rightarrow> str" where
  "ticked s = [CHR 0x60] @ s @ [CHR 0x60]"

definition format_available_values :: "str list \<Rightarrow> str" where
  "format_available_values values =
     (let shown = map ticked (take UNKNOWN_PREDICATE_LIST_LIMIT values);
          remaining = length values - UNKNOWN_PREDICATE_LIST_LIMIT
      in join '', '' (shown @ (if 0 < remaining
           then [[CHR 0xE2, CHR 0x80, CHR 0xA6] @ '' and '' @ show_nat remaining @ '' more''] else [])))"

definition format_unknown_predicate ::
  "str \<Rightarrow> predicate_name option \<Rightarrow> str list \<Rightarrow> str list \<Rightarrow> str" where
  "format_unknown_predicate name suggestion predicates aliases =
     ''unknown predicate: '' @ name @ '' (not in predicate_types or predicate_alias).''
     @ (case suggestion of
          None \<Rightarrow> []
        | Some s \<Rightarrow>
            (case pn_canonical s of
               Some canonical \<Rightarrow>
                 if canonical \<noteq> pn_accepted s
                 then '' did you mean '' @ ticked (pn_accepted s) @ '' (alias for ''
                      @ ticked canonical @ '')?''
                 else '' did you mean '' @ ticked (pn_accepted s) @ ''?''
             | None \<Rightarrow> '' did you mean '' @ ticked (pn_accepted s) @ ''?''))
     @ (if predicates \<noteq> []
        then '' available predicates: '' @ format_available_values predicates @ ''.'' else [])
     @ (if aliases \<noteq> []
        then '' accepted aliases: '' @ format_available_values aliases @ ''.'' else [])
     @ (case suggestion of
          Some s \<Rightarrow> '' retry hint: safe to retry with predicate '' @ ticked (pn_accepted s)
            @ ''; do not invent predicates or silently rewrite the stored claim.''
        | None \<Rightarrow> '' retry hint: choose one available predicate or alias, then retry; ''
            @ ticked ''relates_to''
            @ '' is the safest generic fallback when no precise predicate fits.'')"

definition describe_unknown_predicate :: "str \<Rightarrow> graph \<Rightarrow> str" where
  "describe_unknown_predicate predicate g =
     (let v = predicate_vocabulary_of g
      in format_unknown_predicate predicate (suggest_unknown_predicate predicate (pv_candidates v))
           (pv_predicates v) (pv_aliases v))"

subsection \<open>The rows compute the distance\<close>

fun levenshtein :: "'a list \<Rightarrow> 'a list \<Rightarrow> nat" where
  "levenshtein [] ys = length ys"
| "levenshtein xs [] = length xs"
| "levenshtein (x # xs) (y # ys) =
     min (min (levenshtein xs (y # ys) + 1) (levenshtein (x # xs) ys + 1))
         (levenshtein xs ys + (if x \<noteq> y then 1 else 0))"

text \<open>The row after the characters \<open>xs\<close> holds the distances of \<open>xs\<close> to the prefixes of the right
  string; with the recursion on the reversed strings the last characters come first.\<close>

abbreviation prefix_distance :: "'a list \<Rightarrow> 'a list \<Rightarrow> nat" where
  "prefix_distance xs ys \<equiv> levenshtein (rev xs) (rev ys)"

lemma levenshtein_Nil [simp]: "levenshtein xs [] = length xs"
  by (cases xs) simp_all

lemma levenshtein_commute: "levenshtein xs ys = levenshtein ys xs"
  by (induction xs ys rule: levenshtein.induct) auto

lemma prefix_distance_snoc:
  "prefix_distance (xs @ [x]) (ys @ [y]) =
     min (min (prefix_distance xs (ys @ [y]) + 1) (prefix_distance (xs @ [x]) ys + 1))
       (prefix_distance xs ys + (if x \<noteq> y then 1 else 0))"
  by simp

lemma distance_row_correct:
  assumes "ps = map (\<lambda>j. prefix_distance xs (take j (zs @ ys))) [length zs..<length (zs @ ys) + 1]"
    and "left = prefix_distance (xs @ [x]) zs"
  shows "distance_row x left ps ys =
    map (\<lambda>j. prefix_distance (xs @ [x]) (take j (zs @ ys))) [length zs + 1..<length (zs @ ys) + 1]"
  using assms
proof (induction ys arbitrary: zs left ps)
  case Nil
  then show ?case by simp
next
  case (Cons y ys)
  let ?p = "\<lambda>j. prefix_distance xs (take j (zs @ y # ys))"
  let ?n = "length (zs @ y # ys) + 1"
  have range: "[length zs..<?n] = length zs # [length zs + 1..<?n]"
    "[length zs + 1..<?n] = (length zs + 1) # [length zs + 2..<?n]"
    using upt_conv_Cons [of "length zs" ?n] upt_conv_Cons [of "length zs + 1" ?n]
    by (simp_all del: upt_Suc)
  define rest where "rest = map ?p [length zs + 2..<?n]"
  have ps: "ps = prefix_distance xs zs # prefix_distance xs (zs @ [y]) # rest"
    using Cons.prems(1) by (simp only: range rest_def list.map) simp
  define cell where "cell = prefix_distance (xs @ [x]) (zs @ [y])"
  have cell: "distance_row x left ps (y # ys) =
      cell # distance_row x cell (prefix_distance xs (zs @ [y]) # rest) ys"
    unfolding ps distance_row.simps(1) Let_def cell_def
    by (simp only: prefix_distance_snoc Cons.prems(2))
  have "distance_row x cell (prefix_distance xs (zs @ [y]) # rest) ys =
      map (\<lambda>j. prefix_distance (xs @ [x]) (take j ((zs @ [y]) @ ys)))
        [length (zs @ [y]) + 1..<length ((zs @ [y]) @ ys) + 1]"
  proof (rule Cons.IH)
    show "prefix_distance xs (zs @ [y]) # rest =
        map (\<lambda>j. prefix_distance xs (take j ((zs @ [y]) @ ys)))
          [length (zs @ [y])..<length ((zs @ [y]) @ ys) + 1]"
      using range(2) by (simp add: rest_def)
  qed (simp add: cell_def)
  moreover have "(zs @ [y]) @ ys = zs @ y # ys" "length (zs @ [y]) + 1 = length zs + 2" by simp_all
  ultimately have "distance_row x left ps (y # ys) = cell #
      map (\<lambda>j. prefix_distance (xs @ [x]) (take j (zs @ y # ys))) [length zs + 2..<?n]"
    by (simp only: cell)
  moreover have "prefix_distance (xs @ [x]) (take (length zs + 1) (zs @ y # ys)) = cell"
    by (simp add: cell_def)
  ultimately show ?case by (simp only: range(2) list.map)
qed

lemma rows_correct:
  "foldl (next_row right) [0..<length right + 1] (enumerate 0 left) =
     map (\<lambda>j. prefix_distance left (take j right)) [0..<length right + 1]"
proof (induction left rule: rev_induct)
  case Nil
  show ?case by (auto intro!: nth_equalityI)
next
  case (snoc x xs)
  have "distance_row x (length xs + 1)
      (map (\<lambda>j. prefix_distance xs (take j right)) [0..<length right + 1]) right =
      map (\<lambda>j. prefix_distance (xs @ [x]) (take j right)) [1..<length right + 1]"
    using distance_row_correct [of _ xs "[]" right "length xs + 1" x] by simp
  moreover have "[0..<length right + 1] = 0 # [1..<length right + 1]"
    using upt_conv_Cons [of 0 "length right + 1"] by (simp del: upt_Suc)
  moreover have "foldl (next_row right) [0..<length right + 1] (enumerate 0 (xs @ [x])) =
      next_row right (map (\<lambda>j. prefix_distance xs (take j right)) [0..<length right + 1]) (length xs, x)"
    by (simp only: enumerate_append_eq foldl_append enumerate_simps foldl_Cons foldl_Nil add_0 snoc.IH)
  moreover have "prefix_distance (xs @ [x]) (take 0 right) = length xs + 1" by simp
  ultimately show ?case
    unfolding next_row_def prod.case by (simp only: list.map)
qed

lemma row_distance_eq: "row_distance left right = prefix_distance left right"
  unfolding row_distance_def rows_correct by (simp del: upt_Suc)

subsection \<open>The distance is the cost of the cheapest edit script\<close>

datatype 'a edit = Keep | Change 'a | Insert 'a | Delete

fun edited :: "'a edit list \<Rightarrow> 'a list \<Rightarrow> 'a list option" where
  "edited [] [] = Some []"
| "edited (Keep # es) (x # xs) = map_option ((#) x) (edited es xs)"
| "edited (Change y # es) (x # xs) = map_option ((#) y) (edited es xs)"
| "edited (Insert y # es) xs = map_option ((#) y) (edited es xs)"
| "edited (Delete # es) (x # xs) = edited es xs"
| "edited _ _ = None"

definition edit_cost :: "'a edit list \<Rightarrow> nat" where
  "edit_cost es = length [e \<leftarrow> es. e \<noteq> Keep]"

lemma edit_cost_simps [simp]:
  "edit_cost [] = 0" "edit_cost (Keep # es) = edit_cost es"
  "edit_cost (Change y # es) = edit_cost es + 1" "edit_cost (Insert y # es) = edit_cost es + 1"
  "edit_cost (Delete # es) = edit_cost es + 1"
  by (simp_all add: edit_cost_def)

lemma levenshtein_lower: "edited es xs = Some ys \<Longrightarrow> levenshtein xs ys \<le> edit_cost es"
proof (induction es xs arbitrary: ys rule: edited.induct)
  case (2 es x xs)
  then obtain zs where "edited es xs = Some zs" "ys = x # zs" by auto
  with 2 show ?case by fastforce
next
  case (3 y es x xs)
  then obtain zs where "edited es xs = Some zs" "ys = y # zs" by auto
  with 3 show ?case by fastforce
next
  case (4 y es xs)
  then obtain zs where "edited es xs = Some zs" "ys = y # zs" by auto
  with 4 show ?case by (cases xs) fastforce+
next
  case (5 es x xs)
  then show ?case by (cases ys) fastforce+
qed simp_all

lemma levenshtein_script: "\<exists>es. edited es xs = Some ys \<and> edit_cost es = levenshtein xs ys"
proof (induction xs ys rule: levenshtein.induct)
  case (1 ys)
  have "edited (map Insert ys) [] = Some ys \<and> edit_cost (map Insert ys) = length ys"
    by (induction ys) simp_all
  then show ?case by auto
next
  case (2 v va)
  have "edited (map (\<lambda>_. Delete) xs) xs = Some [] \<and> edit_cost (map (\<lambda>_. Delete) xs) = length xs"
    for xs :: "'a list"
    by (induction xs) simp_all
  from this [of "v # va"] show ?case by (metis levenshtein.simps(2))
next
  case (3 x xs y ys)
  then obtain a b c where
    abc: "edited a xs = Some (y # ys)" "edit_cost a = levenshtein xs (y # ys)"
      "edited b (x # xs) = Some ys" "edit_cost b = levenshtein (x # xs) ys"
      "edited c xs = Some ys" "edit_cost c = levenshtein xs ys" by blast
  then have "edited (Delete # a) (x # xs) = Some (y # ys)"
    "edited (Insert y # b) (x # xs) = Some (y # ys)"
    "edited ((if x \<noteq> y then Change y else Keep) # c) (x # xs) = Some (y # ys)"
    "edit_cost (Delete # a) = levenshtein xs (y # ys) + 1"
    "edit_cost (Insert y # b) = levenshtein (x # xs) ys + 1"
    "edit_cost ((if x \<noteq> y then Change y else Keep) # c) =
      levenshtein xs ys + (if x \<noteq> y then 1 else 0)"
    by auto
  then show ?case unfolding levenshtein.simps(3) min_def by metis
qed

lemma edited_append:
  "edited es xs = Some ys \<Longrightarrow> edited fs zs = Some ws \<Longrightarrow> edited (es @ fs) (xs @ zs) = Some (ys @ ws)"
proof (induction es xs arbitrary: ys rule: edited.induct)
  case (4 y es xs)
  then show ?case by (cases "xs @ zs") auto
qed auto

lemma edited_rev: "edited es xs = Some ys \<Longrightarrow> edited (rev es) (rev xs) = Some (rev ys)"
proof (induction es xs arbitrary: ys rule: edited.induct)
  case (4 y es xs)
  then obtain zs where "edited (rev es) (rev xs) = Some (rev zs)" "ys = y # zs" by auto
  with edited_append [of "rev es" "rev xs" "rev zs" "[Insert y]" "[]" "[y]"] show ?case by simp
next
  case (2 es x xs)
  then obtain zs where "edited (rev es) (rev xs) = Some (rev zs)" "ys = x # zs" by auto
  with edited_append [of "rev es" "rev xs" "rev zs" "[Keep]" "[x]" "[x]"] show ?case by simp
next
  case (3 y es x xs)
  then obtain zs where "edited (rev es) (rev xs) = Some (rev zs)" "ys = y # zs" by auto
  with edited_append [of "rev es" "rev xs" "rev zs" "[Change y]" "[x]" "[y]"] show ?case by simp
next
  case (5 es x xs)
  then have "edited (rev es) (rev xs) = Some (rev ys)" by simp
  with edited_append [of "rev es" "rev xs" "rev ys" "[Delete]" "[x]" "[]"] show ?case by simp
qed simp_all

lemma edit_cost_rev [simp]: "edit_cost (rev es) = edit_cost es"
  by (simp add: edit_cost_def rev_filter [symmetric])

text \<open>
  The edit distance the code computes row by row is the least number of changes, insertions
  and deletions of characters that turn one string into the other.
\<close>

theorem edit_distance_minimal:
  "(\<exists>es. edited es (chars_of left) = Some (chars_of right) \<and> edit_cost es = edit_distance left right)
   \<and> (\<forall>es. edited es (chars_of left) = Some (chars_of right) \<longrightarrow> edit_distance left right \<le> edit_cost es)"
proof (intro conjI allI impI)
  obtain es where "edited es (rev (chars_of left)) = Some (rev (chars_of right))"
    "edit_cost es = edit_distance left right"
    using levenshtein_script unfolding edit_distance_def row_distance_eq by blast
  with edited_rev [of es "rev (chars_of left)" "rev (chars_of right)"]
  show "\<exists>es. edited es (chars_of left) = Some (chars_of right) \<and> edit_cost es = edit_distance left right"
    by (intro exI [of _ "rev es"]) simp
next
  fix es
  assume "edited es (chars_of left) = Some (chars_of right)"
  from levenshtein_lower [OF edited_rev [OF this]]
  show "edit_distance left right \<le> edit_cost es"
    by (simp add: edit_distance_def row_distance_eq)
qed

lemma kitten_distance: "edit_distance ''kitten'' ''sitting'' = 3"
  by code_simp

lemma edit_distance_minimal_witness:
  "edit_distance ''kitten'' ''sitting'' \<le>
     edit_cost [Change (''s''), Keep, Keep, Keep, Change (''i''), Keep, Insert (''g'')]"
proof -
  have "edited [Change (''s''), Keep, Keep, Keep, Change (''i''), Keep, Insert (''g'')]
      (chars_of ''kitten'') = Some (chars_of ''sitting'')"
    by code_simp
  with edit_distance_minimal [of "''kitten''" "''sitting''"] show ?thesis by blast
qed

subsection \<open>The suggestion is the closest name\<close>

lemma closer_lex:
  "closer normalized (Some (b, fst (closeness normalized b))) c =
     (let best = if closeness normalized c < closeness normalized b then c else b
      in Some (best, fst (closeness normalized best)))"
  by (auto simp: closer_def closeness_def Let_def)

lemma foldl_closer:
  "foldl (closer normalized) (Some (b, fst (closeness normalized b))) cs =
     (let best = foldl (\<lambda>b c. if closeness normalized c < closeness normalized b then c else b) b cs
      in Some (best, fst (closeness normalized best)))"
  by (induction cs arbitrary: b) (simp_all add: closer_lex Let_def)

lemma foldl_least:
  fixes f :: "'a \<Rightarrow> 'b::linorder"
  shows "let m = foldl (\<lambda>b c. if f c < f b then c else b) b cs
     in m \<in> set (b # cs) \<and> (\<forall>c \<in> set (b # cs). f m \<le> f c)"
proof (induction cs arbitrary: b)
  case (Cons c cs)
  from Cons [of "if f c < f b then c else b"] show ?case
    by (auto simp: Let_def split: if_splits)
qed simp

lemma closest_name:
  assumes "foldl (closer normalized) None cs = Some (c, distance)"
  shows "c \<in> set cs \<and> distance = fst (closeness normalized c)
    \<and> (\<forall>d \<in> set cs. closeness normalized c \<le> closeness normalized d)"
proof (cases cs)
  case Nil
  with assms show ?thesis by simp
next
  case (Cons b bs)
  have "closer normalized None b = Some (b, fst (closeness normalized b))"
    by (simp add: closer_def closeness_def)
  with assms Cons foldl_closer [of normalized b bs] foldl_least [of "closeness normalized" b bs]
  show ?thesis by (auto simp: Let_def)
qed

text \<open>
  A suggestion for an unknown predicate is a name of the vocabulary: the one the predicate is
  a listed synonym of, or else the closest name, and then only within the threshold.
\<close>

theorem suggestion_closest:
  assumes "suggest_unknown_predicate name candidates = Some s"
  shows "s \<in> set candidates
    \<and> (semantic_predicate_hint (normalize_predicate_name name) = Some (pn_accepted s)
       \<or> (fst (closeness (normalize_predicate_name name) s) \<le> 3
          \<and> (\<forall>c \<in> set candidates.
               closeness (normalize_predicate_name name) s \<le> closeness (normalize_predicate_name name) c)))"
proof (cases "\<exists>h. semantic_predicate_hint (normalize_predicate_name name) = Some h
    \<and> find (\<lambda>c. pn_accepted c = h) candidates = Some s")
  case True
  then show ?thesis by (auto simp: find_Some_iff)
next
  case False
  then obtain distance where
    "foldl (closer (normalize_predicate_name name)) None candidates = Some (s, distance)"
    "distance \<le> suggestion_threshold (max (length (normalize_predicate_name name)) (length (pn_accepted s)))"
    using assms unfolding suggest_unknown_predicate_def Let_def
    by (auto split: option.splits prod.splits if_splits)
  moreover from this(2) have "distance \<le> 3"
    by (auto simp: suggestion_threshold_def split: if_splits)
  ultimately show ?thesis using closest_name by fastforce
qed

definition sample_names :: "predicate_name list" where
  "sample_names =
     [\<lparr> pn_accepted = ''calls'', pn_canonical = None \<rparr>,
      \<lparr> pn_accepted = ''imports'', pn_canonical = None \<rparr>]"

lemma sample_suggestion:
  "suggest_unknown_predicate ''Import'' sample_names = Some (sample_names ! 1)"
  by code_simp

lemma suggestion_closest_witness:
  "closeness (normalize_predicate_name ''Import'') (sample_names ! 1)
     \<le> closeness (normalize_predicate_name ''Import'') (sample_names ! 0)"
proof -
  have "semantic_predicate_hint (normalize_predicate_name ''Import'') = None" by code_simp
  with suggestion_closest [OF sample_suggestion] have
    "\<forall>c \<in> set sample_names. closeness (normalize_predicate_name ''Import'') (sample_names ! 1)
      \<le> closeness (normalize_predicate_name ''Import'') c" by simp
  then show ?thesis by (simp add: sample_names_def)
qed

text \<open>Every name of the vocabulary is accepted by the ontology check of a write.\<close>

lemma vocabulary_accepted:
  assumes "c \<in> set (pv_candidates (predicate_vocabulary_of g))"
  shows "validate_ontology g (pn_accepted c) prov = Inr ()"
proof -
  have "type_id_on (g_predicate_types g) (t_name row) \<noteq> None" if "(i, row) \<in> set (g_predicate_types g)" for i row
    using that by (auto simp: type_id_on_def find_None_iff)
  moreover have "map_of (g_predicate_alias g) a \<noteq> None" if "(a, i) \<in> set (g_predicate_alias g)" for a i
    using that by (metis weak_map_of_SomeI option.distinct(1))
  ultimately show ?thesis
    using assms unfolding predicate_vocabulary_of_def query_alias_rows_def validate_ontology_def
    by (fastforce simp: Let_def)
qed

end
