(* ===== verification/Recall_Score.thy ===== *)
theory Recall_Score
  imports Types Float_Ops "HOL-Library.Product_Lexorder" "HOL-Library.Multiset"
begin

section \<open>Scores of recall\<close>

text \<open>
  \<open>crates/aver-core/src/recall.rs\<close> (tokens of queries and claims), \<open>retrieval.rs\<close> (the weights of
  hybrid retrieval and the ranking of its candidates) and the cosine similarity of \<open>vector.rs\<close>.
  \<open>sort_by\<close> is Rust's stable sort with a comparison; \<open>f32\<close> values are doubles, each
  operation on them rounded to 24 bits.
\<close>

subsection \<open>Sorting with a comparison\<close>

fun insert_by :: "('a \<Rightarrow> 'a \<Rightarrow> bool) \<Rightarrow> 'a \<Rightarrow> 'a list \<Rightarrow> 'a list" where
  "insert_by le x [] = [x]"
| "insert_by le x (y # ys) = (if le x y then x # y # ys else y # insert_by le x ys)"

definition sort_by :: "('a \<Rightarrow> 'a \<Rightarrow> bool) \<Rightarrow> 'a list \<Rightarrow> 'a list" where
  "sort_by le xs = foldr (insert_by le) xs []"

lemma mset_insert_by [simp]: "mset (insert_by le x xs) = add_mset x (mset xs)"
  by (induction xs) auto

lemma mset_sort_by [simp]: "mset (sort_by le xs) = mset xs"
  by (induction xs) (simp_all add: sort_by_def)

lemma set_insert_by [simp]: "set (insert_by le x xs) = insert x (set xs)"
  by (metis mset_insert_by set_mset_add_mset_insert set_mset_mset)

lemma set_sort_by [simp]: "set (sort_by le xs) = set xs"
  by (rule mset_eq_setD) simp

lemma length_sort_by [simp]: "length (sort_by le xs) = length xs"
  by (rule mset_eq_length) simp

lemma distinct_sort_by [simp]: "distinct (sort_by le xs) = distinct xs"
  by (rule mset_eq_imp_distinct_iff) simp

text \<open>The laws a comparison must satisfy for \<open>sort_by\<close> to sort.\<close>

locale comparison =
  fixes le :: "'a \<Rightarrow> 'a \<Rightarrow> bool"
  assumes total: "le x y \<or> le y x"
    and trans: "le x y \<Longrightarrow> le y z \<Longrightarrow> le x z"
begin

lemma sorted_insert: "sorted_wrt le xs \<Longrightarrow> sorted_wrt le (insert_by le x xs)"
proof (induction xs)
  case (Cons y ys)
  show ?case
  proof (cases "le x y")
    case True
    with Cons.prems trans show ?thesis by auto
  next
    case False
    then have "le y x" using total by blast
    with Cons False show ?thesis by simp
  qed
qed simp

lemma sorted_sort: "sorted_wrt le (sort_by le xs)"
  by (induction xs) (simp_all add: sort_by_def sorted_insert)

lemma truncated_best:
  assumes "y \<in> set xs" and "y \<notin> set (take k (sort_by le xs))"
  shows "length (take k (sort_by le xs)) = k \<and> (\<forall>x \<in> set (take k (sort_by le xs)). le x y)"
proof -
  let ?s = "sort_by le xs"
  have y: "y \<in> set (drop k ?s)"
    using assms by (metis append_take_drop_id Un_iff set_append set_sort_by)
  have "sorted_wrt le (take k ?s @ drop k ?s)" using sorted_sort by simp
  with y have "\<forall>x \<in> set (take k ?s). le x y"
    by (simp only: sorted_wrt_append) blast
  moreover have "k < length ?s" using y by (metis drop_eq_Nil empty_iff empty_set not_le)
  ultimately show ?thesis by simp
qed

end

lemma sorted_wrt_filter_by: "sorted_wrt le xs \<Longrightarrow> sorted_wrt le (filter p xs)"
  by (induction xs) auto

subsection \<open>The total order of doubles\<close>

text \<open>\<open>f64::total_cmp\<close> on values with one NaN, which is above every number.\<close>

fun f64_rank :: "f64 \<Rightarrow> nat \<times> rat" where
  "f64_rank NegInf = (0, 0)"
| "f64_rank (Fin x) = (1, x)"
| "f64_rank PosInf = (2, 0)"
| "f64_rank NaN = (3, 0)"

lemma f64_rank_inj: "f64_rank x = f64_rank y \<longleftrightarrow> x = y"
  by (cases x; cases y) simp_all

instantiation f64 :: linorder
begin

definition less_eq_f64 :: "f64 \<Rightarrow> f64 \<Rightarrow> bool" where
  "less_eq_f64 x y \<longleftrightarrow> f64_rank x \<le> f64_rank y"

definition less_f64 :: "f64 \<Rightarrow> f64 \<Rightarrow> bool" where
  "less_f64 x y \<longleftrightarrow> f64_rank x < f64_rank y"

instance
  by standard (auto simp: less_eq_f64_def less_f64_def f64_rank_inj[symmetric])

end

text \<open>Best score first, ties by id: the comparison of every ranked list of claims.\<close>

definition ranks_before :: "('s::linorder) \<times> int \<Rightarrow> 's \<times> int \<Rightarrow> bool" where
  "ranks_before x y \<longleftrightarrow> fst y < fst x \<or> (fst x = fst y \<and> snd x \<le> snd y)"

interpretation ranked: comparison
  "\<lambda>(s :: 's::linorder, x) (t, y). ranks_before (s, key x) (t, key y)" for key :: "'b \<Rightarrow> int"
  by unfold_locales (auto simp: ranks_before_def)

lemma sorted_map_snd:
  assumes "sorted_wrt (\<lambda>(s, x) (t, y). ranks_before (s, key x) (t, key y)) ps"
    and "\<And>s x. (s, x) \<in> set ps \<Longrightarrow> s = score x"
  shows "sorted_wrt (\<lambda>x y. ranks_before (score x, key x) (score y, key y)) (map snd ps)"
  using assms by (induction ps) fastforce+

subsection \<open>Tokens\<close>

text \<open>\<open>str::split_whitespace\<close>.\<close>

function split_seqs :: "str list \<Rightarrow> str \<Rightarrow> str list" where
  "split_seqs ws s =
     (case s of [] \<Rightarrow> [[]]
      | c # cs \<Rightarrow>
          (case find (\<lambda>w. w \<noteq> [] \<and> prefix w s) ws of
             Some w \<Rightarrow> [] # split_seqs ws (drop (length w) s)
           | None \<Rightarrow> (let ps = split_seqs ws cs in (c # hd ps) # tl ps)))"
  by auto

termination
  by (relation "measure (\<lambda>(ws, s). length s)") (auto simp: find_Some_iff prefix_def)

declare split_seqs.simps [simp del]

definition split_whitespace :: "str \<Rightarrow> str list" where
  "split_whitespace s = [w \<leftarrow> split_seqs white_seqs s. w \<noteq> []]"

definition digit_parts :: "str \<Rightarrow> str list" where
  "digit_parts p =
     (let word = takeWhile (\<lambda>c. \<not> is_ascii_digit c) p; digits = dropWhile (\<lambda>c. \<not> is_ascii_digit c) p
      in if digits = [] \<or> word = [] then []
         else [word, digits] @ (if 1 < length digits then map (\<lambda>d. [d]) digits else []))"

fun camel_scan :: "str \<Rightarrow> str \<Rightarrow> str list" where
  "camel_scan part [] = [part]"
| "camel_scan part (c # cs) =
     (if is_ascii_uppercase c then part # camel_scan [c] cs else camel_scan (part @ [c]) cs)"

definition first_chars :: "str list \<Rightarrow> str" where
  "first_chars ps = concat (map (take 1) ps)"

definition camel_case_parts :: "str \<Rightarrow> str list" where
  "camel_case_parts token =
     (if list_all (\<lambda>c. is_ascii_uppercase c \<or> is_ascii_digit c) token
      then token # digit_parts token
      else let base = camel_scan (take 1 token) (drop 1 token)
           in base @ concat (map digit_parts base)
              @ (if 2 \<le> length base then [first_chars base] else []))"

definition trim_end_matches :: "str \<Rightarrow> str \<Rightarrow> str" where
  "trim_end_matches e s = rev (strip_front [rev e] (rev s))"

definition normalize_recall_token :: "str \<Rightarrow> str" where
  "normalize_recall_token token =
     (let lower = to_ascii_lowercase token
      in if lower = ''children'' then ''child''
         else if lower = ''people'' then ''person''
         else if 4 < length lower \<and> ends_with lower ''ee'' then trim_end_matches ''ee'' lower
         else if 4 < length lower \<and> ends_with lower ''ies'' then trim_end_matches ''ies'' lower @ ''y''
         else if 3 < length lower \<and> ends_with lower ''s'' then trim_end_matches ''s'' lower
         else lower)"

definition tokenize_for_recall :: "str \<Rightarrow> str list" where
  "tokenize_for_recall text =
     map normalize_recall_token
       (concat (map camel_case_parts
         [w \<leftarrow> split_on (\<lambda>c. \<not> is_ascii_alphanumeric c) text. w \<noteq> []]))"

definition query_tokens_for_recall :: "str \<Rightarrow> str list" where
  "query_tokens_for_recall query =
     (let tokens = tokenize_for_recall query; acronym = first_chars tokens
      in if 3 \<le> length tokens \<and> 2 \<le> length acronym \<and> acronym \<notin> set tokens
         then tokens @ [acronym] else tokens)"

definition graph_score_for_query_claim :: "str \<Rightarrow> 'a claim_scheme \<Rightarrow> f64" where
  "graph_score_for_query_claim query c =
     (let qs = set (query_tokens_for_recall query);
          es = set (tokenize_for_recall (c_subject c @ '' '' @ c_object c))
      in if qs = {} \<or> es = {} then Fin 0
         else f64_div (Fin (of_nat (card (qs \<inter> es)))) (of_nat (card qs)))"

definition token_score :: "str \<Rightarrow> str \<Rightarrow> nat" where
  "token_score text token =
     (if token \<in> set (split_whitespace (to_ascii_lowercase text)) then 2
      else if token \<in> set (tokenize_for_recall text) then 1
      else 0)"

definition recall_token_score :: "str list \<Rightarrow> 'a claim_scheme \<Rightarrow> nat" where
  "recall_token_score tokens c = sum_list (map (token_score (claim_text c)) tokens)"

lemma query_tokens_empty_iff:
  "query_tokens_for_recall q = [] \<longleftrightarrow> tokenize_for_recall q = []"
  by (auto simp: query_tokens_for_recall_def Let_def)

lemma recall_token_score_pos_iff:
  "0 < recall_token_score ts c \<longleftrightarrow> (\<exists>t \<in> set ts. 0 < token_score (claim_text c) t)"
  by (induction ts) (auto simp: recall_token_score_def)

lemma recall_token_score_le: "recall_token_score ts c \<le> 2 * length ts"
proof -
  have "sum_list (map (token_score (claim_text c)) ts) \<le> sum_list (map (\<lambda>_. 2) ts)"
    by (rule sum_list_mono) (simp add: token_score_def)
  then show ?thesis by (simp add: recall_token_score_def sum_list_triv mult.commute)
qed

subsection \<open>The weights of hybrid retrieval\<close>

datatype weights_error = Weights_Float str | OutOfRange

record hybrid_weights =
  hw_alpha :: f64

definition default_weights :: hybrid_weights where
  "default_weights = \<lparr> hw_alpha = f64_round (65 / 100) \<rparr>"

definition weights_try_new :: "f64 \<Rightarrow> weights_error + hybrid_weights" where
  "weights_try_new a = (if in_unit a then Inr \<lparr> hw_alpha = a \<rparr> else Inl OutOfRange)"

definition structural :: "str list" where
  "structural = [''depends on'', ''depends_on'', ''calls'', ''imports'', ''implements'',
     ''owned by'', ''owned_by'', ''related to'', ''connected to'']"

definition semantic :: "str list" where
  "semantic = [''summarize'', ''explain'', ''everything about'', ''overview'', ''context'']"

definition weights_for_query :: "str \<Rightarrow> hybrid_weights" where
  "weights_for_query query =
     (let lower = to_ascii_lowercase query
      in if list_ex (\<lambda>needle. contains_sub lower needle) structural
           then \<lparr> hw_alpha = f64_round (35 / 100) \<rparr>
         else if list_ex (\<lambda>needle. contains_sub lower needle) semantic
           then \<lparr> hw_alpha = f64_round (75 / 100) \<rparr>
         else default_weights)"

definition vector_weight :: "hybrid_weights \<Rightarrow> f64" where
  "vector_weight w = hw_alpha w"

definition graph_weight :: "hybrid_weights \<Rightarrow> f64" where
  "graph_weight w = f64_sub (Fin 1) (hw_alpha w)"

definition blend :: "hybrid_weights \<Rightarrow> f64 \<Rightarrow> f64 \<Rightarrow> f64" where
  "blend w vector_score graph_score =
     f64_add (f64_mul (vector_weight w) vector_score) (f64_mul (graph_weight w) graph_score)"

text \<open>\<open>str::parse::<f64>\<close> is the standard library's: the argument \<open>parse\<close>.\<close>

definition weights_from_str ::
  "(str \<Rightarrow> str + f64) \<Rightarrow> str \<Rightarrow> weights_error + hybrid_weights" where
  "weights_from_str parse s =
     (case parse (trim s) of Inl e \<Rightarrow> Inl (Weights_Float e) | Inr a \<Rightarrow> weights_try_new a)"

subsection \<open>Cosine similarity\<close>

definition f32_round :: "rat \<Rightarrow> f64" where
  "f32_round x =
     (let e = max (rat_log2 \<bar>x\<bar> - 23) (- 149);
          v = of_int (round_half_even (\<bar>x\<bar> / 2 powi e)) * 2 powi e
      in if 128 \<le> rat_log2 v then f64_inf (sgn x) else Fin (sgn x * v))"

fun f32_add :: "f64 \<Rightarrow> f64 \<Rightarrow> f64" where
  "f32_add (Fin x) (Fin y) = f32_round (x + y)"
| "f32_add x y = f64_add x y"

fun f32_mul :: "f64 \<Rightarrow> f64 \<Rightarrow> f64" where
  "f32_mul (Fin x) (Fin y) = f32_round (x * y)"
| "f32_mul x y = f64_mul x y"

fun f32_div :: "f64 \<Rightarrow> f64 \<Rightarrow> f64" where
  "f32_div (Fin x) (Fin y) = (if y = 0 then f64_inf (sgn x) else f32_round (x / y))"
| "f32_div NaN _ = NaN"
| "f32_div _ NaN = NaN"
| "f32_div (Fin x) _ = Fin 0"
| "f32_div x (Fin y) = (if y < 0 then f64_neg x else x)"
| "f32_div _ _ = NaN"

fun isqrt :: "nat \<Rightarrow> nat" where
  "isqrt n =
     (if n = 0 then 0 else let r = 2 * isqrt (n div 4) in if (r + 1) * (r + 1) \<le> n then r + 1 else r)"

declare isqrt.simps [simp del]

fun f32_sqrt :: "f64 \<Rightarrow> f64" where
  "f32_sqrt (Fin x) =
     (if x < 0 then NaN else if x = 0 then Fin 0
      else let e = rat_log2 x div 2 - 23; q = x / 4 powi e; m = isqrt (nat \<lfloor>q\<rfloor>);
               h = (of_nat m + 1 / 2) * (of_nat m + 1 / 2)
           in Fin (of_nat (if h < q \<or> (h = q \<and> odd m) then m + 1 else m) * 2 powi e))"
| "f32_sqrt PosInf = PosInf"
| "f32_sqrt _ = NaN"

definition f32_dot :: "f64 list \<Rightarrow> f64 list \<Rightarrow> f64" where
  "f32_dot l r = foldl (\<lambda>a (x, y). f32_add a (f32_mul x y)) (Fin 0) (zip l r)"

definition cosine_similarity :: "f64 list \<Rightarrow> f64 list \<Rightarrow> f64 option" where
  "cosine_similarity left right =
     (if length left \<noteq> length right \<or> left = [] then None
      else let dot = f32_dot left right; left_norm = f32_dot left left;
               right_norm = f32_dot right right
           in if left_norm = Fin 0 \<or> right_norm = Fin 0 then None
              else Some (f32_div dot (f32_mul (f32_sqrt left_norm) (f32_sqrt right_norm))))"

definition normalized_cosine_score :: "f64 list \<Rightarrow> f64 list \<Rightarrow> f64 option" where
  "normalized_cosine_score left right =
     map_option (\<lambda>score. f32_div (f32_add score (Fin 1)) (Fin 2)) (cosine_similarity left right)"

text \<open>The integer square root is the floor of the real one.\<close>

lemma isqrt_bounds: "isqrt n * isqrt n \<le> n \<and> n < (isqrt n + 1) * (isqrt n + 1)"
proof (induction n rule: isqrt.induct)
  case (1 n)
  show ?case
  proof (cases "n = 0")
    case True
    then show ?thesis by (simp add: isqrt.simps)
  next
    case False
    define r where "r = isqrt (n div 4)"
    have r: "r * r \<le> n div 4" "n div 4 < (r + 1) * (r + 1)"
      using "1.IH" False by (simp_all add: r_def)
    have eq: "isqrt n = (if (2 * r + 1) * (2 * r + 1) \<le> n then 2 * r + 1 else 2 * r)"
      using False by (subst isqrt.simps) (simp add: r_def Let_def)
    have n: "n = 4 * (n div 4) + n mod 4" "n mod 4 < 4" by simp_all
    have lo: "2 * r * (2 * r) \<le> n" using r(1) n by (simp add: algebra_simps)
    have "n < 4 * ((r + 1) * (r + 1))" using r(2) n by linarith
    then have hi: "n < (2 * r + 1 + 1) * (2 * r + 1 + 1)" by (simp add: algebra_simps)
    show ?thesis using lo hi by (auto simp: eq)
  qed
qed

subsection \<open>Ranking retrieval candidates\<close>

record retrieval_candidate =
  rc_claim_id :: int
  rc_score :: f64

definition retrieval_candidate_new ::
  "int \<Rightarrow> f64 \<Rightarrow> f64 \<Rightarrow> hybrid_weights \<Rightarrow> retrieval_candidate" where
  "retrieval_candidate_new i vector_score graph_score w =
     \<lparr> rc_claim_id = i, rc_score = blend w vector_score graph_score \<rparr>"

definition candidate_from_embeddings ::
  "int \<Rightarrow> f64 list \<Rightarrow> f64 list \<Rightarrow> f64 \<Rightarrow> hybrid_weights \<Rightarrow> retrieval_candidate option" where
  "candidate_from_embeddings i q e graph_score w =
     map_option (\<lambda>v. retrieval_candidate_new i v graph_score w) (normalized_cosine_score q e)"

definition candidate_before :: "retrieval_candidate \<Rightarrow> retrieval_candidate \<Rightarrow> bool" where
  "candidate_before a b =
     (if rc_score a = NaN \<and> rc_score b \<noteq> NaN then False
      else if rc_score a \<noteq> NaN \<and> rc_score b = NaN then True
      else ranks_before (rc_score a, rc_claim_id a) (rc_score b, rc_claim_id b))"

definition rank_candidates :: "retrieval_candidate list \<Rightarrow> retrieval_candidate list" where
  "rank_candidates cs = sort_by candidate_before cs"

definition top_k_candidates :: "retrieval_candidate list \<Rightarrow> nat \<Rightarrow> retrieval_candidate list" where
  "top_k_candidates cs k = take k (rank_candidates cs)"

interpretation candidate: comparison candidate_before
proof
  fix x y z
  show "candidate_before x y \<or> candidate_before y x"
    by (auto simp: candidate_before_def ranks_before_def)
  show "candidate_before x y \<Longrightarrow> candidate_before y z \<Longrightarrow> candidate_before x z"
    by (cases "rc_score x = NaN"; cases "rc_score y = NaN"; cases "rc_score z = NaN")
      (auto simp: candidate_before_def ranks_before_def)
qed

lemma rank_candidates_nan_last:
  assumes "rank_candidates cs = a @ c # b" and "rc_score c = NaN" and "d \<in> set b"
  shows "rc_score d = NaN"
proof -
  have "sorted_wrt candidate_before (a @ c # b)"
    using candidate.sorted_sort [of cs] assms(1) by (simp add: rank_candidates_def)
  with assms(3) have "candidate_before c d" by (simp add: sorted_wrt_append)
  with assms(2) show ?thesis by (auto simp: candidate_before_def split: if_splits)
qed

end
