(* ===== verification/Decision.thy ===== *)
theory Decision
  imports Store_Steps Suggest Recall_Score
begin

section \<open>Closed-choice decisions\<close>

text \<open>
  ADR-0024: a model picks one of the options the code lists (\<open>crates/aver-core/src/decision.rs\<close>),
  and what the code does with the choice: triage of candidates and the extraction trigger
  (\<open>candidate_decision.rs\<close>), predicate names (\<open>predicate_decision.rs\<close>) and scopes
  (\<open>scope_decision.rs\<close>). A client is any function from a decision to a choice or an error;
  \<open>systemone_decide\<close> is the one the crate ships, over an HTTP exchange, a JSON parser and a
  printer that are parameters.
\<close>

subsection \<open>Decisions and choices\<close>

definition MIN_OPTIONS :: nat where
  "MIN_OPTIONS = 2"

definition MAX_OPTIONS :: nat where
  "MAX_OPTIONS = 24"

record decision_request =
  dr_state :: str
  dr_question :: str
  dr_options :: "str list"
  dr_descriptions :: "str list option"

record choice =
  ch_index :: nat
  ch_confidence :: "f64 option"
  ch_model :: str

type_synonym decision_client = "decision_request \<Rightarrow> decision_error + choice"

definition option_description :: "decision_request \<Rightarrow> nat \<Rightarrow> str" where
  "option_description r i =
     (case dr_descriptions r of
        Some ds \<Rightarrow> if i < length ds then ds ! i else dr_options r ! i
      | None \<Rightarrow> dr_options r ! i)"

fun bad_option :: "str set \<Rightarrow> str list \<Rightarrow> str option" where
  "bad_option seen [] = None"
| "bad_option seen (x # xs) =
     (if x = [] \<or> x \<in> seen then Some x else bad_option (insert x seen) xs)"

definition validate_decision :: "decision_request \<Rightarrow> decision_error + unit" where
  "validate_decision r =
     (let count = length (dr_options r)
      in if count < MIN_OPTIONS then Inl (TooFewOptions count)
         else if MAX_OPTIONS < count then Inl (TooManyOptions count)
         else (case bad_option {} (dr_options r) of
                 Some x \<Rightarrow> Inl (DuplicateOption x)
               | None \<Rightarrow>
                   (case dr_descriptions r of
                      Some ds \<Rightarrow> if length ds \<noteq> count
                                 then Inl (DescriptionCountMismatch count (length ds)) else Inr ()
                    | None \<Rightarrow> Inr ())))"

definition meets :: "choice \<Rightarrow> f64 \<Rightarrow> bool" where
  "meets ch m = (case ch_confidence ch of None \<Rightarrow> False | Some c \<Rightarrow> f64_le m c)"

definition noop_decide :: decision_client where
  "noop_decide r = Inl Unavailable"

fun char_boundary :: "str \<Rightarrow> nat \<Rightarrow> nat" where
  "char_boundary s n =
     (if n = 0 \<or> length s \<le> n \<or> \<not> continuation_byte (s ! n) then n else char_boundary s (n - 1))"

declare char_boundary.simps [simp del]

definition truncate_bytes :: "str \<Rightarrow> nat \<Rightarrow> str" where
  "truncate_bytes s m = (if length s \<le> m then s else take (char_boundary s m) s)"

subsection \<open>The scripted client\<close>

text \<open>\<open>MockDecisionClient\<close>: the answers left and the decisions received.\<close>

type_synonym scripted_answer = "decision_error + (nat \<times> f64 option)"

definition mock_decide ::
  "decision_request \<Rightarrow> scripted_answer list \<times> decision_request list
    \<Rightarrow> (decision_error + choice) \<times> (scripted_answer list \<times> decision_request list)" where
  "mock_decide r = (\<lambda>(answers, received).
     case validate_decision r of
       Inl e \<Rightarrow> (Inl e, (answers, received @ [r]))
     | Inr _ \<Rightarrow>
         (case answers of
            [] \<Rightarrow> (Inl Unavailable, ([], received @ [r]))
          | Inl e # rest \<Rightarrow> (Inl e, (rest, received @ [r]))
          | Inr (i, c) # rest \<Rightarrow>
              (if length (dr_options r) \<le> i then Inl (InvalidChoice (show_nat i))
               else Inr \<lparr> ch_index = i, ch_confidence = c, ch_model = ''mock'' \<rparr>,
               (rest, received @ [r]))))"

subsection \<open>Configuration\<close>

record decision_config =
  dc_base_url :: str
  dc_model :: str
  dc_min_confidence :: f64
  dc_timeout :: nat

definition default_config :: decision_config where
  "default_config =
     \<lparr> dc_base_url = ''http://localhost:11434'', dc_model = ''tev1:4b'',
       dc_min_confidence = f64_round (6 / 10), dc_timeout = 30 \<rparr>"

definition parse_u64 :: "str \<Rightarrow> nat option" where
  "parse_u64 s =
     (let ds = (case s of [] \<Rightarrow> [] | c # cs \<Rightarrow> if c = CHR ''+'' then cs else s)
      in if ds \<noteq> [] \<and> list_all is_ascii_digit ds \<and> undigits ds < 2 ^ 64
         then Some (undigits ds) else None)"

definition parse_timeout_secs :: "str \<Rightarrow> nat option" where
  "parse_timeout_secs v = (case parse_u64 v of None \<Rightarrow> None | Some n \<Rightarrow> if 0 < n then Some n else None)"

text \<open>\<open>str::parse::<f64>\<close> is the argument \<open>parse_f64\<close>.\<close>

definition parse_min_confidence :: "(str \<Rightarrow> f64 option) \<Rightarrow> str \<Rightarrow> f64 option" where
  "parse_min_confidence parse_f64 v =
     (case parse_f64 v of None \<Rightarrow> None | Some x \<Rightarrow> if in_unit x then Some x else None)"

definition env_var :: "(str \<Rightarrow> str option) \<Rightarrow> str \<Rightarrow> str option" where
  "env_var environment name =
     (case environment name of
        None \<Rightarrow> None
      | Some v \<Rightarrow> if trim v = [] then None else Some (trim v))"

definition or_default :: "'a option \<Rightarrow> 'a \<Rightarrow> 'a" where
  "or_default x y = (case x of None \<Rightarrow> y | Some z \<Rightarrow> z)"

definition config_from_env :: "(str \<Rightarrow> f64 option) \<Rightarrow> (str \<Rightarrow> str option) \<Rightarrow> decision_config" where
  "config_from_env parse_f64 environment =
     \<lparr> dc_base_url = or_default (env_var environment ''AVER_DECISION_URL'') (dc_base_url default_config),
       dc_model = or_default (env_var environment ''AVER_DECISION_MODEL'') (dc_model default_config),
       dc_min_confidence =
         or_default (Option.bind (env_var environment ''AVER_DECISION_MIN_CONFIDENCE'')
                       (parse_min_confidence parse_f64)) (dc_min_confidence default_config),
       dc_timeout = or_default (Option.bind (env_var environment ''AVER_DECISION_TIMEOUT_SECS'')
                                  parse_timeout_secs) (dc_timeout default_config) \<rparr>"

subsection \<open>The systemone client\<close>

text \<open>
  A JSON value; an object lists its entries in order (sorted by key when it comes from the parser,
  as \<open>serde_json::Map\<close> keeps them). A number is its \<open>as_u64\<close> and its \<open>as_f64\<close>.
\<close>

datatype json =
    JNull | JBool bool | JNumber "nat option" "f64 option" | JString str
  | JArray "json list" | JObject "(str \<times> json) list"

fun json_get :: "str \<Rightarrow> json \<Rightarrow> json option" where
  "json_get k (JObject m) = map_of m k"
| "json_get k _ = None"

fun json_as_f64 :: "json \<Rightarrow> f64 option" where
  "json_as_f64 (JNumber _ x) = x"
| "json_as_f64 _ = None"

record systemone_client =
  sc_base_url :: str
  sc_model :: str
  sc_timeout :: nat

definition systemone_new :: "str \<Rightarrow> str \<Rightarrow> systemone_client" where
  "systemone_new base_url model =
     \<lparr> sc_base_url = trim_end_matches ''/'' base_url, sc_model = model, sc_timeout = 30 \<rparr>"

definition client_from_env ::
  "(str \<Rightarrow> f64 option) \<Rightarrow> (str \<Rightarrow> str option) \<Rightarrow> systemone_client option" where
  "client_from_env parse_f64 environment =
     (case environment ''AVER_DECISION_MODEL'' of
        None \<Rightarrow> None
      | Some v \<Rightarrow>
          if blank v then None
          else let c = config_from_env parse_f64 environment
               in Some (systemone_new (dc_base_url c) (dc_model c) \<lparr> sc_timeout := dc_timeout c \<rparr>))"

definition systemone_url :: "systemone_client \<Rightarrow> str" where
  "systemone_url c = sc_base_url c @ ''/v1/systemone''"

definition criteria :: "decision_request \<Rightarrow> json" where
  "criteria r =
     JObject (map (\<lambda>(i, x). (x, JString (option_description r i))) (enumerate 0 (dr_options r)))"

definition build_request :: "(json \<Rightarrow> str) \<Rightarrow> systemone_client \<Rightarrow> decision_request \<Rightarrow> str" where
  "build_request print c r =
     print (JObject
       [(''model'', JString (sc_model c)), (''state'', JString (dr_state r)),
        (''questions'', JObject
          [(''decision'', JObject
             [(''type'', JString ''choice''), (''instructions'', JString (dr_question r)),
              (''criteria'', criteria r)])])])"

definition position :: "str \<Rightarrow> str list \<Rightarrow> nat option" where
  "position x xs = (case find (\<lambda>i. xs ! i = x) [0..<length xs] of None \<Rightarrow> None | Some i \<Rightarrow> Some i)"

definition first_answer :: "json \<Rightarrow> json option" where
  "first_answer response =
     (case json_get ''answers'' response of
        Some (JObject m) \<Rightarrow>
          (case map_of m ''decision'' of
             Some a \<Rightarrow> Some a
           | None \<Rightarrow> (case m of [] \<Rightarrow> None | (_, a) # _ \<Rightarrow> Some a))
      | Some (JArray xs) \<Rightarrow> (case xs of [] \<Rightarrow> None | a # _ \<Rightarrow> Some a)
      | _ \<Rightarrow> None)"

definition choice_index :: "json \<Rightarrow> str list \<Rightarrow> nat option" where
  "choice_index raw options =
     (case raw of
        JString key \<Rightarrow> position key options
      | JNumber (Some n) _ \<Rightarrow> if n < length options then Some n else None
      | _ \<Rightarrow> None)"

definition parse_response ::
  "(str \<Rightarrow> str + json) \<Rightarrow> (json \<Rightarrow> str) \<Rightarrow> str \<Rightarrow> str list \<Rightarrow> decision_error + (nat \<times> f64 option)" where
  "parse_response parse print body options =
     (case parse body of
        Inl e \<Rightarrow> Inl (DJson e)
      | Inr response \<Rightarrow>
          let answer = first_answer response
          in case Option.bind answer (json_get ''choice'') of
               None \<Rightarrow> Inl (InvalidChoice ''<missing>'')
             | Some raw \<Rightarrow>
                 (case choice_index raw options of
                    None \<Rightarrow> Inl (InvalidChoice (print raw))
                  | Some i \<Rightarrow>
                      Inr (i, Option.bind (Option.bind answer (json_get ''confidence'')) json_as_f64)))"

text \<open>\<open>exchange\<close> posts a body to a URL under a timeout and gives the response body or an error.\<close>

definition systemone_decide ::
  "(str \<Rightarrow> nat \<Rightarrow> str \<Rightarrow> decision_error + str) \<Rightarrow> (str \<Rightarrow> str + json) \<Rightarrow> (json \<Rightarrow> str)
    \<Rightarrow> systemone_client \<Rightarrow> decision_client" where
  "systemone_decide exchange parse print c r =
     rbind (validate_decision r) (\<lambda>_.
     rbind (exchange (systemone_url c) (sc_timeout c) (build_request print c r)) (\<lambda>body.
     rbind (parse_response parse print body (dr_options r)) (\<lambda>(i, confidence).
     Inr \<lparr> ch_index = i, ch_confidence = confidence, ch_model = sc_model c \<rparr>)))"

subsection \<open>Triage of candidates\<close>

datatype candidate_triage = Promote | Reject | Hold

definition TRIAGE_QUESTION :: str where
  "TRIAGE_QUESTION =
     ''What should happen to this staged claim? Judge it only against its source text.''"

definition TRIAGE_OPTIONS :: "str list" where
  "TRIAGE_OPTIONS = [''promote'', ''reject'', ''hold'']"

definition TRIAGE_DESCRIPTIONS :: "str list" where
  "TRIAGE_DESCRIPTIONS =
    [''the claim is a specific, durable fact or preference that the source text clearly supports'',
     ''the claim is wrong, trivial, conversational filler, or not supported by the source text'',
     ''the claim may be useful but the source text is too ambiguous to decide'']"

definition TRIGGER_QUESTION :: str where
  "TRIGGER_QUESTION = ''Should these undigested events be run through memory extraction now?''"

definition TRIGGER_OPTIONS :: "str list" where
  "TRIGGER_OPTIONS = [''extract'', ''skip'']"

definition TRIGGER_DESCRIPTIONS :: "str list" where
  "TRIGGER_DESCRIPTIONS =
    [''the events state durable facts, decisions, preferences, or dependencies worth remembering'',
     ''the events are greetings, chatter, routine tool output, or too little to extract from yet'']"

definition DECISION_CONFIDENCE :: f64 where
  "DECISION_CONFIDENCE = f64_round (45 / 100)"

definition PAYLOAD_EXCERPT_BYTES :: nat where
  "PAYLOAD_EXCERPT_BYTES = 512"

definition STATE_MAX_BYTES :: nat where
  "STATE_MAX_BYTES = 4096"

record triage_state =
  tg_subject :: str
  tg_predicate :: str
  tg_object :: str
  tg_scope :: str
  tg_event_id :: int
  tg_event_kind :: str
  tg_payload :: str

definition triage_state_of :: "candidate_row \<Rightarrow> event \<Rightarrow> triage_state" where
  "triage_state_of k e =
     \<lparr> tg_subject = k_subject k, tg_predicate = k_predicate k, tg_object = k_object k,
       tg_scope = k_scope k, tg_event_id = e_id e, tg_event_kind = e_kind e,
       tg_payload = truncate_bytes (e_payload e) STATE_MAX_BYTES \<rparr>"

fun triage_of :: "nat \<Rightarrow> candidate_triage option" where
  "triage_of 0 = Some Promote"
| "triage_of (Suc 0) = Some Reject"
| "triage_of (Suc (Suc 0)) = Some Hold"
| "triage_of _ = None"

text \<open>\<open>encode\<close> is \<open>serde_json::to_string\<close> of the state.\<close>

definition triage_choice ::
  "(triage_state \<Rightarrow> str) \<Rightarrow> decision_client \<Rightarrow> candidate_row \<Rightarrow> event \<Rightarrow> choice result" where
  "triage_choice encode client k e =
     (case client \<lparr> dr_state = encode (triage_state_of k e), dr_question = TRIAGE_QUESTION,
                    dr_options = TRIAGE_OPTIONS, dr_descriptions = Some TRIAGE_DESCRIPTIONS \<rparr> of
        Inl err \<Rightarrow> Inl (EDecision err)
      | Inr ch \<Rightarrow> Inr ch)"

definition apply_triage :: "env \<Rightarrow> int \<Rightarrow> choice \<Rightarrow> candidate_triage \<Rightarrow> candidate_triage op" where
  "apply_triage ev candidate_id ch triage =
     (let dec = \<lparr> d_model = ch_model ch, d_choice = TRIAGE_OPTIONS ! ch_index ch \<rparr>
      in case triage of
           Promote \<Rightarrow>
             op_then (promote_candidate_claim_inner ev candidate_id
                        (Some (Inferred, DECISION_CONFIDENCE)) (Some dec)) (op_ret triage)
         | Reject \<Rightarrow>
             op_then (reject_candidate_claim_inner ev candidate_id (''decision:'' @ ch_model ch) (Some dec))
                     (op_ret triage)
         | Hold \<Rightarrow> op_ret triage)"

definition triage_candidate_claim ::
  "(triage_state \<Rightarrow> str) \<Rightarrow> decision_client \<Rightarrow> env \<Rightarrow> int \<Rightarrow> f64 \<Rightarrow> candidate_triage op" where
  "triage_candidate_claim encode client ev candidate_id min_confidence =
     op_bind (op_read (get_candidate_claim candidate_id)) (\<lambda>k.
     if k_status k \<noteq> ''PENDING''
     then op_of (Inl (EInvalidCandidateStatus candidate_id (k_status k)))
     else
       op_bind (op_read (get_event (k_event_id k))) (\<lambda>e.
       op_bind (op_of (triage_choice encode client k e)) (\<lambda>ch.
       case triage_of (ch_index ch) of
         None \<Rightarrow> op_of (Inl (EDecision (InvalidChoice (show_nat (ch_index ch)))))
       | Some t \<Rightarrow> apply_triage ev candidate_id ch (if meets ch min_confidence then t else Hold))))"

subsection \<open>The extraction trigger\<close>

fun add_excerpts :: "str \<Rightarrow> event list \<Rightarrow> str" where
  "add_excerpts state [] = state"
| "add_excerpts state (e # es) =
     (let line = ''- ['' @ e_kind e @ ''] '' @ truncate_bytes (e_payload e) PAYLOAD_EXCERPT_BYTES @ [CHR 0x0A]
      in if STATE_MAX_BYTES < length state + length line then state else add_excerpts (state @ line) es)"

definition extraction_decision_with_client ::
  "decision_client \<Rightarrow> str \<Rightarrow> nat \<Rightarrow> nat option \<Rightarrow> f64 \<Rightarrow> db \<Rightarrow> extraction_decision result" where
  "extraction_decision_with_client client session event_threshold token_threshold min_confidence d =
     rbind (extraction_decision session event_threshold token_threshold d) (\<lambda>x.
     if ed_reasons x \<noteq> [UncoveredCoverageGap] then Inr x
     else
       rbind (list_observations_for_session session d) (\<lambda>obs.
       rbind (list_events_for_session session d) (\<lambda>events.
       let covered = set (concat (map o_source_event_ids obs));
           uncovered = [e \<leftarrow> events. e_id e \<notin> covered]
       in if uncovered = [] then Inr x
          else
            let state = add_excerpts (''undigested_events: '' @ show_nat (length uncovered) @ [CHR 0x0A]) uncovered;
                answer = client \<lparr> dr_state = state, dr_question = TRIGGER_QUESTION,
                           dr_options = TRIGGER_OPTIONS, dr_descriptions = Some TRIGGER_DESCRIPTIONS \<rparr>
            in case answer of
                 Inl _ \<Rightarrow> Inr x
               | Inr ch \<Rightarrow>
                   if ch_index ch = 0 \<and> meets ch min_confidence
                   then Inr \<lparr> ed_should_extract = True, ed_reasons = ed_reasons x @ [DecisionModel] \<rparr>
                   else Inr x)))"

subsection \<open>Predicate names\<close>

definition NONE_DESCRIPTION :: str where
  "NONE_DESCRIPTION = ''no listed predicate fits this input''"

definition predicate_question :: "str \<Rightarrow> str" where
  "predicate_question none =
     ''Pick the canonical predicate whose meaning matches the input predicate. Pick '' @ none
     @ '' only if no option has the same meaning.''"

text \<open>Every name tried is longer than the last one, so the loop ends.\<close>

definition names_from :: "str list \<Rightarrow> str \<Rightarrow> str set" where
  "names_from taken name = {n \<in> set taken. length name \<le> length n}"

function free_name :: "str list \<Rightarrow> str \<Rightarrow> str" where
  "free_name taken name = (if name \<in> set taken then free_name taken (name @ ''_'') else name)"
  by auto

lemma names_from_shrinks:
  "name \<in> set taken \<Longrightarrow> card (names_from taken (name @ ''_'')) < card (names_from taken name)"
proof (rule psubset_card_mono)
  assume "name \<in> set taken"
  then have "name \<in> names_from taken name - names_from taken (name @ ''_'')" by (simp add: names_from_def)
  moreover have "names_from taken (name @ ''_'') \<subseteq> names_from taken name" by (auto simp: names_from_def)
  ultimately show "names_from taken (name @ ''_'') \<subset> names_from taken name" by blast
qed (simp add: names_from_def)

termination free_name
  by (relation "measure (\<lambda>(taken, name). card (names_from taken name))") (auto intro: names_from_shrinks)

declare free_name.simps [simp del]

definition none_option :: "predicate_name list \<Rightarrow> str" where
  "none_option candidates =
     (let taken = map pn_accepted candidates
      in if ''none'' \<notin> set taken then ''none'' else free_name taken ''none_of_the_above'')"

definition PREDICATE_MEANINGS :: "(str \<times> str) list" where
  "PREDICATE_MEANINGS =
    [(''depends_on'', ''subject requires, needs, or relies on the object''),
     (''fixes'', ''subject fixes, resolves, or repairs the object''),
     (''owns'', ''subject owns or is the owner of the object''),
     (''prefers'', ''subject favors, likes, or prioritizes the object''),
     (''relates_to'', ''subject is about, related to, or associated with the object''),
     (''tests'', ''subject tests or validates the object'')]"

definition describe_predicate :: "predicate_name list \<Rightarrow> predicate_name \<Rightarrow> str" where
  "describe_predicate vocabulary c =
     (let description =
            (case pn_canonical c of
               Some canonical \<Rightarrow> pn_accepted c @ '' (alias of '' @ canonical @ '')''
             | None \<Rightarrow>
                 let aliases = [pn_accepted x. x \<leftarrow> vocabulary, pn_canonical x = Some (pn_accepted c)]
                 in if aliases = [] then pn_accepted c
                    else pn_accepted c @ '' (also: '' @ join '', '' aliases @ '')'');
          canonical = or_default (pn_canonical c) (pn_accepted c)
      in case map_of PREDICATE_MEANINGS canonical of
           Some meaning \<Rightarrow> description @ '': '' @ meaning
         | None \<Rightarrow> description)"

text \<open>\<open>Vec::dedup_by\<close> on equal names: the first of each run stays.\<close>

fun dedup_names :: "predicate_name list \<Rightarrow> predicate_name list" where
  "dedup_names (a # b # cs) =
     (if pn_accepted a = pn_accepted b then dedup_names (a # cs) else a # dedup_names (b # cs))"
| "dedup_names cs = cs"

definition narrow_candidates :: "str \<Rightarrow> predicate_name list \<Rightarrow> predicate_name list" where
  "narrow_candidates normalized candidates =
     (let cs = dedup_names (sort_key pn_accepted candidates); hint = semantic_predicate_hint normalized
      in if MAX_OPTIONS - 1 < length cs
         then sort_key pn_accepted (take (MAX_OPTIONS - 1)
                (sort_key (\<lambda>c. (Some (pn_accepted c) \<noteq> hint, closeness normalized c)) cs))
         else cs)"

definition predicate_decision :: "str \<Rightarrow> str option \<Rightarrow> predicate_name list \<Rightarrow> decision_request" where
  "predicate_decision predicate example vocabulary =
     (let normalized = normalize_predicate_name predicate;
          candidates = narrow_candidates normalized vocabulary;
          none = none_option candidates;
          state = ''predicate: '' @ predicate @ [CHR 0x0A] @ ''normalized: '' @ normalized
      in \<lparr> dr_state = (case example of None \<Rightarrow> state | Some x \<Rightarrow> state @ [CHR 0x0A] @ ''example: '' @ x),
           dr_question = predicate_question none,
           dr_options = map pn_accepted candidates @ [none],
           dr_descriptions = Some (map (describe_predicate vocabulary) candidates @ [NONE_DESCRIPTION]) \<rparr>)"

definition normalize_predicate ::
  "decision_client \<Rightarrow> str \<Rightarrow> str option \<Rightarrow> f64 \<Rightarrow> graph \<Rightarrow> predicate_name option" where
  "normalize_predicate client predicate example min_confidence g =
     (let vocabulary = pv_candidates (predicate_vocabulary_of g)
      in if list_ex (\<lambda>c. pn_accepted c = predicate) vocabulary then None
         else
           let candidates = narrow_candidates (normalize_predicate_name predicate) vocabulary;
               fallback = suggest_unknown_predicate predicate vocabulary
           in case client (predicate_decision predicate example vocabulary) of
                Inl _ \<Rightarrow> fallback
              | Inr ch \<Rightarrow>
                  if meets ch min_confidence
                  then (if ch_index ch < length candidates then Some (candidates ! ch_index ch) else None)
                  else fallback)"

subsection \<open>Scopes\<close>

definition MAX_CONTEXT_BYTES :: nat where
  "MAX_CONTEXT_BYTES = 1024"

text \<open>\<open>split_once\<close> on a string: at its first occurrence.\<close>

fun split_once_str :: "str \<Rightarrow> str \<Rightarrow> (str \<times> str) option" where
  "split_once_str d [] = (if d = [] then Some ([], []) else None)"
| "split_once_str d (c # s) =
     (if prefix d (c # s) then Some ([], drop (length d) (c # s))
      else map_option (\<lambda>(a, b). (c # a, b)) (split_once_str d s))"

definition after :: "str \<Rightarrow> str \<Rightarrow> str option" where
  "after p s = (if prefix p s \<and> p \<noteq> s then Some (drop (length p) s) else None)"

definition describe_scope :: "str \<Rightarrow> str" where
  "describe_scope scope =
     (if scope = ''global'' then ''applies regardless of project or session''
      else case after ''proj/'' scope of
        Some rest \<Rightarrow>
          (case split_once_str ''/branch/'' rest of
             Some (slug, branch) \<Rightarrow> ''specific to branch '' @ branch @ '' of project '' @ slug
           | None \<Rightarrow> ''specific to project '' @ rest)
      | None \<Rightarrow>
          (case after ''session/'' scope of
             Some session \<Rightarrow> ''only meaningful within session '' @ session
           | None \<Rightarrow> scope))"

definition scope_decision :: "str \<Rightarrow> str \<Rightarrow> str \<Rightarrow> str \<Rightarrow> str list \<Rightarrow> decision_request" where
  "scope_decision subject predicate object ctxt scopes =
     \<lparr> dr_state = ''Subject: '' @ subject @ ''. Predicate: '' @ predicate @ ''. Object: '' @ object
         @ ''. Context: '' @ truncate_bytes ctxt MAX_CONTEXT_BYTES,
       dr_question = ''Which scope does this memory belong to?'', dr_options = scopes,
       dr_descriptions = Some (map describe_scope scopes) \<rparr>"

text \<open>An index beyond the options would panic: \<open>None\<close>.\<close>

definition suggest_scope ::
  "decision_client \<Rightarrow> str \<Rightarrow> str \<Rightarrow> str \<Rightarrow> str \<Rightarrow> str list \<Rightarrow> f64 \<Rightarrow> str option result option" where
  "suggest_scope client subject predicate object ctxt scopes min_confidence =
     (case rmap validate_scope scopes of
        Inl e \<Rightarrow> Some (Inl e)
      | Inr _ \<Rightarrow>
          let r = scope_decision subject predicate object ctxt scopes
          in if \<not> is_ok (validate_decision r) then Some (Inr None)
             else (case client r of
                     Inl _ \<Rightarrow> Some (Inr None)
                   | Inr ch \<Rightarrow>
                       if \<not> meets ch min_confidence then Some (Inr None)
                       else if ch_index ch < length scopes then Some (Inr (Some (scopes ! ch_index ch)))
                       else None))"

subsection \<open>What a choice can do\<close>

lemma bad_option_None_iff:
  "bad_option seen xs = None \<longleftrightarrow> [] \<notin> set xs \<and> distinct xs \<and> set xs \<inter> seen = {}"
  by (induction xs arbitrary: seen) auto

lemma validate_decision_iff:
  "validate_decision r = Inr () \<longleftrightarrow>
     MIN_OPTIONS \<le> length (dr_options r) \<and> length (dr_options r) \<le> MAX_OPTIONS
     \<and> [] \<notin> set (dr_options r) \<and> distinct (dr_options r)
     \<and> (\<forall>ds. dr_descriptions r = Some ds \<longrightarrow> length ds = length (dr_options r))"
proof (cases "bad_option {} (dr_options r)")
  case None
  then show ?thesis using bad_option_None_iff [of "{}" "dr_options r"]
    by (auto simp: validate_decision_def Let_def split: option.splits)
next
  case (Some x)
  then show ?thesis using bad_option_None_iff [of "{}" "dr_options r"]
    by (auto simp: validate_decision_def Let_def split: option.splits)
qed

lemma position_less: "position x xs = Some i \<Longrightarrow> i < length xs \<and> xs ! i = x"
  by (auto simp: position_def find_Some_iff split: option.splits)

lemma choice_index_less: "choice_index raw options = Some i \<Longrightarrow> i < length options"
  by (auto simp: choice_index_def split: json.splits option.splits if_splits dest: position_less)

lemma parse_response_less: "parse_response parse print body options = Inr (i, c) \<Longrightarrow> i < length options"
  by (auto simp: parse_response_def Let_def split: sum.splits option.splits dest: choice_index_less)

text \<open>
  C37. Whatever the model server answers, the client gives an error or the index of one of the
  options, and only for a decision with 2 to 24 distinct nonempty options: no text of the model gets
  further than its choice.
\<close>

theorem systemone_choice_listed:
  assumes "systemone_decide exchange parse print c r = Inr ch"
  shows "ch_index ch < length (dr_options r) \<and> ch_model ch = sc_model c
    \<and> 2 \<le> length (dr_options r) \<and> length (dr_options r) \<le> 24
    \<and> [] \<notin> set (dr_options r) \<and> distinct (dr_options r)"
proof -
  from assms have "validate_decision r = Inr ()" "ch_index ch < length (dr_options r)" "ch_model ch = sc_model c"
    unfolding systemone_decide_def by (auto simp: result_simps dest: parse_response_less)
  then show ?thesis by (auto simp: validate_decision_iff MIN_OPTIONS_def MAX_OPTIONS_def)
qed

definition sample_request :: decision_request where
  "sample_request =
     \<lparr> dr_state = ''s'', dr_question = ''q'', dr_options = [''yes'', ''no''], dr_descriptions = None \<rparr>"

definition sample_answer :: json where
  "sample_answer = JObject [(''answers'', JArray [JObject [(''choice'', JString ''no'')]])]"

lemma sample_decide:
  "systemone_decide (\<lambda>_ _ _. Inr []) (\<lambda>_. Inr sample_answer) (\<lambda>_. []) (systemone_new ''u'' ''m'') sample_request
    = Inr \<lparr> ch_index = 1, ch_confidence = None, ch_model = ''m'' \<rparr>"
  by code_simp

lemma systemone_choice_listed_witness:
  "(1 :: nat) < length (dr_options sample_request) \<and> distinct (dr_options sample_request)"
  using systemone_choice_listed [OF sample_decide] by simp

subsection \<open>Triage changes nothing without a confident choice\<close>

lemma triage_choice_Inr:
  "triage_choice encode client k e = Inr ch \<Longrightarrow> client \<lparr> dr_state = encode (triage_state_of k e),
     dr_question = TRIAGE_QUESTION, dr_options = TRIAGE_OPTIONS,
     dr_descriptions = Some TRIAGE_DESCRIPTIONS \<rparr> = Inr ch"
  by (auto simp: triage_choice_def split: sum.splits)

lemma triage_of_cases:
  "triage_of i = Some Promote \<longleftrightarrow> i = 0" "triage_of i = Some Reject \<longleftrightarrow> i = 1"
  by (cases i rule: triage_of.cases; simp)+

text \<open>
  C36. Triage changes the store only by promoting or rejecting a pending candidate as the client
  chose, with a confidence at least the minimum: a promotion is recorded as INFERRED with confidence
  0.45. Errors of the client, an index that is no option, a hold and a choice without enough
  confidence change nothing.
\<close>

theorem triage_guarded:
  assumes "triage_candidate_claim encode client ev i min_conf s = (q, s')" and "s' \<noteq> s"
  shows "\<exists>k ch c. get_candidate_claim i (st_db s) = Inr k \<and> k_status k = ''PENDING''
    \<and> (\<exists>state. client \<lparr> dr_state = state, dr_question = TRIAGE_QUESTION, dr_options = TRIAGE_OPTIONS,
                          dr_descriptions = Some TRIAGE_DESCRIPTIONS \<rparr> = Inr ch)
    \<and> ch_confidence ch = Some c \<and> f64_le min_conf c
    \<and> (ch_index ch = 0 \<and> s' = snd (promote_candidate_claim_inner ev i (Some (Inferred, DECISION_CONFIDENCE))
           (Some \<lparr> d_model = ch_model ch, d_choice = ''promote'' \<rparr>) s)
       \<or> ch_index ch = 1 \<and> s' = snd (reject_candidate_claim_inner ev i (''decision:'' @ ch_model ch)
           (Some \<lparr> d_model = ch_model ch, d_choice = ''reject'' \<rparr>) s))"
proof -
  let ?rest = "\<lambda>ch. case triage_of (ch_index ch) of
      None \<Rightarrow> op_of (Inl (EDecision (InvalidChoice (show_nat (ch_index ch)))))
    | Some t \<Rightarrow> apply_triage ev i ch (if meets ch min_conf then t else Hold)"
  from assms obtain k e ch where
    k: "get_candidate_claim i (st_db s) = Inr k" "k_status k = ''PENDING''"
    and ch: "triage_choice encode client k e = Inr ch" and rest: "?rest ch s = (q, s')"
    unfolding triage_candidate_claim_def
    by (auto simp: tx_simps split: if_splits dest!: sym [of "Inr _"])
  from rest assms(2) obtain t where t: "triage_of (ch_index ch) = Some t"
    by (cases "triage_of (ch_index ch)") (simp_all add: op_of_def)
  with rest have run: "apply_triage ev i ch (if meets ch min_conf then t else Hold) s = (q, s')" by simp
  from run assms(2) have m: "meets ch min_conf" "t \<noteq> Hold"
    by (auto simp: apply_triage_def op_ret_def split: if_splits)
  then obtain c where c: "ch_confidence ch = Some c" "f64_le min_conf c"
    by (auto simp: meets_def split: option.splits)
  have "ch_index ch = 0 \<and> s' = snd (promote_candidate_claim_inner ev i (Some (Inferred, DECISION_CONFIDENCE))
           (Some \<lparr> d_model = ch_model ch, d_choice = ''promote'' \<rparr>) s)
       \<or> ch_index ch = 1 \<and> s' = snd (reject_candidate_claim_inner ev i (''decision:'' @ ch_model ch)
           (Some \<lparr> d_model = ch_model ch, d_choice = ''reject'' \<rparr>) s)"
    using run m t triage_of_cases
    by (cases t) (auto simp: apply_triage_def op_then_def op_bind_def op_ret_def TRIAGE_OPTIONS_def
      split: prod.splits sum.splits)
  with k c triage_choice_Inr [OF ch] show ?thesis by blast
qed

definition rejecting :: decision_client where
  "rejecting r = Inr \<lparr> ch_index = 1, ch_confidence = Some (Fin 1), ch_model = ''m'' \<rparr>"

lemma rejecting_triage:
  assumes "get_candidate_claim i (st_db s) = Inr k" "k_status k = ''PENDING''"
    and "get_event (k_event_id k) (st_db s) = Inr e"
  shows "triage_candidate_claim encode rejecting ev i (Fin 0) s =
    op_then (reject_candidate_claim_inner ev i ''decision:m'' (Some \<lparr> d_model = ''m'', d_choice = ''reject'' \<rparr>))
      (op_ret Reject) s"
  using assms
  by (simp add: triage_candidate_claim_def op_bind_def op_read_def op_of_def triage_choice_def rejecting_def
      meets_def apply_triage_def TRIAGE_OPTIONS_def)

definition pending_event :: event where
  "pending_event =
     \<lparr> e_id = 1, e_session_id = ''s'', e_kind = ''note'', e_payload = ''x'', e_source = ''mcp'',
       e_agent_id = ''a'', e_agent_kind = ''HUMAN'', e_ts = 1, e_scope = ''global'' \<rparr>"

definition pending_candidate :: candidate_row where
  "pending_candidate =
     \<lparr> k_id = 2, k_event_id = 1, k_subject = ''a'', k_predicate = ''uses'', k_object = ''b'',
       k_provenance = ''INFERRED'', k_confidence = Fin (1 / 2), k_status = ''PENDING'',
       k_promoted_claim_id = None, k_rejection_reason = None, k_scope = ''global'', kr_created_at = 1 \<rparr>"

definition pending_store :: store where
  "pending_store = fresh_store \<lparr> st_db := init_db
     \<lparr> db_episodes := \<lparr> e_events = [(1, pending_event)], e_candidates = [(2, pending_candidate)] \<rparr> \<rparr> \<rparr>"

definition triage_env :: env where
  "triage_env =
     \<lparr> en_busy = False, en_now = 2, en_ms = 1735689602000, en_hash = 5, en_disk = (\<lambda>_ _. Appended) \<rparr>"

lemma pending_rows:
  "get_candidate_claim 2 (st_db pending_store) = Inr pending_candidate"
  "get_event (k_event_id pending_candidate) (st_db pending_store) = Inr pending_event"
  by (simp_all add: get_candidate_claim_def parse_candidate_def get_event_def parse_event_def
      pending_store_def pending_candidate_def pending_event_def ok_or_def conversion_failure_def
      provenance_from_str_def agent_kind_from_str_def)

lemma pending_rejected:
  "map k_status (tbl_rows (e_candidates (db_episodes (st_db (snd (reject_candidate_claim_inner
     triage_env 2 ''decision:m'' (Some \<lparr> d_model = ''m'', d_choice = ''reject'' \<rparr>) pending_store)))))) = [''REJECTED'']"
  by code_simp

lemma triage_guarded_witness:
  "\<exists>k. get_candidate_claim 2 (st_db pending_store) = Inr k \<and> k_status k = ''PENDING''"
proof -
  let ?m = "triage_candidate_claim (\<lambda>_. ''state'') rejecting triage_env 2 (Fin 0)"
  have "snd (?m pending_store) = snd (reject_candidate_claim_inner triage_env 2 ''decision:m''
     (Some \<lparr> d_model = ''m'', d_choice = ''reject'' \<rparr>) pending_store)"
    using rejecting_triage [OF pending_rows(1) _ pending_rows(2)]
    by (simp add: pending_candidate_def op_then_def op_bind_def op_ret_def split: prod.splits sum.splits)
  moreover have "map k_status (tbl_rows (e_candidates (db_episodes (st_db pending_store)))) = [''PENDING'']"
    by (simp add: pending_store_def pending_candidate_def)
  ultimately have "snd (?m pending_store) \<noteq> pending_store"
    using pending_rejected by auto
  from triage_guarded [OF prod.collapse [symmetric] this] show ?thesis by blast
qed

lemma sound_triage [sound_intros]: "sound (triage_candidate_claim encode client ev i min_conf)"
  unfolding triage_candidate_claim_def apply_triage_def Let_def
  by (intro sound_intros; simp split: option.splits candidate_triage.splits; intro conjI impI allI sound_intros; simp?)

lemma suggestion_listed:
  assumes "suggest_unknown_predicate name candidates = Some s"
  shows "s \<in> set candidates"
  using assms closest_name unfolding suggest_unknown_predicate_def Let_def
  by (fastforce split: option.splits prod.splits if_splits simp: find_Some_iff)

subsection \<open>Predicate names come from the vocabulary\<close>

lemma set_dedup_names: "set (dedup_names cs) \<subseteq> set cs"
  by (induction cs rule: dedup_names.induct) auto

lemma names_dedup_names: "pn_accepted ` set (dedup_names cs) = pn_accepted ` set cs"
  by (induction cs rule: dedup_names.induct) auto

lemma distinct_dedup_names:
  "sorted (map pn_accepted cs) \<Longrightarrow> distinct (map pn_accepted (dedup_names cs))"
proof (induction cs rule: dedup_names.induct)
  case (1 a b cs)
  show ?case
  proof (cases "pn_accepted a = pn_accepted b")
    case True
    with 1 show ?thesis by simp
  next
    case False
    with 1(3) have "pn_accepted a < x" if "x \<in> pn_accepted ` set (b # cs)" for x
      using that by (force simp: order.strict_iff_order)
    with names_dedup_names [of "b # cs"] have "pn_accepted a \<notin> pn_accepted ` set (dedup_names (b # cs))"
      by (metis order.irrefl)
    with 1 False show ?thesis by simp
  qed
qed simp_all

lemma narrow_candidates_sub: "set (narrow_candidates n cs) \<subseteq> set cs"
proof -
  have "set (dedup_names (sort_key pn_accepted cs)) \<subseteq> set cs"
    using set_dedup_names [of "sort_key pn_accepted cs"] by simp
  then show ?thesis
    unfolding narrow_candidates_def Let_def by (auto dest!: in_set_takeD)
qed

lemma distinct_sort_names: "distinct (map f xs) \<Longrightarrow> distinct (map f (sort_key g xs))"
  by (metis mset_eq_imp_distinct_iff mset_map mset_sort)

lemma narrow_candidates_distinct: "distinct (map pn_accepted (narrow_candidates n cs))"
proof -
  have "distinct (map pn_accepted (dedup_names (sort_key pn_accepted cs)))"
    by (rule distinct_dedup_names) simp
  moreover have take: "distinct (map pn_accepted xs) \<Longrightarrow> distinct (map pn_accepted (take m xs))" for m xs
    by (metis distinct_take take_map)
  ultimately show ?thesis
    unfolding narrow_candidates_def Let_def by (auto intro!: distinct_sort_names take)
qed

lemma narrow_candidates_length: "length (narrow_candidates n cs) \<le> MAX_OPTIONS - 1"
  by (simp add: narrow_candidates_def Let_def)

lemma dedup_names_Nil: "dedup_names xs = [] \<longleftrightarrow> xs = []"
  by (induction xs rule: dedup_names.induct) auto

lemma sort_key_Nil: "sort_key f xs = [] \<longleftrightarrow> xs = []"
  using length_sort [of f xs] by (cases "sort_key f xs"; cases xs) auto

lemma narrow_candidates_Nil: "narrow_candidates n cs = [] \<longleftrightarrow> cs = []"
  by (simp add: narrow_candidates_def Let_def MAX_OPTIONS_def sort_key_Nil dedup_names_Nil)

lemma free_name_free: "free_name taken name \<notin> set taken"
  by (induction taken name rule: free_name.induct) (subst free_name.simps, simp)

text \<open>
  C38. The search for a name of the trailing option ends: after at most as many tries as there are
  candidates it gives a name that no candidate has, \<open>none_of_the_above\<close> with that many underscores.
\<close>

theorem none_option_found:
  "none_option candidates \<notin> pn_accepted ` set candidates
   \<and> (none_option candidates = ''none''
      \<or> (\<exists>k \<le> length candidates. none_option candidates = ''none_of_the_above'' @ replicate k (CHR ''_'')))"
proof -
  have turns: "\<exists>k \<le> card (names_from taken name). free_name taken name = name @ replicate k (CHR ''_'')" for taken name
  proof (induction taken name rule: free_name.induct)
    case (1 taken name)
    show ?case
    proof (cases "name \<in> set taken")
      case True
      with 1 obtain k where k: "k \<le> card (names_from taken (name @ ''_''))"
        "free_name taken (name @ ''_'') = (name @ ''_'') @ replicate k (CHR ''_'')" by blast
      then have "free_name taken name = name @ replicate (Suc k) (CHR ''_'')"
        using True by (subst free_name.simps) simp
      moreover have "Suc k \<le> card (names_from taken name)"
        using k(1) names_from_shrinks [OF True] by simp
      ultimately show ?thesis by blast
    next
      case False
      then show ?thesis by (intro exI [of _ 0]) (simp add: free_name.simps)
    qed
  qed
  have few: "card (names_from taken name) \<le> length taken" for taken name
  proof -
    have "card (names_from taken name) \<le> card (set taken)"
      by (rule card_mono) (auto simp: names_from_def)
    also have "\<dots> \<le> length taken" by (rule card_length)
    finally show ?thesis .
  qed
  from turns obtain k where k0: "k \<le> card (names_from (map pn_accepted candidates) ''none_of_the_above'')"
    and k2: "free_name (map pn_accepted candidates) ''none_of_the_above'' = ''none_of_the_above'' @ replicate k (CHR ''_'')"
    by blast
  from k0 few [of "map pn_accepted candidates" "''none_of_the_above''"]
  have k1: "k \<le> length candidates" by simp
  show ?thesis
  proof (cases "''none'' \<in> pn_accepted ` set candidates")
    case True
    then have eq: "none_option candidates = free_name (map pn_accepted candidates) ''none_of_the_above''"
      by (simp add: none_option_def)
    from free_name_free [of "map pn_accepted candidates" "''none_of_the_above''", unfolded set_map] k1 k2
    show ?thesis unfolding eq by blast
  next
    case False
    then show ?thesis by (simp add: none_option_def)
  qed
qed

text \<open>
  The decision on a predicate name is always well-formed: for a vocabulary with a name, and
  whatever its size, it has between 2 and 24 distinct nonempty options, each with its description.
\<close>

theorem predicate_decision_valid:
  assumes "vocabulary \<noteq> []" and "[] \<notin> pn_accepted ` set vocabulary"
  shows "validate_decision (predicate_decision predicate example vocabulary) = Inr ()"
proof -
  let ?cs = "narrow_candidates (normalize_predicate_name predicate) vocabulary"
  have fresh: "none_option ?cs \<notin> set (map pn_accepted ?cs)"
    by (simp add: none_option_def Let_def free_name_free [of "map pn_accepted ?cs", simplified])
  have "none_option ?cs \<noteq> []"
  proof -
    have "length name \<le> length (free_name taken name)" for taken name
      by (induction taken name rule: free_name.induct) (subst free_name.simps, simp, linarith?)
    from this [of "''none_of_the_above''" "map pn_accepted ?cs"] show ?thesis
      by (auto simp: none_option_def Let_def)
  qed
  moreover have "[] \<notin> set (map pn_accepted ?cs)"
    using assms(2) narrow_candidates_sub [of "normalize_predicate_name predicate" vocabulary] by auto
  moreover have "1 \<le> length ?cs"
    using assms(1) narrow_candidates_Nil by (metis One_nat_def Suc_leI length_greater_0_conv)
  moreover have "length ?cs + 1 \<le> 24"
    using narrow_candidates_length [of "normalize_predicate_name predicate" vocabulary]
    by (simp add: MAX_OPTIONS_def)
  ultimately show ?thesis
    unfolding validate_decision_iff predicate_decision_def Let_def
    using fresh narrow_candidates_distinct [of "normalize_predicate_name predicate" vocabulary]
    by (auto simp: MIN_OPTIONS_def MAX_OPTIONS_def)
qed

lemma predicate_decision_valid_witness:
  "validate_decision (predicate_decision ''uses'' None sample_names) = Inr ()"
  by (rule predicate_decision_valid) (simp_all add: sample_names_def)

text \<open>
  Whatever the client answers, a predicate is only ever mapped to a name of the vocabulary,
  one that every write accepts, and only when it is not such a name itself.
\<close>

theorem normalized_predicate_known:
  assumes "normalize_predicate client predicate example min_conf g = Some p"
  shows "p \<in> set (pv_candidates (predicate_vocabulary_of g))
    \<and> validate_ontology g (pn_accepted p) prov = Inr ()
    \<and> predicate \<notin> pn_accepted ` set (pv_candidates (predicate_vocabulary_of g))"
proof -
  let ?v = "pv_candidates (predicate_vocabulary_of g)"
  have new: "\<not> list_ex (\<lambda>c. pn_accepted c = predicate) ?v"
    using assms by (auto simp: normalize_predicate_def Let_def)
  have "p \<in> set ?v"
  proof (cases "suggest_unknown_predicate predicate ?v = Some p")
    case True
    then show ?thesis by (rule suggestion_listed)
  next
    case False
    with assms new have "p \<in> set (narrow_candidates (normalize_predicate_name predicate) ?v)"
      by (auto simp: normalize_predicate_def Let_def split: sum.splits if_splits)
    with narrow_candidates_sub show ?thesis by blast
  qed
  with vocabulary_accepted [OF this] new show ?thesis by (auto simp: list_ex_iff)
qed

definition uses_graph :: graph where
  "uses_graph = empty_graph \<lparr> g_predicate_types := [(1, migrated_ptype ''uses'')], g_predicate_alias := [] \<rparr>"

lemma known_sample:
  "normalize_predicate (\<lambda>_. Inl Unavailable) ''use'' None (Fin 0) uses_graph
    = Some \<lparr> pn_accepted = ''uses'', pn_canonical = None \<rparr>"
proof -
  have "pv_candidates (predicate_vocabulary_of uses_graph) = [\<lparr> pn_accepted = ''uses'', pn_canonical = None \<rparr>]"
    by code_simp
  moreover have "suggest_unknown_predicate ''use'' [\<lparr> pn_accepted = ''uses'', pn_canonical = None \<rparr>]
      = Some \<lparr> pn_accepted = ''uses'', pn_canonical = None \<rparr>"
    by code_simp
  ultimately show ?thesis by (simp add: normalize_predicate_def)
qed

lemma normalized_predicate_known_witness:
  "\<lparr> pn_accepted = ''uses'', pn_canonical = None \<rparr> \<in> set (pv_candidates (predicate_vocabulary_of uses_graph))
   \<and> validate_ontology uses_graph ''uses'' Extracted = Inr ()"
  using normalized_predicate_known [OF known_sample] by simp
lemma suggest_scope_allowed:
  assumes "suggest_scope client subject predicate object ctxt scopes min_conf = Some (Inr (Some x))"
  shows "x \<in> set scopes \<and> validate_scope x = Inr ()"
proof -
  from assms obtain ys where ok: "rmap validate_scope scopes = Inr ys" and x: "x \<in> set scopes"
    by (auto simp: suggest_scope_def Let_def split: sum.splits if_splits)
  from ok x have "validate_scope x = Inr ()"
    by (induction scopes arbitrary: ys) (auto simp: result_simps)
  with x show ?thesis by simp
qed

end
