(* ===== verification/Error_Text.thy ===== *)
theory Error_Text
  imports Suggest Float_Ops
begin

section \<open>Error messages\<close>

text \<open>
  The messages of the errors of \<open>crates/aver-core/src/error.rs\<close>, \<open>privacy.rs\<close> and \<open>decision.rs\<close>, and
  \<open>describe_error\<close> of \<open>crates/aver-server/src/tools.rs\<close>, the text an agent sees. \<open>debug\<close> is the
  standard library's quoting of a string.
\<close>

fun show_privacy_rejection :: "privacy_rejection \<Rightarrow> str" where
  "show_privacy_rejection AwsAccessKey = ''AWS access key''"
| "show_privacy_rejection GitHubPat = ''GitHub personal access token''"
| "show_privacy_rejection GitHubFineGrainedPat = ''GitHub fine-grained personal access token''"
| "show_privacy_rejection Jwt = ''JWT''"
| "show_privacy_rejection OpenAiKey = ''OpenAI API key''"
| "show_privacy_rejection AnthropicKey = ''Anthropic API key''"
| "show_privacy_rejection StripeLiveKey = ''Stripe live secret key''"
| "show_privacy_rejection PrivateKey = ''private key material''"
| "show_privacy_rejection HighEntropy = ''high entropy token''"
| "show_privacy_rejection SecretsPath = ''secrets path''"
| "show_privacy_rejection EnvPath = ''environment file path''"
| "show_privacy_rejection MemoryIgnore = ''memory ignore marker''"
| "show_privacy_rejection SshPath = ''SSH path''"
| "show_privacy_rejection KeyPath = ''key file path''"
| "show_privacy_rejection AwsCredentialsPath = ''AWS credentials path''"
| "show_privacy_rejection ConfigPath = ''config path''"

fun show_decision_error :: "(str \<Rightarrow> str) \<Rightarrow> decision_error \<Rightarrow> str" where
  "show_decision_error debug (DJson e) = ''json: '' @ e"
| "show_decision_error debug (DHttp e) = ''ollama http: '' @ e"
| "show_decision_error debug (DIo e) = ''io: '' @ e"
| "show_decision_error debug (InvalidChoice raw) = ''model answer does not map to an option: '' @ debug raw"
| "show_decision_error debug (TooFewOptions n) = ''decision needs at least 2 options, got '' @ show_nat n"
| "show_decision_error debug (TooManyOptions n) = ''decision allows at most 24 options, got '' @ show_nat n"
| "show_decision_error debug (DuplicateOption x) =
     ''decision options must be non-empty and unique, got '' @ debug x"
| "show_decision_error debug (DescriptionCountMismatch n m) =
     ''decision has '' @ show_nat n @ '' options but '' @ show_nat m @ '' descriptions''"
| "show_decision_error debug Unavailable = ''decision model unavailable''"

fun show_error :: "(str \<Rightarrow> str) \<Rightarrow> error \<Rightarrow> str" where
  "show_error debug (ESqlite e) = ''sqlite: '' @ e"
| "show_error debug (EIo e) = ''io: '' @ e"
| "show_error debug (EJson e) = ''json: '' @ e"
| "show_error debug (EEmbedding e) = ''embedding: '' @ e"
| "show_error debug (EDecision e) = ''decision: '' @ show_decision_error debug e"
| "show_error debug (EPrivacy e) = ''privacy filter rejected content: '' @ show_privacy_rejection e"
| "show_error debug (EEnumParse k v) = ''invalid '' @ k @ '' value in database: '' @ debug v"
| "show_error debug (EInvalidAgentId v) = ''invalid agent_id for partitioned log path: '' @ debug v"
| "show_error debug (EInvalidScope v) = ''invalid scope: '' @ debug v @ ''; must be non-blank and match [A-Za-z0-9_/-]''"
| "show_error debug (EAlreadyRetired i) = ''claim '' @ show_int i @ '' is already INVALIDATED''"
| "show_error debug EInvalidVectorChunkText = ''invalid vector chunk text: must not be empty''"
| "show_error debug EInvalidEmbeddingModel = ''invalid embedding model: must not be empty''"
| "show_error debug EInvalidEmbeddingVector = ''invalid embedding vector: must not be empty''"
| "show_error debug (EInvalidClaimField f) = ''invalid claim '' @ f @ '': must not be empty''"
| "show_error debug (EInvalidHyperedgeField f) = ''invalid hyperedge '' @ f @ '': must not be empty''"
| "show_error debug (EInvalidHyperedgeParticipant f) = ''invalid hyperedge participant '' @ f @ '': must not be empty''"
| "show_error debug (EInvalidEventField f) = ''invalid event '' @ f @ '': must not be empty''"
| "show_error debug (EInvalidObservationField f) = ''invalid observation '' @ f @ '': must not be empty''"
| "show_error debug EInvalidRecallQuery = ''invalid recall query: must not be empty''"
| "show_error debug EInvalidTopK = ''invalid top_k: must be greater than zero''"
| "show_error debug EInvalidGraphEntity = ''invalid graph entity: must not be empty''"
| "show_error debug EInvalidGraphHops = ''invalid graph hops: must be greater than zero''"
| "show_error debug EInvalidPredicateFilter = ''invalid predicate filter: must not be empty''"
| "show_error debug EInvalidEventThreshold = ''invalid event threshold: must be greater than zero''"
| "show_error debug EInvalidRejectionReason = ''invalid rejection reason: must not be empty''"
| "show_error debug EInvalidContradictionReason = ''invalid contradiction reason: must not be empty''"
| "show_error debug (EInvalidConfidence v) = ''invalid confidence value: '' @ show_f64 v"
| "show_error debug (EInvalidDecayTau v) = ''invalid decay tau: '' @ show_f64 v"
| "show_error debug (EMissingEventProvenance i) = ''candidate claim must cite an existing event: '' @ show_int i"
| "show_error debug (EMissingEvent i) = ''missing event: event '' @ show_int i @ '' does not exist''"
| "show_error debug (EMissingCandidate i) = ''missing candidate claim: candidate '' @ show_int i @ '' does not exist''"
| "show_error debug (EMissingObservation i) = ''missing observation: observation '' @ i @ '' does not exist''"
| "show_error debug (EObservationIdCollision i) = ''observation id collision: '' @ i @ '' already exists with different content''"
| "show_error debug (EMissingEntityType n) = ''missing entity type: '' @ n @ '' (ontology bootstrap incomplete)''"
| "show_error debug (EInvalidCandidateStatus i st) = ''invalid candidate claim status for candidate '' @ show_int i @ '': '' @ st"
| "show_error debug (EInvalidCandidateStatusFilter st) = ''invalid candidate status filter: '' @ st"
| "show_error debug (EMissingEntity en) = ''missing entity: '' @ en"
| "show_error debug (EUnknownPredicate n) = ''unknown predicate: '' @ n @ '' (not in predicate_types or predicate_alias)''"
| "show_error debug (EMissingClaim i) = ''missing claim: claim '' @ show_int i @ '' does not exist''"
| "show_error debug (EMissingHyperedge i) = ''missing hyperedge: hyperedge '' @ show_int i @ '' does not exist''"
| "show_error debug (EMissingVectorChunk i) = ''missing vector chunk: vector chunk '' @ show_int i @ '' does not exist''"
| "show_error debug (ESchemaTooNew a b) = ''schema too new: db user_version is '' @ show_int a @ '', this binary supports '' @ show_int b @ ''; refusing to open''"
| "show_error debug (EReplayDuplicateId dt) = ''replay: duplicate id with conflicting content: '' @ dt"
| "show_error debug (EInvalidRecord dt) = ''invalid log record: '' @ dt"
| "show_error debug (EReplayUnknownKind k) = ''replay: unknown record kind: '' @ k"
| "show_error debug (EReplayMalformed p l dt) = ''replay: malformed log record at '' @ p @ '':'' @ show_nat l @ '': '' @ dt"
| "show_error debug (ELockHeld p) = ''advisory lock held: '' @ p"

text \<open>Where the core's message does not name the parameter or the rule, it is rephrased.\<close>

definition describe_core_error :: "(str \<Rightarrow> str) \<Rightarrow> graph \<Rightarrow> error \<Rightarrow> str" where
  "describe_core_error debug g e =
     (case e of
        EUnknownPredicate n \<Rightarrow> describe_unknown_predicate n g
      | EInvalidClaimField f \<Rightarrow> ''invalid '' @ f @ '': must not be empty''
      | EInvalidEventField f \<Rightarrow> ''invalid '' @ f @ '': must not be empty''
      | EInvalidObservationField f \<Rightarrow> ''invalid '' @ f @ '': must not be empty''
      | EInvalidConfidence v \<Rightarrow> ''invalid confidence: '' @ show_f64 v @ ''; must be between 0 and 1''
      | EInvalidEventThreshold \<Rightarrow> ''invalid event_threshold: must be greater than zero''
      | EInvalidContradictionReason \<Rightarrow> ''invalid reason: must not be empty''
      | EInvalidRejectionReason \<Rightarrow> ''invalid reason: must not be empty''
      | EInvalidVectorChunkText \<Rightarrow> ''invalid text: must not be empty''
      | EInvalidGraphEntity \<Rightarrow> ''invalid entity: must not be empty''
      | EInvalidGraphHops \<Rightarrow> ''invalid hops: must be greater than zero''
      | EInvalidPredicateFilter \<Rightarrow> ''invalid predicates: entries must not be empty''
      | EInvalidRecallQuery \<Rightarrow> ''invalid query: must contain at least one searchable term''
      | EInvalidAgentId v \<Rightarrow>
          ''invalid agent_id: '' @ debug v @ ''; must be non-empty and match [A-Za-z0-9_-]''
      | _ \<Rightarrow> show_error debug e)"

end
