(* ===== verification/Recall.thy ===== *)
theory Recall
  imports Recall_Score Scopes Vectors
begin

section \<open>Recall\<close>

text \<open>
  The read paths that find claims: keyword recall (\<open>recall_text\<close> of
  \<open>crates/aver-core/src/claims.rs\<close> with the filters of ADR-0021 and ADR-0023) and the vector and
  hybrid recalls of \<open>vectors.rs\<close>. The embedding client is the argument \<open>embedder\<close>; \<open>knn\<close> is the
  nearest-neighbour search of sqlite-vec: chunk ids with their distances for an index, an
  embedding and a number of neighbours. A HashMap from ids is a table, for every list made from
  one is sorted by score and id before it is used. SQLite's limits on the size of a statement are
  not modelled.
\<close>

subsection \<open>Filters\<close>

record recall_filters =
  rf_scope :: str
  rf_scope_walk :: scope_walk
  rf_agent_id :: "str option"
  rf_agent_kind :: "agent_kind option"
  rf_predicate :: "str option"
  rf_predicate_walk :: predicate_walk
  rf_min_confidence :: "f64 option"
  rf_status :: "claim_status option"

definition default_filters :: recall_filters where
  "default_filters =
     \<lparr> rf_scope = ''global'', rf_scope_walk = ScopeAny, rf_agent_id = None, rf_agent_kind = None,
       rf_predicate = None, rf_predicate_walk = PredExact, rf_min_confidence = None,
       rf_status = Some Active \<rparr>"

record recall_query =
  ry_query :: str
  ry_filters :: recall_filters
  ry_top_k :: "nat option"

definition recall_query_new :: "str \<Rightarrow> recall_query" where
  "recall_query_new q = \<lparr> ry_query = q, ry_filters = default_filters, ry_top_k = None \<rparr>"

definition validate_filters :: "recall_filters \<Rightarrow> unit result" where
  "validate_filters f =
     rbind (validate_scope (rf_scope f)) (\<lambda>_.
     case rf_min_confidence f of
       None \<Rightarrow> Inr ()
     | Some m \<Rightarrow> ensure (in_unit m) (EInvalidConfidence m))"

definition equals_if_set :: "'a option \<Rightarrow> 'a \<Rightarrow> bool" where
  "equals_if_set want x = (case want of None \<Rightarrow> True | Some y \<Rightarrow> x = y)"

text \<open>The conditions the \<open>WHERE\<close> clause joins with \<open>AND\<close>, the one on the predicate left out.\<close>

definition row_admitted :: "recall_filters \<Rightarrow> claim_row \<Rightarrow> bool" where
  "row_admitted f c \<longleftrightarrow>
     equals_if_set (rf_status f) (c_status c)
     \<and> scope_filter_sql (rf_scope f) (rf_scope_walk f) (c_scope c)
     \<and> equals_if_set (rf_agent_id f) (c_agent_id c)
     \<and> equals_if_set (rf_agent_kind f) (c_agent_kind c)
     \<and> (case rf_min_confidence f of None \<Rightarrow> True | Some m \<Rightarrow> f64_le m (c_confidence c))"

definition claim_filter_sql :: "recall_filters \<Rightarrow> graph \<Rightarrow> (claim_row \<Rightarrow> bool) option" where
  "claim_filter_sql f g =
     (case rf_predicate f of
        None \<Rightarrow> Some (row_admitted f)
      | Some p \<Rightarrow>
          (case rf_predicate_walk f of
             PredExact \<Rightarrow> Some (\<lambda>c. row_admitted f c \<and> c_predicate c = p)
           | PredDescendants \<Rightarrow>
               (let names = expand_predicate_filter g [p]
                in if names = {} then None
                   else Some (\<lambda>c. row_admitted f c \<and> c_predicate c \<in> names))))"

definition claims_where :: "(claim_row \<Rightarrow> bool) \<Rightarrow> db \<Rightarrow> claim_row list" where
  "claims_where p d = filter p (tbl_rows (g_claims (db_graph d)))"

subsection \<open>Keyword recall\<close>

type_synonym scored = "(nat \<times> claim_row) list"

definition scored_claims :: "str list \<Rightarrow> claim_row list \<Rightarrow> scored" where
  "scored_claims tokens cs =
     [(s, c). (s, c) \<leftarrow> map (\<lambda>c. (recall_token_score tokens c, c)) cs, 0 < s]"

definition max_score :: "scored \<Rightarrow> nat" where
  "max_score sc = foldr (\<lambda>(s, _). max s) sc 0"

definition name_anchor :: "str list \<Rightarrow> scored \<Rightarrow> str option" where
  "name_anchor tokens sc =
     (if length tokens = 2 \<and> 4 \<le> max_score sc
      then map_option (\<lambda>(_, c). c_subject c)
             (find (\<lambda>(s, c). s = max_score sc \<and> to_ascii_lowercase (c_predicate c) = ''name'') sc)
      else None)"

definition minimum_score :: "str option \<Rightarrow> nat \<Rightarrow> nat" where
  "minimum_score anchor m =
     (if anchor \<noteq> None then 2
      else if 5 \<le> m then m - 1
      else if 3 \<le> m then 3
      else if 2 \<le> m then 2
      else 1)"

definition retained :: "str list \<Rightarrow> scored \<Rightarrow> nat \<times> claim_row \<Rightarrow> bool" where
  "retained tokens sc = (\<lambda>(s, c).
     let anchor = name_anchor tokens sc
     in minimum_score anchor (max_score sc) \<le> s
        \<and> (case anchor of None \<Rightarrow> True
           | Some subject \<Rightarrow> s = max_score sc \<or> c_subject c = subject))"

definition keyword_ranking :: "str list \<Rightarrow> claim_row list \<Rightarrow> scored" where
  "keyword_ranking tokens cs =
     (let sc = scored_claims tokens cs
      in sort_by (\<lambda>(s, x) (t, y). ranks_before (s, c_id x) (t, c_id y)) (filter (retained tokens sc) sc))"

definition recall_text_with_filters :: "str \<Rightarrow> recall_filters \<Rightarrow> db \<Rightarrow> claim_row list result" where
  "recall_text_with_filters query f d =
     rbind (validate_filters f) (\<lambda>_.
     let tokens = query_tokens_for_recall query
     in if tokens = [] then Inl EInvalidRecallQuery
        else (case claim_filter_sql f (db_graph d) of
                None \<Rightarrow> Inr []
              | Some p \<Rightarrow> Inr (map snd (keyword_ranking tokens (claims_where p d)))))"

definition recall_text :: "recall_query \<Rightarrow> db \<Rightarrow> claim_row list result" where
  "recall_text q d =
     rbind (case ry_top_k q of None \<Rightarrow> Inr () | Some k \<Rightarrow> validate_top_k k) (\<lambda>_.
     rbind (recall_text_with_filters (ry_query q) (ry_filters q) d) (\<lambda>cs.
     Inr (case ry_top_k q of None \<Rightarrow> cs | Some k \<Rightarrow> take k cs)))"

subsection \<open>Vector recall\<close>

text \<open>The best score of each claim id.\<close>

definition keep_best_score :: "int \<Rightarrow> f64 \<Rightarrow> (int, f64) table \<Rightarrow> (int, f64) table" where
  "keep_best_score i s t =
     tbl_put i (case tbl_get t i of None \<Rightarrow> s | Some current \<Rightarrow> f64_fmax current s) t"

definition best_scores :: "(int \<times> f64) list \<Rightarrow> (int, f64) table" where
  "best_scores xs = fold (\<lambda>(i, s). keep_best_score i s) xs []"

definition scanned_chunks :: "f64 list \<Rightarrow> db \<Rightarrow> (f64 \<times> vector_chunk) list" where
  "scanned_chunks query d =
     [(s, chunk_of i v). (i, v) \<leftarrow> g_chunks (db_graph d),
        Some e \<leftarrow> [vr_embedding v], Some s \<leftarrow> [normalized_cosine_score query e]]"

definition scanned_scores :: "f64 list \<Rightarrow> db \<Rightarrow> (int \<times> f64) list" where
  "scanned_scores query d = map (\<lambda>(s, v). (v_claim_id v, s)) (scanned_chunks query d)"

definition recall_text_with_embedding ::
  "(str \<Rightarrow> f64 list result) \<Rightarrow> str \<Rightarrow> db \<Rightarrow> claim_row list result" where
  "recall_text_with_embedding embedder query d =
     rbind (embedder query) (\<lambda>e.
     rbind (recall_text (recall_query_new query) d) (\<lambda>text_claims.
     let scores = fold (\<lambda>c. keep_best_score (c_id c) (Fin (1 / 2))) text_claims
                    (best_scores (scanned_scores e d));
         candidates = [(s, c). (i, s) \<leftarrow> scores, Inr c \<leftarrow> [get_claim i d], c_status c = Active]
     in Inr (map snd (sort_by (\<lambda>(s, x) (t, y). ranks_before (s, c_id x) (t, c_id y)) candidates))))"

definition rank_vector_chunks_by_embedding ::
  "f64 list \<Rightarrow> nat \<Rightarrow> db \<Rightarrow> vector_chunk list result" where
  "rank_vector_chunks_by_embedding query top_k d =
     rbind (validate_top_k top_k) (\<lambda>_.
     rbind (validate_embedding_vector query) (\<lambda>_.
     Inr (map snd (take top_k
       (sort_by (\<lambda>(s, x) (t, y). ranks_before (s, v_id x) (t, v_id y)) (scanned_chunks query d))))))"

definition recall_vector_chunks ::
  "(str \<Rightarrow> f64 list result) \<Rightarrow> str \<Rightarrow> nat \<Rightarrow> db \<Rightarrow> vector_chunk list result" where
  "recall_vector_chunks embedder query top_k d =
     (if top_k = 0 then Inr []
      else rbind (validate_recall_query query) (\<lambda>_.
           rbind (embedder query) (\<lambda>e. rank_vector_chunks_by_embedding e top_k d)))"

definition USIZE_MAX :: nat where
  "USIZE_MAX = 2 ^ 64 - 1"

fun first_active ::
  "nat \<Rightarrow> int list \<Rightarrow> vector_chunk list \<Rightarrow> db \<Rightarrow> claim_row list \<Rightarrow> claim_row list result" where
  "first_active k seen [] d claims = Inr claims"
| "first_active k seen (v # vs) d claims =
     (if v_claim_id v \<in> set seen then first_active k seen vs d claims
      else rbind (get_claim (v_claim_id v) d) (\<lambda>c.
           if c_status c \<noteq> Active then first_active k (v_claim_id v # seen) vs d claims
           else if length (claims @ [c]) = k then Inr (claims @ [c])
           else first_active k (v_claim_id v # seen) vs d (claims @ [c])))"

definition recall_vector_claims ::
  "(str \<Rightarrow> f64 list result) \<Rightarrow> str \<Rightarrow> nat \<Rightarrow> db \<Rightarrow> claim_row list result" where
  "recall_vector_claims embedder query top_k d =
     (if top_k = 0 then Inr []
      else rbind (recall_vector_chunks embedder query USIZE_MAX d) (\<lambda>chunks.
           first_active top_k [] chunks d []))"

subsection \<open>Hybrid recall\<close>

type_synonym knn = "(int, f64 list) table \<Rightarrow> f64 list \<Rightarrow> int \<Rightarrow> (int \<times> f64) list result"

text \<open>\<open>top_k.saturating_mul(4).max(64) as i64\<close>.\<close>

definition fanout :: "nat \<Rightarrow> int" where
  "fanout top_k =
     (let n = max (min (top_k * 4) USIZE_MAX) 64
      in if n < 2 ^ 63 then int n else int n - 2 ^ 64)"

definition similarity :: "f64 \<Rightarrow> f64" where
  "similarity distance = f64_clamp (f64_sub (Fin 1) (f64_div distance 2)) (Fin 0) (Fin 1)"

definition vector_scores :: "knn \<Rightarrow> f64 list \<Rightarrow> nat \<Rightarrow> db \<Rightarrow> (int, f64) table result" where
  "vector_scores knn e top_k d =
     (if length e = VECTOR_INDEX_DIM
      then rbind (knn (g_index (db_graph d)) e (fanout top_k)) (\<lambda>rows.
           Inr (best_scores [(vr_claim_id v, similarity distance). (i, distance) \<leftarrow> rows,
                              Some v \<leftarrow> [map_of (g_chunks (db_graph d)) i]]))
      else Inr (best_scores (scanned_scores e d)))"

definition put_candidate :: "claim_row \<Rightarrow> (int, claim_row) table \<Rightarrow> (int, claim_row) table" where
  "put_candidate c t = tbl_put (c_id c) c t"

definition hybrid_candidates ::
  "(claim_row \<Rightarrow> bool) \<Rightarrow> (int, f64) table \<Rightarrow> claim_row list \<Rightarrow> db \<Rightarrow> (int, claim_row) table" where
  "hybrid_candidates p vscores text_claims d =
     (let candidates = fold put_candidate text_claims [];
          vector_ids = [i. (i, _) \<leftarrow> vscores, tbl_get candidates i = None]
      in fold put_candidate (claims_where (\<lambda>c. c_id c \<in> set vector_ids \<and> p c) d) candidates)"

definition hybrid_score ::
  "hybrid_weights \<Rightarrow> str \<Rightarrow> (int, f64) table \<Rightarrow> claim_row \<Rightarrow> f64" where
  "hybrid_score w query vscores c =
     blend w (case tbl_get vscores (c_id c) of None \<Rightarrow> Fin 0 | Some s \<Rightarrow> s)
       (graph_score_for_query_claim query c)"

definition recall_hybrid_claims_with_filters ::
  "knn \<Rightarrow> str \<Rightarrow> f64 list \<Rightarrow> nat \<Rightarrow> hybrid_weights \<Rightarrow> recall_filters \<Rightarrow> db \<Rightarrow> claim_row list result" where
  "recall_hybrid_claims_with_filters knn query e top_k w f d =
     (if top_k = 0 then Inr []
      else
        rbind (validate_recall_query query) (\<lambda>_.
        rbind (validate_embedding_vector e) (\<lambda>_.
        rbind (validate_filters f) (\<lambda>_.
        rbind (vector_scores knn e top_k d) (\<lambda>vscores.
        case claim_filter_sql f (db_graph d) of
          None \<Rightarrow> Inr []
        | Some p \<Rightarrow>
            rbind (recall_text \<lparr> ry_query = query, ry_filters = f, ry_top_k = None \<rparr> d)
              (\<lambda>text_claims.
            Inr (map snd (take top_k (sort_by (\<lambda>(s, x) (t, y). ranks_before (s, c_id x) (t, c_id y))
              (map (\<lambda>c. (hybrid_score w query vscores c, c))
                (tbl_rows (hybrid_candidates p vscores text_claims d))))))))))))"

definition recall_hybrid_claims ::
  "knn \<Rightarrow> (str \<Rightarrow> f64 list result) \<Rightarrow> str \<Rightarrow> nat \<Rightarrow> hybrid_weights \<Rightarrow> db \<Rightarrow> claim_row list result" where
  "recall_hybrid_claims knn embedder query top_k w d =
     (if top_k = 0 then Inr []
      else rbind (validate_recall_query query) (\<lambda>_.
           rbind (embedder query) (\<lambda>e.
           recall_hybrid_claims_with_filters knn query e top_k w default_filters d)))"

subsection \<open>What recall returns\<close>

text \<open>The filters as a condition on a claim.\<close>

definition admits :: "recall_filters \<Rightarrow> graph \<Rightarrow> claim_row \<Rightarrow> bool" where
  "admits f g c \<longleftrightarrow>
     row_admitted f c
     \<and> (case rf_predicate f of
          None \<Rightarrow> True
        | Some p \<Rightarrow> (case rf_predicate_walk f of
                      PredExact \<Rightarrow> c_predicate c = p
                    | PredDescendants \<Rightarrow> c_predicate c \<in> expand_predicate_filter g [p]))"

lemma claim_filter_None: "claim_filter_sql f g = None \<Longrightarrow> \<not> admits f g c"
  by (auto simp: claim_filter_sql_def admits_def Let_def
      split: option.splits predicate_walk.splits if_splits)

lemma claim_filter_Some: "claim_filter_sql f g = Some p \<Longrightarrow> p c = admits f g c"
  by (auto simp: claim_filter_sql_def admits_def Let_def
      split: option.splits predicate_walk.splits if_splits)

lemma claim_filter_cases:
  obtains "claim_filter_sql f g = None" "\<And>c. \<not> admits f g c"
  | "claim_filter_sql f g = Some (admits f g)"
proof (cases "claim_filter_sql f g")
  case None
  with claim_filter_None that show ?thesis by blast
next
  case (Some p)
  with claim_filter_Some [OF Some] have "p = admits f g" by blast
  with Some that show ?thesis by blast
qed

abbreviation stored_claims :: "db \<Rightarrow> claim_row list" where
  "stored_claims d \<equiv> tbl_rows (g_claims (db_graph d))"

text \<open>The claims keyword recall ranks: admitted, with a positive score.\<close>

definition keyword_hits :: "str \<Rightarrow> recall_filters \<Rightarrow> db \<Rightarrow> claim_row list" where
  "keyword_hits query f d =
     [c \<leftarrow> stored_claims d. admits f (db_graph d) c
        \<and> 0 < recall_token_score (query_tokens_for_recall query) c]"

lemma scored_claims_eq:
  "scored_claims ts cs = map (\<lambda>c. (recall_token_score ts c, c)) [c \<leftarrow> cs. 0 < recall_token_score ts c]"
  by (induction cs) (simp_all add: scored_claims_def)

lemma max_score_ge: "(s, c) \<in> set sc \<Longrightarrow> s \<le> max_score sc"
  by (induction sc) (auto simp: max_score_def)

lemma max_score_attained: "sc \<noteq> [] \<Longrightarrow> \<exists>c. (max_score sc, c) \<in> set sc"
proof (induction sc)
  case (Cons a sc)
  show ?case
  proof (cases "sc = []")
    case True
    then show ?thesis by (cases a) (simp add: max_score_def)
  next
    case False
    with Cons obtain c where c: "(max_score sc, c) \<in> set sc" by blast
    obtain s x where a: "a = (s, x)" by (cases a)
    have "max_score (a # sc) = max s (max_score sc)" by (simp add: max_score_def a)
    with c a show ?thesis by (cases "s \<le> max_score sc") (auto simp: max_def)
  qed
qed simp

lemma minimum_score_le: "0 < m \<Longrightarrow> anchor = None \<or> 4 \<le> m \<Longrightarrow> minimum_score anchor m \<le> m"
  by (auto simp: minimum_score_def)

lemma name_anchor_high: "name_anchor ts sc = Some a \<Longrightarrow> 4 \<le> max_score sc"
  by (auto simp: name_anchor_def split: if_splits)

lemma best_retained:
  assumes "(max_score sc, c) \<in> set sc" and "0 < max_score sc"
  shows "retained ts sc (max_score sc, c)"
proof -
  have "name_anchor ts sc = None \<or> 4 \<le> max_score sc"
    by (cases "name_anchor ts sc") (simp_all add: name_anchor_high)
  with assms(2) have "minimum_score (name_anchor ts sc) (max_score sc) \<le> max_score sc"
    by (rule minimum_score_le)
  then show ?thesis by (simp add: retained_def Let_def split: option.splits)
qed

lemma recall_with_filters_eq:
  assumes "recall_text_with_filters query f d = Inr cs"
  shows "\<exists>ranking. cs = map snd ranking
    \<and> ranking = keyword_ranking (query_tokens_for_recall query) (filter (admits f (db_graph d)) (stored_claims d))"
proof -
  from assms have "cs = [] \<and> (\<forall>c. \<not> admits f (db_graph d) c) \<or>
      cs = map snd (keyword_ranking (query_tokens_for_recall query)
        (filter (admits f (db_graph d)) (stored_claims d)))"
    unfolding recall_text_with_filters_def claims_where_def
    by (cases f "db_graph d" rule: claim_filter_cases)
      (auto simp: result_simps Let_def split: if_splits)
  moreover have "keyword_ranking ts [] = []" for ts
    by (simp add: keyword_ranking_def scored_claims_def sort_by_def)
  ultimately show ?thesis by auto
qed

lemma keyword_ranking_set:
  "set (keyword_ranking ts cs) = {(recall_token_score ts c, c) |c. c \<in> set cs \<and> 0 < recall_token_score ts c
     \<and> retained ts (scored_claims ts cs) (recall_token_score ts c, c)}"
  by (auto simp: keyword_ranking_def scored_claims_eq Let_def)

lemma keyword_ranking_sorted:
  "sorted_wrt (\<lambda>x y. ranks_before (recall_token_score ts x, c_id x) (recall_token_score ts y, c_id y))
     (map snd (keyword_ranking ts cs))"
proof (rule sorted_map_snd)
  show "sorted_wrt (\<lambda>(s, x) (t, y). ranks_before (s, c_id x) (t, c_id y)) (keyword_ranking ts cs)"
    by (simp add: keyword_ranking_def Let_def ranked.sorted_sort)
qed (simp add: keyword_ranking_set)

lemma keyword_ranking_distinct: "distinct cs \<Longrightarrow> distinct (map snd (keyword_ranking ts cs))"
proof -
  assume "distinct cs"
  then have "distinct (keyword_ranking ts cs)"
    by (simp add: keyword_ranking_def scored_claims_eq Let_def distinct_map inj_on_def)
  moreover have "inj_on snd (set (keyword_ranking ts cs))"
    by (auto simp: keyword_ranking_set inj_on_def)
  ultimately show ?thesis by (simp add: distinct_map)
qed

lemma keyword_best_returned:
  assumes "c \<in> set cs" and "0 < recall_token_score ts c"
    and "\<forall>h \<in> set cs. recall_token_score ts h \<le> recall_token_score ts c"
  shows "c \<in> snd ` set (keyword_ranking ts cs)"
proof -
  let ?sc = "scored_claims ts cs"
  have c: "(recall_token_score ts c, c) \<in> set ?sc" using assms by (auto simp: scored_claims_eq)
  then have "?sc \<noteq> []" by auto
  from max_score_attained [OF this] obtain b where "(max_score ?sc, b) \<in> set ?sc" by blast
  with assms(3) have "max_score ?sc \<le> recall_token_score ts c" by (auto simp: scored_claims_eq)
  with max_score_ge [OF c] have eq: "max_score ?sc = recall_token_score ts c" by simp
  from best_retained [of ?sc c ts, unfolded eq, OF c assms(2)] assms(1,2)
  have "(recall_token_score ts c, c) \<in> set (keyword_ranking ts cs)"
    by (simp add: keyword_ranking_set)
  then show ?thesis by force
qed

text \<open>
  C34. Keyword recall returns claims that pass the filters and match the query, each once, best score
  first and ties by id, and leaves out none of the best-scoring ones. (That claims are stored under
  distinct ids is the primary key of their table.)
\<close>

theorem keyword_recall_ranks:
  assumes "recall_text_with_filters query f d = Inr cs"
  shows "set cs \<subseteq> set (keyword_hits query f d)
    \<and> sorted_wrt (\<lambda>x y. ranks_before (recall_token_score (query_tokens_for_recall query) x, c_id x)
                               (recall_token_score (query_tokens_for_recall query) y, c_id y)) cs
    \<and> (\<forall>c \<in> set (keyword_hits query f d).
         (\<forall>h \<in> set (keyword_hits query f d). recall_token_score (query_tokens_for_recall query) h
            \<le> recall_token_score (query_tokens_for_recall query) c) \<longrightarrow> c \<in> set cs)
    \<and> (distinct (map c_id (stored_claims d)) \<longrightarrow> distinct (map c_id cs))"
proof -
  let ?ts = "query_tokens_for_recall query"
  let ?rows = "filter (admits f (db_graph d)) (stored_claims d)"
  have hits: "set (keyword_hits query f d) = {c \<in> set ?rows. 0 < recall_token_score ?ts c}"
    by (auto simp: keyword_hits_def)
  from recall_with_filters_eq [OF assms] have cs: "cs = map snd (keyword_ranking ?ts ?rows)" by blast
  have "c \<in> set cs"
    if "c \<in> set ?rows" "0 < recall_token_score ?ts c"
      "\<forall>h \<in> set ?rows. 0 < recall_token_score ?ts h \<longrightarrow> recall_token_score ?ts h \<le> recall_token_score ?ts c" for c
  proof -
    from that(3) have "\<forall>h \<in> set ?rows. recall_token_score ?ts h \<le> recall_token_score ?ts c"
      by (metis le0 neq0_conv)
    from keyword_best_returned [OF that(1,2) this] show ?thesis by (simp add: cs)
  qed
  moreover have "set cs \<subseteq> {c \<in> set ?rows. 0 < recall_token_score ?ts c}"
    unfolding cs set_map keyword_ranking_set by (auto simp del: set_map)
  moreover have "sorted_wrt (\<lambda>x y. ranks_before (recall_token_score ?ts x, c_id x) (recall_token_score ?ts y, c_id y)) cs"
    unfolding cs by (rule keyword_ranking_sorted)
  moreover have "distinct (map c_id cs)" if ids: "distinct (map c_id (stored_claims d))"
  proof -
    have "distinct (stored_claims d)"
      using ids unfolding distinct_map [of c_id "stored_claims d"] by (rule conjunct1)
    then have "distinct cs"
      unfolding cs by (intro keyword_ranking_distinct distinct_filter)
    moreover have "set cs \<subseteq> set (stored_claims d)"
    proof
      fix c
      assume "c \<in> set cs"
      then have "c \<in> set ?rows"
        unfolding cs set_map keyword_ranking_set by (auto simp del: set_map)
      then show "c \<in> set (stored_claims d)" by (simp only: set_filter mem_Collect_eq)
    qed
    moreover have "inj_on c_id (set (stored_claims d))"
      using ids unfolding distinct_map [of c_id "stored_claims d"] by (rule conjunct2)
    ultimately show ?thesis by (metis distinct_map inj_on_subset)
  qed
  ultimately show ?thesis unfolding hits by (simp only: mem_Collect_eq) blast
qed

lemma recall_text_with_filters_admitted:
  assumes "recall_text_with_filters query f d = Inr cs" and "c \<in> set cs"
  shows "c \<in> set (stored_claims d) \<and> admits f (db_graph d) c"
proof -
  from recall_with_filters_eq [OF assms(1)] have
    "cs = map snd (keyword_ranking (query_tokens_for_recall query)
       (filter (admits f (db_graph d)) (stored_claims d)))" by blast
  with assms(2) have "c \<in> snd ` set (keyword_ranking (query_tokens_for_recall query)
       (filter (admits f (db_graph d)) (stored_claims d)))" by (simp only: set_map)
  then show ?thesis unfolding keyword_ranking_set by (auto simp del: set_map)
qed

lemma recall_text_result:
  "recall_text q d = Inr cs \<Longrightarrow>
    \<exists>all. recall_text_with_filters (ry_query q) (ry_filters q) d = Inr all
      \<and> cs = (case ry_top_k q of None \<Rightarrow> all | Some k \<Rightarrow> take k all)"
  by (auto simp: recall_text_def result_simps split: option.splits)

lemma recall_text_admitted:
  assumes "recall_text q d = Inr cs" and "c \<in> set cs"
  shows "c \<in> set (stored_claims d) \<and> admits (ry_filters q) (db_graph d) c"
proof -
  from recall_text_result [OF assms(1)] obtain all
    where "recall_text_with_filters (ry_query q) (ry_filters q) d = Inr all" "set cs \<subseteq> set all"
    by (auto split: option.splits dest: in_set_takeD)
  with assms(2) show ?thesis using recall_text_with_filters_admitted by blast
qed

subsection \<open>Hybrid recall\<close>

lemma map_of_fold_put:
  "map_of (fold put_candidate cs t) i = (case map_of (map (\<lambda>c. (c_id c, c)) (rev cs)) i of
     None \<Rightarrow> map_of t i | Some c \<Rightarrow> Some c)"
  by (induction cs arbitrary: t) (auto simp: put_candidate_def map_of_tbl_put map_add_def split: option.splits)

lemma tbl_ok_fold_put: "tbl_ok t \<Longrightarrow> tbl_ok (fold put_candidate cs t)"
  by (induction cs arbitrary: t) (simp_all add: put_candidate_def tbl_ok_put)

text \<open>Where ids tell the claims apart, the candidates are the keyword hits and the admitted claims
  with a vector score.\<close>

lemma rows_fold_put:
  assumes "inj_on c_id (set cs \<union> set (tbl_rows t))" and "\<forall>(i, c) \<in> set t. c_id c = i" and "tbl_ok t"
  shows "set (tbl_rows (fold put_candidate cs t)) = set cs \<union> set (tbl_rows t)
    \<and> (\<forall>(i, c) \<in> set (fold put_candidate cs t). c_id c = i)"
  using assms
proof (induction cs arbitrary: t)
  case (Cons c cs)
  have entries: "set (put_candidate c t) = {(a, b) \<in> set t. a \<noteq> c_id c} \<union> {(c_id c, c)}"
    using tbl.put_entries [OF Cons.prems(3), of "c_id c" c] by (simp add: put_candidate_def)
  have same: "b = c" if "(c_id c, b) \<in> set t" for b
  proof -
    have "c_id b = c_id c" using bspec [OF Cons.prems(2) that] by simp
    moreover have "b \<in> set (c # cs) \<union> set (tbl_rows t)" using that by force
    ultimately show ?thesis using inj_onD [OF Cons.prems(1)] by simp
  qed
  have rows: "set (tbl_rows (put_candidate c t)) = insert c (set (tbl_rows t))"
  proof -
    have "{(a, b) \<in> set t. a \<noteq> c_id c} \<union> {(c_id c, c)} = insert (c_id c, c) (set t)"
      using same by blast
    then show ?thesis by (simp only: set_map entries image_insert snd_conv)
  qed
  have keys: "\<forall>(i, b) \<in> set (put_candidate c t). c_id b = i" using Cons.prems(2) by (auto simp: entries)
  have "inj_on c_id (set cs \<union> set (tbl_rows (put_candidate c t)))"
    unfolding rows by (rule inj_on_subset [OF Cons.prems(1)]) auto
  moreover have "tbl_ok (put_candidate c t)" using Cons.prems(3) by (simp add: put_candidate_def tbl_ok_put)
  ultimately show ?case using Cons.IH [OF _ keys] by (simp add: rows del: set_map)
qed simp

lemma inj_on_snd_keyed:
  assumes "\<forall>(i, c) \<in> S. key c = i"
  shows "inj_on snd S"
proof (rule inj_onI)
  fix a b
  assume ab: "a \<in> S" "b \<in> S" and eq: "snd a = snd b"
  from assms ab have "fst a = key (snd a)" "fst b = key (snd b)" by (simp_all add: case_prod_beta)
  with eq have "fst a = fst b" by metis
  with eq show "a = b" by (simp add: prod_eq_iff)
qed

lemma hybrid_candidates_set:
  assumes "inj_on c_id (set (stored_claims d))" and "set text_claims \<subseteq> set (stored_claims d)"
  shows "set (tbl_rows (hybrid_candidates p vs text_claims d)) =
    set text_claims \<union> {c \<in> set (stored_claims d). p c \<and> c_id c \<in> fst ` set vs}
    \<and> distinct (tbl_rows (hybrid_candidates p vs text_claims d))"
proof -
  let ?t = "fold put_candidate text_claims []"
  let ?ids = "[i. (i, _) \<leftarrow> vs, tbl_get ?t i = None]"
  let ?found = "claims_where (\<lambda>c. c_id c \<in> set ?ids \<and> p c) d"
  have inj: "inj_on c_id A" if "A \<subseteq> set (stored_claims d)" for A
    using assms(1) that by (rule inj_on_subset)
  have texts: "set (tbl_rows ?t) = set text_claims" "\<forall>(i, c) \<in> set ?t. c_id c = i" "tbl_ok ?t"
    using rows_fold_put [of text_claims "[]"] inj [OF assms(2)] tbl_ok_fold_put [of "[]" text_claims]
    by (simp_all del: set_map)
  have found: "set ?found \<subseteq> set (stored_claims d)" by (auto simp: claims_where_def)
  have cand: "hybrid_candidates p vs text_claims d = fold put_candidate ?found ?t"
    by (simp add: hybrid_candidates_def Let_def)
  have all: "set (tbl_rows (hybrid_candidates p vs text_claims d)) = set ?found \<union> set text_claims"
    "\<forall>(i, c) \<in> set (hybrid_candidates p vs text_claims d). c_id c = i"
    "tbl_ok (hybrid_candidates p vs text_claims d)"
    unfolding cand using rows_fold_put [OF _ texts(2,3), of ?found] inj [of "set ?found \<union> set text_claims"]
      tbl_ok_fold_put [OF texts(3)] found assms(2)
    by (simp_all del: set_map add: texts(1))
  have "c \<in> set text_claims"
    if "c \<in> set (stored_claims d)" "map_of ?t (c_id c) \<noteq> None" for c
  proof -
    from that(2) obtain b where b: "(c_id c, b) \<in> set ?t" by (auto dest: map_of_SomeD)
    with texts have "b \<in> set text_claims" "c_id b = c_id c" by force+
    with assms that(1) show ?thesis by (auto simp: inj_on_def dest!: subsetD)
  qed
  then have "set ?found \<union> set text_claims =
      set text_claims \<union> {c \<in> set (stored_claims d). p c \<and> c_id c \<in> fst ` set vs}"
    by (fastforce simp: claims_where_def image_iff)
  moreover have "distinct (tbl_rows (hybrid_candidates p vs text_claims d))"
  proof -
    have "inj_on snd (set (hybrid_candidates p vs text_claims d))"
      by (rule inj_on_snd_keyed [OF all(2)])
    with tbl_ok_distinct [OF all(3)] show ?thesis by (simp add: distinct_map)
  qed
  ultimately show ?thesis using all(1) by simp
qed

text \<open>What hybrid recall chooses from.\<close>

definition hybrid_pool ::
  "str \<Rightarrow> recall_filters \<Rightarrow> (int, f64) table \<Rightarrow> db \<Rightarrow> claim_row set" where
  "hybrid_pool query f vs d =
     {c \<in> set (stored_claims d). admits f (db_graph d) c
        \<and> (map_of vs (c_id c) \<noteq> None
           \<or> (\<exists>cs. recall_text_with_filters query f d = Inr cs \<and> c \<in> set cs))}"

lemma set_top_ranked:
  "c \<in> set (map snd (take k (sort_by le (map (\<lambda>c. (score c, c)) pool)))) \<Longrightarrow> c \<in> set pool"
  by (auto dest!: in_set_takeD)

lemma hybrid_result:
  assumes "recall_hybrid_claims_with_filters knn query e k w f d = Inr cs" and "k \<noteq> 0"
    and "inj_on c_id (set (stored_claims d))"
  shows "\<exists>vs pool. vector_scores knn e k d = Inr vs \<and> set pool = hybrid_pool query f vs d \<and> distinct pool
    \<and> cs = map snd (take k (sort_by (\<lambda>(s, x) (t, y). ranks_before (s, c_id x) (t, c_id y))
         (map (\<lambda>c. (hybrid_score w query vs c, c)) pool)))"
proof -
  from assms(1,2) obtain vs where vs: "vector_scores knn e k d = Inr vs"
    and cases: "(case claim_filter_sql f (db_graph d) of
          None \<Rightarrow> Inr []
        | Some p \<Rightarrow>
            rbind (recall_text \<lparr> ry_query = query, ry_filters = f, ry_top_k = None \<rparr> d) (\<lambda>text_claims.
            Inr (map snd (take k (sort_by (\<lambda>(s, x) (t, y). ranks_before (s, c_id x) (t, c_id y))
              (map (\<lambda>c. (hybrid_score w query vs c, c))
                (tbl_rows (hybrid_candidates p vs text_claims d)))))))) = Inr cs"
    unfolding recall_hybrid_claims_with_filters_def by (auto simp: result_simps)
  show ?thesis
  proof (cases f "db_graph d" rule: claim_filter_cases)
    case 1
    with cases have "cs = []" by simp
    moreover have "set [] = hybrid_pool query f vs d" using 1(2) by (auto simp: hybrid_pool_def)
    ultimately show ?thesis
      using vs by (intro exI [of _ vs] exI [of _ "[]"]) (simp add: sort_by_def)
  next
    case 2
    with cases obtain text_claims where
      found: "recall_text \<lparr> ry_query = query, ry_filters = f, ry_top_k = None \<rparr> d = Inr text_claims"
      and cs: "cs = map snd (take k (sort_by (\<lambda>(s, x) (t, y). ranks_before (s, c_id x) (t, c_id y))
              (map (\<lambda>c. (hybrid_score w query vs c, c))
                (tbl_rows (hybrid_candidates (admits f (db_graph d)) vs text_claims d)))))"
      by (auto simp: result_simps)
    have all: "recall_text_with_filters query f d = Inr text_claims"
      using recall_text_result [OF found] by simp
    note admitted = recall_text_with_filters_admitted [OF all]
    then have "set text_claims \<subseteq> set (stored_claims d)" by blast
    note pool = hybrid_candidates_set [OF assms(3) this, of "admits f (db_graph d)" vs]
    have "set (tbl_rows (hybrid_candidates (admits f (db_graph d)) vs text_claims d)) = hybrid_pool query f vs d"
      unfolding conjunct1 [OF pool] hybrid_pool_def all using admitted
      by (auto simp: map_of_eq_None_iff simp del: set_map)
    with vs cs pool show ?thesis by blast
  qed
qed

text \<open>
  C35. Hybrid recall returns the best claims of its pool, which are the admitted claims that keyword
  recall finds or that have a vector score: sorted by the blended score and then by id, each once,
  at most \<open>top_k\<close> of them, and where one is left out there are \<open>top_k\<close> that rank before it.
\<close>

theorem hybrid_recall_best:
  assumes "recall_hybrid_claims_with_filters knn query e k w f d = Inr cs" and "k \<noteq> 0"
    and "inj_on c_id (set (stored_claims d))"
  shows "\<exists>vs. vector_scores knn e k d = Inr vs \<and> set cs \<subseteq> hybrid_pool query f vs d
    \<and> distinct cs \<and> length cs \<le> k
    \<and> sorted_wrt (\<lambda>x y. ranks_before (hybrid_score w query vs x, c_id x) (hybrid_score w query vs y, c_id y)) cs
    \<and> (\<forall>c \<in> hybrid_pool query f vs d - set cs. length cs = k
         \<and> (\<forall>x \<in> set cs. ranks_before (hybrid_score w query vs x, c_id x) (hybrid_score w query vs c, c_id c)))"
proof -
  let ?le = "\<lambda>(s, x) (t, y). ranks_before (s :: f64, c_id x) (t, c_id (y :: claim_row))"
  from hybrid_result [OF assms] obtain vs pool where
    r: "vector_scores knn e k d = Inr vs" "set pool = hybrid_pool query f vs d" "distinct pool"
    and cs: "cs = map snd (take k (sort_by ?le (map (\<lambda>c. (hybrid_score w query vs c, c)) pool)))" by blast
  let ?scored = "map (\<lambda>c. (hybrid_score w query vs c, c)) pool"
  let ?top = "take k (sort_by ?le ?scored)"
  have top: "p \<in> (\<lambda>c. (hybrid_score w query vs c, c)) ` set pool" if "p \<in> set ?top" for p
    using in_set_takeD [OF that] by simp
  have "distinct (sort_by ?le ?scored)" using r(3) by (simp add: distinct_map inj_on_def)
  moreover have "inj_on snd (set ?top)" by (rule inj_onI) (auto dest!: top)
  ultimately have "distinct cs" unfolding cs by (simp add: distinct_map)
  moreover have "set cs \<subseteq> hybrid_pool query f vs d" unfolding cs r(2) [symmetric] using top by force
  moreover have "sorted_wrt (\<lambda>x y. ranks_before (hybrid_score w query vs x, c_id x)
      (hybrid_score w query vs y, c_id y)) cs"
    unfolding cs
  proof (rule sorted_map_snd)
    show "sorted_wrt ?le ?top" by (simp add: ranked.sorted_sort sorted_wrt_take)
  qed (auto dest!: top)
  moreover have "length cs = k \<and> (\<forall>x \<in> set cs. ranks_before (hybrid_score w query vs x, c_id x)
      (hybrid_score w query vs c, c_id c))"
    if "c \<in> hybrid_pool query f vs d - set cs" for c
  proof -
    have in_all: "(hybrid_score w query vs c, c) \<in> set ?scored" using that r(2) by auto
    have "(hybrid_score w query vs c, c) \<notin> set ?top" using that unfolding cs by force
    from ranked.truncated_best [OF in_all this] show ?thesis
      unfolding cs by (fastforce dest: top)
  qed
  ultimately show ?thesis using r(1) unfolding cs by auto
qed

text \<open>
  No recall leaves its filters: every claim keyword or hybrid recall returns is a stored claim
  of the asked status, in the asked scope, of the asked agent, kind and predicate and above the
  asked confidence.
\<close>

theorem recalls_respect_filters:
  "(recall_text q d = Inr cs \<longrightarrow>
      (\<forall>c \<in> set cs. c \<in> set (stored_claims d) \<and> admits (ry_filters q) (db_graph d) c))
   \<and> (inj_on c_id (set (stored_claims d)) \<and> recall_hybrid_claims_with_filters knn query e k w f d = Inr cs \<longrightarrow>
      (\<forall>c \<in> set cs. c \<in> set (stored_claims d) \<and> admits f (db_graph d) c))"
proof (rule conjI; rule impI; rule ballI)
  fix c
  assume "recall_text q d = Inr cs" "c \<in> set cs"
  then show "c \<in> set (stored_claims d) \<and> admits (ry_filters q) (db_graph d) c"
    using recall_text_admitted by blast
next
  fix c
  assume "inj_on c_id (set (stored_claims d)) \<and> recall_hybrid_claims_with_filters knn query e k w f d = Inr cs"
  then have inj: "inj_on c_id (set (stored_claims d))"
    and r: "recall_hybrid_claims_with_filters knn query e k w f d = Inr cs" by simp_all
  assume c: "c \<in> set cs"
  show "c \<in> set (stored_claims d) \<and> admits f (db_graph d) c"
  proof (cases "k = 0")
    case True
    with r c show ?thesis by (simp add: recall_hybrid_claims_with_filters_def)
  next
    case False
    from hybrid_result [OF r this inj] obtain vs pool where
      pool: "set pool = hybrid_pool query f vs d"
      and cs: "cs = map snd (take k (sort_by (\<lambda>(s, x) (t, y). ranks_before (s, c_id x) (t, c_id y))
         (map (\<lambda>c. (hybrid_score w query vs c, c)) pool)))" by blast
    from set_top_ranked [OF c [unfolded cs]] have "c \<in> hybrid_pool query f vs d" by (simp add: pool)
    then show ?thesis by (simp add: hybrid_pool_def)
  qed
qed

subsection \<open>An example\<close>

definition sample_claim :: "int \<Rightarrow> str \<Rightarrow> str \<Rightarrow> str \<Rightarrow> int \<times> claim_row" where
  "sample_claim i subject predicate object =
     (i, \<lparr> c_id = i, c_subject = subject, c_predicate = predicate, c_object = object,
           c_provenance = Extracted, c_confidence = Fin 1, c_status = Active,
           c_source_refs = [''src''], c_agent_id = ''local'', c_agent_kind = Human,
           c_write_ts = 1, c_last_verified_at = None, c_scope = ''global'',
           cr_created_at = 1, cr_last_seen_at = 1 \<rparr>)"

definition recall_db :: db where
  "recall_db =
     \<lparr> db_graph = empty_graph \<lparr> g_claims := [sample_claim 1 ''s'' ''p'' ''b'', sample_claim 2 ''s'' ''p'' ''c''] \<rparr>,
       db_episodes = \<lparr> e_events = [], e_candidates = [] \<rparr>,
       db_observed = \<lparr> o_observations = [], o_markers = [] \<rparr> \<rparr>"

definition result_ids :: "claim_row list result \<Rightarrow> int list result" where
  "result_ids r = rbind r (\<lambda>cs. Inr (map c_id cs))"

lemma result_ids_InrE:
  assumes "result_ids r = Inr is"
  obtains cs where "r = Inr cs" "map c_id cs = is"
  using assms by (auto simp: result_ids_def result_simps)

lemma recall_db_ids: "inj_on c_id (set (stored_claims recall_db))"
  by (simp add: recall_db_def sample_claim_def)

lemma sample_keyword_recall:
  "result_ids (recall_text_with_filters ''c'' default_filters recall_db) = Inr [2]"
  by code_simp

lemma sample_hybrid_recall:
  "result_ids (recall_hybrid_claims_with_filters (\<lambda>_ _ _. Inr []) ''c'' [Fin 1] 2 default_weights default_filters recall_db)
    = Inr [2]"
  by code_simp

lemma sample_hit: "map c_id (keyword_hits ''c'' default_filters recall_db) = [2]"
  by code_simp

lemma keyword_recall_ranks_witness:
  "\<exists>cs. recall_text_with_filters ''c'' default_filters recall_db = Inr cs
    \<and> set cs \<subseteq> set (keyword_hits ''c'' default_filters recall_db) \<and> cs \<noteq> []
    \<and> distinct (map c_id cs)"
proof -
  obtain cs where
    cs: "recall_text_with_filters ''c'' default_filters recall_db = Inr cs" "map c_id cs = [2]"
    by (rule result_ids_InrE [OF sample_keyword_recall])
  moreover from cs(2) have "cs \<noteq> []" by auto
  moreover have "distinct (map c_id (stored_claims recall_db))" by code_simp
  ultimately show ?thesis using keyword_recall_ranks [OF cs(1)] by blast
qed

lemma hybrid_recall_best_witness:
  "\<exists>(vs :: (int, f64) table) cs. map c_id cs = [2] \<and> set cs \<subseteq> hybrid_pool ''c'' default_filters vs recall_db
    \<and> length cs \<le> 2"
proof -
  obtain cs where
    cs: "recall_hybrid_claims_with_filters (\<lambda>_ _ _. Inr []) ''c'' [Fin 1] 2 default_weights default_filters recall_db = Inr cs"
      "map c_id cs = [2]"
    by (rule result_ids_InrE [OF sample_hybrid_recall])
  have "(2 :: nat) \<noteq> 0" by simp
  from hybrid_recall_best [OF cs(1) this recall_db_ids] obtain vs where
    "set cs \<subseteq> hybrid_pool ''c'' default_filters vs recall_db" "length cs \<le> 2" by (elim exE conjE) rule
  with cs(2) show ?thesis by (intro exI [of _ vs] exI [of _ cs]) simp
qed

lemma recalls_respect_filters_witness:
  "\<exists>cs. recall_text_with_filters ''c'' default_filters recall_db = Inr cs \<and> list_all (\<lambda>c. c_status c = Active) cs"
proof -
  obtain cs where cs: "recall_text_with_filters ''c'' default_filters recall_db = Inr cs"
    by (rule result_ids_InrE [OF sample_keyword_recall])
  then have q: "recall_text (recall_query_new ''c'') recall_db = Inr cs"
    by (simp add: recall_text_def recall_query_new_def)
  have "admits default_filters (db_graph recall_db) c \<Longrightarrow> c_status c = Active" for c
    by (simp add: admits_def row_admitted_def default_filters_def equals_if_set_def)
  moreover have "ry_filters (recall_query_new ''c'') = default_filters" by (simp add: recall_query_new_def)
  ultimately have "list_all (\<lambda>c. c_status c = Active) cs"
    using conjunct1 [OF recalls_respect_filters, of "recall_query_new ''c''" recall_db cs] q
    by (auto simp: list_all_iff)
  with cs show ?thesis by blast
qed

end
