(* ===== verification/Graph_Path.thy ===== *)
theory Graph_Path
  imports Scopes Hyperedges
begin

section \<open>Shortest paths between entities\<close>

text \<open>
  \<open>graph_path\<close> of \<open>crates/aver-core/src/graph.rs\<close>: breadth-first search over the active claims and
  hyperedges a query admits. \<open>search_step\<close> is one turn of the loop, \<open>path_search\<close> the loop;
  every turn shortens the queue or replaces a path by longer ones, and the paths repeat no
  entity, so it ends.
\<close>

subsection \<open>Data\<close>

datatype path_mode = Directed | Bidirectional

datatype relationship_kind = RelClaim | RelHyperedge

record path_query =
  gq_source :: str
  gq_target :: str
  gq_min_confidence :: f64
  gq_allowed_provenance :: "provenance list option"
  gq_max_hops :: nat
  gq_predicates :: "str list option"
  gq_mode :: path_mode
  gq_scope :: str
  gq_walk :: scope_walk

record path_step =
  ps_source :: str
  ps_target :: str
  ps_predicate :: str
  ps_confidence :: f64
  ps_provenance :: provenance
  ps_kind :: relationship_kind
  ps_source_refs :: "str list"
  ps_claim_id :: "int option"
  ps_scope :: str

record graph_path =
  gp_source :: str
  gp_target :: str
  gp_steps :: "path_step list"
  gp_confidence :: f64
  gp_entity_path :: "str list"

record edge_candidate =
  ec_from :: str
  ec_to :: str
  ec_source_id :: int
  ec_kind_order :: nat
  ec_step :: path_step

subsection \<open>The edges a query admits\<close>

text \<open>\<open>hyperedges_in_scope\<close>: a hyperedge counts as a row of the scope \<open>global\<close>.\<close>

fun hyperedges_in_scope :: "str \<Rightarrow> scope_walk \<Rightarrow> bool" where
  "hyperedges_in_scope scope ScopeAny = True"
| "hyperedges_in_scope scope ScopeAncestors = True"
| "hyperedges_in_scope scope ScopeExact = (scope = ''global'')"
| "hyperedges_in_scope scope ScopeDescendants = (scope = ''global'')"

definition allowed :: "'a list option \<Rightarrow> 'a \<Rightarrow> bool" where
  "allowed ok x = (case ok of None \<Rightarrow> True | Some xs \<Rightarrow> x \<in> set xs)"

definition predicate_filter :: "str list option \<Rightarrow> graph \<Rightarrow> str set option result" where
  "predicate_filter predicates g =
     (case predicates of
        None \<Rightarrow> Inr None
      | Some ps \<Rightarrow>
          if ps = [] \<or> list_ex blank ps then Inl EInvalidPredicateFilter
          else Inr (Some (expand_predicate_filter g ps)))"

definition predicate_allowed :: "str set option \<Rightarrow> str \<Rightarrow> bool" where
  "predicate_allowed pf p = (case pf of None \<Rightarrow> True | Some ps \<Rightarrow> p \<in> ps)"

definition claim_step :: "claim_row \<Rightarrow> path_step" where
  "claim_step c =
     \<lparr> ps_source = c_subject c, ps_target = c_object c, ps_predicate = c_predicate c,
       ps_confidence = c_confidence c, ps_provenance = c_provenance c, ps_kind = RelClaim,
       ps_source_refs = c_source_refs c, ps_claim_id = Some (c_id c), ps_scope = c_scope c \<rparr>"

definition claim_candidates :: "path_mode \<Rightarrow> claim_row \<Rightarrow> edge_candidate list" where
  "claim_candidates mode c =
     \<lparr> ec_from = c_subject c, ec_to = c_object c, ec_source_id = c_id c, ec_kind_order = 0,
       ec_step = claim_step c \<rparr>
     # (if mode = Bidirectional
        then [\<lparr> ec_from = c_object c, ec_to = c_subject c, ec_source_id = c_id c,
                ec_kind_order = 0, ec_step = claim_step c \<rparr>]
        else [])"

definition hyperedge_step :: "hyperedge \<Rightarrow> str \<Rightarrow> str \<Rightarrow> path_step" where
  "hyperedge_step h l r =
     \<lparr> ps_source = l, ps_target = r, ps_predicate = h_predicate h,
       ps_confidence = h_confidence h, ps_provenance = h_provenance h, ps_kind = RelHyperedge,
       ps_source_refs = h_source_refs h, ps_claim_id = None, ps_scope = ''global'' \<rparr>"

definition hyperedge_candidates :: "hyperedge \<Rightarrow> edge_candidate list" where
  "hyperedge_candidates h =
     [\<lparr> ec_from = p_entity l, ec_to = p_entity r, ec_source_id = h_id h, ec_kind_order = 1,
        ec_step = hyperedge_step h (p_entity l) (p_entity r) \<rparr>.
      (i, l) \<leftarrow> enumerate 0 (h_participants h), (j, r) \<leftarrow> enumerate 0 (h_participants h),
      \<not> (i = j \<or> p_entity l = p_entity r)]"

definition graph_path_candidates :: "path_query \<Rightarrow> str set option \<Rightarrow> db \<Rightarrow> edge_candidate list" where
  "graph_path_candidates q pf d =
     concat (map (claim_candidates (gq_mode q))
       [c \<leftarrow> tbl_rows (g_claims (db_graph d)).
          c_status c = Active \<and> f64_le (gq_min_confidence q) (c_confidence c)
          \<and> scope_filter_sql (gq_scope q) (gq_walk q) (c_scope c)
          \<and> allowed (gq_allowed_provenance q) (c_provenance c) \<and> predicate_allowed pf (c_predicate c)])
     @ (if \<not> hyperedges_in_scope (gq_scope q) (gq_walk q) then []
        else concat (map hyperedge_candidates
          [h \<leftarrow> list_active_hyperedges d.
             \<not> (f64_lt (h_confidence h) (gq_min_confidence q)
                \<or> \<not> allowed (gq_allowed_provenance q) (h_provenance h)
                \<or> \<not> predicate_allowed pf (h_predicate h))]))"

subsection \<open>The search\<close>

text \<open>\<open>total_cmp\<close>: a NaN is above every number.\<close>

definition f64_total_lt :: "f64 \<Rightarrow> f64 \<Rightarrow> bool" where
  "f64_total_lt x y \<longleftrightarrow> x \<noteq> NaN \<and> (y = NaN \<or> f64_lt x y)"

definition f64_eq :: "f64 \<Rightarrow> f64 \<Rightarrow> bool" where
  "f64_eq x y \<longleftrightarrow> x \<noteq> NaN \<and> x = y"

record partial_path =
  pp_entity :: str
  pp_entity_path :: "str list"
  pp_steps :: "path_step list"
  pp_confidence :: f64

record search =
  se_queue :: "partial_path list"
  se_best :: "(path_step list \<times> str list \<times> f64) option"
  se_depth :: "nat option"

definition replaces ::
  "partial_path \<Rightarrow> (path_step list \<times> str list \<times> f64) option \<Rightarrow> bool" where
  "replaces p best =
     (case best of
        None \<Rightarrow> True
      | Some (best_steps, best_entities, best_confidence) \<Rightarrow>
          f64_total_lt best_confidence (pp_confidence p)
          \<or> (f64_eq (pp_confidence p) best_confidence
             \<and> (pp_entity_path p, length (pp_steps p)) < (best_entities, length best_steps)))"

definition extend_path :: "partial_path \<Rightarrow> edge_candidate \<Rightarrow> partial_path" where
  "extend_path p c =
     \<lparr> pp_entity = ec_to c, pp_entity_path = pp_entity_path p @ [ec_to c],
       pp_steps = pp_steps p @ [ec_step c],
       pp_confidence = f64_mul (pp_confidence p) (ps_confidence (ec_step c)) \<rparr>"

definition visit_edge :: "str \<Rightarrow> partial_path \<Rightarrow> search \<Rightarrow> edge_candidate \<Rightarrow> search" where
  "visit_edge target p s c =
     (if ec_to c \<in> set (pp_entity_path p) then s
      else let n = extend_path p c
           in if ec_to c = target
              then (let s = s \<lparr> se_depth := Some (length (pp_steps n)) \<rparr>
                    in if replaces n (se_best s)
                       then s \<lparr> se_best := Some (pp_steps n, pp_entity_path n, pp_confidence n) \<rparr>
                       else s)
              else s \<lparr> se_queue := se_queue s @ [n] \<rparr>)"

definition search_step :: "edge_candidate list \<Rightarrow> str \<Rightarrow> nat \<Rightarrow> search \<Rightarrow> search" where
  "search_step cands target max_hops s =
     (case se_queue s of
        [] \<Rightarrow> s
      | p # rest \<Rightarrow>
          let s = s \<lparr> se_queue := rest \<rparr>
          in if (case se_depth s of None \<Rightarrow> False | Some n \<Rightarrow> n \<le> length (pp_steps p)) then s
             else if length (pp_steps p) = max_hops then s
             else foldl (visit_edge target p) s [c \<leftarrow> cands. ec_from c = pp_entity p])"

subsubsection \<open>One turn\<close>

abbreviation pushed :: "str \<Rightarrow> partial_path \<Rightarrow> edge_candidate list \<Rightarrow> partial_path list" where
  "pushed target p cs \<equiv>
     map (extend_path p) [c \<leftarrow> cs. ec_to c \<notin> set (pp_entity_path p) \<and> ec_to c \<noteq> target]"

abbreviation hits :: "str \<Rightarrow> partial_path \<Rightarrow> edge_candidate list \<Rightarrow> partial_path list" where
  "hits target p cs \<equiv>
     map (extend_path p) [c \<leftarrow> cs. ec_to c \<notin> set (pp_entity_path p) \<and> ec_to c = target]"

definition keep_best ::
  "(path_step list \<times> str list \<times> f64) option \<Rightarrow> partial_path \<Rightarrow> (path_step list \<times> str list \<times> f64) option" where
  "keep_best best n =
     (if replaces n best then Some (pp_steps n, pp_entity_path n, pp_confidence n) else best)"

lemma visit_all:
  "foldl (visit_edge target p) s cs =
     \<lparr> se_queue = se_queue s @ pushed target p cs,
       se_best = foldl keep_best (se_best s) (hits target p cs),
       se_depth = (if hits target p cs = [] then se_depth s else Some (Suc (length (pp_steps p)))) \<rparr>"
  by (induction cs arbitrary: s) (auto simp: visit_edge_def Let_def extend_path_def keep_best_def)

definition path_weight :: "edge_candidate list \<Rightarrow> partial_path \<Rightarrow> nat" where
  "path_weight cands p =
     Suc (length cands) ^ card (ec_to ` set cands - set (pp_entity_path p))"

lemma sum_list_bound: "\<forall>x \<in> set xs. f x \<le> (b :: nat) \<Longrightarrow> sum_list (map f xs) \<le> length xs * b"
  by (induction xs) auto

lemma pushed_weight:
  assumes "set cs \<subseteq> set cands" and "length cs \<le> length cands"
  shows "sum_list (map (path_weight cands) (pushed target p cs)) < path_weight cands p"
proof (cases "pushed target p cs = []")
  case True
  then show ?thesis by (simp add: path_weight_def)
next
  case False
  let ?free = "ec_to ` set cands - set (pp_entity_path p)"
  have smaller: "path_weight cands n \<le> Suc (length cands) ^ (card ?free - 1)"
    if "n \<in> set (pushed target p cs)" for n
  proof -
    from that obtain c where c: "n = extend_path p c" "c \<in> set cs" "ec_to c \<notin> set (pp_entity_path p)"
      by auto
    then have "ec_to ` set cands - set (pp_entity_path n) = ?free - {ec_to c}" "ec_to c \<in> ?free"
      using assms(1) by (auto simp: extend_path_def)
    then show ?thesis by (simp add: path_weight_def)
  qed
  have "0 < card ?free"
    using False assms(1) by (auto simp: card_gt_0_iff filter_empty_conv)
  then obtain k where k: "card ?free = Suc k" by (cases "card ?free") auto
  have "sum_list (map (path_weight cands) (pushed target p cs))
      \<le> length (pushed target p cs) * Suc (length cands) ^ k"
    using smaller by (intro sum_list_bound) (simp add: k)
  also have "\<dots> \<le> length cands * Suc (length cands) ^ k"
    using assms(2) le_trans [OF length_filter_le] by (intro mult_le_mono1) simp
  also have "\<dots> < Suc (length cands) * Suc (length cands) ^ k" by simp
  finally show ?thesis by (simp add: path_weight_def k)
qed

lemma search_step_decreases:
  assumes "se_queue s \<noteq> []"
  shows "sum_list (map (path_weight cands) (se_queue (search_step cands target hops s)))
    < sum_list (map (path_weight cands) (se_queue s))"
proof -
  from assms obtain p rest where q: "se_queue s = p # rest" by (cases "se_queue s") auto
  have "0 < path_weight cands p" by (simp add: path_weight_def)
  moreover have "sum_list (map (path_weight cands)
      (pushed target p [c \<leftarrow> cands. ec_from c = pp_entity p])) < path_weight cands p"
    by (rule pushed_weight) auto
  ultimately show ?thesis
    by (auto simp: search_step_def q Let_def visit_all split: option.splits)
qed

subsubsection \<open>The loop\<close>

function path_search :: "edge_candidate list \<Rightarrow> str \<Rightarrow> nat \<Rightarrow> search \<Rightarrow> search" where
  "path_search cands target max_hops s =
     (if se_queue s = [] then s
      else path_search cands target max_hops (search_step cands target max_hops s))"
  by auto

termination
  by (relation "measure (\<lambda>(cands, target, max_hops, s).
        sum_list (map (path_weight cands) (se_queue s)))")
    (simp_all only: wf_measure in_measure case_prod_conv search_step_decreases not_False_eq_True)

declare path_search.simps [simp del]

definition search_start :: "str \<Rightarrow> search" where
  "search_start source =
     \<lparr> se_queue = [\<lparr> pp_entity = source, pp_entity_path = [source], pp_steps = [],
                     pp_confidence = Fin 1 \<rparr>],
       se_best = None, se_depth = None \<rparr>"

definition candidate_key :: "edge_candidate \<Rightarrow> int \<times> nat \<times> str \<times> str" where
  "candidate_key c = (ec_source_id c, ec_kind_order c, ec_from c, ec_to c)"

definition graph_path :: "path_query \<Rightarrow> db \<Rightarrow> graph_path option result" where
  "graph_path q d =
     (if blank (gq_source q) \<or> blank (gq_target q) then Inl EInvalidGraphEntity
      else rbind (validate_scope (gq_scope q)) (\<lambda>_.
           rbind (validate_confidence (gq_min_confidence q)) (\<lambda>_.
           if gq_source q = gq_target q
           then Inr (Some \<lparr> gp_source = gq_source q, gp_target = gq_target q, gp_steps = [],
                            gp_confidence = Fin 1, gp_entity_path = [gq_source q] \<rparr>)
           else if gq_max_hops q = 0 then Inr None
           else rbind (predicate_filter (gq_predicates q) (db_graph d)) (\<lambda>pf.
             let cands = sort_key candidate_key (graph_path_candidates q pf d);
                 s = path_search cands (gq_target q) (gq_max_hops q) (search_start (gq_source q))
             in Inr (map_option (\<lambda>(steps, entity_path, confidence).
                  \<lparr> gp_source = gq_source q, gp_target = gq_target q, gp_steps = steps,
                    gp_confidence = confidence, gp_entity_path = entity_path \<rparr>) (se_best s))))))"

end
