(* ===== verification/Graph_Path_Props.thy ===== *)
theory Graph_Path_Props
  imports Graph_Path
begin

section \<open>The path search finds a best shortest path\<close>

text \<open>
  The specification speaks of walks over the admitted edges; \<open>path_of\<close> is what the search keeps
  of one. The invariant of the loop relates the queue to the walks it stands for: every walk to
  the target extends a queued one, or is no better than the best found.
\<close>

subsection \<open>Walks\<close>

fun is_walk :: "edge_candidate list \<Rightarrow> str \<Rightarrow> edge_candidate list \<Rightarrow> str \<Rightarrow> bool" where
  "is_walk E u [] v \<longleftrightarrow> u = v"
| "is_walk E u (c # cs) v \<longleftrightarrow> c \<in> set E \<and> ec_from c = u \<and> is_walk E (ec_to c) cs v"

definition entities :: "str \<Rightarrow> edge_candidate list \<Rightarrow> str list" where
  "entities u cs = u # map ec_to cs"

definition is_route :: "edge_candidate list \<Rightarrow> str \<Rightarrow> edge_candidate list \<Rightarrow> str \<Rightarrow> bool" where
  "is_route E u cs v \<longleftrightarrow> is_walk E u cs v \<and> distinct (entities u cs)"

definition confidence_of :: "edge_candidate list \<Rightarrow> f64" where
  "confidence_of cs = foldl (\<lambda>x c. f64_mul x (ps_confidence (ec_step c))) (Fin 1) cs"

definition path_of :: "str \<Rightarrow> edge_candidate list \<Rightarrow> partial_path" where
  "path_of u cs =
     \<lparr> pp_entity = last (entities u cs), pp_entity_path = entities u cs,
       pp_steps = map ec_step cs, pp_confidence = confidence_of cs \<rparr>"

definition summary :: "partial_path \<Rightarrow> path_step list \<times> str list \<times> f64" where
  "summary p = (pp_steps p, pp_entity_path p, pp_confidence p)"

text \<open>\<open>beats u fs es\<close>: the walk \<open>fs\<close> replaces \<open>es\<close> as the best.\<close>

definition beats :: "str \<Rightarrow> edge_candidate list \<Rightarrow> edge_candidate list \<Rightarrow> bool" where
  "beats u fs es \<longleftrightarrow> replaces (path_of u fs) (Some (summary (path_of u es)))"

lemma is_walk_append:
  "is_walk E u (cs @ ds) v \<longleftrightarrow> is_walk E u cs (last (entities u cs)) \<and> is_walk E (last (entities u cs)) ds v"
  by (induction cs arbitrary: u) (auto simp: entities_def)

lemma is_walk_last: "is_walk E u cs v \<Longrightarrow> last (entities u cs) = v"
  by (induction cs arbitrary: u) (auto simp: entities_def)

lemma entities_snoc: "entities u (cs @ [c]) = entities u cs @ [ec_to c]"
  by (simp add: entities_def)

lemma last_entities: "last (entities u cs) \<in> set (entities u cs)"
  by (rule last_in_set) (simp add: entities_def)

lemma entities_append:
  "entities u (cs @ ds) = butlast (entities u cs) @ entities (last (entities u cs)) ds"
  by (cases cs rule: rev_cases) (simp_all add: entities_def)

lemma extend_path_of:
  "extend_path (path_of u cs) c = path_of u (cs @ [c])"
  by (simp add: extend_path_def path_of_def entities_def confidence_of_def)

lemma path_of_start: "path_of u [] = \<lparr> pp_entity = u, pp_entity_path = [u], pp_steps = [], pp_confidence = Fin 1 \<rparr>"
  by (simp add: path_of_def entities_def confidence_of_def)

lemma entities_split:
  "x \<in> set (entities u ds) \<Longrightarrow> \<exists>as bs. ds = as @ bs \<and> last (entities u as) = x"
proof (induction ds arbitrary: u)
  case Nil
  then show ?case by (simp add: entities_def)
next
  case (Cons d ds)
  show ?case
  proof (cases "x = u")
    case True
    then show ?thesis by (intro exI [of _ "[]"] exI [of _ "d # ds"]) (simp add: entities_def)
  next
    case False
    with Cons.prems have "x \<in> set (entities (ec_to d) ds)" by (simp add: entities_def)
    with Cons.IH obtain as bs where "ds = as @ bs" "last (entities (ec_to d) as) = x" by blast
    then show ?thesis
      by (intro exI [of _ "d # as"] exI [of _ bs]) (simp add: entities_def)
  qed
qed

text \<open>Every walk contains a route that is no longer.\<close>

lemma walk_route:
  assumes "is_walk E u cs v"
  obtains ds where "is_route E u ds v" and "length ds \<le> length cs"
proof -
  have "\<exists>ds. is_route E u ds v \<and> length ds \<le> length cs"
    using assms
  proof (induction cs arbitrary: u)
    case Nil
    then show ?case by (intro exI [of _ "[]"]) (simp add: is_route_def entities_def)
  next
    case (Cons c cs)
    then obtain ds where ds: "is_route E (ec_to c) ds v" "length ds \<le> length cs" by auto
    show ?case
    proof (cases "u \<in> set (entities (ec_to c) ds)")
      case False
      with ds Cons.prems show ?thesis
        by (intro exI [of _ "c # ds"]) (auto simp: is_route_def entities_def)
    next
      case True
      then obtain as bs where ab: "ds = as @ bs" "last (entities (ec_to c) as) = u"
        using entities_split by blast
      with ds have "is_walk E u bs v" by (simp add: is_route_def is_walk_append)
      moreover have "distinct (entities u bs)"
      proof -
        have "entities (ec_to c) ds = butlast (entities (ec_to c) as) @ entities u bs"
          using ab by (simp add: entities_append)
        with ds(1) show ?thesis by (simp add: is_route_def)
      qed
      ultimately show ?thesis
        using ds(2) ab(1) by (intro exI [of _ bs]) (simp add: is_route_def)
    qed
  qed
  with that show thesis by blast
qed

subsection \<open>Comparing paths\<close>

lemma f64_total_linear: "f64_total_lt x y \<or> f64_total_lt y x \<or> x = y"
  by (cases x; cases y) (auto simp: f64_total_lt_def f64_lt_def)

lemma f64_total_trans: "f64_total_lt x y \<Longrightarrow> f64_total_lt y z \<Longrightarrow> f64_total_lt x z"
  by (cases x; cases y; cases z) (auto simp: f64_total_lt_def f64_lt_def)

lemma f64_total_irrefl [simp]: "\<not> f64_total_lt x x"
  by (simp add: f64_total_lt_def f64_lt_def)

lemma beats_iff:
  "beats u fs es \<longleftrightarrow>
     f64_total_lt (confidence_of es) (confidence_of fs)
     \<or> (f64_eq (confidence_of fs) (confidence_of es)
        \<and> (entities u fs, length fs) < (entities u es, length es))"
  by (simp add: beats_def replaces_def summary_def path_of_def)

lemma not_beats_self [simp]: "\<not> beats u es es"
  by (simp add: beats_iff)

lemma beats_trans:
  assumes "beats u as bs" and "\<not> beats u cs bs"
  shows "\<not> beats u cs as"
proof
  assume ca: "beats u cs as"
  have "beats u cs bs"
    using ca assms(1) f64_total_trans [of "confidence_of bs" "confidence_of as" "confidence_of cs"]
    unfolding beats_iff by (auto simp: f64_eq_def intro: less_trans)
  with assms(2) show False ..
qed

definition best_walk ::
  "str \<Rightarrow> edge_candidate list option \<Rightarrow> edge_candidate list \<Rightarrow> edge_candidate list option" where
  "best_walk u b es =
     (case b of None \<Rightarrow> Some es | Some b' \<Rightarrow> if beats u es b' then Some es else b)"

lemma keep_best_walk:
  "keep_best (map_option (\<lambda>b. summary (path_of u b)) b) (path_of u es)
    = map_option (\<lambda>b. summary (path_of u b)) (best_walk u b es)"
proof (cases b)
  case None
  then show ?thesis by (simp add: keep_best_def best_walk_def replaces_def summary_def)
next
  case (Some b')
  then show ?thesis by (simp add: keep_best_def best_walk_def beats_def summary_def)
qed

lemma keep_best_walks:
  "foldl keep_best (map_option (\<lambda>b. summary (path_of u b)) b) (map (path_of u) ess)
    = map_option (\<lambda>b. summary (path_of u b)) (foldl (best_walk u) b ess)"
  by (induction ess arbitrary: b) (simp_all add: keep_best_walk)

lemma best_walks:
  "(foldl (best_walk u) b ess = None \<longleftrightarrow> b = None \<and> ess = [])
   \<and> (\<forall>w. foldl (best_walk u) b ess = Some w \<longrightarrow>
        (b = Some w \<or> w \<in> set ess) \<and> (\<forall>es \<in> set ess. \<not> beats u es w)
        \<and> (\<forall>b' es. b = Some b' \<and> \<not> beats u es b' \<longrightarrow> \<not> beats u es w))"
proof (induction ess rule: rev_induct)
  case Nil
  then show ?case by simp
next
  case (snoc e ess)
  then show ?case
    using beats_trans [of u e]
    by (cases "foldl (best_walk u) b ess") (auto simp: best_walk_def split: option.splits)
qed

subsection \<open>The invariant\<close>

definition queued :: "edge_candidate list \<Rightarrow> str \<Rightarrow> str \<Rightarrow> nat \<Rightarrow> edge_candidate list list \<Rightarrow> bool" where
  "queued E u v hops Q \<longleftrightarrow>
     (\<forall>es \<in> set Q. is_route E u es (last (entities u es)) \<and> v \<notin> set (entities u es)
        \<and> length es \<le> hops \<and> length es \<le> Suc (length (hd Q)))
     \<and> sorted (map length Q)"

definition found ::
  "edge_candidate list \<Rightarrow> str \<Rightarrow> str \<Rightarrow> nat \<Rightarrow> edge_candidate list list \<Rightarrow> edge_candidate list option \<Rightarrow> bool" where
  "found E u v hops Q B \<longleftrightarrow>
     (\<forall>b. B = Some b \<longrightarrow> is_route E u b v \<and> length b \<le> hops \<and> (\<forall>es \<in> set Q. length b \<le> Suc (length es)))"

definition covered ::
  "edge_candidate list \<Rightarrow> str \<Rightarrow> str \<Rightarrow> nat \<Rightarrow> edge_candidate list list \<Rightarrow> edge_candidate list option \<Rightarrow> bool" where
  "covered E u v hops Q B \<longleftrightarrow>
     (\<forall>fs. is_route E u fs v \<and> length fs \<le> hops \<longrightarrow>
          (\<exists>es \<in> set Q. prefix es fs)
          \<or> (\<exists>b. B = Some b \<and> (length b < length fs \<or> length b = length fs \<and> \<not> beats u fs b)))"

definition search_inv ::
  "edge_candidate list \<Rightarrow> str \<Rightarrow> str \<Rightarrow> nat \<Rightarrow> edge_candidate list list
   \<Rightarrow> edge_candidate list option \<Rightarrow> search \<Rightarrow> bool" where
  "search_inv E u v hops Q B s \<longleftrightarrow>
     se_queue s = map (path_of u) Q
     \<and> se_best s = map_option (\<lambda>b. summary (path_of u b)) B
     \<and> se_depth s = map_option length B
     \<and> queued E u v hops Q \<and> found E u v hops Q B \<and> covered E u v hops Q B"

lemma best_walks_cases:
  assumes "foldl (best_walk u) b ess = Some w"
  shows "b = Some w \<or> w \<in> set ess" and "es \<in> set ess \<Longrightarrow> \<not> beats u es w"
    and "b = Some b' \<Longrightarrow> \<not> beats u es b' \<Longrightarrow> \<not> beats u es w"
  using best_walks [of u b ess] assms by blast+

text \<open>The next edge of a walk to the target that extends a queued path.\<close>

lemma route_next:
  assumes "is_route E u fs v" and "prefix e fs" and "v \<notin> set (entities u e)"
  obtains c rest where "fs = e @ c # rest" and "c \<in> set E" and "ec_from c = last (entities u e)"
    and "ec_to c \<notin> set (entities u e)" and "ec_to c = v \<Longrightarrow> rest = []"
proof -
  from assms(2) obtain ds where ds: "fs = e @ ds" by (auto simp: prefix_def)
  have "ds \<noteq> []"
  proof
    assume "ds = []"
    with assms(1) ds have "last (entities u e) = v"
      by (auto simp: is_route_def dest: is_walk_last)
    then have "v \<in> set (entities u e)" using last_entities [of u e] by simp
    with assms(3) show False ..
  qed
  then obtain c rest where c: "ds = c # rest" by (cases ds) auto
  have walk: "is_walk E u (e @ c # rest) v" and dist: "distinct (entities u (e @ c # rest))"
    using assms(1) by (simp_all add: is_route_def ds c)
  have "rest = []" if "ec_to c = v"
  proof (rule ccontr)
    assume "rest \<noteq> []"
    have "is_walk E (ec_to c) rest v" using walk by (simp add: is_walk_append)
    then have "last (entities (ec_to c) rest) = v" by (rule is_walk_last)
    with \<open>rest \<noteq> []\<close> have "last (map ec_to rest) = v" by (simp add: entities_def)
    moreover have "last (map ec_to rest) \<in> set (map ec_to rest)"
      using \<open>rest \<noteq> []\<close> by (intro last_in_set) simp
    ultimately have "v \<in> set (map ec_to rest)" by simp
    with that dist show False by (auto simp: entities_def)
  qed
  with walk dist show thesis
    by (intro that [of c rest]) (auto simp: ds c is_walk_append entities_def)
qed

lemma queued_tl: "queued E u v hops (e # Q) \<Longrightarrow> queued E u v hops Q"
  by (cases Q) (auto simp: queued_def)

lemma found_tl: "found E u v hops (e # Q) B \<Longrightarrow> found E u v hops Q B"
  by (auto simp: found_def)

text \<open>Dropping a queued path that no walk worth finding extends.\<close>

lemma covered_drop:
  assumes "covered E u v hops (e # Q) B"
    and "\<And>fs. is_route E u fs v \<Longrightarrow> length fs \<le> hops \<Longrightarrow> prefix e fs \<Longrightarrow>
      \<exists>b. B = Some b \<and> length b < length fs"
  shows "covered E u v hops Q B"
  unfolding covered_def
proof (intro allI impI)
  fix fs
  assume fs: "is_route E u fs v \<and> length fs \<le> hops"
  with assms(1) consider es where "es \<in> set Q" "prefix es fs" | "prefix e fs"
    | b where "B = Some b" "length b < length fs \<or> length b = length fs \<and> \<not> beats u fs b"
    unfolding covered_def by (metis set_ConsD)
  then show "(\<exists>es \<in> set Q. prefix es fs)
      \<or> (\<exists>b. B = Some b \<and> (length b < length fs \<or> length b = length fs \<and> \<not> beats u fs b))"
    using assms(2) fs by cases blast+
qed


subsubsection \<open>Expanding a queued path\<close>

abbreviation next_edges :: "edge_candidate list \<Rightarrow> str \<Rightarrow> edge_candidate list \<Rightarrow> edge_candidate list" where
  "next_edges E u e \<equiv> [c \<leftarrow> E. ec_from c = last (entities u e)]"

definition longer :: "edge_candidate list \<Rightarrow> str \<Rightarrow> str \<Rightarrow> edge_candidate list \<Rightarrow> edge_candidate list list" where
  "longer E u v e =
     map (\<lambda>c. e @ [c]) [c \<leftarrow> next_edges E u e. ec_to c \<notin> set (entities u e) \<and> ec_to c \<noteq> v]"

definition arrived :: "edge_candidate list \<Rightarrow> str \<Rightarrow> str \<Rightarrow> edge_candidate list \<Rightarrow> edge_candidate list list" where
  "arrived E u v e =
     map (\<lambda>c. e @ [c]) [c \<leftarrow> next_edges E u e. ec_to c \<notin> set (entities u e) \<and> ec_to c = v]"

lemma longer_iff:
  "fs \<in> set (longer E u v e) \<longleftrightarrow>
    (\<exists>c \<in> set E. fs = e @ [c] \<and> ec_from c = last (entities u e)
      \<and> ec_to c \<notin> set (entities u e) \<and> ec_to c \<noteq> v)"
  by (auto simp: longer_def)

lemma arrived_iff:
  "fs \<in> set (arrived E u v e) \<longleftrightarrow>
    (\<exists>c \<in> set E. fs = e @ [c] \<and> ec_from c = last (entities u e)
      \<and> ec_to c \<notin> set (entities u e) \<and> ec_to c = v)"
  by (auto simp: arrived_def)

lemma route_snoc:
  assumes "is_route E u e (last (entities u e))" and "c \<in> set E" and "ec_from c = last (entities u e)"
    and "ec_to c \<notin> set (entities u e)"
  shows "is_route E u (e @ [c]) (ec_to c)"
  using assms by (auto simp: is_route_def is_walk_append entities_def)

lemma queued_expand:
  assumes q: "queued E u v hops (e # Q)" and "length e \<noteq> hops"
  shows "queued E u v hops (Q @ longer E u v e)"
proof -
  have e: "is_route E u e (last (entities u e))" "v \<notin> set (entities u e)" "length e < hops"
    using q assms(2) by (auto simp: queued_def)
  have new: "is_route E u es (last (entities u es)) \<and> v \<notin> set (entities u es) \<and> length es \<le> hops
      \<and> length es = Suc (length e)" if "es \<in> set (longer E u v e)" for es
    using that e route_snoc [OF e(1)] by (auto simp: longer_iff entities_snoc)
  have old: "length e \<le> length es \<and> length es \<le> Suc (length e)" if "es \<in> set Q" for es
    using that q by (auto simp: queued_def)
  have all: "length e \<le> length es \<and> length es \<le> Suc (length e)"
    if "es \<in> set (Q @ longer E u v e)" for es
    using that old [of es] new [of es] by auto
  have "\<forall>es \<in> set (Q @ longer E u v e). length es \<le> Suc (length (hd (Q @ longer E u v e)))"
  proof
    fix es
    assume es: "es \<in> set (Q @ longer E u v e)"
    then have "hd (Q @ longer E u v e) \<in> set (Q @ longer E u v e)" by (intro hd_in_set) auto
    with all [OF es] all show "length es \<le> Suc (length (hd (Q @ longer E u v e)))" by fastforce
  qed
  moreover have "sorted (map length (Q @ longer E u v e))"
    using q old new by (auto simp: queued_def sorted_append longer_def sorted_wrt_map)
  ultimately show ?thesis
    using q new by (auto simp: queued_def)
qed

lemma found_expand:
  assumes q: "queued E u v hops (e # Q)" and f: "found E u v hops (e # Q) B"
    and "length e \<noteq> hops" and "\<And>b. B = Some b \<Longrightarrow> length e < length b"
  shows "found E u v hops (Q @ longer E u v e) (foldl (best_walk u) B (arrived E u v e))"
    and "map_option length (foldl (best_walk u) B (arrived E u v e)) =
      (if arrived E u v e = [] then map_option length B else Some (Suc (length e)))"
proof -
  have e: "is_route E u e (last (entities u e))" "length e < hops"
    using q assms(3) by (auto simp: queued_def)
  have b: "is_route E u b v \<and> length b \<le> hops \<and> length b = Suc (length e)" if "B = Some b" for b
    using f assms(4) that by (fastforce simp: found_def)
  have a: "is_route E u es v \<and> length es \<le> hops \<and> length es = Suc (length e)"
    if "es \<in> set (arrived E u v e)" for es
    using that e route_snoc [OF e(1)] by (auto simp: arrived_iff)
  have w: "is_route E u w v \<and> length w \<le> hops \<and> length w = Suc (length e)"
    if "foldl (best_walk u) B (arrived E u v e) = Some w" for w
    using best_walks_cases(1) [OF that] a b by blast
  have "length e \<le> length es" if "es \<in> set (Q @ longer E u v e)" for es
    using that q by (auto simp: queued_def longer_iff)
  with w show "found E u v hops (Q @ longer E u v e) (foldl (best_walk u) B (arrived E u v e))"
    by (auto simp: found_def)
  show "map_option length (foldl (best_walk u) B (arrived E u v e)) =
      (if arrived E u v e = [] then map_option length B else Some (Suc (length e)))"
    using w best_walks [of u B "arrived E u v e"]
    by (cases "foldl (best_walk u) B (arrived E u v e)") auto
qed

lemma covered_expand:
  assumes q: "queued E u v hops (e # Q)" and f: "found E u v hops (e # Q) B"
    and cov: "covered E u v hops (e # Q) B" and "\<And>b. B = Some b \<Longrightarrow> length e < length b"
    and "length e \<noteq> hops"
  shows "covered E u v hops (Q @ longer E u v e) (foldl (best_walk u) B (arrived E u v e))"
    (is "covered E u v hops ?Q ?B")
  unfolding covered_def
proof (intro allI impI)
  let ?goal = "\<lambda>fs. (\<exists>es \<in> set ?Q. prefix es fs)
      \<or> (\<exists>b. ?B = Some b \<and> (length b < length fs \<or> length b = length fs \<and> \<not> beats u fs b))"
  have len: "length w = Suc (length e)" if "?B = Some w" for w
    using found_expand(2) [OF q f assms(5,4)] that f assms(4)
    by (fastforce simp: found_def split: if_splits)
  fix fs
  assume fs: "is_route E u fs v \<and> length fs \<le> hops"
  with cov consider es where "es \<in> set Q" "prefix es fs" | "prefix e fs"
    | b where "B = Some b" "length b < length fs \<or> length b = length fs \<and> \<not> beats u fs b"
    unfolding covered_def by (metis set_ConsD)
  then show "?goal fs"
  proof cases
    case 1
    then show ?thesis by auto
  next
    case 2
    have "v \<notin> set (entities u e)" using q by (simp add: queued_def)
    with fs 2 obtain c rest where c: "fs = e @ c # rest" "c \<in> set E" "ec_from c = last (entities u e)"
      "ec_to c \<notin> set (entities u e)" "ec_to c = v \<Longrightarrow> rest = []"
      using route_next by metis
    show ?thesis
    proof (cases "ec_to c = v")
      case True
      with c have "fs \<in> set (arrived E u v e)" by (auto simp: arrived_iff)
      moreover from this obtain w where "?B = Some w"
        using best_walks [of u B "arrived E u v e"] by (cases ?B) auto
      ultimately show ?thesis
        using len best_walks_cases(2) c True by fastforce
    next
      case False
      with c have "e @ [c] \<in> set ?Q" and "prefix (e @ [c]) fs" by (auto simp: longer_iff)
      then show ?thesis by blast
    qed
  next
    case 3
    then obtain w where w: "?B = Some w"
      using best_walks [of u B "arrived E u v e"] by (cases ?B) auto
    moreover have "length w = length b" using len [OF w] f assms(4) 3(1) by (fastforce simp: found_def)
    ultimately show ?thesis
      using 3 best_walks_cases(3) [OF w 3(1)] by auto
  qed
qed


subsection \<open>The loop keeps it\<close>

lemma path_of_simps [simp]:
  "length (pp_steps (path_of u e)) = length e" "pp_entity (path_of u e) = last (entities u e)"
  "pp_entity_path (path_of u e) = entities u e"
  by (simp_all add: path_of_def)

lemma pushed_longer: "pushed v (path_of u e) (next_edges E u e) = map (path_of u) (longer E u v e)"
  by (simp add: longer_def extend_path_of comp_def)

lemma hits_arrived: "hits v (path_of u e) (next_edges E u e) = map (path_of u) (arrived E u v e)"
  by (simp add: arrived_def extend_path_of comp_def)

lemma visit_next:
  "foldl (visit_edge v (path_of u e)) s (next_edges E u e) =
     \<lparr> se_queue = se_queue s @ map (path_of u) (longer E u v e),
       se_best = foldl keep_best (se_best s) (map (path_of u) (arrived E u v e)),
       se_depth = (if arrived E u v e = [] then se_depth s else Some (Suc (length e))) \<rparr>"
  unfolding visit_all pushed_longer hits_arrived by simp

lemma search_step_inv:
  assumes inv: "search_inv E u v hops Q B s" and "se_queue s \<noteq> []"
  shows "\<exists>Q' B'. search_inv E u v hops Q' B' (search_step E v hops s)"
proof -
  from assms obtain e R where Q: "Q = e # R" by (cases Q) (auto simp: search_inv_def)
  have q: "queued E u v hops (e # R)" and f: "found E u v hops (e # R) B"
    and cov: "covered E u v hops (e # R) B" and qu: "se_queue s = path_of u e # map (path_of u) R"
    and de: "se_depth s = map_option length B"
    using inv by (simp_all add: search_inv_def Q)
  have e: "v \<notin> set (entities u e)" "length e \<le> hops" using q by (simp_all add: queued_def)
  have extends: "length e < length fs" if "is_route E u fs v" "prefix e fs" for fs
    using route_next [OF that e(1)] by (metis length_append less_add_same_cancel1 length_greater_0_conv list.discI)
  consider b where "B = Some b" "length b \<le> length e" | "length e = hops" "\<And>b. B = Some b \<Longrightarrow> length e < length b"
    | "length e \<noteq> hops" "\<And>b. B = Some b \<Longrightarrow> length e < length b"
    by (metis linorder_not_less)
  then show ?thesis
  proof cases
    case 1
    then have "search_step E v hops s = s \<lparr> se_queue := map (path_of u) R \<rparr>"
      by (simp add: search_step_def qu de)
    moreover have "covered E u v hops R B"
      using cov by (rule covered_drop) (use extends 1 in fastforce)
    ultimately show ?thesis
      using inv queued_tl [OF q] found_tl [OF f] by (auto simp: search_inv_def)
  next
    case 2
    then have "search_step E v hops s = s \<lparr> se_queue := map (path_of u) R \<rparr>"
      by (auto simp: search_step_def qu de split: option.splits)
    moreover have "covered E u v hops R B"
      using cov by (rule covered_drop) (use extends 2 in fastforce)
    ultimately show ?thesis
      using inv queued_tl [OF q] found_tl [OF f] by (auto simp: search_inv_def)
  next
    case 3
    then have "search_step E v hops s =
        foldl (visit_edge v (path_of u e)) (s \<lparr> se_queue := map (path_of u) R \<rparr>) (next_edges E u e)"
      by (auto simp: search_step_def qu de split: option.splits)
    then have "search_inv E u v hops (R @ longer E u v e) (foldl (best_walk u) B (arrived E u v e))
        (search_step E v hops s)"
      using inv queued_expand [OF q 3(1)] found_expand [OF q f 3] covered_expand [OF q f cov 3(2,1)]
      by (simp add: search_inv_def visit_next keep_best_walks Q)
    then show ?thesis by blast
  qed
qed

lemma path_search_inv:
  "search_inv E u v hops Q B s \<Longrightarrow> \<exists>B'. search_inv E u v hops [] B' (path_search E v hops s)"
proof (induction E v hops s arbitrary: Q B rule: path_search.induct)
  case (1 E v hops s)
  show ?case
  proof (cases "se_queue s = []")
    case True
    with 1(2) have "Q = []" by (simp add: search_inv_def)
    with 1(2) True show ?thesis by (subst path_search.simps) auto
  next
    case False
    with search_step_inv [OF 1(2)] 1(1) show ?thesis by (subst path_search.simps) auto
  qed
qed

lemma search_start_inv:
  assumes "u \<noteq> v"
  shows "search_inv E u v hops [[]] None (search_start u)"
  using assms
  by (auto simp: search_inv_def search_start_def path_of_start queued_def found_def covered_def
      is_route_def entities_def)

lemma path_search_best:
  assumes "u \<noteq> v"
  shows "case se_best (path_search E v hops (search_start u)) of
      None \<Rightarrow> \<forall>fs. is_walk E u fs v \<longrightarrow> hops < length fs
    | Some best \<Rightarrow> \<exists>es. best = summary (path_of u es) \<and> is_route E u es v \<and> length es \<le> hops
        \<and> (\<forall>fs. is_walk E u fs v \<longrightarrow> length es \<le> length fs)
        \<and> (\<forall>fs. is_route E u fs v \<and> length fs = length es \<longrightarrow> \<not> beats u fs es)"
proof -
  obtain B where inv: "search_inv E u v hops [] B (path_search E v hops (search_start u))"
    using path_search_inv [OF search_start_inv [OF assms]] by blast
  then have best: "se_best (path_search E v hops (search_start u)) = map_option (\<lambda>b. summary (path_of u b)) B"
    and f: "found E u v hops [] B" and cov: "covered E u v hops [] B"
    by (simp_all add: search_inv_def)
  have walk: "\<exists>b. B = Some b \<and> length b \<le> length fs" if fs: "is_walk E u fs v" "length fs \<le> hops" for fs
  proof -
    from fs(1) obtain ds where "is_route E u ds v" "length ds \<le> length fs" by (rule walk_route)
    with cov fs(2) show ?thesis by (fastforce simp: covered_def)
  qed
  show ?thesis
  proof (cases B)
    case None
    with walk best show ?thesis by (auto simp: not_le [symmetric])
  next
    case (Some b)
    with f have b: "is_route E u b v" "length b \<le> hops" by (simp_all add: found_def)
    have "length b \<le> length fs" if "is_walk E u fs v" for fs
      using walk [OF that] b(2) Some by (cases "length fs \<le> hops") auto
    moreover have "\<not> beats u fs b" if "is_route E u fs v" "length fs = length b" for fs
      using cov that b(2) Some by (fastforce simp: covered_def)
    ultimately show ?thesis using b Some best by auto
  qed
qed


subsection \<open>The query\<close>

lemma walk_same_edges: "set E = set F \<Longrightarrow> is_walk E u cs v \<longleftrightarrow> is_walk F u cs v"
  by (induction cs arbitrary: u) auto

lemma route_same_edges: "set E = set F \<Longrightarrow> is_route E u cs v \<longleftrightarrow> is_route F u cs v"
  unfolding is_route_def using walk_same_edges by blast

definition best_shortest ::
  "edge_candidate list \<Rightarrow> str \<Rightarrow> str \<Rightarrow> nat \<Rightarrow> graph_path option \<Rightarrow> bool" where
  "best_shortest E u v hops r \<longleftrightarrow>
     (case r of
        None \<Rightarrow> \<forall>fs. is_walk E u fs v \<longrightarrow> hops < length fs
      | Some p \<Rightarrow> \<exists>es. is_route E u es v \<and> length es \<le> hops
          \<and> p = \<lparr> gp_source = u, gp_target = v, gp_steps = map ec_step es,
                  gp_confidence = confidence_of es, gp_entity_path = entities u es \<rparr>
          \<and> (\<forall>fs. is_walk E u fs v \<longrightarrow> length es \<le> length fs)
          \<and> (\<forall>fs. is_route E u fs v \<and> length fs = length es \<longrightarrow>
               \<not> f64_total_lt (confidence_of es) (confidence_of fs)))"

text \<open>
  C15. A path query answers with a best shortest path: when it returns a path, its steps are
  admitted edges that lead from the source to the target through distinct entities, at most
  \<open>max_hops\<close> of them, no walk over admitted edges is shorter, and no other path of that length
  has a higher product of step confidences; when it returns none, every walk is longer than
  \<open>max_hops\<close>. This is the order the code computes, with the product it reports as the confidence of
  the path; the doc comment of \<open>graph_path\<close> speaks of the highest minimum instead, which
  \<open>highest_minimum_missed\<close> shows the code does not find.
\<close>

theorem graph_path_best_shortest:
  assumes "graph_path q d = Inr r" and "gq_source q \<noteq> gq_target q" and "0 < gq_max_hops q"
  shows "\<exists>pf. predicate_filter (gq_predicates q) (db_graph d) = Inr pf
    \<and> best_shortest (graph_path_candidates q pf d) (gq_source q) (gq_target q) (gq_max_hops q) r"
proof -
  let ?S = "\<lambda>pf. sort_key candidate_key (graph_path_candidates q pf d)"
  let ?B = "\<lambda>pf. se_best (path_search (?S pf) (gq_target q) (gq_max_hops q) (search_start (gq_source q)))"
  from assms obtain pf where pf: "predicate_filter (gq_predicates q) (db_graph d) = Inr pf"
    and r: "r = map_option (\<lambda>(steps, entity_path, confidence).
                  \<lparr> gp_source = gq_source q, gp_target = gq_target q, gp_steps = steps,
                    gp_confidence = confidence, gp_entity_path = entity_path \<rparr>) (?B pf)"
    unfolding graph_path_def by (auto simp: result_simps Let_def split: if_splits)
  have "set (?S pf) = set (graph_path_candidates q pf d)" by simp
  note same = walk_same_edges [OF this] route_same_edges [OF this]
  have "best_shortest (graph_path_candidates q pf d) (gq_source q) (gq_target q) (gq_max_hops q) r"
    using path_search_best [OF assms(2), of "?S pf" "gq_max_hops q"]
    unfolding best_shortest_def r same beats_iff
    by (cases "?B pf") (auto simp: summary_def path_of_def)
  with pf show ?thesis by blast
qed

text \<open>
  Two paths of length two: the products decide, not the weakest edges. Through \<open>b\<close> the weakest
  edge is 5/8 and the product 25/64; through \<open>c\<close> the weakest edge is 1/2 and so is the product.
\<close>

definition path_claim :: "int \<Rightarrow> str \<Rightarrow> str \<Rightarrow> rat \<Rightarrow> int \<times> claim_row" where
  "path_claim i subject object confidence =
     (i, \<lparr> c_id = i, c_subject = subject, c_predicate = ''calls'', c_object = object,
           c_provenance = Extracted, c_confidence = Fin confidence, c_status = Active,
           c_source_refs = [''src''], c_agent_id = ''local'', c_agent_kind = Human,
           c_write_ts = 1, c_last_verified_at = None, c_scope = ''global'',
           cr_created_at = 1, cr_last_seen_at = 1 \<rparr>)"

definition diamond_db :: db where
  "diamond_db =
     \<lparr> db_graph = empty_graph \<lparr> g_claims :=
         [path_claim 1 ''a'' ''b'' (5 / 8), path_claim 2 ''b'' ''d'' (5 / 8),
          path_claim 3 ''a'' ''c'' (1 / 2), path_claim 4 ''c'' ''d'' 1] \<rparr>,
       db_episodes = \<lparr> e_events = [], e_candidates = [] \<rparr>,
       db_observed = \<lparr> o_observations = [], o_markers = [] \<rparr> \<rparr>"

definition diamond_query :: path_query where
  "diamond_query =
     \<lparr> gq_source = ''a'', gq_target = ''d'', gq_min_confidence = Fin 0,
       gq_allowed_provenance = None, gq_max_hops = 8, gq_predicates = None,
       gq_mode = Directed, gq_scope = ''global'', gq_walk = ScopeAny \<rparr>"

lemma diamond_path:
  "map_sum id (map_option (\<lambda>p. (gp_entity_path p, gp_confidence p))) (graph_path diamond_query diamond_db)
    = Inr (Some ([''a'', ''c'', ''d''], Fin (1 / 2)))"
  by code_simp

lemma highest_minimum_missed:
  "map_sum id (map_option (\<lambda>p. map ps_confidence (gp_steps p))) (graph_path diamond_query diamond_db)
    = Inr (Some [Fin (1 / 2), Fin 1])"
  "case predicate_filter (gq_predicates diamond_query) (db_graph diamond_db) of
     Inl _ \<Rightarrow> False
   | Inr pf \<Rightarrow>
       let E = graph_path_candidates diamond_query pf diamond_db;
           es = filter (\<lambda>c. ec_from c = ''b'' \<or> ec_to c = ''b'') E
       in is_route E ''a'' es ''d''
          \<and> map (\<lambda>c. ps_confidence (ec_step c)) es = [Fin (5 / 8), Fin (5 / 8)]"
  by code_simp+

lemma graph_path_best_shortest_witness:
  "\<exists>pf r. predicate_filter (gq_predicates diamond_query) (db_graph diamond_db) = Inr pf
    \<and> best_shortest (graph_path_candidates diamond_query pf diamond_db) ''a'' ''d'' 8 r"
proof -
  from diamond_path obtain r where "graph_path diamond_query diamond_db = Inr r"
    by (cases "graph_path diamond_query diamond_db") auto
  from graph_path_best_shortest [OF this] show ?thesis
    by (auto simp: diamond_query_def)
qed

end
