(* ===== verification/Graph_Expand.thy ===== *)
theory Graph_Expand
  imports Graph_Path_Props
begin

section \<open>Expanding an entity\<close>

text \<open>
  \<open>expand\<close>, \<open>expand_with_scope\<close> and \<open>expand_inner\<close> of \<open>crates/aver-core/src/graph.rs\<close>: the claims
  and entities within a number of hops of an entity. The code keeps the set of seen nodes beside
  the list of nodes, and of seen edge ids beside the list of edges; each pair grows together and
  is one list here.
\<close>

record graph_expansion =
  ge_nodes :: "str list"
  ge_edges :: "claim_row list"

record expand_state = graph_expansion +
  ge_queue :: "(str \<times> nat) list"

definition active_claim_edges_for_entity :: "str \<Rightarrow> str \<Rightarrow> scope_walk \<Rightarrow> db \<Rightarrow> claim_row list" where
  "active_claim_edges_for_entity entity scope walk d =
     [c \<leftarrow> tbl_rows (g_claims (db_graph d)).
        c_status c = Active \<and> (c_subject c = entity \<or> c_object c = entity)
        \<and> scope_filter_sql scope walk (c_scope c)]"

definition see_node :: "nat \<Rightarrow> expand_state \<Rightarrow> str \<Rightarrow> expand_state" where
  "see_node depth s node =
     (if node \<in> set (ge_nodes s) then s
      else s \<lparr> ge_nodes := ge_nodes s @ [node], ge_queue := ge_queue s @ [(node, depth + 1)] \<rparr>)"

definition see_edge :: "str set option \<Rightarrow> nat \<Rightarrow> expand_state \<Rightarrow> claim_row \<Rightarrow> expand_state" where
  "see_edge pf depth s c =
     (if \<not> predicate_allowed pf (c_predicate c) \<or> c_id c \<in> set (map c_id (ge_edges s)) then s
      else let s = foldl (see_node depth) s [c_subject c, c_object c]
           in s \<lparr> ge_edges := ge_edges s @ [c] \<rparr>)"

definition expand_step ::
  "str set option \<Rightarrow> nat \<Rightarrow> str \<Rightarrow> scope_walk \<Rightarrow> db \<Rightarrow> expand_state \<Rightarrow> expand_state" where
  "expand_step pf hops scope walk d s =
     (case ge_queue s of
        [] \<Rightarrow> s
      | (current, depth) # rest \<Rightarrow>
          let s = s \<lparr> ge_queue := rest \<rparr>
          in if depth = hops then s
             else foldl (see_edge pf depth) s (active_claim_edges_for_entity current scope walk d))"

subsection \<open>The loop ends\<close>

text \<open>Every entity is queued at most once: the unseen endpoints and the queue shrink together.\<close>

definition endpoints :: "db \<Rightarrow> str set" where
  "endpoints d = (\<Union>c \<in> set (tbl_rows (g_claims (db_graph d))). {c_subject c, c_object c})"

definition expand_left :: "db \<Rightarrow> expand_state \<Rightarrow> nat" where
  "expand_left d s = card (endpoints d - set (ge_nodes s)) + length (ge_queue s)"

lemma finite_endpoints [simp]: "finite (endpoints d)"
  by (simp add: endpoints_def)

lemma see_node_left:
  assumes "n \<in> endpoints d"
  shows "expand_left d (see_node depth s n) = expand_left d s"
proof (cases "n \<in> set (ge_nodes s)")
  case False
  then have "endpoints d - insert n (set (ge_nodes s)) = (endpoints d - set (ge_nodes s)) - {n}"
    and "n \<in> endpoints d - set (ge_nodes s)"
    using assms by auto
  then show ?thesis
    using card_Suc_Diff1 [of "endpoints d - set (ge_nodes s)" n] False
    by (simp add: see_node_def expand_left_def)
qed (simp add: see_node_def)

lemma see_edge_left:
  assumes "c \<in> set (tbl_rows (g_claims (db_graph d)))"
  shows "expand_left d (see_edge pf depth s c) = expand_left d s"
proof -
  have "c_subject c \<in> endpoints d" "c_object c \<in> endpoints d"
    using assms by (auto simp: endpoints_def)
  then have "expand_left d (foldl (see_node depth) s [c_subject c, c_object c]) = expand_left d s"
    by (simp add: see_node_left)
  then show ?thesis by (simp add: see_edge_def Let_def expand_left_def)
qed

lemma see_edges_left:
  "set cs \<subseteq> set (tbl_rows (g_claims (db_graph d))) \<Longrightarrow>
    expand_left d (foldl (see_edge pf depth) s cs) = expand_left d s"
  by (induction cs arbitrary: s) (simp_all add: see_edge_left)

lemma expand_step_left:
  assumes "ge_queue s \<noteq> []"
  shows "expand_left d (expand_step pf hops scope walk d s) < expand_left d s"
proof -
  from assms obtain current depth rest where q: "ge_queue s = (current, depth) # rest"
    by (cases "ge_queue s") auto
  have "set (active_claim_edges_for_entity current scope walk d) \<subseteq> set (tbl_rows (g_claims (db_graph d)))"
    by (auto simp: active_claim_edges_for_entity_def)
  from see_edges_left [OF this] show ?thesis
    by (simp add: expand_step_def q expand_left_def Let_def)
qed

function expand_loop ::
  "str set option \<Rightarrow> nat \<Rightarrow> str \<Rightarrow> scope_walk \<Rightarrow> db \<Rightarrow> expand_state \<Rightarrow> expand_state" where
  "expand_loop pf hops scope walk d s =
     (if ge_queue s = [] then s
      else expand_loop pf hops scope walk d (expand_step pf hops scope walk d s))"
  by auto

termination
  by (relation "measure (\<lambda>(pf, hops, scope, walk, d, s). expand_left d s)")
    (simp_all only: wf_measure in_measure case_prod_conv expand_step_left not_False_eq_True)

declare expand_loop.simps [simp del]

definition expand_inner ::
  "str \<Rightarrow> nat \<Rightarrow> str list option \<Rightarrow> str \<Rightarrow> scope_walk \<Rightarrow> db \<Rightarrow> graph_expansion result" where
  "expand_inner entity hops predicates scope walk d =
     (if blank entity then Inl EInvalidGraphEntity
      else if hops = 0 then Inl EInvalidGraphHops
      else rbind (predicate_filter predicates (db_graph d)) (\<lambda>pf.
        let s = expand_loop pf hops scope walk d
                  \<lparr> ge_nodes = [entity], ge_edges = [], ge_queue = [(entity, 0)] \<rparr>
        in Inr \<lparr> ge_nodes = ge_nodes s, ge_edges = ge_edges s \<rparr>))"

definition expand_with_scope ::
  "str \<Rightarrow> nat \<Rightarrow> str list option \<Rightarrow> str \<Rightarrow> scope_walk \<Rightarrow> db \<Rightarrow> graph_expansion result" where
  "expand_with_scope entity hops predicates scope walk d =
     rbind (validate_scope scope) (\<lambda>_. expand_inner entity hops predicates scope walk d)"

definition expand :: "str \<Rightarrow> nat \<Rightarrow> str list option \<Rightarrow> db \<Rightarrow> graph_expansion result" where
  "expand entity hops predicates d = expand_inner entity hops predicates ''global'' ScopeAny d"

subsection \<open>What an expansion holds\<close>

text \<open>The claims a walk may use, and the entities within \<open>k\<close> of them from \<open>e\<close>.\<close>

definition admitted :: "str set option \<Rightarrow> str \<Rightarrow> scope_walk \<Rightarrow> db \<Rightarrow> claim_row list" where
  "admitted pf scope walk d =
     [c \<leftarrow> tbl_rows (g_claims (db_graph d)).
        c_status c = Active \<and> scope_filter_sql scope walk (c_scope c) \<and> predicate_allowed pf (c_predicate c)]"

definition touches :: "str set \<Rightarrow> claim_row \<Rightarrow> bool" where
  "touches N c \<longleftrightarrow> c_subject c \<in> N \<or> c_object c \<in> N"

fun near :: "claim_row list \<Rightarrow> str \<Rightarrow> nat \<Rightarrow> str set" where
  "near A e 0 = {e}"
| "near A e (Suc k) =
     near A e k \<union> (\<Union>c \<in> {c \<in> set A. touches (near A e k) c}. {c_subject c, c_object c})"

lemma near_mono: "k \<le> l \<Longrightarrow> near A e k \<subseteq> near A e l"
  by (rule lift_Suc_mono_le [of "near A e"]) auto


subsubsection \<open>One turn\<close>

definition grown :: "nat \<Rightarrow> expand_state \<Rightarrow> expand_state \<Rightarrow> bool" where
  "grown k s s' \<longleftrightarrow>
     (\<exists>N E. ge_nodes s' = ge_nodes s @ N \<and> ge_queue s' = ge_queue s @ map (\<lambda>n. (n, k + 1)) N
       \<and> ge_edges s' = ge_edges s @ E \<and> distinct N \<and> set N \<inter> set (ge_nodes s) = {})"

lemma grown_refl: "grown k s s"
  by (simp add: grown_def)

lemma grown_trans: "grown k s t \<Longrightarrow> grown k t u \<Longrightarrow> grown k s u"
  unfolding grown_def
proof (elim exE conjE)
  fix N E M F
  assume "ge_nodes t = ge_nodes s @ N" "ge_queue t = ge_queue s @ map (\<lambda>n. (n, k + 1)) N"
    "ge_edges t = ge_edges s @ E" "distinct N" "set N \<inter> set (ge_nodes s) = {}"
    "ge_nodes u = ge_nodes t @ M" "ge_queue u = ge_queue t @ map (\<lambda>n. (n, k + 1)) M"
    "ge_edges u = ge_edges t @ F" "distinct M" "set M \<inter> set (ge_nodes t) = {}"
  then show "\<exists>N E. ge_nodes u = ge_nodes s @ N \<and> ge_queue u = ge_queue s @ map (\<lambda>n. (n, k + 1)) N
      \<and> ge_edges u = ge_edges s @ E \<and> distinct N \<and> set N \<inter> set (ge_nodes s) = {}"
    by (intro exI [of _ "N @ M"] exI [of _ "E @ F"]) auto
qed

lemma see_node_grown: "grown k s (see_node k s n)"
  by (auto simp: see_node_def grown_def)

lemma see_nodes:
  "set (ge_nodes (foldl (see_node k) s ns)) = set (ge_nodes s) \<union> set ns"
  by (induction ns arbitrary: s) (auto simp: see_node_def)

lemma see_nodes_edges: "ge_edges (foldl (see_node k) s ns) = ge_edges s"
proof (induction ns arbitrary: s)
  case (Cons n ns)
  then show ?case by (simp add: see_node_def)
qed simp

lemma see_nodes_grown: "grown k s (foldl (see_node k) s ns)"
proof (induction ns arbitrary: s)
  case (Cons n ns)
  have "grown k (see_node k s n) (foldl (see_node k) (see_node k s n) ns)" by (rule Cons)
  then have "grown k s (foldl (see_node k) (see_node k s n) ns)"
    by (rule grown_trans [OF see_node_grown])
  then show ?case by simp
qed (simp add: grown_refl)

text \<open>What seeing an edge does: nothing when it is filtered out or seen, else it adds the edge
  and its unseen endpoints.\<close>

lemma see_edge_cases:
  obtains "\<not> predicate_allowed pf (c_predicate c)" "see_edge pf k s c = s"
  | "predicate_allowed pf (c_predicate c)" "c_id c \<in> set (map c_id (ge_edges s))" "see_edge pf k s c = s"
  | "predicate_allowed pf (c_predicate c)" "c_id c \<notin> set (map c_id (ge_edges s))"
    "set (ge_nodes (see_edge pf k s c)) = set (ge_nodes s) \<union> {c_subject c, c_object c}"
    "ge_edges (see_edge pf k s c) = ge_edges s @ [c]" "grown k s (see_edge pf k s c)"
proof -
  have "grown k s (see_edge pf k s c)"
    if "predicate_allowed pf (c_predicate c)" "c_id c \<notin> set (map c_id (ge_edges s))"
  proof -
    have "grown k (foldl (see_node k) s [c_subject c, c_object c]) (see_edge pf k s c)"
      using that see_nodes_edges [of k s "[c_subject c, c_object c]"]
      by (simp add: see_edge_def Let_def grown_def)
    with see_nodes_grown show ?thesis by (rule grown_trans)
  qed
  moreover have "set (ge_nodes (see_edge pf k s c)) = set (ge_nodes s) \<union> {c_subject c, c_object c}
      \<and> ge_edges (see_edge pf k s c) = ge_edges s @ [c]"
    if "predicate_allowed pf (c_predicate c)" "c_id c \<notin> set (map c_id (ge_edges s))"
    using that see_nodes [of k s "[c_subject c, c_object c]"] see_nodes_edges [of k s "[c_subject c, c_object c]"]
    by (simp add: see_edge_def Let_def del: foldl.simps)
  moreover have "see_edge pf k s c = s"
    if "\<not> predicate_allowed pf (c_predicate c) \<or> c_id c \<in> set (map c_id (ge_edges s))"
    using that by (auto simp: see_edge_def)
  ultimately show thesis
    using that by (cases "predicate_allowed pf (c_predicate c)") blast+
qed

definition edge_set_ok :: "expand_state \<Rightarrow> bool" where
  "edge_set_ok s \<longleftrightarrow>
     distinct (ge_edges s) \<and> (\<forall>c \<in> set (ge_edges s). {c_subject c, c_object c} \<subseteq> set (ge_nodes s))"

lemma see_edges:
  fixes pf :: "str set option" and k :: nat and s :: expand_state and cs :: "claim_row list"
  assumes "edge_set_ok s"
  defines "s' \<equiv> foldl (see_edge pf k) s cs"
  shows "grown k s s' \<and> edge_set_ok s'
    \<and> set (ge_edges s') \<subseteq> set (ge_edges s) \<union> {c \<in> set cs. predicate_allowed pf (c_predicate c)}
    \<and> set (ge_nodes s') \<subseteq> set (ge_nodes s)
        \<union> (\<Union>c \<in> {c \<in> set cs. predicate_allowed pf (c_predicate c)}. {c_subject c, c_object c})
    \<and> (\<forall>c \<in> set cs. predicate_allowed pf (c_predicate c) \<longrightarrow> c_id c \<in> set (map c_id (ge_edges s')))"
  unfolding s'_def
proof (induction cs rule: rev_induct)
  case Nil
  with assms(1) show ?case by (simp add: grown_refl)
next
  case (snoc c cs)
  let ?t = "foldl (see_edge pf k) s cs"
  show ?case
  proof (cases rule: see_edge_cases [where pf = pf and c = c and k = k and s = ?t])
    case 1
    with snoc show ?thesis by auto
  next
    case 2
    with snoc show ?thesis by auto
  next
    case 3
    then have "edge_set_ok (see_edge pf k ?t c)"
      using snoc by (auto simp: edge_set_ok_def)
    with 3 snoc grown_trans [of k s ?t "see_edge pf k ?t c"] show ?thesis by auto
  qed
qed


subsubsection \<open>The whole search\<close>

text \<open>
  \<open>P\<close> lists the entities taken from the queue, with their depths: what an entity below the limit
  led to is there, one hop further at most.
\<close>

definition expand_inv ::
  "claim_row list \<Rightarrow> str \<Rightarrow> nat \<Rightarrow> (str \<times> nat) list \<Rightarrow> expand_state \<Rightarrow> bool" where
  "expand_inv A e hops P s \<longleftrightarrow>
     ge_nodes s = map fst (P @ ge_queue s) \<and> distinct (ge_nodes s) \<and> edge_set_ok s
     \<and> (e, 0) \<in> set (P @ ge_queue s)
     \<and> (\<forall>(n, k) \<in> set (P @ ge_queue s). n \<in> near A e k \<and> k \<le> hops)
     \<and> sorted (map snd (ge_queue s))
     \<and> (ge_queue s \<noteq> [] \<longrightarrow>
          (\<forall>(n, k) \<in> set (P @ ge_queue s). k \<le> Suc (snd (hd (ge_queue s)))))
     \<and> (\<forall>c \<in> set (ge_edges s). c \<in> set A \<and> (\<exists>(n, k) \<in> set P. k < hops \<and> touches {n} c))
     \<and> (\<forall>(n, k) \<in> set P. k < hops \<longrightarrow> (\<forall>c \<in> set A. touches {n} c \<longrightarrow>
          c \<in> set (ge_edges s)
          \<and> (\<forall>m \<in> {c_subject c, c_object c}. \<exists>l \<le> Suc k. (m, l) \<in> set (P @ ge_queue s))))"

lemma expand_inv_start:
  "expand_inv A e hops [] \<lparr> ge_nodes = [e], ge_edges = [], ge_queue = [(e, 0)] \<rparr>"
  by (simp add: expand_inv_def edge_set_ok_def)

lemma expand_inv_end:
  assumes inv: "expand_inv A e hops P s" and "ge_queue s = []" and "0 < hops"
  shows "set (ge_nodes s) = near A e hops"
    and "set (ge_edges s) = {c \<in> set A. touches (near A e (hops - 1)) c}"
proof -
  note parts = inv [unfolded expand_inv_def assms(2) append_Nil2]
  have nodes: "set (ge_nodes s) = fst ` set P" using parts [THEN conjunct1] by simp
  have start: "(e, 0) \<in> set P" using parts by (elim conjE)
  have "\<forall>(n, k) \<in> set P. n \<in> near A e k \<and> k \<le> hops" using parts by (elim conjE)
  then have sound: "n \<in> near A e k \<and> k \<le> hops" if "(n, k) \<in> set P" for n k using that by blast
  have came: "\<forall>c \<in> set (ge_edges s). c \<in> set A \<and> (\<exists>(n, k) \<in> set P. k < hops \<and> touches {n} c)"
    using parts by (elim conjE)
  have "\<forall>(n, k) \<in> set P. k < hops \<longrightarrow> (\<forall>c \<in> set A. touches {n} c \<longrightarrow> c \<in> set (ge_edges s)
      \<and> (\<forall>m \<in> {c_subject c, c_object c}. \<exists>l \<le> Suc k. (m, l) \<in> set P))"
    using parts by (elim conjE)
  then have led: "c \<in> set (ge_edges s) \<and> (\<forall>m \<in> {c_subject c, c_object c}. \<exists>l \<le> Suc k. (m, l) \<in> set P)"
    if "(n, k) \<in> set P" "k < hops" "c \<in> set A" "touches {n} c" for n k c
    using that by blast
  have reach: "\<exists>l \<le> k. (n, l) \<in> set P" if "n \<in> near A e k" "k \<le> hops" for n k
    using that
  proof (induction k arbitrary: n)
    case 0
    then show ?case using start by auto
  next
    case (Suc k)
    show ?case
    proof (cases "n \<in> near A e k")
      case True
      with Suc.IH [of n] Suc.prems(2) show ?thesis by (meson Suc_leD le_SucI)
    next
      case False
      with Suc.prems(1) obtain c y where c: "c \<in> set A" "y \<in> near A e k" "touches {y} c"
        "n \<in> {c_subject c, c_object c}"
        by (auto simp: touches_def)
      from Suc.IH [OF c(2)] Suc.prems(2) obtain l where l: "l \<le> k" "(y, l) \<in> set P" by auto
      then have "\<exists>l' \<le> Suc l. (n, l') \<in> set P"
        using led [OF l(2) _ c(1,3)] c(4) Suc.prems(2) by auto
      with l(1) show ?thesis by (meson Suc_le_mono le_trans)
    qed
  qed
  have mono: "n \<in> near A e l" if "n \<in> near A e k" "k \<le> l" for n k l
    using near_mono [OF that(2)] that(1) by blast
  show "set (ge_nodes s) = near A e hops"
    using sound mono reach [of _ hops] by (force simp: nodes)
  show "set (ge_edges s) = {c \<in> set A. touches (near A e (hops - 1)) c}"
  proof (intro set_eqI iffI)
    fix c
    assume "c \<in> set (ge_edges s)"
    then obtain n k where "c \<in> set A" "(n, k) \<in> set P" "k < hops" "touches {n} c"
      using came by blast
    moreover from this have "n \<in> near A e (hops - 1)" using sound mono by fastforce
    ultimately show "c \<in> {c \<in> set A. touches (near A e (hops - 1)) c}"
      by (auto simp: touches_def)
  next
    fix c
    assume "c \<in> {c \<in> set A. touches (near A e (hops - 1)) c}"
    then obtain y where "c \<in> set A" "y \<in> near A e (hops - 1)" "touches {y} c"
      by (auto simp: touches_def)
    moreover from this obtain l where "l \<le> hops - 1" "(y, l) \<in> set P"
      using reach by fastforce
    ultimately show "c \<in> set (ge_edges s)" using led assms(3) by fastforce
  qed
qed


lemma active_edges:
  "c \<in> set (active_claim_edges_for_entity x scope walk d) \<and> predicate_allowed pf (c_predicate c)
    \<longleftrightarrow> c \<in> set (admitted pf scope walk d) \<and> touches {x} c"
  by (auto simp: active_claim_edges_for_entity_def admitted_def touches_def)

lemma expand_step_inv:
  assumes inv: "expand_inv (admitted pf scope walk d) e hops P s" and "ge_queue s \<noteq> []"
    and ids: "inj_on c_id (set (tbl_rows (g_claims (db_graph d))))"
  shows "\<exists>P'. expand_inv (admitted pf scope walk d) e hops P' (expand_step pf hops scope walk d s)"
proof -
  let ?A = "admitted pf scope walk d"
  from assms(2) obtain x k R where q: "ge_queue s = (x, k) # R" by (cases "ge_queue s") auto
  let ?s = "s \<lparr> ge_queue := R \<rparr>" and ?P = "P @ [(x, k)]"
  note parts = inv [unfolded expand_inv_def q]
  have nodes: "ge_nodes s = map fst (?P @ R)" using parts [THEN conjunct1] by simp
  have dist: "distinct (ge_nodes s)" using parts by (elim conjE)
  have edges: "edge_set_ok s" using parts by (elim conjE)
  have "(e, 0) \<in> set (P @ (x, k) # R)" using parts by (elim conjE)
  then have start: "(e, 0) \<in> set (?P @ R)" by simp
  have "\<forall>(n, l) \<in> set (P @ (x, k) # R). n \<in> near ?A e l \<and> l \<le> hops" using parts by (elim conjE)
  then have sound: "n \<in> near ?A e l \<and> l \<le> hops" if "(n, l) \<in> set (?P @ R)" for n l using that by auto
  have srt: "sorted (map snd R)" "\<forall>(n, l) \<in> set R. k \<le> l"
    using parts by (auto simp: split_beta)
  have "\<forall>(n, l) \<in> set (P @ (x, k) # R). l \<le> Suc k" using parts by simp
  then have bound: "l \<le> Suc k" if "(n, l) \<in> set (?P @ R)" for n l using that by auto
  have came: "\<forall>c \<in> set (ge_edges s). c \<in> set ?A \<and> (\<exists>(n, k) \<in> set P. k < hops \<and> touches {n} c)"
    using parts by (elim conjE)
  have "\<forall>(n, l) \<in> set P. l < hops \<longrightarrow> (\<forall>c \<in> set ?A. touches {n} c \<longrightarrow> c \<in> set (ge_edges s)
      \<and> (\<forall>m \<in> {c_subject c, c_object c}. \<exists>l' \<le> Suc l. (m, l') \<in> set (P @ (x, k) # R)))"
    using parts by (elim conjE)
  then have led: "c \<in> set (ge_edges s) \<and> (\<forall>m \<in> {c_subject c, c_object c}. \<exists>l' \<le> Suc l. (m, l') \<in> set (?P @ R))"
    if "(n, l) \<in> set P" "l < hops" "c \<in> set ?A" "touches {n} c" for n l c
    using that by fastforce
  show ?thesis
  proof (cases "k = hops")
    case True
    have "expand_inv ?A e hops ?P ?s"
      unfolding expand_inv_def
    proof (intro conjI)
      show "ge_queue ?s \<noteq> [] \<longrightarrow> (\<forall>(n, l) \<in> set (?P @ ge_queue ?s). l \<le> Suc (snd (hd (ge_queue ?s))))"
        using srt(2) bound by (cases R) (simp_all, fastforce)
      show "\<forall>(n, l) \<in> set ?P. l < hops \<longrightarrow> (\<forall>c \<in> set ?A. touches {n} c \<longrightarrow> c \<in> set (ge_edges ?s)
          \<and> (\<forall>m \<in> {c_subject c, c_object c}. \<exists>l' \<le> Suc l. (m, l') \<in> set (?P @ ge_queue ?s)))"
        using led True by auto
      show "\<forall>c \<in> set (ge_edges ?s). c \<in> set ?A \<and> (\<exists>(n, k) \<in> set ?P. k < hops \<and> touches {n} c)"
        using came by fastforce
    qed (use nodes dist edges start sound srt in \<open>auto simp: edge_set_ok_def\<close>)
    with True show ?thesis by (auto simp: expand_step_def q Let_def)
  next
    case False
    then have "k < hops" using sound [of x k] by simp
    define s' where "s' = foldl (see_edge pf k) ?s (active_claim_edges_for_entity x scope walk d)"
    have ok: "edge_set_ok ?s" using edges by (simp add: edge_set_ok_def)
    note result = see_edges [OF ok, of k pf "active_claim_edges_for_entity x scope walk d", folded s'_def]
    from result have "grown k ?s s'" by blast
    then obtain N E where N: "ge_nodes s' = ge_nodes s @ N" "ge_queue s' = R @ map (\<lambda>n. (n, k + 1)) N"
      "ge_edges s' = ge_edges s @ E" "distinct N" "set N \<inter> set (ge_nodes s) = {}"
      by (auto simp: grown_def)
    have touched: "c \<in> set ?A \<and> touches {x} c" if "c \<in> set (ge_edges s')" "c \<notin> set (ge_edges s)" for c
      using result that active_edges [of c x scope walk d pf] by auto
    have new: "n \<in> near ?A e (Suc k)" if "n \<in> set N" for n
    proof -
      have "n \<notin> set (ge_nodes s)" "n \<in> set (ge_nodes s')" using N that by auto
      then obtain c where "c \<in> set (active_claim_edges_for_entity x scope walk d)"
        "predicate_allowed pf (c_predicate c)" "n \<in> {c_subject c, c_object c}"
        using result by fastforce
      then have "c \<in> set ?A" "touches {x} c" "n \<in> {c_subject c, c_object c}"
        using active_edges by blast+
      then show ?thesis using sound [of x k] by (auto simp: touches_def)
    qed
    have all: "(n, l) \<in> set (?P @ R) \<or> n \<in> set N \<and> l = Suc k" if "(n, l) \<in> set (?P @ ge_queue s')" for n l
      using that N(2) by auto
    have kept: "c \<in> set (ge_edges s')" if "c \<in> set ?A" "touches {x} c" for c
    proof -
      have "c_id c \<in> set (map c_id (ge_edges s'))" using result active_edges that by blast
      then obtain c' where c': "c' \<in> set (ge_edges s')" "c_id c' = c_id c" by auto
      moreover have "c' \<in> set ?A" using c'(1) came touched by blast
      ultimately show ?thesis using that(1) ids by (auto simp: admitted_def dest: inj_onD)
    qed
    have new_nodes: "ge_nodes s' = map fst (?P @ ge_queue s')" by (simp add: N nodes comp_def)
    have "expand_inv ?A e hops ?P s'"
      unfolding expand_inv_def
    proof (intro conjI)
      show "ge_nodes s' = map fst (?P @ ge_queue s')" by (rule new_nodes)
      show "distinct (ge_nodes s')" using N dist by auto
      show "edge_set_ok s'" using result by blast
      show "(e, 0) \<in> set (?P @ ge_queue s')" using start N(2) by auto
      show "\<forall>(n, l) \<in> set (?P @ ge_queue s'). n \<in> near ?A e l \<and> l \<le> hops"
      proof (intro ballI, clarify)
        fix n l
        assume "(n, l) \<in> set (?P @ ge_queue s')"
        from all [OF this] show "n \<in> near ?A e l \<and> l \<le> hops"
          using sound new \<open>k < hops\<close> by (metis Suc_leI)
      qed
      show "sorted (map snd (ge_queue s'))"
      proof -
        have "l \<le> Suc k" if "(n, l) \<in> set R" for n l using bound [of n l] that by simp
        then have "\<forall>l \<in> set (map snd R). l \<le> Suc k" by auto
        with srt(1) show ?thesis by (simp add: N(2) sorted_append comp_def map_replicate_const)
      qed
      show "ge_queue s' \<noteq> [] \<longrightarrow> (\<forall>(n, l) \<in> set (?P @ ge_queue s'). l \<le> Suc (snd (hd (ge_queue s'))))"
      proof (intro impI ballI, clarify)
        fix n l
        assume ne: "ge_queue s' \<noteq> []" and "(n, l) \<in> set (?P @ ge_queue s')"
        then have "l \<le> Suc k" using all bound by blast
        moreover have "k \<le> snd (hd (ge_queue s'))"
          using srt(2) ne N(2) by (cases R; cases N) auto
        ultimately show "l \<le> Suc (snd (hd (ge_queue s')))" by simp
      qed
      show "\<forall>c \<in> set (ge_edges s'). c \<in> set ?A \<and> (\<exists>(n, k) \<in> set ?P. k < hops \<and> touches {n} c)"
        using came touched \<open>k < hops\<close> by (auto simp: split_beta)
      show "\<forall>(n, l) \<in> set ?P. l < hops \<longrightarrow> (\<forall>c \<in> set ?A. touches {n} c \<longrightarrow> c \<in> set (ge_edges s')
          \<and> (\<forall>m \<in> {c_subject c, c_object c}. \<exists>l' \<le> Suc l. (m, l') \<in> set (?P @ ge_queue s')))"
      proof (intro ballI impI, clarify)
        fix n l c
        assume nl: "(n, l) \<in> set ?P" "l < hops" and c: "c \<in> set ?A" "touches {n} c"
        show "c \<in> set (ge_edges s')
          \<and> (\<forall>m \<in> {c_subject c, c_object c}. \<exists>l' \<le> Suc l. (m, l') \<in> set (?P @ ge_queue s'))"
        proof (cases "(n, l) \<in> set P")
          case True
          have more: "set (?P @ R) \<subseteq> set (?P @ ge_queue s')" using N(2) by auto
          note e1 = led [OF True nl(2) c, THEN conjunct1] and e2 = led [OF True nl(2) c, THEN conjunct2]
          have "\<exists>l' \<le> Suc l. (m, l') \<in> set (?P @ ge_queue s')" if "m \<in> {c_subject c, c_object c}" for m
            using bspec [OF e2 that] more by blast
          moreover have "c \<in> set (ge_edges s')" using e1 N(3) by simp
          ultimately show ?thesis by (intro conjI ballI)
        next
          case False
          with nl have [simp]: "n = x" "l = k" by auto
          have "c \<in> set (ge_edges s')" using kept c by simp
          moreover from this have "{c_subject c, c_object c} \<subseteq> set (ge_nodes s')"
            using result by (auto simp: edge_set_ok_def)
          then have "\<exists>l' \<le> Suc k. (m, l') \<in> set (?P @ ge_queue s')" if "m \<in> {c_subject c, c_object c}" for m
          proof -
            from \<open>_ \<subseteq> set (ge_nodes s')\<close> that have "m \<in> fst ` set (?P @ ge_queue s')"
              unfolding new_nodes set_map by blast
            then obtain l' where "(m, l') \<in> set (?P @ ge_queue s')" by (metis imageE prod.collapse)
            moreover from all [OF this] bound have "l' \<le> Suc k" by blast
            ultimately show ?thesis by blast
          qed
          ultimately show ?thesis by simp
        qed
      qed
    qed
    with False show ?thesis by (auto simp: expand_step_def q Let_def s'_def)
  qed
qed


lemma expand_loop_inv:
  "expand_inv (admitted pf scope walk d) e hops P s \<Longrightarrow> inj_on c_id (set (tbl_rows (g_claims (db_graph d)))) \<Longrightarrow>
    \<exists>P'. expand_inv (admitted pf scope walk d) e hops P' (expand_loop pf hops scope walk d s)
      \<and> ge_queue (expand_loop pf hops scope walk d s) = []"
proof (induction pf hops scope walk d s arbitrary: P rule: expand_loop.induct)
  case (1 pf hops scope walk d s)
  show ?case
  proof (cases "ge_queue s = []")
    case True
    with 1(2) show ?thesis by (subst (1 2) expand_loop.simps) auto
  next
    case False
    with expand_step_inv [OF 1(2) False 1(3)] 1(1,3) show ?thesis
      by (subst (1 2) expand_loop.simps) auto
  qed
qed

text \<open>Claim rows carry their key, so ids tell the rows of a good projection apart.\<close>

lemma graph_ok_ids:
  assumes "graph_ok g"
  shows "inj_on c_id (set (tbl_rows (g_claims g)))"
proof (rule inj_onI)
  fix a b
  assume "a \<in> set (tbl_rows (g_claims g))" "b \<in> set (tbl_rows (g_claims g))" "c_id a = c_id b"
  then obtain i j where ab: "(i, a) \<in> set (g_claims g)" "(j, b) \<in> set (g_claims g)" "c_id a = c_id b"
    by auto
  have ok: "tbl_ok (g_claims g)" and key: "tbl_all (\<lambda>i c. c_id c = i) (g_claims g)"
    using assms by (auto simp: graph_ok_def claims_inv_def intro: tbl_all_mono)
  have "c_id a = i" "c_id b = j" using key ab by (auto simp: tbl_all_def)
  with ab have "map_of (g_claims g) i = Some a" "map_of (g_claims g) i = Some b"
    using tbl.entries_get [OF ok] by auto
  then show "a = b" by simp
qed

text \<open>
  C16. An expansion holds exactly the neighbourhood of its entity: its nodes are the entities that
  at most \<open>hops\<close> admitted claims link to it, each once; its edges are the admitted claims that
  touch an entity fewer than \<open>hops\<close> claims away, each once.
\<close>

theorem expansion_is_neighbourhood:
  assumes "expand_inner e hops predicates scope walk d = Inr x"
    and "inj_on c_id (set (tbl_rows (g_claims (db_graph d))))"
  shows "\<exists>pf. predicate_filter predicates (db_graph d) = Inr pf
    \<and> set (ge_nodes x) = near (admitted pf scope walk d) e hops
    \<and> set (ge_edges x) = {c \<in> set (admitted pf scope walk d).
        touches (near (admitted pf scope walk d) e (hops - 1)) c}
    \<and> distinct (ge_nodes x) \<and> distinct (ge_edges x)"
proof -
  let ?s = "\<lambda>pf. expand_loop pf hops scope walk d \<lparr> ge_nodes = [e], ge_edges = [], ge_queue = [(e, 0)] \<rparr>"
  from assms(1) obtain pf where pf: "0 < hops" "predicate_filter predicates (db_graph d) = Inr pf"
    "x = \<lparr> ge_nodes = ge_nodes (?s pf), ge_edges = ge_edges (?s pf) \<rparr>"
    unfolding expand_inner_def by (auto simp: result_simps Let_def split: if_splits)
  obtain P where "expand_inv (admitted pf scope walk d) e hops P (?s pf)" "ge_queue (?s pf) = []"
    using expand_loop_inv [OF expand_inv_start assms(2)] by blast
  moreover from this have "distinct (ge_nodes (?s pf))" "distinct (ge_edges (?s pf))"
    by (auto simp: expand_inv_def edge_set_ok_def)
  ultimately show ?thesis
    using expand_inv_end pf by fastforce
qed


lemma diamond_expansion:
  "map_sum id (\<lambda>x. (ge_nodes x, map c_id (ge_edges x))) (expand_inner ''a'' 1 None ''global'' ScopeAny diamond_db)
    = Inr ([''a'', ''b'', ''c''], [1, 3])"
  by code_simp

lemma expansion_is_neighbourhood_witness:
  "\<exists>(x :: graph_expansion) pf. predicate_filter None (db_graph diamond_db) = Inr pf
    \<and> set (ge_nodes x) = near (admitted pf ''global'' ScopeAny diamond_db) ''a'' 1
    \<and> set (ge_nodes x) = {''a'', ''b'', ''c''}"
proof -
  from diamond_expansion obtain x where x: "expand_inner ''a'' 1 None ''global'' ScopeAny diamond_db = Inr x"
    "ge_nodes x = [''a'', ''b'', ''c'']"
    by (cases "expand_inner ''a'' 1 None ''global'' ScopeAny diamond_db") auto
  have "inj_on c_id (set (tbl_rows (g_claims (db_graph diamond_db))))"
    by (simp add: diamond_db_def path_claim_def)
  from expansion_is_neighbourhood [OF x(1) this] obtain pf
    where "predicate_filter None (db_graph diamond_db) = Inr pf"
      "set (ge_nodes x) = near (admitted pf ''global'' ScopeAny diamond_db) ''a'' 1" by blast
  moreover have "set (ge_nodes x) = {''a'', ''b'', ''c''}" using x(2) by simp
  ultimately show ?thesis by blast
qed

end
