(* ===== verification/Communities.thy ===== *)
theory Communities
  imports Graph_Path_Props "HOL-Library.Multiset"
begin

section \<open>Communities\<close>

text \<open>
  \<open>detect_communities_with_scope\<close> of \<open>crates/aver-core/src/graph.rs\<close>: the weights of the pairs of
  entities that active claims and hyperedges relate, and the connected components of the strong
  ones, each with its cohesion score and the members that weak edges tie to other communities.
\<close>

subsection \<open>Weights\<close>

record weighted_edge =
  we_left :: str
  we_right :: str
  we_weight :: f64

record community =
  cm_id :: str
  cm_members :: "str list"
  cm_score :: f64
  cm_bridge_nodes :: "str list"

definition STRONG_EDGE_THRESHOLD :: f64 where
  "STRONG_EDGE_THRESHOLD = Fin (1 / 2)"

fun provenance_weight :: "provenance \<Rightarrow> f64" where
  "provenance_weight UserAsserted = Fin 1"
| "provenance_weight Extracted = f64_round (95 / 100)"
| "provenance_weight Inferred = f64_round (65 / 100)"
| "provenance_weight Ambiguous = f64_round (35 / 100)"

definition add_weight ::
  "(str \<times> str, f64) table \<Rightarrow> str \<times> str \<times> f64 \<Rightarrow> (str \<times> str, f64) table" where
  "add_weight weights link =
     (case link of (left, right, weight) \<Rightarrow>
        if left = right then weights
        else let key = if left < right then (left, right) else (right, left);
                 old = (case map_of weights key of None \<Rightarrow> Fin 0 | Some w \<Rightarrow> w)
             in tbl_put key (f64_add old weight) weights)"

definition claims_in_scope :: "str \<Rightarrow> scope_walk \<Rightarrow> db \<Rightarrow> claim_row list" where
  "claims_in_scope scope walk d =
     [c \<leftarrow> tbl_rows (g_claims (db_graph d)). c_status c = Active \<and> scope_filter_sql scope walk (c_scope c)]"

definition hyperedges_admitted :: "str \<Rightarrow> scope_walk \<Rightarrow> db \<Rightarrow> hyperedge list" where
  "hyperedges_admitted scope walk d =
     (if hyperedges_in_scope scope walk then list_active_hyperedges d else [])"

definition claim_link :: "claim_row \<Rightarrow> str \<times> str \<times> f64" where
  "claim_link c = (c_subject c, c_object c, f64_mul (c_confidence c) (provenance_weight (c_provenance c)))"

text \<open>Every pair of participants, the earlier one first.\<close>

fun pairs :: "'a list \<Rightarrow> ('a \<times> 'a) list" where
  "pairs [] = []"
| "pairs (x # xs) = map (Pair x) xs @ pairs xs"

definition hyperedge_links :: "hyperedge \<Rightarrow> (str \<times> str \<times> f64) list" where
  "hyperedge_links h =
     map (\<lambda>(l, r). (p_entity l, p_entity r, f64_mul (h_confidence h) (provenance_weight (h_provenance h))))
       (pairs (h_participants h))"

definition community_links :: "str \<Rightarrow> scope_walk \<Rightarrow> db \<Rightarrow> (str \<times> str \<times> f64) list" where
  "community_links scope walk d =
     map claim_link (claims_in_scope scope walk d)
     @ concat (map hyperedge_links (hyperedges_admitted scope walk d))"

definition community_nodes :: "str \<Rightarrow> scope_walk \<Rightarrow> db \<Rightarrow> str list" where
  "community_nodes scope walk d =
     sort (remdups
       (concat (map (\<lambda>c. [c_subject c, c_object c]) (claims_in_scope scope walk d))
        @ concat (map (\<lambda>h. map p_entity (h_participants h)) (hyperedges_admitted scope walk d))))"

text \<open>\<open>f64::min\<close>: the other operand when one is NaN.\<close>

definition f64_fmin :: "f64 \<Rightarrow> f64 \<Rightarrow> f64" where
  "f64_fmin x y = (if x = NaN then y else if y = NaN then x else if f64_le x y then x else y)"

definition community_edges :: "(str \<times> str \<times> f64) list \<Rightarrow> weighted_edge list" where
  "community_edges links =
     map (\<lambda>((l, r), w). \<lparr> we_left = l, we_right = r, we_weight = f64_fmin w (Fin 1) \<rparr>)
       (foldl add_weight [] links)"

subsection \<open>Components\<close>

definition strong_edge :: "weighted_edge \<Rightarrow> bool" where
  "strong_edge e \<longleftrightarrow> f64_le STRONG_EDGE_THRESHOLD (we_weight e)"

definition neighbours :: "weighted_edge list \<Rightarrow> str \<Rightarrow> str list" where
  "neighbours edges n =
     sort (concat (map (\<lambda>e. (if we_left e = n then [we_right e] else [])
                            @ (if we_right e = n then [we_left e] else []))
       (filter strong_edge edges)))"

record component_state =
  co_seen :: "str list"
  co_members :: "str list"
  co_queue :: "str list"

definition see_neighbour :: "component_state \<Rightarrow> str \<Rightarrow> component_state" where
  "see_neighbour s n =
     (if n \<in> set (co_seen s) then s
      else s \<lparr> co_seen := co_seen s @ [n], co_queue := co_queue s @ [n] \<rparr>)"

definition component_step :: "weighted_edge list \<Rightarrow> component_state \<Rightarrow> component_state" where
  "component_step edges s =
     (case co_queue s of
        [] \<Rightarrow> s
      | current # rest \<Rightarrow>
          foldl see_neighbour (s \<lparr> co_queue := rest, co_members := co_members s @ [current] \<rparr>)
            (neighbours edges current))"

definition edge_ends :: "weighted_edge list \<Rightarrow> str set" where
  "edge_ends edges = (\<Union>e \<in> set edges. {we_left e, we_right e})"

definition component_left :: "weighted_edge list \<Rightarrow> component_state \<Rightarrow> nat" where
  "component_left edges s = card (edge_ends edges - set (co_seen s)) + length (co_queue s)"

lemma finite_edge_ends [simp]: "finite (edge_ends edges)"
  by (simp add: edge_ends_def)

lemma set_neighbours:
  "m \<in> set (neighbours edges n) \<longleftrightarrow>
    (\<exists>e \<in> set edges. strong_edge e \<and> (we_left e = n \<and> we_right e = m \<or> we_right e = n \<and> we_left e = m))"
  by (auto simp: neighbours_def)

lemma neighbours_ends: "set (neighbours edges n) \<subseteq> edge_ends edges"
  by (auto simp: set_neighbours edge_ends_def)

lemma see_neighbours_left:
  "set ns \<subseteq> edge_ends edges \<Longrightarrow> component_left edges (foldl see_neighbour s ns) = component_left edges s"
proof (induction ns arbitrary: s)
  case (Cons n ns)
  have "component_left edges (see_neighbour s n) = component_left edges s"
  proof (cases "n \<in> set (co_seen s)")
    case False
    then have "edge_ends edges - insert n (set (co_seen s)) = (edge_ends edges - set (co_seen s)) - {n}"
      and "n \<in> edge_ends edges - set (co_seen s)"
      using Cons.prems by auto
    then show ?thesis
      using card_Suc_Diff1 [of "edge_ends edges - set (co_seen s)" n] False
      by (simp add: see_neighbour_def component_left_def)
  qed (simp add: see_neighbour_def)
  with Cons show ?case by simp
qed simp

lemma component_step_left:
  "co_queue s \<noteq> [] \<Longrightarrow> component_left edges (component_step edges s) < component_left edges s"
  using see_neighbours_left [OF neighbours_ends]
  by (cases "co_queue s") (simp_all add: component_step_def, simp add: component_left_def)

function component_loop :: "weighted_edge list \<Rightarrow> component_state \<Rightarrow> component_state" where
  "component_loop edges s =
     (if co_queue s = [] then s else component_loop edges (component_step edges s))"
  by auto

termination
  by (relation "measure (\<lambda>(edges, s). component_left edges s)")
    (simp_all only: wf_measure in_measure case_prod_conv component_step_left not_False_eq_True)

declare component_loop.simps [simp del]

subsection \<open>The communities\<close>

definition internal_edges :: "weighted_edge list \<Rightarrow> str list \<Rightarrow> weighted_edge list" where
  "internal_edges edges members = [e \<leftarrow> edges. we_left e \<in> set members \<and> we_right e \<in> set members]"

definition community_score :: "weighted_edge list \<Rightarrow> str list \<Rightarrow> f64" where
  "community_score edges members =
     (let inner = internal_edges edges members
      in if inner = [] then Fin 0
         else f64_div (foldl f64_add (Fin 0) (map we_weight inner)) (of_nat (length inner)))"

definition bridges :: "weighted_edge list \<Rightarrow> str list \<Rightarrow> str list" where
  "bridges edges members =
     sort [m \<leftarrow> members. list_ex (\<lambda>e. (we_left e = m \<and> we_right e \<notin> set members)
                                     \<or> (we_right e = m \<and> we_left e \<notin> set members)) edges]"

definition community_of :: "weighted_edge list \<Rightarrow> str list \<Rightarrow> community" where
  "community_of edges collected =
     (let members = sort collected
      in \<lparr> cm_id = ''community:'' @ join ''-'' members, cm_members = members,
           cm_score = community_score edges members, cm_bridge_nodes = bridges edges members \<rparr>)"

definition visit_node :: "weighted_edge list \<Rightarrow> str list \<times> community list \<Rightarrow> str \<Rightarrow> str list \<times> community list" where
  "visit_node edges state node =
     (case state of (seen, communities) \<Rightarrow>
        if node \<in> set seen then (seen, communities)
        else let s = component_loop edges
                       \<lparr> co_seen = seen @ [node], co_members = [], co_queue = [node] \<rparr>
             in (co_seen s, communities @ [community_of edges (co_members s)]))"

definition detect_communities_with_scope :: "str \<Rightarrow> scope_walk \<Rightarrow> db \<Rightarrow> community list result" where
  "detect_communities_with_scope scope walk d =
     rbind (validate_scope scope) (\<lambda>_.
     let edges = community_edges (community_links scope walk d);
         (seen, communities) = foldl (visit_node edges) ([], []) (community_nodes scope walk d)
     in Inr (sort_key cm_id communities))"

definition detect_communities :: "db \<Rightarrow> community list result" where
  "detect_communities d = detect_communities_with_scope ''global'' ScopeAny d"

subsection \<open>They are the connected components\<close>

definition strong :: "weighted_edge list \<Rightarrow> (str \<times> str) set" where
  "strong edges = {(m, n). n \<in> set (neighbours edges m)}"

lemma strong_sym: "sym (strong edges)"
  by (auto simp: sym_def strong_def set_neighbours)

definition component_inv :: "weighted_edge list \<Rightarrow> str set \<Rightarrow> str \<Rightarrow> component_state \<Rightarrow> bool" where
  "component_inv edges S n s \<longleftrightarrow>
     set (co_seen s) = S \<union> set (co_members s) \<union> set (co_queue s)
     \<and> distinct (co_members s @ co_queue s)
     \<and> (set (co_members s) \<union> set (co_queue s)) \<inter> S = {}
     \<and> n \<in> set (co_members s) \<union> set (co_queue s)
     \<and> (\<forall>m \<in> set (co_members s) \<union> set (co_queue s). (n, m) \<in> (strong edges)\<^sup>*)
     \<and> (\<forall>m \<in> set (co_members s). set (neighbours edges m) \<subseteq> set (co_seen s))"

lemma see_neighbours:
  assumes "distinct (co_queue s)" and "set (co_queue s) \<subseteq> set (co_seen s)"
  shows "\<exists>N. co_queue (foldl see_neighbour s ns) = co_queue s @ N
    \<and> co_members (foldl see_neighbour s ns) = co_members s
    \<and> set (co_seen (foldl see_neighbour s ns)) = set (co_seen s) \<union> set ns
    \<and> set N = set ns - set (co_seen s) \<and> distinct N"
  using assms
proof (induction ns arbitrary: s)
  case Nil
  then show ?case by simp
next
  case (Cons n ns)
  show ?case
  proof (cases "n \<in> set (co_seen s)")
    case True
    then have "see_neighbour s n = s" by (simp add: see_neighbour_def)
    with Cons.IH [OF Cons.prems] True show ?thesis by (simp add: insert_absorb)
  next
    case False
    let ?s = "see_neighbour s n"
    have s: "co_queue ?s = co_queue s @ [n]" "co_seen ?s = co_seen s @ [n]" "co_members ?s = co_members s"
      using False by (simp_all add: see_neighbour_def)
    then have "distinct (co_queue ?s)" "set (co_queue ?s) \<subseteq> set (co_seen ?s)"
      using False Cons.prems by auto
    from Cons.IH [OF this] obtain N where "co_queue (foldl see_neighbour ?s ns) = co_queue ?s @ N"
      "co_members (foldl see_neighbour ?s ns) = co_members ?s"
      "set (co_seen (foldl see_neighbour ?s ns)) = set (co_seen ?s) \<union> set ns"
      "set N = set ns - set (co_seen ?s)" "distinct N" by blast
    with s False show ?thesis by (intro exI [of _ "n # N"]) auto
  qed
qed


lemma component_step_inv:
  assumes inv: "component_inv edges S n s" and "co_queue s \<noteq> []"
  shows "component_inv edges S n (component_step edges s)"
proof -
  from assms(2) obtain x R where q: "co_queue s = x # R" by (cases "co_queue s") auto
  let ?s = "s \<lparr> co_queue := R, co_members := co_members s @ [x] \<rparr>"
  note i = inv [unfolded component_inv_def q]
  have "distinct (co_queue ?s)" "set (co_queue ?s) \<subseteq> set (co_seen ?s)" using i by auto
  from see_neighbours [OF this, of "neighbours edges x"] obtain N
    where N: "co_queue (component_step edges s) = R @ N"
      "co_members (component_step edges s) = co_members s @ [x]"
      "set (co_seen (component_step edges s)) = set (co_seen s) \<union> set (neighbours edges x)"
      "set N = set (neighbours edges x) - set (co_seen s)" "distinct N"
    by (auto simp: component_step_def q)
  have "(n, x) \<in> (strong edges)\<^sup>*" using i by simp
  then have new: "(n, m) \<in> (strong edges)\<^sup>*" if "m \<in> set N" for m
    using that N(4) by (auto simp: strong_def intro: rtrancl_into_rtrancl)
  show ?thesis
    unfolding component_inv_def
  proof (intro conjI)
    show "set (co_seen (component_step edges s)) =
        S \<union> set (co_members (component_step edges s)) \<union> set (co_queue (component_step edges s))"
      using i N by auto
    show "distinct (co_members (component_step edges s) @ co_queue (component_step edges s))"
      using i N by auto
    show "(set (co_members (component_step edges s)) \<union> set (co_queue (component_step edges s))) \<inter> S = {}"
      using i N by auto
    show "n \<in> set (co_members (component_step edges s)) \<union> set (co_queue (component_step edges s))"
      using i N by auto
    show "\<forall>m \<in> set (co_members (component_step edges s)) \<union> set (co_queue (component_step edges s)).
        (n, m) \<in> (strong edges)\<^sup>*"
      using i N new by auto
    have "\<forall>m \<in> set (co_members s). set (neighbours edges m) \<subseteq> set (co_seen s)" using i by (elim conjE)
    then show "\<forall>m \<in> set (co_members (component_step edges s)).
        set (neighbours edges m) \<subseteq> set (co_seen (component_step edges s))"
      unfolding N by fastforce
  qed
qed

lemma component_loop_inv:
  "component_inv edges S n s \<Longrightarrow>
    component_inv edges S n (component_loop edges s) \<and> co_queue (component_loop edges s) = []"
proof (induction edges s rule: component_loop.induct)
  case (1 edges s)
  show ?case
  proof (cases "co_queue s = []")
    case True
    with 1(2) show ?thesis by (subst (1 2) component_loop.simps) simp
  next
    case False
    from 1(1) [OF False component_step_inv [OF 1(2) False]] False show ?thesis
      by (subst (1 2) component_loop.simps) simp
  qed
qed

text \<open>A set closed under strong edges contains the component of each of its elements.\<close>

lemma closed_reach:
  assumes "\<forall>m \<in> M. set (neighbours edges m) \<subseteq> M" and "(a, b) \<in> (strong edges)\<^sup>*" and "a \<in> M"
  shows "b \<in> M"
  using assms(2,3) by (induction rule: rtrancl_induct) (use assms(1) in \<open>auto simp: strong_def\<close>)

lemma component_found:
  assumes closed: "\<forall>m \<in> set seen. set (neighbours edges m) \<subseteq> set seen" and "n \<notin> set seen"
  defines "s \<equiv> component_loop edges \<lparr> co_seen = seen @ [n], co_members = [], co_queue = [n] \<rparr>"
  shows "set (co_members s) = {m. (n, m) \<in> (strong edges)\<^sup>*}"
    and "set (co_seen s) = set seen \<union> set (co_members s)"
    and "set (co_members s) \<inter> set seen = {}" and "distinct (co_members s)"
proof -
  have "component_inv edges (set seen) n \<lparr> co_seen = seen @ [n], co_members = [], co_queue = [n] \<rparr>"
    using assms(2) by (auto simp: component_inv_def)
  from component_loop_inv [OF this] have inv: "component_inv edges (set seen) n s" "co_queue s = []"
    by (simp_all add: s_def)
  then show seen: "set (co_seen s) = set seen \<union> set (co_members s)" and "distinct (co_members s)"
    and disj: "set (co_members s) \<inter> set seen = {}"
    by (auto simp: component_inv_def)
  have sub: "set (co_members s) \<subseteq> {m. (n, m) \<in> (strong edges)\<^sup>*}" and "n \<in> set (co_members s)"
    using inv by (auto simp: component_inv_def)
  have "set (neighbours edges m) \<subseteq> set (co_members s)" if m: "m \<in> set (co_members s)" for m
  proof
    fix k
    assume k: "k \<in> set (neighbours edges m)"
    have "\<forall>m \<in> set (co_members s). set (neighbours edges m) \<subseteq> set (co_seen s)"
      using inv(1) unfolding component_inv_def by (elim conjE)
    with k m have "k \<in> set (co_seen s)" by blast
    moreover have "k \<notin> set seen"
    proof
      assume "k \<in> set seen"
      moreover have "m \<in> set (neighbours edges k)" using k by (auto simp: set_neighbours)
      ultimately have "m \<in> set seen" using closed by blast
      with disj m show False by blast
    qed
    ultimately show "k \<in> set (co_members s)" using seen by blast
  qed
  then have "\<forall>m \<in> set (co_members s). set (neighbours edges m) \<subseteq> set (co_members s)" by blast
  from closed_reach [OF this] sub \<open>n \<in> set (co_members s)\<close>
  show "set (co_members s) = {m. (n, m) \<in> (strong edges)\<^sup>*}" by blast
qed

definition partition_inv :: "weighted_edge list \<Rightarrow> str list \<Rightarrow> str list \<times> community list \<Rightarrow> bool" where
  "partition_inv edges nodes state \<longleftrightarrow>
     (case state of (seen, cs) \<Rightarrow>
        set nodes \<subseteq> set seen
        \<and> (\<forall>m \<in> set seen. set (neighbours edges m) \<subseteq> set seen)
        \<and> (\<forall>m \<in> set seen. \<exists>n \<in> set nodes. (n, m) \<in> (strong edges)\<^sup>*)
        \<and> set seen = (\<Union>c \<in> set cs. set (cm_members c))
        \<and> (\<forall>c \<in> set cs. \<exists>n \<in> set nodes. set (cm_members c) = {m. (n, m) \<in> (strong edges)\<^sup>*})
        \<and> distinct (concat (map cm_members cs)))"

lemma visit_node_inv:
  assumes "partition_inv edges nodes state"
  shows "partition_inv edges (nodes @ [n]) (visit_node edges state n)"
proof -
  obtain seen cs where st: "state = (seen, cs)" by (cases state)
  note i = assms [unfolded partition_inv_def st prod.case]
  show ?thesis
  proof (cases "n \<in> set seen")
    case True
    then have "visit_node edges state n = (seen, cs)" by (simp add: st visit_node_def)
    moreover have "partition_inv edges (nodes @ [n]) (seen, cs)"
      unfolding partition_inv_def prod.case
    proof (intro conjI)
      show "set (nodes @ [n]) \<subseteq> set seen" using i [THEN conjunct1] True by simp
      show "\<forall>m \<in> set seen. \<exists>k \<in> set (nodes @ [n]). (k, m) \<in> (strong edges)\<^sup>*" using i by auto
      show "\<forall>c \<in> set cs. \<exists>k \<in> set (nodes @ [n]). set (cm_members c) = {m. (k, m) \<in> (strong edges)\<^sup>*}"
        using i by auto
    qed (insert i, (elim conjE, assumption)+)
    ultimately show ?thesis by simp
  next
    case False
    define s where "s = component_loop edges \<lparr> co_seen = seen @ [n], co_members = [], co_queue = [n] \<rparr>"
    have "\<forall>m \<in> set seen. set (neighbours edges m) \<subseteq> set seen" using i by blast
    note f = component_found [OF this False, folded s_def]
    have v: "visit_node edges state n = (co_seen s, cs @ [community_of edges (co_members s)])"
      using False by (simp add: st visit_node_def s_def Let_def)
    have members: "set (cm_members (community_of edges (co_members s))) = {m. (n, m) \<in> (strong edges)\<^sup>*}"
      "distinct (cm_members (community_of edges (co_members s)))"
      using f by (simp_all add: community_of_def Let_def)
    have closed: "set (neighbours edges m) \<subseteq> set (co_seen s)" if "m \<in> set (co_seen s)" for m
    proof (cases "m \<in> set seen")
      case True
      with i f(2) show ?thesis by blast
    next
      case False
      with that f(1,2) have "(n, m) \<in> (strong edges)\<^sup>*" by blast
      then have "(n, k) \<in> (strong edges)\<^sup>*" if "k \<in> set (neighbours edges m)" for k
        using that by (auto simp: strong_def intro: rtrancl_into_rtrancl)
      with f(1,2) show ?thesis by blast
    qed
    have all: "set (co_seen s) = (\<Union>c \<in> set (cs @ [community_of edges (co_members s)]). set (cm_members c))"
      using i f(1,2) members(1) by (simp add: Un_commute)
    have dist: "distinct (concat (map cm_members (cs @ [community_of edges (co_members s)])))"
      using i f(1,3) members by auto
    have n: "n \<in> set (co_seen s)" using f(1,2) by auto
    have reach: "\<exists>k \<in> set (nodes @ [n]). (k, m) \<in> (strong edges)\<^sup>*" if "m \<in> set (co_seen s)" for m
      using i f(1,2) that by (cases "m \<in> set seen") auto
    have each: "\<exists>k \<in> set (nodes @ [n]). set (cm_members c) = {m. (k, m) \<in> (strong edges)\<^sup>*}"
      if "c \<in> set (cs @ [community_of edges (co_members s)])" for c
      using i members that by (cases "c \<in> set cs") auto
    have "set (nodes @ [n]) \<subseteq> set (co_seen s)" using i [THEN conjunct1] n f(2) by auto
    with closed reach all each dist show ?thesis
      unfolding partition_inv_def v prod.case by (intro conjI ballI)
  qed
qed

lemma visit_nodes_inv:
  "partition_inv edges nodes (foldl (visit_node edges) ([], []) nodes)"
proof (induction nodes rule: rev_induct)
  case Nil
  then show ?case by (simp add: partition_inv_def)
next
  case (snoc n nodes)
  from visit_node_inv [OF this] show ?case by simp
qed


text \<open>Every edge joins two nodes.\<close>

lemma add_weights_keys:
  "(l, r) \<in> fst ` set (foldl add_weight t links) \<Longrightarrow>
    (l, r) \<in> fst ` set t \<or> (\<exists>w. (l, r, w) \<in> set links \<or> (r, l, w) \<in> set links)"
proof (induction links arbitrary: t)
  case (Cons link links)
  obtain a b w where link: "link = (a, b, w)" by (cases link)
  from Cons.prems have "(l, r) \<in> fst ` set (foldl add_weight (add_weight t link) links)" by simp
  from Cons.IH [OF this] show ?case
    by (auto simp: link add_weight_def Let_def keys_tbl_put split: if_splits)
qed auto

lemma set_pairs: "(x, y) \<in> set (pairs xs) \<Longrightarrow> x \<in> set xs \<and> y \<in> set xs"
  by (induction xs) auto

lemma links_nodes:
  assumes "(l, r, w) \<in> set (community_links scope walk d)"
  shows "l \<in> set (community_nodes scope walk d) \<and> r \<in> set (community_nodes scope walk d)"
  using assms
  by (fastforce simp: community_links_def community_nodes_def claim_link_def hyperedge_links_def
      dest: set_pairs)

lemma edges_nodes:
  "edge_ends (community_edges (community_links scope walk d)) \<subseteq> set (community_nodes scope walk d)"
proof
  fix x
  assume "x \<in> edge_ends (community_edges (community_links scope walk d))"
  then obtain l r where "(l, r) \<in> fst ` set (foldl add_weight [] (community_links scope walk d))"
    and x: "x = l \<or> x = r"
    by (force simp: edge_ends_def community_edges_def)
  then obtain w where "(l, r, w) \<in> set (community_links scope walk d)
      \<or> (r, l, w) \<in> set (community_links scope walk d)"
    using add_weights_keys [of l r "[]"] by auto
  with x show "x \<in> set (community_nodes scope walk d)" using links_nodes by blast
qed

lemma mset_concat_map: "mset (concat (map f xs)) = \<Sum>\<^sub># (image_mset (mset \<circ> f) (mset xs))"
  by (induction xs) simp_all

lemma distinct_concat_sort_key:
  "distinct (concat (map f (sort_key k xs))) \<longleftrightarrow> distinct (concat (map f xs))"
  by (rule mset_eq_imp_distinct_iff) (simp add: mset_concat_map)

text \<open>
  C17. Community detection partitions the graph: every entity of an admitted claim or hyperedge is
  in exactly one community, once, and the community of an entity is what strong edges connect it
  to.
\<close>

theorem communities_partition:
  assumes "detect_communities_with_scope scope walk d = Inr cs"
  shows "distinct (concat (map cm_members cs))
    \<and> set (concat (map cm_members cs)) = set (community_nodes scope walk d)
    \<and> (\<forall>c \<in> set cs. \<forall>m \<in> set (cm_members c). set (cm_members c) =
         {n. (m, n) \<in> (strong (community_edges (community_links scope walk d)))\<^sup>*})"
proof -
  let ?E = "community_edges (community_links scope walk d)"
  let ?N = "community_nodes scope walk d"
  obtain seen collected where f: "foldl (visit_node ?E) ([], []) ?N = (seen, collected)" by fastforce
  with assms have cs: "cs = sort_key cm_id collected"
    by (auto simp: detect_communities_with_scope_def result_simps Let_def)
  have inv: "partition_inv ?E ?N (seen, collected)"
    using visit_nodes_inv [of ?E ?N] by (simp add: f)
  have dist: "distinct (concat (map cm_members collected))"
    and all: "set seen = (\<Union>c \<in> set collected. set (cm_members c))" and "set ?N \<subseteq> set seen"
    and some: "\<forall>m \<in> set seen. \<exists>n \<in> set ?N. (n, m) \<in> (strong ?E)\<^sup>*"
    and each: "\<forall>c \<in> set collected. \<exists>n \<in> set ?N. set (cm_members c) = {m. (n, m) \<in> (strong ?E)\<^sup>*}"
    using inv unfolding partition_inv_def prod.case by blast+
  have "set (neighbours ?E m) \<subseteq> set ?N" for m
    using neighbours_ends edges_nodes by blast
  then have "set seen \<subseteq> set ?N"
    using some closed_reach [of "set ?N" ?E] by blast
  with \<open>set ?N \<subseteq> set seen\<close> all have "set (concat (map cm_members cs)) = set ?N" by (simp add: cs)
  moreover have "set (cm_members c) = {n. (m, n) \<in> (strong ?E)\<^sup>*}"
    if "c \<in> set cs" "m \<in> set (cm_members c)" for c m
  proof -
    from each that obtain n where n: "set (cm_members c) = {m. (n, m) \<in> (strong ?E)\<^sup>*}" by (auto simp: cs)
    then have "(n, m) \<in> (strong ?E)\<^sup>*" using that by auto
    moreover from this have "(m, n) \<in> (strong ?E)\<^sup>*"
      using sym_rtrancl [OF strong_sym] by (auto dest: symD)
    ultimately show ?thesis by (auto simp: n intro: rtrancl_trans)
  qed
  ultimately show ?thesis
    using dist by (simp add: cs distinct_concat_sort_key del: set_concat)
qed


lemma communities_partition_witness:
  "\<exists>cs. detect_communities_with_scope ''global'' ScopeAny diamond_db = Inr cs
    \<and> set (concat (map cm_members cs)) = {''a'', ''b'', ''c'', ''d''}"
proof -
  have "validate_scope ''global'' = Inr ()" by code_simp
  then obtain cs where cs: "detect_communities_with_scope ''global'' ScopeAny diamond_db = Inr cs"
    unfolding detect_communities_with_scope_def Let_def split_beta by simp
  have "community_nodes ''global'' ScopeAny diamond_db = [''a'', ''b'', ''c'', ''d'']" by code_simp
  then have "set (community_nodes ''global'' ScopeAny diamond_db) = {''a'', ''b'', ''c'', ''d''}"
    by (simp only: list.set)
  with communities_partition [OF cs] have "set (concat (map cm_members cs)) = {''a'', ''b'', ''c'', ''d''}"
    by (elim conjE) (rule trans)
  with cs show ?thesis by (intro exI [of _ cs] conjI)
qed

text \<open>The identifier of a community joins its members with a dash that names may contain, so
  different communities can share it.\<close>

lemma community_ids_collide:
  "cm_id (community_of edges [''a-b'']) = cm_id (community_of edges [''a'', ''b''])"
proof -
  have "sort [''a'', ''b''] = [''a'', ''b'']" by code_simp
  then show ?thesis by (simp add: community_of_def Let_def)
qed

end
