(* ===== verification/Bridge.thy ===== *)
theory Bridge
  imports Claims
begin

section \<open>From source trees to facts\<close>

text \<open>
  \<open>crates/aver-extractor/src/bridge.rs\<close> and the dispatch by extension of \<open>lib.rs\<close>: the walk over a
  source tree, the conversion of an extracted fact to the seeded vocabulary, and the counts of what
  was dropped. What stands on the disk is a value of \<open>fs_entry\<close>; the extractor of a language works on
  the syntax tree of a tree-sitter grammar and is the parameter \<open>parse\<close>.
\<close>

subsection \<open>Languages\<close>

definition LANGUAGES :: "str list" where
  "LANGUAGES = [''rust'', ''python'', ''typescript'', ''javascript'', ''go'', ''java'', ''c'', ''cpp'',
     ''csharp'', ''ruby'', ''php'', ''kotlin'', ''swift'']"

text \<open>\<open>Path::file_name\<close> and \<open>Path::extension\<close>.\<close>

definition file_name :: "str \<Rightarrow> str option" where
  "file_name p =
     (let ws = [w \<leftarrow> split_on ((=) (CHR ''/'')) p. w \<noteq> [] \<and> w \<noteq> ''.'']
      in if ws = [] \<or> last ws = ''..'' then None else Some (last ws))"

definition file_extension :: "str \<Rightarrow> str option" where
  "file_extension p =
     (case file_name p of
        None \<Rightarrow> None
      | Some name \<Rightarrow>
          (let rev_ext = takeWhile ((\<noteq>) (CHR ''.'')) (rev name);
               rest = drop (length rev_ext) (rev name)
           in if length rest \<le> 1 then None else Some (rev rev_ext)))"

definition EXTENSIONS :: "(str \<times> str) list" where
  "EXTENSIONS =
     [(''rs'', ''rust''), (''py'', ''python''), (''ts'', ''typescript''), (''tsx'', ''typescript''),
      (''js'', ''javascript''), (''jsx'', ''javascript''), (''go'', ''go''), (''java'', ''java''),
      (''c'', ''c''), (''h'', ''c''), (''cc'', ''cpp''), (''cpp'', ''cpp''), (''cxx'', ''cpp''),
      (''hpp'', ''cpp''), (''hh'', ''cpp''), (''hxx'', ''cpp''), (''cs'', ''csharp''), (''rb'', ''ruby''),
      (''php'', ''php''), (''kt'', ''kotlin''), (''kts'', ''kotlin''), (''swift'', ''swift'')]"

definition language_for_path :: "str \<Rightarrow> str option" where
  "language_for_path p =
     map_of EXTENSIONS (to_ascii_lowercase (case file_extension p of None \<Rightarrow> [] | Some e \<Rightarrow> e))"

record extracted_fact =
  xf_subject :: str
  xf_predicate :: str
  xf_object :: str

type_synonym parser = "str \<Rightarrow> str \<Rightarrow> str \<Rightarrow> str + extracted_fact list"

definition extract_facts_for_path :: "parser \<Rightarrow> str \<Rightarrow> str \<Rightarrow> str + extracted_fact list" where
  "extract_facts_for_path parse p source =
     (case language_for_path p of None \<Rightarrow> Inr [] | Some language \<Rightarrow> parse language p source)"

subsection \<open>Conversion to the seeded vocabulary\<close>

definition SUPPORTED_PREDICATES :: "str list" where
  "SUPPORTED_PREDICATES =
     [''defines'', ''calls'', ''imports'', ''tests'', ''uses'', ''extends'', ''implements'', ''has_test'']"

definition entity_type :: "str \<Rightarrow> str" where
  "entity_type kind =
     (if kind = ''File'' then ''File''
      else if kind = ''Function'' then ''Function''
      else if kind \<in> {''Class'', ''Struct'', ''Enum'', ''Interface'', ''Trait'', ''Protocol'', ''Record'',
                      ''Object'', ''Actor'', ''Type'', ''Annotation''} then ''Class''
      else if kind \<in> {''Module'', ''Namespace'', ''Package''} then ''Module''
      else if kind \<in> {''Const'', ''Constant''} then ''Constant''
      else ''Symbol'')"

definition canonical_entity :: "str \<Rightarrow> str \<Rightarrow> str" where
  "canonical_entity path raw =
     (if raw = path then ''File:'' @ path
      else (case split_once (CHR '':'') raw of
              Some (kind, name) \<Rightarrow>
                if kind \<noteq> [] \<and> (\<forall>c \<in> set kind. is_ascii_uppercase c \<or> is_ascii_lowercase c)
                    \<and> \<not> starts_with name '':''
                then entity_type kind @ '':'' @ name else ''Symbol:'' @ raw
            | None \<Rightarrow> ''Symbol:'' @ raw))"

definition to_core_fact :: "str \<Rightarrow> extracted_fact \<Rightarrow> extractor_fact option" where
  "to_core_fact path f =
     (if xf_predicate f \<in> set SUPPORTED_PREDICATES
      then Some \<lparr> f_subject = canonical_entity path (xf_subject f), f_predicate = xf_predicate f,
                  f_object = canonical_entity path (xf_object f), f_provenance = Some Extracted \<rparr>
      else None)"

subsection \<open>The walk\<close>

text \<open>
  A directory entry: a file with its text or the error of reading it, a directory, one that can not
  be listed or whose type can not be read, or something that is neither (a symlink, a socket).
\<close>

datatype fs_entry =
    FsFile "str + str"
  | FsDir "(str \<times> fs_entry) list"
  | FsUnreadable str
  | FsOther "str + str"

definition SKIPPED_DIRS :: "str list" where
  "SKIPPED_DIRS = [''target'', ''node_modules'']"

definition skipped_name :: "str \<Rightarrow> bool" where
  "skipped_name name \<longleftrightarrow> starts_with name ''.'' \<or> name \<in> set SKIPPED_DIRS"

definition path_join :: "str \<Rightarrow> str \<Rightarrow> str" where
  "path_join dir name = (if dir = [] \<or> last dir = CHR ''/'' then dir @ name else dir @ ''/'' @ name)"

type_synonym found = "str \<times> (str + str)"

text \<open>The entries of a directory come sorted by name; the first error ends the walk.\<close>

definition then_found :: "str + found list \<Rightarrow> str + found list \<Rightarrow> str + found list" where
  "then_found a b = rbind a (\<lambda>xs. rbind b (\<lambda>ys. Inr (xs @ ys)))"

function collect_files :: "str \<Rightarrow> (str \<times> fs_entry) list \<Rightarrow> str + found list" where
  "collect_files dir [] = Inr []"
| "collect_files dir ((name, e) # rest) =
     (if skipped_name name then collect_files dir rest
      else then_found
             (case e of
                FsDir es \<Rightarrow> collect_files (path_join dir name) (sort_key fst es)
              | FsFile content \<Rightarrow> Inr [(path_join dir name, content)]
              | FsUnreadable err \<Rightarrow> Inl err
              | FsOther _ \<Rightarrow> Inr [])
             (collect_files dir rest))"
  by pat_completeness auto

lemma size_sort_key: "size_list f (sort_key k xs) = size_list f xs"
proof -
  have "size_list f ys = sum_list (map f ys) + length ys" for ys by (induction ys) simp_all
  moreover have "sum_list (map f (sort_key k xs)) = sum_list (map f xs)"
    by (metis mset_map mset_sort sum_mset_sum_list)
  ultimately show ?thesis by simp
qed

termination collect_files
  by (relation "measure (\<lambda>(_, es). size_list (size_prod (\<lambda>_. 0) size) es)")
    (simp_all add: size_sort_key)

definition source_files :: "str \<Rightarrow> fs_entry \<Rightarrow> str + found list" where
  "source_files base e =
     (case e of
        FsDir es \<Rightarrow> collect_files base (sort_key fst es)
      | FsUnreadable err \<Rightarrow> Inl err
      | FsFile content \<Rightarrow> Inr [(base, content)]
      | FsOther content \<Rightarrow> Inr [(base, content)])"

subsection \<open>The extraction\<close>

record file_facts =
  ff_path :: str
  ff_facts :: "extractor_fact list"

record extraction =
  xt_files :: "file_facts list"
  xt_extracted :: nat
  xt_duplicates :: nat
  xt_skipped :: "(str, nat) table"
  xt_failed :: "(str \<times> str) list"

definition files_scanned :: "extraction \<Rightarrow> nat" where
  "files_scanned x = length (xt_files x) + length (xt_failed x)"

definition fact_count :: "extraction \<Rightarrow> nat" where
  "fact_count x = sum_list (map (length \<circ> ff_facts) (xt_files x))"

definition empty_extraction :: extraction where
  "empty_extraction =
     \<lparr> xt_files = [], xt_extracted = 0, xt_duplicates = 0, xt_skipped = [], xt_failed = [] \<rparr>"

definition triple_of :: "extractor_fact \<Rightarrow> str \<times> str \<times> str" where
  "triple_of f = (f_subject f, f_predicate f, f_object f)"

text \<open>What one file's facts become: the triples seen so far, the facts kept, and the counts.\<close>

type_synonym sift = "(str \<times> str \<times> str) set \<times> extractor_fact list \<times> nat \<times> (str, nat) table"

definition sift_fact :: "str \<Rightarrow> extracted_fact \<Rightarrow> sift \<Rightarrow> sift" where
  "sift_fact path f = (\<lambda>(seen, facts, duplicates, skipped).
     (case to_core_fact path f of
        Some c \<Rightarrow>
          if triple_of c \<in> seen then (seen, facts, duplicates + 1, skipped)
          else (insert (triple_of c) seen, facts @ [c], duplicates, skipped)
      | None \<Rightarrow>
          (seen, facts, duplicates,
           tbl_put (xf_predicate f)
             ((case map_of skipped (xf_predicate f) of None \<Rightarrow> 0 | Some n \<Rightarrow> n) + 1) skipped)))"

definition strip_dot_slash :: "str \<Rightarrow> str" where
  "strip_dot_slash p = (if starts_with p ''./'' then drop 2 p else p)"

definition extract_file ::
  "parser \<Rightarrow> str option \<Rightarrow> found \<Rightarrow> extraction \<times> (str \<times> str \<times> str) set
    \<Rightarrow> extraction \<times> (str \<times> str \<times> str) set" where
  "extract_file parse lang found st =
     (case (found, st) of ((file, content), (x, seen)) \<Rightarrow>
      let path = strip_dot_slash file
      in case language_for_path path of
           None \<Rightarrow> (x, seen)
         | Some language \<Rightarrow>
             if lang \<noteq> None \<and> lang \<noteq> Some language then (x, seen)
             else (case rbind content (extract_facts_for_path parse path) of
                Inl err \<Rightarrow> (x \<lparr> xt_failed := xt_failed x @ [(path, err)] \<rparr>, seen)
              | Inr extracted \<Rightarrow>
                  (case fold (sift_fact path) extracted (seen, [], xt_duplicates x, xt_skipped x) of
                     (seen, facts, duplicates, skipped) \<Rightarrow>
                       (x \<lparr> xt_files := xt_files x @ [\<lparr> ff_path = path, ff_facts = facts \<rparr>],
                            xt_extracted := xt_extracted x + length extracted,
                            xt_duplicates := duplicates, xt_skipped := skipped \<rparr>, seen))))"

definition extract_tree :: "parser \<Rightarrow> str \<Rightarrow> fs_entry \<Rightarrow> str option \<Rightarrow> str + extraction" where
  "extract_tree parse base e lang =
     rbind (source_files base e) (\<lambda>files.
     Inr (fst (fold (extract_file parse lang) files (empty_extraction, {}))))"

subsection \<open>What the walk reaches\<close>

lemma collected_visible:
  assumes "collect_files dir es = Inr xs" and "(p, content) \<in> set xs"
  shows "\<exists>names. names \<noteq> [] \<and> p = fold (\<lambda>n d. path_join d n) names dir
    \<and> (\<forall>n \<in> set names. \<not> skipped_name n)"
  using assms
proof (induction dir es arbitrary: xs rule: collect_files.induct)
  case (2 dir name e rest)
  show ?case
  proof (cases "skipped_name name")
    case True
    with 2 show ?thesis by simp
  next
    case False
    with 2(4) obtain us vs where us: "(case e of
                FsDir es \<Rightarrow> collect_files (path_join dir name) (sort_key fst es)
              | FsFile content \<Rightarrow> Inr [(path_join dir name, content)]
              | FsUnreadable err \<Rightarrow> Inl err
              | FsOther _ \<Rightarrow> Inr []) = Inr us"
      and vs: "collect_files dir rest = Inr vs" and xs: "xs = us @ vs"
      by (auto simp: then_found_def result_simps)
    show ?thesis
    proof (cases "(p, content) \<in> set vs")
      case True
      with 2(3) [OF False vs] show ?thesis by simp
    next
      case outside: False
      with xs 2(5) have p: "(p, content) \<in> set us" by simp
      show ?thesis
      proof (cases e)
        case (FsDir es)
        with us p 2(2) [OF False FsDir, of us] obtain names where "names \<noteq> []"
          "p = fold (\<lambda>n d. path_join d n) names (path_join dir name)" "\<forall>n \<in> set names. \<not> skipped_name n"
          by fastforce
        with False show ?thesis by (intro exI [of _ "name # names"]) simp
      qed (use us p False in \<open>auto intro!: exI [of _ "[name]"]\<close>)
    qed
  qed
qed simp

end
