(* ===== verification/Tools.thy ===== *)
theory Tools
  imports Web_Scopes Decision Error_Text Recall Graph_Expand Communities Bridge
begin

section \<open>The server's tools\<close>

text \<open>
  \<open>AverTools\<close> of \<open>crates/aver-server/src/tools.rs\<close>: what each MCP tool does with the store, its
  parameters and what it returns. A \<open>tool\<close> threads the store and fails with an error of the core or
  a message of its own. The environments of the store operations, the file system
  (\<open>canonicalize\<close> and what stands at a path), the tree-sitter parsers, the embedding client, the decision
  client and \<open>knn\<close> are what the outside decides.
\<close>

subsection \<open>Errors and sequencing\<close>

datatype tool_error = Core error | Message str

type_synonym 'a tool = "store \<Rightarrow> (tool_error + 'a) \<times> store"

definition tool_ret :: "'a \<Rightarrow> 'a tool" where
  "tool_ret x s = (Inr x, s)"

definition tool_fail :: "str \<Rightarrow> 'a tool" where
  "tool_fail m s = (Inl (Message m), s)"

definition tool_bind :: "'a tool \<Rightarrow> ('a \<Rightarrow> 'b tool) \<Rightarrow> 'b tool" where
  "tool_bind m f s = (case m s of (Inl e, s') \<Rightarrow> (Inl e, s') | (Inr x, s') \<Rightarrow> f x s')"

definition tool_op :: "'a op \<Rightarrow> 'a tool" where
  "tool_op m s = (case m s of (Inl e, s') \<Rightarrow> (Inl (Core e), s') | (Inr x, s') \<Rightarrow> (Inr x, s'))"

definition tool_get :: "(db \<Rightarrow> 'a result) \<Rightarrow> 'a tool" where
  "tool_get f = tool_op (op_read f)"

text \<open>A tool that only reads.\<close>

type_synonym 'a query = "db \<Rightarrow> tool_error + 'a"

definition core :: "'a result \<Rightarrow> tool_error + 'a" where
  "core r = map_sum Core id r"

definition tool_query :: "'a query \<Rightarrow> 'a tool" where
  "tool_query f s = (f (st_db s), s)"

definition tool_check :: "'a result \<Rightarrow> 'a tool" where
  "tool_check r = tool_op (op_of r)"

text \<open>\<open>AverTools::describe_error\<close>: what the agent reads.\<close>

definition describe_error :: "(str \<Rightarrow> str) \<Rightarrow> db \<Rightarrow> tool_error \<Rightarrow> str" where
  "describe_error debug d e =
     (case e of Core err \<Rightarrow> describe_core_error debug (db_graph d) err | Message m \<Rightarrow> m)"

subsection \<open>The tools' configuration\<close>

record extract_limits =
  xl_root :: "str option"
  xl_max_files :: nat

definition DEFAULT_EXTRACT_MAX_FILES :: nat where
  "DEFAULT_EXTRACT_MAX_FILES = 2000"

definition extract_limits_from_env :: "(str \<Rightarrow> str option) \<Rightarrow> extract_limits" where
  "extract_limits_from_env environment =
     \<lparr> xl_root = (case environment ''AVER_EXTRACT_ROOT'' of
          None \<Rightarrow> None | Some r \<Rightarrow> if r = [] then None else Some r),
       xl_max_files =
         (case Option.bind (environment ''AVER_EXTRACT_MAX_FILES'') (\<lambda>v. parse_u64 (trim v)) of
            None \<Rightarrow> DEFAULT_EXTRACT_MAX_FILES
          | Some n \<Rightarrow> if 0 < n then n else DEFAULT_EXTRACT_MAX_FILES) \<rparr>"

type_synonym embedder = "str \<Rightarrow> f64 list result"

record aver_tools =
  tl_extract :: extract_limits
  tl_decision :: "decision_client option"
  tl_min_confidence :: f64
  tl_embedder :: "embedder option"
  tl_embedding_model :: str
  tl_miss_log :: "f64 option"  \<comment> \<open>the weak-confidence bound of the recall-miss log\<close>

text \<open>What the outside provides to one call.\<close>

record world =
  wd_envs :: "nat \<Rightarrow> env"
  wd_debug :: "str \<Rightarrow> str"
  wd_knn :: knn
  wd_encode :: "triage_state \<Rightarrow> str"
  wd_canonicalize :: "str \<Rightarrow> str + str"
  wd_stat :: "str \<Rightarrow> str + fs_entry"
  wd_parse :: parser
  wd_timestamp :: str
  wd_elapsed_ms :: nat

subsection \<open>Views\<close>

record claim_view =
  vc_id :: int
  vc_subject :: str
  vc_predicate :: str
  vc_object :: str
  vc_confidence :: f64
  vc_status :: str
  vc_source_refs :: "str list"
  vc_agent_id :: str
  vc_agent_kind :: str
  vc_scope :: str

definition claim_view_of :: "claim_row \<Rightarrow> claim_view" where
  "claim_view_of c =
     \<lparr> vc_id = c_id c, vc_subject = c_subject c, vc_predicate = c_predicate c, vc_object = c_object c,
       vc_confidence = c_confidence c, vc_status = status_as_str (c_status c),
       vc_source_refs = c_source_refs c, vc_agent_id = c_agent_id c,
       vc_agent_kind = agent_kind_as_str (c_agent_kind c), vc_scope = c_scope c \<rparr>"

record event_view =
  ve_id :: int
  ve_session_id :: str
  ve_kind :: str
  ve_payload :: str
  ve_source :: str
  ve_agent_id :: str
  ve_agent_kind :: str
  ve_ts :: int
  ve_scope :: str

definition event_view_of :: "event \<Rightarrow> event_view" where
  "event_view_of e =
     \<lparr> ve_id = e_id e, ve_session_id = e_session_id e, ve_kind = e_kind e, ve_payload = e_payload e,
       ve_source = e_source e, ve_agent_id = e_agent_id e, ve_agent_kind = e_agent_kind e,
       ve_ts = e_ts e, ve_scope = e_scope e \<rparr>"

record candidate_view =
  vk_id :: int
  vk_event_id :: int
  vk_subject :: str
  vk_predicate :: str
  vk_object :: str
  vk_provenance :: str
  vk_confidence :: f64
  vk_status :: str
  vk_promoted_claim_id :: "int option"
  vk_rejection_reason :: "str option"
  vk_scope :: str

definition candidate_view_of :: "candidate_row \<Rightarrow> candidate_view" where
  "candidate_view_of k =
     \<lparr> vk_id = k_id k, vk_event_id = k_event_id k, vk_subject = k_subject k,
       vk_predicate = k_predicate k, vk_object = k_object k, vk_provenance = k_provenance k,
       vk_confidence = k_confidence k, vk_status = k_status k,
       vk_promoted_claim_id = k_promoted_claim_id k, vk_rejection_reason = k_rejection_reason k,
       vk_scope = k_scope k \<rparr>"

record observation_view =
  vo_id :: str
  vo_session_id :: str
  vo_content :: str
  vo_relevance :: str
  vo_source_event_ids :: "int list"
  vo_agent_id :: str
  vo_agent_kind :: str
  vo_derivation :: str
  vo_ts :: int
  vo_scope :: str

definition observation_view_of :: "observation \<Rightarrow> observation_view" where
  "observation_view_of x =
     \<lparr> vo_id = o_id x, vo_session_id = o_session_id x, vo_content = o_content x,
       vo_relevance = o_relevance x, vo_source_event_ids = o_source_event_ids x,
       vo_agent_id = o_agent_id x, vo_agent_kind = o_agent_kind x, vo_derivation = o_derivation x,
       vo_ts = o_ts x, vo_scope = o_scope x \<rparr>"

record observation_recall_view =
  vq_observation :: observation_view
  vq_events :: "event_view list"
  vq_audit_status :: "str option"
  vq_prune_marker_id :: "str option"

definition observation_recall_view_of :: "observation_recall \<Rightarrow> observation_recall_view" where
  "observation_recall_view_of r =
     \<lparr> vq_observation = observation_view_of (or_observation r),
       vq_events = map event_view_of (or_events r),
       vq_audit_status = or_audit_status r, vq_prune_marker_id = or_prune_marker_id r \<rparr>"

record graph_view =
  vg_nodes :: "str list"
  vg_edges :: "claim_view list"

definition graph_view_of :: "'a graph_expansion_scheme \<Rightarrow> graph_view" where
  "graph_view_of x = \<lparr> vg_nodes = ge_nodes x, vg_edges = map claim_view_of (ge_edges x) \<rparr>"

record recall_view =
  vl_triples :: "claim_view list"
  vl_chunks :: "str list"
  vl_subgraph :: graph_view
  vl_confidence_floor :: f64
  vl_retrieval :: str
  vl_alpha :: "f64 option"

record community_view =
  vm_id :: str
  vm_score :: f64
  vm_members :: "str list"
  vm_bridges :: "str list"
  vm_size :: nat

definition community_view_of :: "community \<Rightarrow> community_view" where
  "community_view_of c =
     \<lparr> vm_id = cm_id c, vm_score = cm_score c, vm_members = cm_members c,
       vm_bridges = cm_bridge_nodes c, vm_size = length (cm_members c) \<rparr>"

record communities_view =
  vs_communities :: "community_view list"
  vs_scope :: str
  vs_scope_walk :: str

record path_step_view =
  vp_subject :: str
  vp_predicate :: str
  vp_object :: str
  vp_claim_id :: "int option"
  vp_confidence :: f64
  vp_provenance :: str
  vp_scope :: str

definition path_step_view_of :: "path_step \<Rightarrow> path_step_view" where
  "path_step_view_of p =
     \<lparr> vp_subject = ps_source p, vp_predicate = ps_predicate p, vp_object = ps_target p,
       vp_claim_id = ps_claim_id p, vp_confidence = ps_confidence p,
       vp_provenance = provenance_as_str (ps_provenance p), vp_scope = ps_scope p \<rparr>"

record path_view =
  vt_found :: bool
  vt_hops :: nat
  vt_confidence :: f64
  vt_path :: "path_step_view list"
  vt_scope :: str
  vt_scope_walk :: str

record contradiction_view =
  vx_contradiction_id :: int
  vx_claim_id :: int
  vx_reason :: str
  vx_new_claim_id :: "int option"
  vx_status :: str

definition contradiction_view_of :: "contradiction \<Rightarrow> contradiction_view" where
  "contradiction_view_of x =
     \<lparr> vx_contradiction_id = x_id x, vx_claim_id = x_claim_id x, vx_reason = x_reason x,
       vx_new_claim_id = x_new_claim_id x, vx_status = to_ascii_lowercase (x_status x) \<rparr>"

record extract_view =
  vf_scope :: str
  vf_files_scanned :: nat
  vf_files_failed :: nat
  vf_facts_extracted :: nat
  vf_facts_ingested :: nat
  vf_skipped :: "(str, nat) table"
  vf_dry_run :: bool
  vf_note :: "str option"

subsection \<open>Parameters\<close>

definition mcp_agent ::
  "str option \<Rightarrow> str option \<Rightarrow> str \<Rightarrow> agent_kind \<Rightarrow> (str \<times> agent_kind) result" where
  "mcp_agent agent_id agent_kind default_id default_kind =
     rbind (case agent_kind of None \<Rightarrow> Inr default_kind | Some k \<Rightarrow> agent_kind_from_str k) (\<lambda>kind.
     Inr (or_default agent_id default_id, kind))"

definition parse_scope_walk ::
  "(str \<Rightarrow> str) \<Rightarrow> str option \<Rightarrow> str option \<Rightarrow> tool_error + scope_walk" where
  "parse_scope_walk debug walk scope =
     (case walk of
        Some w \<Rightarrow> map_sum (\<lambda>e. Message (''invalid scope_walk: '' @ show_error debug e)) id (scope_walk_from_str w)
      | None \<Rightarrow> Inr (if scope \<noteq> None then ScopeAncestors else ScopeAny))"

definition validate_hops :: "nat \<Rightarrow> tool_error + nat" where
  "validate_hops hops =
     (if hops \<le> 8 then Inr hops else Inl (Message ''invalid hops: must be at most 8''))"

definition validate_tool_top_k :: "nat \<Rightarrow> tool_error + nat" where
  "validate_tool_top_k k =
     (if 1 \<le> k \<and> k \<le> 100 then Inr k
      else Inl (Message ''invalid top_k: must be between 1 and 100''))"

record remember_params =
  rm_subject :: str
  rm_predicate :: str
  rm_object :: str
  rm_source :: "str option"
  rm_agent_id :: "str option"
  rm_agent_kind :: "str option"
  rm_scope :: "str option"

record recall_params =
  rl_query :: str
  rl_hops :: "nat option"
  rl_top_k :: "nat option"
  rl_scope :: "str option"
  rl_scope_walk :: "str option"
  rl_agent_id :: "str option"
  rl_agent_kind :: "str option"
  rl_predicate :: "str option"
  rl_predicate_walk :: "str option"
  rl_min_confidence :: "f64 option"
  rl_status :: "str option"
  rl_alpha :: "f64 option"

record expand_params =
  xp_entity :: str
  xp_hops :: "nat option"
  xp_predicates :: "str list option"
  xp_scope :: "str option"
  xp_scope_walk :: "str option"

record communities_params =
  cq_scope :: "str option"
  cq_scope_walk :: "str option"
  cq_min_members :: "nat option"
  cq_top_k :: "nat option"

record path_params =
  pq_from :: str
  pq_to :: str
  pq_max_hops :: "nat option"
  pq_predicates :: "str list option"
  pq_min_confidence :: "f64 option"
  pq_scope :: "str option"
  pq_scope_walk :: "str option"

record triple_params =
  at_subject :: str
  at_predicate :: str
  at_object :: str
  at_confidence :: "f64 option"
  at_source :: str
  at_scope :: "str option"
  at_agent_id :: "str option"
  at_agent_kind :: "str option"

record contradict_new_claim_params =
  nc_subject :: str
  nc_predicate :: str
  nc_object :: str
  nc_source :: str
  nc_agent_id :: "str option"
  nc_agent_kind :: "str option"
  nc_scope :: "str option"

record contradict_params =
  ct_triple_id :: int
  ct_reason :: str
  ct_new_claim :: "contradict_new_claim_params option"

record record_event_params =
  re_session_id :: str
  re_kind :: str
  re_payload :: str
  re_source :: "str option"
  re_agent_id :: "str option"
  re_agent_kind :: "str option"
  re_scope :: "str option"

record propose_params =
  pc_event_id :: int
  pc_subject :: str
  pc_predicate :: str
  pc_object :: str
  pc_scope :: "str option"

record record_observation_params =
  ro_session_id :: str
  ro_content :: str
  ro_relevance :: relevance
  ro_source_event_ids :: "int list"
  ro_derivation :: str
  ro_scope :: "str option"

record extract_params =
  ep_path :: str
  ep_scope :: "str option"
  ep_lang :: "str option"
  ep_dry_run :: bool
  ep_agent_id :: str

subsection \<open>Reading tools\<close>

text \<open>\<open>recall_hybrid\<close>: \<open>None\<close> sends the call to the keyword path.\<close>

definition claim_chunks :: "f64 list \<Rightarrow> claim_row \<Rightarrow> db \<Rightarrow> (f64 \<times> vector_chunk) list result" where
  "claim_chunks query c d =
     rbind (list_vector_chunks_for_claim (c_id c) d) (\<lambda>vs.
     Inr (map (\<lambda>v. (or_default (Option.bind (v_embedding v) (normalized_cosine_score query)) (Fin 0), v)) vs))"

definition tool_recall_hybrid ::
  "aver_tools \<Rightarrow> world \<Rightarrow> str \<Rightarrow> recall_filters \<Rightarrow> nat \<Rightarrow> hybrid_weights
    \<Rightarrow> db \<Rightarrow> (claim_row list \<times> str list) option result" where
  "tool_recall_hybrid tools wd query f top_k w d =
     (case tl_embedder tools of
        None \<Rightarrow> Inr None
      | Some embedder \<Rightarrow>
          if fst (vector_chunk_embedding_status d) = 0 then Inr None
          else
            (case embedder query of
               Inl _ \<Rightarrow> Inr None
             | Inr e \<Rightarrow>
                 rbind (recall_hybrid_claims_with_filters (wd_knn wd) query e top_k w f d) (\<lambda>claims.
                 rbind (rmap (\<lambda>c. claim_chunks e c d) claims) (\<lambda>chunks.
                 Inr (Some (claims,
                   map (v_text \<circ> snd) (take top_k (sort_by
                     (\<lambda>(s, x) (t, y). ranks_before (s, v_id x) (t, v_id y)) (concat chunks)))))))))"

definition recall_filters_of :: "(str \<Rightarrow> str) \<Rightarrow> recall_params \<Rightarrow> scope_walk \<Rightarrow> tool_error + recall_filters" where
  "recall_filters_of debug p walk =
     rbind (case rl_agent_kind p of
              None \<Rightarrow> Inr None | Some k \<Rightarrow> core (rbind (agent_kind_from_str k) (\<lambda>x. Inr (Some x)))) (\<lambda>kind.
     rbind (case rl_predicate_walk p of
              None \<Rightarrow> Inr PredExact
            | Some w \<Rightarrow> map_sum (\<lambda>e. Message (''invalid predicate_walk: '' @ show_error debug e)) id
                          (predicate_walk_from_str w)) (\<lambda>pwalk.
     rbind (case rl_status p of
              None \<Rightarrow> Inr (Some Active)
            | Some st \<Rightarrow> if st = ''any'' then Inr None
                         else core (rbind (status_from_str st) (\<lambda>x. Inr (Some x)))) (\<lambda>status.
     rbind (case rl_min_confidence p of
              None \<Rightarrow> Inr () | Some m \<Rightarrow> core (ensure (in_unit m) (EInvalidConfidence m))) (\<lambda>_.
     Inr \<lparr> rf_scope = or_default (rl_scope p) ''global'', rf_scope_walk = walk,
           rf_agent_id = rl_agent_id p, rf_agent_kind = kind, rf_predicate = rl_predicate p,
           rf_predicate_walk = pwalk, rf_min_confidence = rl_min_confidence p, rf_status = status \<rparr>))))"

definition recall_weights :: "recall_params \<Rightarrow> tool_error + hybrid_weights" where
  "recall_weights p =
     (case rl_alpha p of
        None \<Rightarrow> Inr (weights_for_query (rl_query p))
      | Some a \<Rightarrow> map_sum (\<lambda>_. Message ''invalid alpha: alpha must be between 0.0 and 1.0'') id
                    (weights_try_new a))"

definition recall_subgraph ::
  "str \<Rightarrow> nat \<Rightarrow> str \<Rightarrow> scope_walk \<Rightarrow> claim_row list \<Rightarrow> db \<Rightarrow> graph_expansion result" where
  "recall_subgraph query hops scope walk claims d =
     rbind (expand_with_scope query hops None scope walk d) (\<lambda>g.
     case claims of
       c # _ \<Rightarrow> if ge_edges g = [] then expand_with_scope (c_subject c) hops None scope walk d else Inr g
     | [] \<Rightarrow> Inr g)"

definition recall_claims ::
  "aver_tools \<Rightarrow> world \<Rightarrow> str \<Rightarrow> recall_filters \<Rightarrow> nat \<Rightarrow> hybrid_weights
    \<Rightarrow> db \<Rightarrow> (claim_row list \<times> str list \<times> str \<times> f64 option) result" where
  "recall_claims tools wd query f top_k w d =
     rbind (tool_recall_hybrid tools wd query f top_k w d) (\<lambda>h.
     rbind (case h of
              Some (claims, chunks) \<Rightarrow> Inr (claims, chunks, ''hybrid'', Some (hw_alpha w))
            | None \<Rightarrow>
                rbind (recall_text \<lparr> ry_query = query, ry_filters = f, ry_top_k = None \<rparr> d) (\<lambda>claims.
                Inr (claims, [], ''keyword'', None))) (\<lambda>(claims, chunks, retrieval, alpha).
     Inr (take top_k claims, chunks, retrieval, alpha)))"

definition confidence_floor :: "f64 list \<Rightarrow> f64" where
  "confidence_floor xs = (case xs of [] \<Rightarrow> Fin 0 | y # ys \<Rightarrow> fold min ys y)"

definition recall_tool :: "aver_tools \<Rightarrow> world \<Rightarrow> recall_params \<Rightarrow> recall_view query" where
  "recall_tool tools wd p d =
     rbind (validate_tool_top_k (or_default (rl_top_k p) 5)) (\<lambda>top_k.
     rbind (parse_scope_walk (wd_debug wd) (rl_scope_walk p) (rl_scope p)) (\<lambda>walk.
     rbind (recall_filters_of (wd_debug wd) p walk) (\<lambda>f.
     rbind (recall_weights p) (\<lambda>w.
     rbind (core (recall_claims tools wd (rl_query p) f top_k w d)) (\<lambda>(claims, chunks, retrieval, alpha).
     rbind (validate_hops (or_default (rl_hops p) 2)) (\<lambda>hops.
     rbind (core (recall_subgraph (rl_query p) hops (rf_scope f) walk claims d)) (\<lambda>g.
     Inr \<lparr> vl_triples = map claim_view_of claims, vl_chunks = chunks, vl_subgraph = graph_view_of g,
           vl_confidence_floor = confidence_floor (map c_confidence (claims @ ge_edges g)),
           vl_retrieval = retrieval, vl_alpha = alpha \<rparr>)))))))"

definition expand_tool :: "world \<Rightarrow> expand_params \<Rightarrow> graph_view query" where
  "expand_tool wd p d =
     rbind (validate_hops (or_default (xp_hops p) 2)) (\<lambda>hops.
     rbind (parse_scope_walk (wd_debug wd) (xp_scope_walk p) (xp_scope p)) (\<lambda>walk.
     rbind (core (expand_with_scope (xp_entity p) hops (xp_predicates p)
                    (or_default (xp_scope p) ''global'') walk d)) (\<lambda>g.
     Inr (graph_view_of g))))"

definition communities_tool :: "world \<Rightarrow> communities_params \<Rightarrow> communities_view query" where
  "communities_tool wd p d =
     rbind (validate_tool_top_k (or_default (cq_top_k p) 20)) (\<lambda>top_k.
     let scope = or_default (cq_scope p) ''global''
     in rbind (parse_scope_walk (wd_debug wd) (cq_scope_walk p) (cq_scope p)) (\<lambda>walk.
        rbind (core (detect_communities_with_scope scope walk d)) (\<lambda>cs.
        let kept = [c \<leftarrow> cs. cm_members c \<noteq> [] \<and> or_default (cq_min_members p) 2 \<le> length (cm_members c)];
            ranked = sort_by (\<lambda>a b. vm_score b < vm_score a
                                   \<or> (vm_score a = vm_score b \<and> vm_id a \<le> vm_id b))
                       (map community_view_of kept)
        in Inr \<lparr> vs_communities = take top_k ranked, vs_scope = scope,
                 vs_scope_walk = scope_walk_as_str walk \<rparr>)))"

definition path_query_of :: "path_params \<Rightarrow> nat \<Rightarrow> scope_walk \<Rightarrow> path_query" where
  "path_query_of p max_hops walk =
     \<lparr> gq_source = pq_from p, gq_target = pq_to p,
       gq_min_confidence = or_default (pq_min_confidence p) (Fin 0), gq_allowed_provenance = None,
       gq_max_hops = max_hops, gq_predicates = pq_predicates p, gq_mode = Directed,
       gq_scope = or_default (pq_scope p) ''global'', gq_walk = walk \<rparr>"

definition path_tool :: "world \<Rightarrow> path_params \<Rightarrow> path_view query" where
  "path_tool wd p d =
     rbind (validate_hops (or_default (pq_max_hops p) 4)) (\<lambda>max_hops.
     rbind (parse_scope_walk (wd_debug wd) (pq_scope_walk p) (pq_scope p)) (\<lambda>walk.
     rbind (core (graph_path (path_query_of p max_hops walk) d)) (\<lambda>found.
     let steps = (case found of None \<Rightarrow> [] | Some g \<Rightarrow> gp_steps g)
     in Inr \<lparr> vt_found = (found \<noteq> None), vt_hops = length steps,
              vt_confidence = (case found of None \<Rightarrow> Fin 0 | Some g \<Rightarrow> gp_confidence g),
              vt_path = map path_step_view_of steps,
              vt_scope = or_default (pq_scope p) ''global'', vt_scope_walk = scope_walk_as_str walk \<rparr>)))"

definition should_extract_tool ::
  "aver_tools \<Rightarrow> str \<Rightarrow> nat \<Rightarrow> (bool \<times> str list option) query" where
  "should_extract_tool tools session event_threshold d =
     core (case tl_decision tools of
       None \<Rightarrow> rbind (should_extract_memories session event_threshold d) (\<lambda>b. Inr (b, None))
     | Some client \<Rightarrow>
         rbind (extraction_decision_with_client client session event_threshold None (tl_min_confidence tools) d) (\<lambda>x.
         Inr (list_ex (\<lambda>r. r \<noteq> UncoveredCoverageGap) (ed_reasons x),
              Some (map trigger_reason_as_str (ed_reasons x)))))"

definition list_candidates_tool :: "str option \<Rightarrow> str option \<Rightarrow> candidate_view list query" where
  "list_candidates_tool session status d =
     core (rbind (list_candidate_claims session status d) (\<lambda>ks. Inr (map candidate_view_of ks)))"

definition recall_observation_tool :: "str \<Rightarrow> observation_recall_view query" where
  "recall_observation_tool i d =
     core (rbind (recall_observation i d) (\<lambda>r. Inr (observation_recall_view_of r)))"

definition coverage_tool :: "str \<Rightarrow> coverage query" where
  "coverage_tool session d = core (observation_coverage session d)"

definition summary_tool :: "str \<Rightarrow> (str \<times> str) query" where
  "summary_tool session d =
     core (rbind (assemble_compaction_summary session d) (\<lambda>t. Inr (session, t)))"

subsection \<open>Writing tools\<close>

definition remember_claim_tool :: "world \<Rightarrow> remember_params \<Rightarrow> claim_view tool" where
  "remember_claim_tool wd p =
     tool_bind (tool_check (mcp_agent (rm_agent_id p) (rm_agent_kind p) ''mcp'' ExternalTool)) (\<lambda>(agent, kind).
     tool_bind (tool_op (add_claim (wd_envs wd 0)
       (claim_write_from_agent agent kind (rm_subject p) (rm_predicate p) (rm_object p)
          (or_default (rm_source p) ''mcp'') \<lparr> cw_scope := or_default (rm_scope p) ''global'' \<rparr>))) (\<lambda>i.
     tool_bind (tool_get (get_claim i)) (\<lambda>c. tool_ret (claim_view_of c))))"

definition add_triple_tool :: "world \<Rightarrow> triple_params \<Rightarrow> (int \<times> str) tool" where
  "add_triple_tool wd p =
     tool_bind (tool_check (mcp_agent (at_agent_id p) (at_agent_kind p) ''local'' Human)) (\<lambda>(agent, kind).
     tool_bind (tool_op (add_claim (wd_envs wd 0)
       (claim_write_from_agent agent kind (at_subject p) (at_predicate p) (at_object p) (at_source p)
          \<lparr> cw_confidence := or_default (at_confidence p) (f64_round (95 / 100)),
            cw_scope := or_default (at_scope p) ''global'' \<rparr>))) (\<lambda>i.
     tool_ret (i, ''appended'')))"

text \<open>A replacement inherits the scope of the contradicted claim.\<close>

definition contradict_write :: "contradict_params \<Rightarrow> db \<Rightarrow> claim_write option result" where
  "contradict_write p d =
     (case ct_new_claim p of
        None \<Rightarrow> Inr None
      | Some n \<Rightarrow>
          rbind (mcp_agent (nc_agent_id n) (nc_agent_kind n) ''local'' Human) (\<lambda>(agent, kind).
          rbind (case nc_scope n of
                   Some scope \<Rightarrow> Inr scope
                 | None \<Rightarrow> rbind (get_claim (ct_triple_id p) d) (\<lambda>c. Inr (c_scope c))) (\<lambda>scope.
          Inr (Some (claim_write_from_agent agent kind (nc_subject n) (nc_predicate n) (nc_object n)
                       (nc_source n) \<lparr> cw_scope := scope \<rparr>)))))"

definition contradict_tool :: "world \<Rightarrow> contradict_params \<Rightarrow> contradiction_view tool" where
  "contradict_tool wd p =
     tool_bind (tool_get (contradict_write p)) (\<lambda>new_claim.
     tool_bind (tool_op (contradict (wd_envs wd 0) (wd_envs wd 1) (ct_triple_id p) (ct_reason p) new_claim)) (\<lambda>x.
     tool_ret (contradiction_view_of x)))"

definition consolidate_tool :: "world \<Rightarrow> str option \<Rightarrow> consolidation_report tool" where
  "consolidate_tool wd scope =
     (case scope of
        Some sc \<Rightarrow>
          if sc \<noteq> ''all'' then tool_fail (''unsupported consolidation scope: '' @ sc)
          else tool_op (consolidate_report (wd_envs wd 0) (wd_envs wd 1) (wd_envs wd 2))
      | None \<Rightarrow> tool_op (consolidate_report (wd_envs wd 0) (wd_envs wd 1) (wd_envs wd 2)))"

definition record_event_tool :: "world \<Rightarrow> record_event_params \<Rightarrow> event_view tool" where
  "record_event_tool wd p =
     tool_bind (tool_check (agent_kind_from_str (or_default (re_agent_kind p) ''EXTERNAL_TOOL''))) (\<lambda>kind.
     tool_bind (tool_op (record_event (wd_envs wd 0)
       (event_write_new (re_session_id p) (re_kind p) (re_payload p) (or_default (re_source p) ''mcp'')
          \<lparr> ew_agent_id := or_default (re_agent_id p) ''mcp'', ew_agent_kind := kind,
            ew_scope := or_default (re_scope p) ''global'' \<rparr>))) (\<lambda>i.
     tool_bind (tool_get (get_event i)) (\<lambda>e. tool_ret (event_view_of e))))"

definition propose_tool :: "world \<Rightarrow> propose_params \<Rightarrow> candidate_view tool" where
  "propose_tool wd p =
     tool_bind (tool_op (propose_candidate_claim (wd_envs wd 0)
       (candidate_write_new (pc_event_id p) (pc_subject p) (pc_predicate p) (pc_object p)
          \<lparr> kw_scope := or_default (pc_scope p) ''global'' \<rparr>))) (\<lambda>i.
     tool_bind (tool_get (get_candidate_claim i)) (\<lambda>k. tool_ret (candidate_view_of k)))"

definition promote_tool :: "world \<Rightarrow> int \<Rightarrow> claim_view tool" where
  "promote_tool wd candidate_id =
     tool_bind (tool_op (promote_candidate_claim (wd_envs wd 0) candidate_id)) (\<lambda>i.
     tool_bind (tool_get (get_claim i)) (\<lambda>c. tool_ret (claim_view_of c)))"

definition triage_tool :: "aver_tools \<Rightarrow> world \<Rightarrow> int \<Rightarrow> (int \<times> str \<times> int option) tool" where
  "triage_tool tools wd candidate_id =
     (case tl_decision tools of
        None \<Rightarrow> tool_fail ''decision model not configured (set AVER_DECISION_MODEL)''
      | Some client \<Rightarrow>
          tool_bind (tool_op (triage_candidate_claim (wd_encode wd) client (wd_envs wd 0) candidate_id
                                (tl_min_confidence tools))) (\<lambda>t.
          case t of
            Promote \<Rightarrow> tool_bind (tool_get (get_candidate_claim candidate_id)) (\<lambda>k.
                         tool_ret (candidate_id, ''promote'', k_promoted_claim_id k))
          | Reject \<Rightarrow> tool_ret (candidate_id, ''reject'', None)
          | Hold \<Rightarrow> tool_ret (candidate_id, ''hold'', None)))"

definition reject_tool :: "world \<Rightarrow> int \<Rightarrow> str \<Rightarrow> candidate_view tool" where
  "reject_tool wd candidate_id reason =
     tool_bind (tool_op (reject_candidate_claim (wd_envs wd 0) candidate_id reason)) (\<lambda>_.
     tool_bind (tool_get (get_candidate_claim candidate_id)) (\<lambda>k. tool_ret (candidate_view_of k)))"

definition record_observation_tool :: "world \<Rightarrow> record_observation_params \<Rightarrow> observation_view tool" where
  "record_observation_tool wd p =
     tool_bind (tool_op (record_observation (wd_envs wd 0)
       (observation_write_new (ro_session_id p) (ro_content p) (ro_relevance p) (ro_source_event_ids p)
          (ro_derivation p) \<lparr> ow_scope := or_default (ro_scope p) ''global'' \<rparr>))) (\<lambda>i.
     tool_bind (tool_get (get_observation i)) (\<lambda>x. tool_ret (observation_view_of x)))"

definition retire_tool :: "world \<Rightarrow> int \<Rightarrow> str \<Rightarrow> (int \<times> str) tool" where
  "retire_tool wd claim_id reason =
     tool_bind (tool_op (retire_claim (wd_envs wd 0) claim_id reason)) (\<lambda>_.
     tool_ret (claim_id, ''INVALIDATED''))"

text \<open>Only text the core's checks accept leaves the process for an embedding.\<close>

definition chunk_embedding :: "aver_tools \<Rightarrow> str \<Rightarrow> f64 list option" where
  "chunk_embedding tools txt =
     (case tl_embedder tools of
        None \<Rightarrow> None
      | Some embedder \<Rightarrow>
          if \<not> blank txt \<and> is_ok (privacy_filter txt)
          then (case embedder txt of Inl _ \<Rightarrow> None | Inr e \<Rightarrow> Some e) else None)"

definition add_vector_chunk_tool :: "aver_tools \<Rightarrow> world \<Rightarrow> int \<Rightarrow> str \<Rightarrow> (int \<times> int \<times> str) tool" where
  "add_vector_chunk_tool tools wd claim_id txt =
     tool_bind (tool_op
       (case chunk_embedding tools txt of
          Some e \<Rightarrow> add_vector_chunk_with_embedding (wd_envs wd 0) claim_id txt (tl_embedding_model tools) e
        | None \<Rightarrow> add_vector_chunk (wd_envs wd 0) claim_id txt (tl_embedding_model tools))) (\<lambda>i.
     tool_ret (i, claim_id, txt))"

subsection \<open>The extract tool\<close>

text \<open>\<open>Path::starts_with\<close> on canonical paths: by components.\<close>

definition components :: "str \<Rightarrow> str list" where
  "components p = [w \<leftarrow> split_on ((=) (CHR ''/'')) p. w \<noteq> []]"

definition path_inside :: "str \<Rightarrow> str \<Rightarrow> bool" where
  "path_inside base p \<longleftrightarrow> prefix (components base) (components p)"

definition is_absolute :: "str \<Rightarrow> bool" where
  "is_absolute p \<longleftrightarrow> starts_with p ''/''"

text \<open>Each fact under its own environment; a privacy rejection is counted, another error ends it.\<close>

definition extracted_write :: "str \<Rightarrow> str \<Rightarrow> str \<Rightarrow> extractor_fact \<Rightarrow> claim_write" where
  "extracted_write agent scope path f =
     claim_write_from_agent agent DeterministicParser (f_subject f) (f_predicate f) (f_object f) path
       \<lparr> cw_scope := scope \<rparr>"

fun ingest_facts :: "(nat \<Rightarrow> env) \<Rightarrow> nat \<Rightarrow> claim_write list \<Rightarrow> nat \<Rightarrow> nat \<Rightarrow> (nat \<times> nat) tool" where
  "ingest_facts evs n [] ingested privacy s = (Inr (ingested, privacy), s)"
| "ingest_facts evs n (w # ws) ingested privacy s =
     (case add_claim (evs n) w s of
        (Inr _, s') \<Rightarrow> ingest_facts evs (n + 1) ws (ingested + 1) privacy s'
      | (Inl (EPrivacy _), s') \<Rightarrow> ingest_facts evs (n + 1) ws ingested (privacy + 1) s'
      | (Inl e, s') \<Rightarrow> (Inl (Core e), s'))"

definition extract_checks ::
  "extract_limits \<Rightarrow> world \<Rightarrow> extract_params \<Rightarrow> tool_error + extraction" where
  "extract_checks limits wd p =
     rbind (ok_or (Message ''extract is disabled: the server operator must set AVER_EXTRACT_ROOT to the directory extract may read'')
              (xl_root limits)) (\<lambda>base.
     rbind (case ep_lang p of
              None \<Rightarrow> Inr ()
            | Some lang \<Rightarrow> ensure (lang \<in> set LANGUAGES)
                (Message (''invalid lang: '' @ lang @ ''; expected one of '' @ join '', '' LANGUAGES))) (\<lambda>_.
     rbind (ensure (is_absolute (ep_path p)) (Message ''invalid path: must be absolute'')) (\<lambda>_.
     rbind (map_sum (\<lambda>e. Message (''AVER_EXTRACT_ROOT '' @ base @ '' is unusable: '' @ e)) id
              (wd_canonicalize wd base)) (\<lambda>cbase.
     rbind (map_sum (\<lambda>e. Message (''invalid path: '' @ ep_path p @ '': '' @ e)) id
              (wd_canonicalize wd (ep_path p))) (\<lambda>path.
     rbind (ensure (path_inside cbase path) (Message ''invalid path: must be inside AVER_EXTRACT_ROOT'')) (\<lambda>_.
     rbind (map_sum Message id (rbind (wd_stat wd path) (\<lambda>e. extract_tree (wd_parse wd) path e (ep_lang p)))) (\<lambda>x.
     rbind (ensure (files_scanned x \<le> xl_max_files limits)
              (Message (''too many files: '' @ show_nat (files_scanned x) @ '' scanned, AVER_EXTRACT_MAX_FILES is ''
                 @ show_nat (xl_max_files limits) @ ''; extract a narrower path''))) (\<lambda>_.
     Inr x))))))))"

definition extract_tool :: "aver_tools \<Rightarrow> world \<Rightarrow> extract_params \<Rightarrow> extract_view tool" where
  "extract_tool tools wd p =
     tool_bind (\<lambda>s. (extract_checks (tl_extract tools) wd p, s)) (\<lambda>x.
     let scope = or_default (ep_scope p) ''global'';
         writes = concat (map (\<lambda>f. map (extracted_write (ep_agent_id p) scope (ff_path f)) (ff_facts f)) (xt_files x))
     in tool_bind (ingest_facts (wd_envs wd) 0 (if ep_dry_run p then [] else writes) 0 0) (\<lambda>(ingested, privacy).
        tool_ret \<lparr> vf_scope = scope, vf_files_scanned = files_scanned x, vf_files_failed = length (xt_failed x),
          vf_facts_extracted = xt_extracted x, vf_facts_ingested = ingested,
          vf_skipped = tbl_put ''privacy'' privacy (tbl_put ''duplicate'' (xt_duplicates x) (xt_skipped x)),
          vf_dry_run = ep_dry_run p,
          vf_note = (if scope = ''global''
             then Some ''project scoping was not applied: facts were written to the global scope'' else None) \<rparr>))"

subsection \<open>The recall-miss log\<close>

text \<open>
  \<open>crates/aver-server/src/recall_log.rs\<close>: what is recorded of a recall that found nothing or only
  weak claims. Time stamp and duration are arguments; the append itself never fails the recall.
\<close>

record miss_filters =
  mf_agent_id_set :: bool
  mf_agent_kind :: "str option"
  mf_predicate_set :: bool
  mf_min_confidence :: "f64 option"
  mf_status :: str

record recall_shape =
  sh_query_len :: nat
  sh_query_tokens :: nat
  sh_scope :: str
  sh_scope_walk :: str
  sh_filters :: miss_filters
  sh_top_k :: nat

record miss_event =
  me_ts :: str
  me_kind :: str
  me_agent_id :: str
  me_query_len :: nat
  me_query_tokens :: nat
  me_scope :: str
  me_scope_walk :: str
  me_filters :: miss_filters
  me_alpha :: "f64 option"
  me_retrieval :: str
  me_top_k :: nat
  me_claims_returned :: nat
  me_chunks_returned :: nat
  me_top_confidence :: "f64 option"
  me_duration_ms :: nat

definition query_counts :: "str \<Rightarrow> nat \<times> nat" where
  "query_counts q = (length (chars_of q), length (split_whitespace q))"

definition miss_log_from_values :: "(str \<Rightarrow> f64 option) \<Rightarrow> str option \<Rightarrow> str option \<Rightarrow> f64 option" where
  "miss_log_from_values parse_f64 enabled weak =
     (if map_option trim enabled \<noteq> Some ''1'' then None
      else (case Option.bind weak (\<lambda>v. parse_f64 (trim v)) of
              None \<Rightarrow> Some (Fin (1 / 2))
            | Some x \<Rightarrow> Some (if in_unit x then x else Fin (1 / 2))))"

definition recall_request_shape :: "(str \<Rightarrow> str) \<Rightarrow> recall_params \<Rightarrow> recall_shape" where
  "recall_request_shape debug p =
     \<lparr> sh_query_len = fst (query_counts (rl_query p)), sh_query_tokens = snd (query_counts (rl_query p)),
       sh_scope = or_default (rl_scope p) ''global'',
       sh_scope_walk = scope_walk_as_str
         (case parse_scope_walk debug (rl_scope_walk p) (rl_scope p) of Inl _ \<Rightarrow> ScopeAny | Inr w \<Rightarrow> w),
       sh_filters =
         \<lparr> mf_agent_id_set = (rl_agent_id p \<noteq> None),
           mf_agent_kind = Option.bind (rl_agent_kind p)
             (\<lambda>k. case agent_kind_from_str k of Inl _ \<Rightarrow> None | Inr x \<Rightarrow> Some (agent_kind_as_str x)),
           mf_predicate_set = (rl_predicate p \<noteq> None), mf_min_confidence = rl_min_confidence p,
           mf_status = (case rl_status p of
              None \<Rightarrow> status_as_str Active
            | Some st \<Rightarrow> if st = ''any'' then ''any''
                         else (case status_from_str st of Inl _ \<Rightarrow> ''any'' | Inr x \<Rightarrow> status_as_str x)) \<rparr>,
       sh_top_k = or_default (rl_top_k p) 5 \<rparr>"

definition miss_event_of ::
  "f64 \<Rightarrow> str \<Rightarrow> nat \<Rightarrow> recall_shape \<Rightarrow> recall_view \<Rightarrow> str \<Rightarrow> miss_event option" where
  "miss_event_of weak ts ms sh v agent =
     (let top = (case vl_triples v of [] \<Rightarrow> None | c # _ \<Rightarrow> Some (vc_confidence c));
          event = (\<lambda>kind. Some
            \<lparr> me_ts = ts, me_kind = kind, me_agent_id = agent, me_query_len = sh_query_len sh,
              me_query_tokens = sh_query_tokens sh, me_scope = sh_scope sh,
              me_scope_walk = sh_scope_walk sh, me_filters = sh_filters sh, me_alpha = vl_alpha v,
              me_retrieval = (if vl_retrieval v = ''hybrid'' then ''hybrid'' else ''keyword''),
              me_top_k = sh_top_k sh, me_claims_returned = length (vl_triples v),
              me_chunks_returned = length (vl_chunks v), me_top_confidence = top,
              me_duration_ms = min ms (2 ^ 64 - 1) \<rparr>)
      in case top of
           None \<Rightarrow> event ''miss''
         | Some c \<Rightarrow> if f64_lt c weak then event ''weak'' else None)"

definition recall_for_agent ::
  "aver_tools \<Rightarrow> world \<Rightarrow> recall_params \<Rightarrow> str \<Rightarrow> (recall_view \<times> miss_event option) query" where
  "recall_for_agent tools wd p agent d =
     rbind (recall_tool tools wd p d) (\<lambda>v.
     Inr (v, case tl_miss_log tools of
               None \<Rightarrow> None
             | Some weak \<Rightarrow>
                 miss_event_of weak (wd_timestamp wd) (wd_elapsed_ms wd)
                   (recall_request_shape (wd_debug wd) p) v agent))"

end
