(* ===== verification/Authority.thy ===== *)
theory Authority
  imports Store_Relation Decision
begin

section \<open>What an operation may write\<close>

text \<open>
  \<open>writes K s s'\<close>: between two stores only records whose kind is in \<open>K\<close> were appended to the logs
  and applied to the projection. \<open>confined K m\<close>: whatever the arguments, the disk and the outcome,
  \<open>m\<close> writes only such records. Here for every public operation the server's tools call.
\<close>

named_theorems confined_intros

definition writes :: "str set \<Rightarrow> store \<Rightarrow> store \<Rightarrow> bool" where
  "writes K s s' \<longleftrightarrow>
     (\<forall>k. \<exists>ls. log_of k s' = log_of k s @ ls \<and> kind_of ` set ls \<subseteq> K)
     \<and> (\<exists>rs. kind_of ` set rs \<subseteq> K \<and> rfold project rs (st_db s) = Inr (st_db s'))"

definition confined :: "str set \<Rightarrow> 'a op \<Rightarrow> bool" where
  "confined K m \<longleftrightarrow> (\<forall>s q s'. m s = (q, s') \<longrightarrow> writes K s s')"

lemma writes_same: "(\<And>k. log_of k s' = log_of k s) \<Longrightarrow> st_db s' = st_db s \<Longrightarrow> writes K s s'"
  unfolding writes_def by (intro conjI allI exI [of _ "[]"]) simp_all

lemma writes_refl [simp]: "writes K s s"
  by (rule writes_same) simp_all

lemma writes_trans:
  assumes "writes K s t" and "writes K t u"
  shows "writes K s u"
proof -
  have "\<exists>ls. log_of k u = log_of k s @ ls \<and> kind_of ` set ls \<subseteq> K" for k
  proof -
    from assms obtain ls ms where "log_of k t = log_of k s @ ls" "kind_of ` set ls \<subseteq> K"
      "log_of k u = log_of k t @ ms" "kind_of ` set ms \<subseteq> K"
      unfolding writes_def by meson
    then show ?thesis by (intro exI [of _ "ls @ ms"]) auto
  qed
  moreover from assms obtain rs qs where "rfold project rs (st_db s) = Inr (st_db t)"
    "kind_of ` set rs \<subseteq> K" "rfold project qs (st_db t) = Inr (st_db u)" "kind_of ` set qs \<subseteq> K"
    unfolding writes_def by meson
  then have "kind_of ` set (rs @ qs) \<subseteq> K \<and> rfold project (rs @ qs) (st_db s) = Inr (st_db u)"
    by (auto simp: rfold_append)
  ultimately show ?thesis unfolding writes_def by blast
qed

lemma writes_mono: "writes K s s' \<Longrightarrow> K \<subseteq> L \<Longrightarrow> writes L s s'"
  unfolding writes_def by (meson subset_trans)

lemma writes_nothing: "writes {} s s' \<Longrightarrow> st_db s' = st_db s \<and> log_of k s' = log_of k s"
  unfolding writes_def by (auto dest: spec [of _ k])

lemma log_of_push: "log_of j (push_log k r s) = log_of j s @ (if j = k then [r] else [])"
  by (cases j; cases k; simp)

lemma push_db [simp]: "st_db (push_log k r s) = st_db s"
  by (cases k) simp_all

lemma writesI:
  "(\<And>k. \<exists>ls. log_of k s' = log_of k s @ ls \<and> kind_of ` set ls \<subseteq> K) \<Longrightarrow>
   kind_of ` set rs \<subseteq> K \<Longrightarrow> rfold project rs (st_db s) = Inr (st_db s') \<Longrightarrow> writes K s s'"
  unfolding writes_def by blast

lemma writes_push: "kind_of r \<in> K \<Longrightarrow> writes K s (push_log k r s)"
  by (rule writesI [of _ _ _ "[]"]) (simp_all add: log_of_push)

lemma log_of_db [simp]: "log_of k (s \<lparr> st_db := d \<rparr>) = log_of k s"
  by (cases k) simp_all

lemma writes_apply: "kind_of r \<in> K \<Longrightarrow> project r (st_db s) = Inr d \<Longrightarrow> writes K s (s \<lparr> st_db := d \<rparr>)"
  by (rule writesI [of _ _ _ "[r]"]) simp_all

subsection \<open>Rules\<close>

lemma confined_run: "confined K m \<Longrightarrow> m s = (q, s') \<Longrightarrow> writes K s s'"
  unfolding confined_def by blast

lemma confined_bind [confined_intros]: "confined K m \<Longrightarrow> (\<And>x. confined K (f x)) \<Longrightarrow> confined K (op_bind m f)"
  unfolding confined_def op_bind_cases by (blast intro: writes_trans)

lemma confined_then [confined_intros]: "confined K m \<Longrightarrow> confined K n \<Longrightarrow> confined K (op_then m n)"
  unfolding op_then_def by (rule confined_bind)

lemma confined_quiet: "quiet m \<Longrightarrow> confined K m"
  unfolding quiet_def confined_def
  by (auto simp: same_data_def intro!: writes_same)

lemma confined_basic [confined_intros]: "confined K (op_ret x)" "confined K (op_of r)" "confined K (op_read f)"
  by (auto simp: confined_def op_basic)

lemma confined_recording [confined_intros]: "confined K (recording v)" "confined K (privacy_filter_recording c)"
  "confined K (privacy_filter_path_recording p)" "confined K (privacy_paths_recording ps)"
  by (intro confined_quiet quiet_recording quiet_paths)+

lemma confined_mint [confined_intros]: "confined K (mint_op ev)"
proof -
  have "log_of k (s \<lparr> st_last := i \<rparr>) = log_of k s" for k s i by (cases k) simp_all
  then show ?thesis by (auto simp: confined_def mint_op_def Let_def intro!: writes_same)
qed

lemma confined_line [confined_intros]:
  "kind_of r \<in> K \<Longrightarrow> confined K (append_jsonl ev k r)" "kind_of r \<in> K \<Longrightarrow> confined K (apply_op r)"
  unfolding confined_def
  by (auto elim!: append_cases apply_op_cases intro: writes_push writes_apply)

lemma confined_logged [confined_intros]: "kind_of r \<in> K \<Longrightarrow> confined K (logged ev k r)"
  unfolding logged_def by (intro confined_intros)

lemma confined_transaction [confined_intros]:
  assumes "confined K m"
  shows "confined K (transaction ev m)"
  unfolding confined_def
proof (intro allI impI)
  fix s q s'
  assume "transaction ev m s = (q, s')"
  then show "writes K s s'"
  proof (cases rule: transaction_cases)
    case (fail e t)
    then have "writes K s t" using assms by (simp add: confined_run)
    moreover have "log_of k s' = log_of k t" for k by (cases k) (simp_all add: fail(3))
    moreover have "rfold project [] (st_db s) = Inr (st_db s')" by (simp add: fail(3))
    ultimately show ?thesis unfolding writes_def by (metis empty_set image_empty empty_subsetI)
  qed (use assms in \<open>auto intro: confined_run\<close>)
qed

lemma confined_each [confined_intros]: "(\<And>x. confined K (f x)) \<Longrightarrow> confined K (op_each f xs)"
  by (induction xs) (simp_all add: confined_bind confined_basic)

lemma confined_cases [confined_intros]:
  "confined K m \<Longrightarrow> confined K n \<Longrightarrow> confined K (if b then m else n)"
  "confined K m \<Longrightarrow> (\<And>y. confined K (f y)) \<Longrightarrow> confined K (case x of None \<Rightarrow> m | Some y \<Rightarrow> f y)"
  "(\<And>a b. confined K (g a b)) \<Longrightarrow> confined K (case p of (a, b) \<Rightarrow> g a b)"
  by (simp, cases x, simp_all, cases p, simp)

lemma confined_mint_and_log [confined_intros]:
  "(\<And>i. kind_of (rec i) \<in> K) \<Longrightarrow> confined K (mint_and_log ev k rec)"
  unfolding mint_and_log_def by (intro confined_intros)

subsection \<open>The operations\<close>

lemma confined_claims [confined_intros]:
  "confined K (validate_claim_write w)" "''add_claim'' \<in> K \<Longrightarrow> confined K (add_claim ev w)"
  "confined K (ensure_claim_exists i)"
  "''add_contradiction'' \<in> K \<Longrightarrow> confined K (log_contradiction ev i reason n)"
  unfolding add_claim_def insert_claim_op_def validate_claim_write_def ensure_claim_exists_def
    log_contradiction_def claim_record_def
  by (intro confined_intros; simp)+

lemma confined_lifecycle [confined_intros]:
  "''add_claim'' \<in> K \<Longrightarrow> ''add_contradiction'' \<in> K \<Longrightarrow> confined K (contradict ev1 ev2 i reason n)"
  "''retire_claim'' \<in> K \<Longrightarrow> confined K (retire_claim ev i reason)"
  unfolding contradict_def retire_claim_def insert_claim_op_def [symmetric] add_claim_def [symmetric]
  by (intro confined_intros; simp)+

lemma confined_consolidate [confined_intros]:
  assumes "{''supersede_claims'', ''decay_confidence'', ''merge_source_refs''} \<subseteq> K"
  shows "confined K (consolidate_report ev1 ev2 ev3)"
  using assms
  unfolding consolidate_report_def merge_duplicate_source_refs_def merge_group_def
    decay_contradicted_confidence_def log_decay_def supersede_claim_ids_def
  by (intro confined_intros; simp)

lemma confined_chunks [confined_intros]:
  assumes "''add_vector_chunk'' \<in> K"
  shows "confined K (add_vector_chunk ev i txt model)"
    "confined K (add_vector_chunk_with_embedding ev i txt model e)"
  using assms
  unfolding add_vector_chunk_def add_vector_chunk_with_embedding_def insert_vector_chunk_def
  by (intro confined_intros; simp)+

lemma confined_episodic [confined_intros]:
  "''record_event'' \<in> K \<Longrightarrow> confined K (record_event ev x)"
  "''record_observation'' \<in> K \<Longrightarrow> confined K (record_observation ev o1)"
  unfolding record_event_def record_observation_def log_observation_def event_record_def
  by (intro confined_intros; simp add: observation_record_def)+

lemma confined_candidates [confined_intros]:
  "''propose_candidate_claim'' \<in> K \<Longrightarrow> confined K (propose_candidate_claim ev k)"
  "{''add_claim'', ''promote_candidate_claim''} \<subseteq> K \<Longrightarrow>
     confined K (promote_candidate_claim_inner ev i attribution dec)"
  "''reject_candidate_claim'' \<in> K \<Longrightarrow> confined K (reject_candidate_claim_inner ev i reason dec)"
  unfolding propose_candidate_claim_def candidate_gate_def candidate_record_def
    promote_candidate_claim_inner_def log_promotion_def promotion_claim_def reject_candidate_claim_inner_def
  by (intro confined_intros; simp)+

lemma confined_triage [confined_intros]:
  assumes "{''add_claim'', ''promote_candidate_claim'', ''reject_candidate_claim''} \<subseteq> K"
  shows "confined K (triage_candidate_claim encode client ev i min_conf)"
proof -
  have "confined K (apply_triage ev i ch t)" for ch t
    using assms unfolding apply_triage_def Let_def
    by (cases t) (simp_all add: confined_intros)
  then show ?thesis unfolding triage_candidate_claim_def by (intro confined_intros)
qed

end
