(* ===== verification/Mcp.thy ===== *)
theory Mcp
  imports Tools Authority
begin

section \<open>The MCP service\<close>

text \<open>
  \<open>crates/aver-server/src/mcp.rs\<close>: each tool with the OAuth scope it declares, what the request
  carries (the granted scopes, the resolved memory scope and the client of the bearer token), the
  scope check, the defaults a handler fills in, and the error an agent reads. A call names its tool
  and parameters; \<open>call_tool\<close> is the router. The JSON text of a result is not built, and a poisoned
  lock of the tools is not modelled.
\<close>

subsection \<open>Tools and their scopes\<close>

record tool_scope =
  ts_name :: str
  ts_scope :: oauth_scope

definition tool_scope_new :: "str \<Rightarrow> oauth_scope \<Rightarrow> tool_scope" where
  "tool_scope_new name scope = \<lparr> ts_name = name, ts_scope = scope \<rparr>"

definition REMEMBER_CLAIM :: tool_scope where
  "REMEMBER_CLAIM = tool_scope_new ''remember_claim'' ClaimsWrite"

definition ADD_TRIPLE :: tool_scope where
  "ADD_TRIPLE = tool_scope_new ''add_triple'' ClaimsWrite"

definition EXPAND :: tool_scope where
  "EXPAND = tool_scope_new ''expand'' ClaimsRead"

definition PATH :: tool_scope where
  "PATH = tool_scope_new ''path'' ClaimsRead"

definition COMMUNITIES :: tool_scope where
  "COMMUNITIES = tool_scope_new ''communities'' ClaimsRead"

definition CONTRADICT :: tool_scope where
  "CONTRADICT = tool_scope_new ''contradict'' ClaimsWrite"

definition CONSOLIDATE :: tool_scope where
  "CONSOLIDATE = tool_scope_new ''consolidate'' ClaimsWrite"

definition RECORD_EVENT :: tool_scope where
  "RECORD_EVENT = tool_scope_new ''record_event'' EventsWrite"

definition SHOULD_EXTRACT_MEMORIES :: tool_scope where
  "SHOULD_EXTRACT_MEMORIES = tool_scope_new ''should_extract_memories'' EventsWrite"

definition PROPOSE_CANDIDATE_CLAIM :: tool_scope where
  "PROPOSE_CANDIDATE_CLAIM = tool_scope_new ''propose_candidate_claim'' CandidatesManage"

definition LIST_CANDIDATE_CLAIMS :: tool_scope where
  "LIST_CANDIDATE_CLAIMS = tool_scope_new ''list_candidate_claims'' CandidatesManage"

definition PROMOTE_CANDIDATE_CLAIM :: tool_scope where
  "PROMOTE_CANDIDATE_CLAIM = tool_scope_new ''promote_candidate_claim'' CandidatesManage"

definition TRIAGE_CANDIDATE_CLAIM :: tool_scope where
  "TRIAGE_CANDIDATE_CLAIM = tool_scope_new ''triage_candidate_claim'' CandidatesManage"

definition REJECT_CANDIDATE_CLAIM :: tool_scope where
  "REJECT_CANDIDATE_CLAIM = tool_scope_new ''reject_candidate_claim'' CandidatesManage"

definition RECORD_OBSERVATION :: tool_scope where
  "RECORD_OBSERVATION = tool_scope_new ''record_observation'' ObservationsWrite"

definition RECALL_OBSERVATION :: tool_scope where
  "RECALL_OBSERVATION = tool_scope_new ''recall_observation'' ObservationsRead"

definition OBSERVATION_COVERAGE :: tool_scope where
  "OBSERVATION_COVERAGE = tool_scope_new ''observation_coverage'' ObservationsRead"

definition ASSEMBLE_COMPACTION_SUMMARY :: tool_scope where
  "ASSEMBLE_COMPACTION_SUMMARY = tool_scope_new ''assemble_compaction_summary'' ObservationsRead"

definition ADD_VECTOR_CHUNK :: tool_scope where
  "ADD_VECTOR_CHUNK = tool_scope_new ''add_vector_chunk'' ClaimsWrite"

definition RETIRE_CLAIM :: tool_scope where
  "RETIRE_CLAIM = tool_scope_new ''retire_claim'' ClaimsWrite"

definition EXTRACT :: tool_scope where
  "EXTRACT = tool_scope_new ''extract'' ClaimsWrite"

definition RECALL :: tool_scope where
  "RECALL = tool_scope_new ''recall'' ClaimsRead"

definition TOOLS :: "tool_scope list" where
  "TOOLS = [RECALL, EXPAND, PATH, COMMUNITIES, REMEMBER_CLAIM, ADD_TRIPLE, CONTRADICT, CONSOLIDATE,
     ADD_VECTOR_CHUNK, RECORD_EVENT, SHOULD_EXTRACT_MEMORIES, PROPOSE_CANDIDATE_CLAIM,
     LIST_CANDIDATE_CLAIMS, PROMOTE_CANDIDATE_CLAIM, TRIAGE_CANDIDATE_CLAIM, REJECT_CANDIDATE_CLAIM,
     RECALL_OBSERVATION, OBSERVATION_COVERAGE, ASSEMBLE_COMPACTION_SUMMARY, RECORD_OBSERVATION,
     RETIRE_CLAIM, EXTRACT]"

lemmas tool_scope_defs = tool_scope_new_def REMEMBER_CLAIM_def ADD_TRIPLE_def EXPAND_def PATH_def
  COMMUNITIES_def CONTRADICT_def CONSOLIDATE_def RECORD_EVENT_def SHOULD_EXTRACT_MEMORIES_def
  PROPOSE_CANDIDATE_CLAIM_def LIST_CANDIDATE_CLAIMS_def PROMOTE_CANDIDATE_CLAIM_def
  TRIAGE_CANDIDATE_CLAIM_def REJECT_CANDIDATE_CLAIM_def RECORD_OBSERVATION_def RECALL_OBSERVATION_def
  OBSERVATION_COVERAGE_def ASSEMBLE_COMPACTION_SUMMARY_def ADD_VECTOR_CHUNK_def RETIRE_CLAIM_def
  EXTRACT_def RECALL_def

subsection \<open>What a request carries\<close>

text \<open>
  The request extensions: the granted scopes and the client from the bearer token, the scope from
  the headers; \<open>None\<close> when no middleware set them.
\<close>

record request_context =
  cx_granted :: "oauth_scope list option"
  cx_scope :: "resolved_scope option"
  cx_client :: "str option"

datatype error_code = INVALID_PARAMS | INTERNAL_ERROR

type_synonym mcp_error = "error_code \<times> str"

definition insufficient_scope :: "(str \<Rightarrow> str) \<Rightarrow> tool_scope \<Rightarrow> mcp_error" where
  "insufficient_scope debug t =
     (INVALID_PARAMS, ''insufficient_scope: tool '' @ debug (ts_name t) @ '' requires scope ''
        @ oauth_scope_as_str (ts_scope t))"

definition require_scope :: "(str \<Rightarrow> str) \<Rightarrow> request_context \<Rightarrow> tool_scope \<Rightarrow> mcp_error + unit" where
  "require_scope debug cx t =
     (case cx_granted cx of
        None \<Rightarrow> Inl (insufficient_scope debug t)
      | Some g \<Rightarrow> ensure (ts_scope t \<in> set g) (insufficient_scope debug t))"

definition request_scope :: "request_context \<Rightarrow> resolved_scope" where
  "request_scope cx = or_default (cx_scope cx) \<lparr> rs_scope = ''global'', rs_default_walk = ScopeAny \<rparr>"

definition UNAUTHENTICATED_AGENT_ID :: str where
  "UNAUTHENTICATED_AGENT_ID = ''mcp''"

definition request_agent_id :: "request_context \<Rightarrow> str" where
  "request_agent_id cx = or_default (cx_client cx) UNAUTHENTICATED_AGENT_ID"

subsection \<open>Handlers\<close>

text \<open>\<open>Option::or_else\<close> with a default, and the two parameters every scoped read defaults.\<close>

definition or_some :: "'a option \<Rightarrow> 'a \<Rightarrow> 'a option" where
  "or_some x y = Some (or_default x y)"

definition default_scope :: "request_context \<Rightarrow> str option \<Rightarrow> str option" where
  "default_scope cx scope = or_some scope (rs_scope (request_scope cx))"

definition default_walk :: "request_context \<Rightarrow> str option \<Rightarrow> str option \<Rightarrow> str option" where
  "default_walk cx walk scope =
     (if walk = None \<and> scope = None
      then Some (scope_walk_as_str (rs_default_walk (request_scope cx))) else walk)"

definition default_agent :: "request_context \<Rightarrow> str option \<Rightarrow> str option" where
  "default_agent cx agent = or_some agent (request_agent_id cx)"

type_synonym 'a handling = "store \<Rightarrow> (mcp_error + 'a) \<times> store"

definition json_tool_result :: "world \<Rightarrow> str \<Rightarrow> 'a tool \<Rightarrow> 'a handling" where
  "json_tool_result wd name m s =
     (case m s of
        (Inr x, s') \<Rightarrow> (Inr x, s')
      | (Inl e, s') \<Rightarrow>
          (Inl (INTERNAL_ERROR, name @ '' failed: '' @ describe_error (wd_debug wd) (st_db s') e), s'))"

definition guarded :: "world \<Rightarrow> request_context \<Rightarrow> tool_scope \<Rightarrow> 'a tool \<Rightarrow> 'a handling" where
  "guarded wd cx t m s =
     (case require_scope (wd_debug wd) cx t of
        Inl e \<Rightarrow> (Inl e, s)
      | Inr _ \<Rightarrow> json_tool_result wd (ts_name t) m s)"

definition mcp_remember_claim :: "world \<Rightarrow> request_context \<Rightarrow> remember_params \<Rightarrow> claim_view handling" where
  "mcp_remember_claim wd cx p =
     guarded wd cx REMEMBER_CLAIM (remember_claim_tool wd
       (p \<lparr> rm_agent_id := default_agent cx (rm_agent_id p), rm_scope := default_scope cx (rm_scope p) \<rparr>))"

definition mcp_add_triple :: "world \<Rightarrow> request_context \<Rightarrow> triple_params \<Rightarrow> (int \<times> str) handling" where
  "mcp_add_triple wd cx p =
     guarded wd cx ADD_TRIPLE (add_triple_tool wd
       (p \<lparr> at_scope := default_scope cx (at_scope p), at_agent_id := default_agent cx (at_agent_id p) \<rparr>))"

definition mcp_expand :: "world \<Rightarrow> request_context \<Rightarrow> expand_params \<Rightarrow> graph_view handling" where
  "mcp_expand wd cx p =
     guarded wd cx EXPAND (tool_query (expand_tool wd
       (p \<lparr> xp_scope_walk := default_walk cx (xp_scope_walk p) (xp_scope p),
            xp_scope := default_scope cx (xp_scope p) \<rparr>)))"

definition mcp_path :: "world \<Rightarrow> request_context \<Rightarrow> path_params \<Rightarrow> path_view handling" where
  "mcp_path wd cx p =
     guarded wd cx PATH (tool_query (path_tool wd
       (p \<lparr> pq_scope_walk := default_walk cx (pq_scope_walk p) (pq_scope p),
            pq_scope := default_scope cx (pq_scope p) \<rparr>)))"

definition mcp_communities ::
  "world \<Rightarrow> request_context \<Rightarrow> communities_params \<Rightarrow> communities_view handling" where
  "mcp_communities wd cx p =
     guarded wd cx COMMUNITIES (tool_query (communities_tool wd
       (p \<lparr> cq_scope_walk := default_walk cx (cq_scope_walk p) (cq_scope p),
            cq_scope := default_scope cx (cq_scope p) \<rparr>)))"

definition mcp_contradict ::
  "world \<Rightarrow> request_context \<Rightarrow> contradict_params \<Rightarrow> contradiction_view handling" where
  "mcp_contradict wd cx p =
     guarded wd cx CONTRADICT (contradict_tool wd
       (p \<lparr> ct_new_claim := map_option (\<lambda>n. n \<lparr> nc_agent_id := default_agent cx (nc_agent_id n) \<rparr>)
                               (ct_new_claim p) \<rparr>))"

definition mcp_consolidate ::
  "world \<Rightarrow> request_context \<Rightarrow> str option \<Rightarrow> consolidation_report handling" where
  "mcp_consolidate wd cx scope = guarded wd cx CONSOLIDATE (consolidate_tool wd scope)"

definition mcp_record_event ::
  "world \<Rightarrow> request_context \<Rightarrow> record_event_params \<Rightarrow> event_view handling" where
  "mcp_record_event wd cx p =
     guarded wd cx RECORD_EVENT (record_event_tool wd
       (p \<lparr> re_scope := default_scope cx (re_scope p), re_agent_id := default_agent cx (re_agent_id p) \<rparr>))"

definition mcp_should_extract_memories ::
  "aver_tools \<Rightarrow> world \<Rightarrow> request_context \<Rightarrow> str \<Rightarrow> nat \<Rightarrow> (bool \<times> str list option) handling" where
  "mcp_should_extract_memories tools wd cx session event_threshold =
     guarded wd cx SHOULD_EXTRACT_MEMORIES (tool_query (should_extract_tool tools session event_threshold))"

definition mcp_propose_candidate_claim ::
  "world \<Rightarrow> request_context \<Rightarrow> propose_params \<Rightarrow> candidate_view handling" where
  "mcp_propose_candidate_claim wd cx p =
     guarded wd cx PROPOSE_CANDIDATE_CLAIM (propose_tool wd (p \<lparr> pc_scope := default_scope cx (pc_scope p) \<rparr>))"

definition mcp_list_candidate_claims ::
  "world \<Rightarrow> request_context \<Rightarrow> str option \<Rightarrow> str option \<Rightarrow> candidate_view list handling" where
  "mcp_list_candidate_claims wd cx session status =
     guarded wd cx LIST_CANDIDATE_CLAIMS (tool_query (list_candidates_tool session status))"

definition mcp_promote_candidate_claim :: "world \<Rightarrow> request_context \<Rightarrow> int \<Rightarrow> claim_view handling" where
  "mcp_promote_candidate_claim wd cx i = guarded wd cx PROMOTE_CANDIDATE_CLAIM (promote_tool wd i)"

definition mcp_triage_candidate_claim ::
  "aver_tools \<Rightarrow> world \<Rightarrow> request_context \<Rightarrow> int \<Rightarrow> (int \<times> str \<times> int option) handling" where
  "mcp_triage_candidate_claim tools wd cx i = guarded wd cx TRIAGE_CANDIDATE_CLAIM (triage_tool tools wd i)"

definition mcp_reject_candidate_claim ::
  "world \<Rightarrow> request_context \<Rightarrow> int \<Rightarrow> str \<Rightarrow> candidate_view handling" where
  "mcp_reject_candidate_claim wd cx i reason =
     guarded wd cx REJECT_CANDIDATE_CLAIM (reject_tool wd i reason)"

definition mcp_record_observation ::
  "world \<Rightarrow> request_context \<Rightarrow> record_observation_params \<Rightarrow> observation_view handling" where
  "mcp_record_observation wd cx p =
     guarded wd cx RECORD_OBSERVATION (record_observation_tool wd (p \<lparr> ro_scope := default_scope cx (ro_scope p) \<rparr>))"

definition mcp_recall_observation ::
  "world \<Rightarrow> request_context \<Rightarrow> str \<Rightarrow> observation_recall_view handling" where
  "mcp_recall_observation wd cx i =
     guarded wd cx RECALL_OBSERVATION (tool_query (recall_observation_tool i))"

definition mcp_observation_coverage :: "world \<Rightarrow> request_context \<Rightarrow> str \<Rightarrow> coverage handling" where
  "mcp_observation_coverage wd cx session =
     guarded wd cx OBSERVATION_COVERAGE (tool_query (coverage_tool session))"

definition mcp_assemble_compaction_summary ::
  "world \<Rightarrow> request_context \<Rightarrow> str \<Rightarrow> (str \<times> str) handling" where
  "mcp_assemble_compaction_summary wd cx session =
     guarded wd cx ASSEMBLE_COMPACTION_SUMMARY (tool_query (summary_tool session))"

definition mcp_add_vector_chunk ::
  "aver_tools \<Rightarrow> world \<Rightarrow> request_context \<Rightarrow> int \<Rightarrow> str \<Rightarrow> (int \<times> int \<times> str) handling" where
  "mcp_add_vector_chunk tools wd cx i txt =
     guarded wd cx ADD_VECTOR_CHUNK (add_vector_chunk_tool tools wd i txt)"

definition mcp_retire_claim :: "world \<Rightarrow> request_context \<Rightarrow> int \<Rightarrow> str \<Rightarrow> (int \<times> str) handling" where
  "mcp_retire_claim wd cx i reason = guarded wd cx RETIRE_CLAIM (retire_tool wd i reason)"

text \<open>The service's own parameter types: \<open>recall\<close> has no typed filters, \<open>extract\<close> no agent.\<close>

record mcp_extract_params =
  mx_path :: str
  mx_scope :: "str option"
  mx_lang :: "str option"
  mx_dry_run :: bool

definition mcp_extract ::
  "aver_tools \<Rightarrow> world \<Rightarrow> request_context \<Rightarrow> mcp_extract_params \<Rightarrow> extract_view handling" where
  "mcp_extract tools wd cx p =
     guarded wd cx EXTRACT (extract_tool tools wd
       \<lparr> ep_path = mx_path p, ep_scope = default_scope cx (mx_scope p), ep_lang = mx_lang p,
         ep_dry_run = mx_dry_run p, ep_agent_id = request_agent_id cx \<rparr>)"

definition default_top_k :: nat where
  "default_top_k = 5"

text \<open>\<open>mr_top_k\<close> is \<open>default_top_k\<close> when the call leaves it out.\<close>

record mcp_recall_params =
  mr_query :: str
  mr_hops :: "nat option"
  mr_top_k :: nat
  mr_scope :: "str option"
  mr_scope_walk :: "str option"
  mr_alpha :: "f64 option"

definition mcp_recall ::
  "aver_tools \<Rightarrow> world \<Rightarrow> request_context \<Rightarrow> mcp_recall_params
    \<Rightarrow> (recall_view \<times> miss_event option) handling" where
  "mcp_recall tools wd cx p =
     guarded wd cx RECALL (tool_query (\<lambda>d. recall_for_agent tools wd
       \<lparr> rl_query = mr_query p, rl_hops = mr_hops p, rl_top_k = Some (mr_top_k p),
         rl_scope = default_scope cx (mr_scope p),
         rl_scope_walk = default_walk cx (mr_scope_walk p) (mr_scope p),
         rl_agent_id = None, rl_agent_kind = None, rl_predicate = None, rl_predicate_walk = None,
         rl_min_confidence = None, rl_status = None, rl_alpha = mr_alpha p \<rparr>
       (request_agent_id cx) d))"

subsection \<open>The router\<close>

datatype tool_call =
    CallRecall mcp_recall_params
  | CallExpand expand_params
  | CallPath path_params
  | CallCommunities communities_params
  | CallRememberClaim remember_params
  | CallAddTriple triple_params
  | CallContradict contradict_params
  | CallConsolidate "str option"
  | CallAddVectorChunk int str
  | CallRecordEvent record_event_params
  | CallShouldExtractMemories str nat
  | CallProposeCandidateClaim propose_params
  | CallListCandidateClaims "str option" "str option"
  | CallPromoteCandidateClaim int
  | CallTriageCandidateClaim int
  | CallRejectCandidateClaim int str
  | CallRecallObservation str
  | CallObservationCoverage str
  | CallAssembleCompactionSummary str
  | CallRecordObservation record_observation_params
  | CallRetireClaim int str
  | CallExtract mcp_extract_params

datatype tool_output =
    OutRecall recall_view "miss_event option"
  | OutGraph graph_view
  | OutPath path_view
  | OutCommunities communities_view
  | OutClaim claim_view
  | OutTriple int str
  | OutContradiction contradiction_view
  | OutConsolidate consolidation_report
  | OutChunk int int str
  | OutEvent event_view
  | OutShouldExtract bool "str list option"
  | OutCandidate candidate_view
  | OutCandidates "candidate_view list"
  | OutTriage int str "int option"
  | OutObservationRecall observation_recall_view
  | OutCoverage coverage
  | OutSummary str str
  | OutObservation observation_view
  | OutRetire int str
  | OutExtract extract_view

fun tool_of :: "tool_call \<Rightarrow> tool_scope" where
  "tool_of (CallRecall _) = RECALL"
| "tool_of (CallExpand _) = EXPAND"
| "tool_of (CallPath _) = PATH"
| "tool_of (CallCommunities _) = COMMUNITIES"
| "tool_of (CallRememberClaim _) = REMEMBER_CLAIM"
| "tool_of (CallAddTriple _) = ADD_TRIPLE"
| "tool_of (CallContradict _) = CONTRADICT"
| "tool_of (CallConsolidate _) = CONSOLIDATE"
| "tool_of (CallAddVectorChunk _ _) = ADD_VECTOR_CHUNK"
| "tool_of (CallRecordEvent _) = RECORD_EVENT"
| "tool_of (CallShouldExtractMemories _ _) = SHOULD_EXTRACT_MEMORIES"
| "tool_of (CallProposeCandidateClaim _) = PROPOSE_CANDIDATE_CLAIM"
| "tool_of (CallListCandidateClaims _ _) = LIST_CANDIDATE_CLAIMS"
| "tool_of (CallPromoteCandidateClaim _) = PROMOTE_CANDIDATE_CLAIM"
| "tool_of (CallTriageCandidateClaim _) = TRIAGE_CANDIDATE_CLAIM"
| "tool_of (CallRejectCandidateClaim _ _) = REJECT_CANDIDATE_CLAIM"
| "tool_of (CallRecallObservation _) = RECALL_OBSERVATION"
| "tool_of (CallObservationCoverage _) = OBSERVATION_COVERAGE"
| "tool_of (CallAssembleCompactionSummary _) = ASSEMBLE_COMPACTION_SUMMARY"
| "tool_of (CallRecordObservation _) = RECORD_OBSERVATION"
| "tool_of (CallRetireClaim _ _) = RETIRE_CLAIM"
| "tool_of (CallExtract _) = EXTRACT"

definition reply :: "('a \<Rightarrow> 'b) \<Rightarrow> 'a handling \<Rightarrow> 'b handling" where
  "reply f h s = (case h s of (r, s') \<Rightarrow> (map_sum id f r, s'))"

fun call_tool :: "aver_tools \<Rightarrow> world \<Rightarrow> request_context \<Rightarrow> tool_call \<Rightarrow> tool_output handling" where
  "call_tool tools wd cx (CallRecall p) = reply (\<lambda>(v, e). OutRecall v e) (mcp_recall tools wd cx p)"
| "call_tool tools wd cx (CallExpand p) = reply OutGraph (mcp_expand wd cx p)"
| "call_tool tools wd cx (CallPath p) = reply OutPath (mcp_path wd cx p)"
| "call_tool tools wd cx (CallCommunities p) = reply OutCommunities (mcp_communities wd cx p)"
| "call_tool tools wd cx (CallRememberClaim p) = reply OutClaim (mcp_remember_claim wd cx p)"
| "call_tool tools wd cx (CallAddTriple p) = reply (\<lambda>(i, t). OutTriple i t) (mcp_add_triple wd cx p)"
| "call_tool tools wd cx (CallContradict p) = reply OutContradiction (mcp_contradict wd cx p)"
| "call_tool tools wd cx (CallConsolidate sc) = reply OutConsolidate (mcp_consolidate wd cx sc)"
| "call_tool tools wd cx (CallAddVectorChunk i t) =
     reply (\<lambda>(i, c, t). OutChunk i c t) (mcp_add_vector_chunk tools wd cx i t)"
| "call_tool tools wd cx (CallRecordEvent p) = reply OutEvent (mcp_record_event wd cx p)"
| "call_tool tools wd cx (CallShouldExtractMemories session n) =
     reply (\<lambda>(b, rs). OutShouldExtract b rs) (mcp_should_extract_memories tools wd cx session n)"
| "call_tool tools wd cx (CallProposeCandidateClaim p) =
     reply OutCandidate (mcp_propose_candidate_claim wd cx p)"
| "call_tool tools wd cx (CallListCandidateClaims session status) =
     reply OutCandidates (mcp_list_candidate_claims wd cx session status)"
| "call_tool tools wd cx (CallPromoteCandidateClaim i) =
     reply OutClaim (mcp_promote_candidate_claim wd cx i)"
| "call_tool tools wd cx (CallTriageCandidateClaim i) =
     reply (\<lambda>(i, t, c). OutTriage i t c) (mcp_triage_candidate_claim tools wd cx i)"
| "call_tool tools wd cx (CallRejectCandidateClaim i reason) =
     reply OutCandidate (mcp_reject_candidate_claim wd cx i reason)"
| "call_tool tools wd cx (CallRecallObservation i) =
     reply OutObservationRecall (mcp_recall_observation wd cx i)"
| "call_tool tools wd cx (CallObservationCoverage session) =
     reply OutCoverage (mcp_observation_coverage wd cx session)"
| "call_tool tools wd cx (CallAssembleCompactionSummary session) =
     reply (\<lambda>(i, t). OutSummary i t) (mcp_assemble_compaction_summary wd cx session)"
| "call_tool tools wd cx (CallRecordObservation p) =
     reply OutObservation (mcp_record_observation wd cx p)"
| "call_tool tools wd cx (CallRetireClaim i reason) =
     reply (\<lambda>(i, t). OutRetire i t) (mcp_retire_claim wd cx i reason)"
| "call_tool tools wd cx (CallExtract p) = reply OutExtract (mcp_extract tools wd cx p)"

end
