(* ===== verification/Tool_Relation.thy ===== *)
theory Tool_Relation
  imports Mcp
begin

section \<open>Relations a tool keeps\<close>

text \<open>
  A tool is a sequence of checks, queries and store operations. The locale \<open>tool_relation\<close> is the
  contract of a relation between the stores before and after: where every operation a tool calls
  keeps it, the tool keeps it, whichever of its steps fails. Two relations use it: what the logs and
  the projection may gain, and being the end of a sequence of the store's operations.
\<close>

definition op_within :: "(store \<Rightarrow> store \<Rightarrow> bool) \<Rightarrow> 'a op \<Rightarrow> bool" where
  "op_within R m \<longleftrightarrow> (\<forall>s. R s (snd (m s)))"

definition tool_within :: "(store \<Rightarrow> store \<Rightarrow> bool) \<Rightarrow> 'a tool \<Rightarrow> bool" where
  "tool_within R m \<longleftrightarrow> (\<forall>s. R s (snd (m s)))"

definition granted :: "request_context \<Rightarrow> tool_scope \<Rightarrow> bool" where
  "granted cx t = (case cx_granted cx of None \<Rightarrow> False | Some g \<Rightarrow> ts_scope t \<in> set g)"

named_theorems within_intros

lemma op_within_cases [within_intros]:
  "op_within R m \<Longrightarrow> op_within R n \<Longrightarrow> op_within R (if b then m else n)"
  "op_within R m \<Longrightarrow> (\<And>y. op_within R (g y)) \<Longrightarrow> op_within R (case x of None \<Rightarrow> m | Some y \<Rightarrow> g y)"
  by (simp, cases x, simp_all)

lemma tool_within_cases [within_intros]:
  "tool_within R m \<Longrightarrow> tool_within R n \<Longrightarrow> tool_within R (if b then m else n)"
  "tool_within R m \<Longrightarrow> (\<And>y. tool_within R (f y)) \<Longrightarrow> tool_within R (case x of None \<Rightarrow> m | Some y \<Rightarrow> f y)"
  "(\<And>a b. tool_within R (g a b)) \<Longrightarrow> tool_within R (case p of (a, b) \<Rightarrow> g a b)"
  by (simp, cases x, simp_all, cases p, simp)

lemma tool_within_op [within_intros]: "op_within R m \<Longrightarrow> tool_within R (tool_op m)"
  unfolding tool_within_def op_within_def tool_op_def
  by (auto split: prod.split sum.split) (metis snd_conv)+

locale tool_relation =
  fixes related :: "store \<Rightarrow> store \<Rightarrow> bool"
  assumes related_refl: "related s s"
    and related_trans: "related s t \<Longrightarrow> related t u \<Longrightarrow> related s u"
begin

lemma bind_op: "op_within related m \<Longrightarrow> (\<And>x. op_within related (f x)) \<Longrightarrow> op_within related (op_bind m f)"
  unfolding op_within_def op_bind_def
  by (auto split: prod.split sum.split) (metis snd_conv, metis snd_conv related_trans)

lemma basic_op: "op_within related (op_ret x)" "op_within related (op_of r)" "op_within related (op_read f)"
  by (simp_all add: op_within_def op_ret_def op_of_def op_read_def related_refl)

lemma bind: "tool_within related m \<Longrightarrow> (\<And>x. tool_within related (f x)) \<Longrightarrow> tool_within related (tool_bind m f)"
  unfolding tool_within_def tool_bind_def
  by (auto split: prod.split sum.split) (metis snd_conv, metis snd_conv related_trans)

lemma basic: "tool_within related (tool_ret x)" "tool_within related (tool_fail e)"
  "tool_within related (tool_query f)" "tool_within related (tool_get g)"
  "tool_within related (tool_check r)" "tool_within related (\<lambda>s. (q, s))"
  unfolding tool_get_def tool_check_def
  by (simp_all add: tool_within_op basic_op)
    (simp_all add: tool_within_def tool_ret_def tool_fail_def tool_query_def related_refl)

lemma ingest:
  assumes "\<And>n w. op_within related (add_claim (evs n) w)"
  shows "tool_within related (ingest_facts evs n ws i p)"
proof -
  have "related s (snd (ingest_facts evs n ws i p s))" for s
  proof (induction ws arbitrary: n i p s)
    case (Cons w ws)
    obtain q t where q: "add_claim (evs n) w s = (q, t)" by (cases "add_claim (evs n) w s")
    with assms [of n w] have "related s t" unfolding op_within_def by (metis snd_conv)
    with Cons q show ?case
      by (auto split: sum.split error.split intro: related_trans)
  qed (simp add: related_refl)
  then show ?thesis unfolding tool_within_def by simp
qed

text \<open>A call keeps the relation if its tool does where the scope is granted.\<close>

lemma guarded_call:
  assumes "granted cx t \<Longrightarrow> tool_within related m"
  shows "related s (snd (reply f (guarded wd cx t m) s))"
proof (cases "granted cx t")
  case True
  with assms have "related s (snd (m s))" by (simp add: tool_within_def)
  with True show ?thesis
    by (auto simp: reply_def guarded_def require_scope_def granted_def json_tool_result_def ensure_def
        related_refl split: option.split sum.split prod.split)
next
  case False
  then show ?thesis
    by (auto simp: reply_def guarded_def require_scope_def granted_def ensure_def related_refl
        split: option.split sum.split prod.split)
qed

end

end
