(* ===== verification/Mcp_Props.thy ===== *)
theory Mcp_Props
  imports Tool_Relation Authority Privacy_Flow
begin

section \<open>What a tool call can do\<close>

text \<open>
  Three views of a call: what it may write given the scopes of its token (\<open>call_authority\<close>), when it
  is refused, and that it is nothing but calls on the store (\<open>session_calls\<close>), so that every
  invariant of a store's history holds for a server. Then what two handlers promise: whom a
  remembered claim is attributed to, and which claims a recall shows.
\<close>

subsection \<open>The authority of a scope\<close>

text \<open>The kinds of records a tool that requires a scope appends.\<close>

fun scope_kinds :: "oauth_scope \<Rightarrow> str set" where
  "scope_kinds ClaimsRead = {}"
| "scope_kinds ObservationsRead = {}"
| "scope_kinds EventsWrite = {''record_event''}"
| "scope_kinds ObservationsWrite = {''record_observation''}"
| "scope_kinds CandidatesManage =
     {''propose_candidate_claim'', ''promote_candidate_claim'', ''reject_candidate_claim'', ''add_claim''}"
| "scope_kinds ClaimsWrite =
     {''add_claim'', ''add_contradiction'', ''retire_claim'', ''supersede_claims'', ''decay_confidence'',
      ''merge_source_refs'', ''add_vector_chunk''}"

interpretation authority: tool_relation "writes K" for K
  by unfold_locales (simp, rule writes_trans)

lemma confined_within: "op_within (writes K) m \<longleftrightarrow> confined K m"
  unfolding op_within_def confined_def by (metis prod.collapse snd_conv)

lemmas authority_intros = authority.bind authority.basic within_intros
  confined_within [THEN iffD2] confined_intros

lemma map_sum_Inr: "map_sum f g m = Inr y \<longleftrightarrow> (\<exists>x. m = Inr x \<and> y = g x)"
  by (cases m) auto

lemma tools_confined:
  "tool_within (writes (scope_kinds ClaimsWrite)) (remember_claim_tool wd rm)"
  "tool_within (writes (scope_kinds ClaimsWrite)) (add_triple_tool wd trp)"
  "tool_within (writes (scope_kinds ClaimsWrite)) (contradict_tool wd ct)"
  "tool_within (writes (scope_kinds ClaimsWrite)) (consolidate_tool wd sc)"
  "tool_within (writes (scope_kinds ClaimsWrite)) (add_vector_chunk_tool tools wd i txt)"
  "tool_within (writes (scope_kinds ClaimsWrite)) (retire_tool wd i reason)"
  "tool_within (writes (scope_kinds ClaimsWrite)) (extract_tool tools wd ex)"
  "tool_within (writes (scope_kinds EventsWrite)) (record_event_tool wd re)"
  "tool_within (writes (scope_kinds ObservationsWrite)) (record_observation_tool wd ro)"
  "tool_within (writes (scope_kinds CandidatesManage)) (propose_tool wd pc)"
  "tool_within (writes (scope_kinds CandidatesManage)) (promote_tool wd i)"
  "tool_within (writes (scope_kinds CandidatesManage)) (triage_tool tools wd i)"
  "tool_within (writes (scope_kinds CandidatesManage)) (reject_tool wd i reason)"
proof -
  have adds: "confined (scope_kinds ClaimsWrite) (add_claim ev w)" for ev w
    by (intro confined_intros) simp
  show "tool_within (writes (scope_kinds ClaimsWrite)) (extract_tool tools wd ex)"
    unfolding extract_tool_def Let_def
    by (intro authority.bind authority.basic within_intros authority.ingest
        confined_within [THEN iffD2] adds)
  show "tool_within (writes (scope_kinds CandidatesManage)) (triage_tool tools wd i)"
    unfolding triage_tool_def
    by (intro authority_intros; (simp split: candidate_triage.split)?;
        intro conjI impI authority_intros)
  show "tool_within (writes (scope_kinds CandidatesManage)) (promote_tool wd i)"
    "tool_within (writes (scope_kinds CandidatesManage)) (reject_tool wd i reason)"
    unfolding promote_tool_def reject_tool_def promote_candidate_claim_def reject_candidate_claim_def
    by (intro authority_intros; simp)+
qed (unfold remember_claim_tool_def add_triple_tool_def contradict_tool_def consolidate_tool_def
    add_vector_chunk_tool_def retire_tool_def record_event_tool_def record_observation_tool_def
    propose_tool_def,
   (intro authority_intros; simp)+)

lemmas call_defs = mcp_recall_def mcp_expand_def mcp_path_def mcp_communities_def
  mcp_remember_claim_def mcp_add_triple_def mcp_contradict_def mcp_consolidate_def
  mcp_add_vector_chunk_def mcp_record_event_def mcp_should_extract_memories_def
  mcp_propose_candidate_claim_def mcp_list_candidate_claims_def mcp_promote_candidate_claim_def
  mcp_triage_candidate_claim_def mcp_reject_candidate_claim_def mcp_recall_observation_def
  mcp_observation_coverage_def mcp_assemble_compaction_summary_def mcp_record_observation_def
  mcp_retire_claim_def mcp_extract_def

lemma call_writes:
  "writes (if granted cx (tool_of c) then scope_kinds (ts_scope (tool_of c)) else {}) s
     (snd (call_tool tools wd cx c s))"
  by (cases c; simp only: call_tool.simps tool_of.simps call_defs; rule authority.guarded_call;
      simp only: tool_scope_defs tool_scope.simps if_True;
      (rule tools_confined | rule authority.basic))

text \<open>
  C8. A token's scopes bound what its calls can write: whatever the call, its arguments and its
  outcome, the logs grow and the memory changes only by records of the kinds that belong to the
  scope the tool requires, and by none when that scope was not granted. A token for events can not
  touch claims; a token that only reads changes nothing.
\<close>

theorem call_authority:
  "writes (if granted cx (tool_of c) then scope_kinds (ts_scope (tool_of c)) else {}) s
     (snd (call_tool tools wd cx c s))"
  by (rule call_writes)

subsection \<open>Refusal\<close>

lemma guarded_refused:
  "reply f (guarded wd cx t m) s = (Inl (insufficient_scope (wd_debug wd) t), s) \<longleftrightarrow> \<not> granted cx t"
  by (auto simp: reply_def guarded_def require_scope_def granted_def json_tool_result_def ensure_def
      insufficient_scope_def split: option.splits sum.splits prod.splits)

text \<open>
  C28. A call is refused for its scope exactly when the token does not have the scope its tool
  declares, with that scope in the message and before anything happens; every tool that can be
  called is declared once in the table of tools.
\<close>

theorem call_refused:
  "(call_tool tools wd cx c s = (Inl (insufficient_scope (wd_debug wd) (tool_of c)), s)
      \<longleftrightarrow> \<not> granted cx (tool_of c))
   \<and> tool_of c \<in> set TOOLS \<and> distinct (map ts_name TOOLS)"
proof (intro conjI)
  show "call_tool tools wd cx c s = (Inl (insufficient_scope (wd_debug wd) (tool_of c)), s)
      \<longleftrightarrow> \<not> granted cx (tool_of c)"
    by (cases c; simp only: call_tool.simps tool_of.simps call_defs; rule guarded_refused)
  show "tool_of c \<in> set TOOLS" by (cases c) (simp_all add: TOOLS_def)
  show "distinct (map ts_name TOOLS)" by (simp add: TOOLS_def tool_scope_defs)
qed

subsection \<open>A session is a sequence of store calls\<close>

lemma store_calls_trans:
  assumes "store_calls s t" and "store_calls t u"
  shows "store_calls s u"
  using assms(2,1) by (induction rule: store_calls.induct) (auto intro: store_calls.more)

interpretation session: tool_relation store_calls
  by unfold_locales (rule store_calls.none, rule store_calls_trans)

lemma op_calling_one:
  "(\<And>s q s'. m s = (q, s') \<Longrightarrow> store_call s (derails q s s') s') \<Longrightarrow> op_within store_calls m"
  unfolding op_within_def by (metis prod.collapse store_calls.more store_calls.none)

lemma calls_within:
  "op_within store_calls (add_claim ev w)" "op_within store_calls (contradict ev ev2 i reason nw)"
  "op_within store_calls (retire_claim ev i reason)" "op_within store_calls (consolidate_report ev ev2 ev3)"
  "op_within store_calls (add_vector_chunk ev i txt model)"
  "op_within store_calls (add_vector_chunk_with_embedding ev i txt model e)"
  "op_within store_calls (record_event ev x)" "op_within store_calls (record_observation ev ob)"
  "op_within store_calls (propose_candidate_claim ev k)"
  "op_within store_calls (promote_candidate_claim_inner ev i attribution dec)"
  "op_within store_calls (reject_candidate_claim_inner ev i reason dec)"
  by (rule op_calling_one, erule store_call.intros)+

lemma triage_within: "op_within store_calls (triage_candidate_claim encode client ev i min_conf)"
proof -
  have "op_within store_calls (apply_triage ev i ch t)" for ch t
    unfolding apply_triage_def Let_def op_then_def
    by (cases t) (simp_all add: session.bind_op session.basic_op within_intros calls_within)
  then show ?thesis
    unfolding triage_candidate_claim_def by (intro session.bind_op session.basic_op within_intros)
qed

lemmas session_intros = session.bind session.basic session.ingest within_intros calls_within triage_within

lemma tools_calling:
  "tool_within store_calls (remember_claim_tool wd rm)" "tool_within store_calls (add_triple_tool wd trp)"
  "tool_within store_calls (contradict_tool wd ct)" "tool_within store_calls (consolidate_tool wd sc)"
  "tool_within store_calls (add_vector_chunk_tool tools wd i txt)"
  "tool_within store_calls (retire_tool wd i reason)" "tool_within store_calls (extract_tool tools wd ex)"
  "tool_within store_calls (record_event_tool wd re)"
  "tool_within store_calls (record_observation_tool wd ro)"
  "tool_within store_calls (propose_tool wd pc)" "tool_within store_calls (promote_tool wd i)"
  "tool_within store_calls (triage_tool tools wd i)" "tool_within store_calls (reject_tool wd i reason)"
proof -
  show "tool_within store_calls (extract_tool tools wd ex)"
    unfolding extract_tool_def Let_def by (intro session_intros)
  show "tool_within store_calls (triage_tool tools wd i)"
    unfolding triage_tool_def
    by (intro session_intros; (simp split: candidate_triage.split)?; intro conjI impI session_intros)
qed (unfold remember_claim_tool_def add_triple_tool_def contradict_tool_def consolidate_tool_def
    add_vector_chunk_tool_def retire_tool_def record_event_tool_def record_observation_tool_def
    propose_tool_def promote_tool_def reject_tool_def promote_candidate_claim_def
    reject_candidate_claim_def,
   (intro session_intros)+)

lemma call_tool_calls: "store_calls s (snd (call_tool tools wd cx c s))"
  by (cases c; simp only: call_tool.simps call_defs; rule session.guarded_call;
      (rule tools_calling | rule session.basic))

text \<open>Any number of calls, each with its own token, arguments and surroundings.\<close>

inductive mcp_session :: "store \<Rightarrow> store \<Rightarrow> bool" where
  idle: "mcp_session s s"
| serves: "mcp_session s t \<Longrightarrow> call_tool tools wd cx c t = (r, u) \<Longrightarrow> mcp_session s u"

text \<open>
  C9. The server adds nothing to the store's own operations: whatever sequence of tool calls
  clients make, with any tokens, arguments and failures, the store ends in a state that a sequence
  of the store's public operations reaches.
\<close>

theorem session_refines_store:
  assumes "mcp_session s s'"
  shows "store_calls s s'"
  using assms
proof (induction rule: mcp_session.induct)
  case (serves s t tools wd cx c r u)
  with call_tool_calls [of t tools wd cx c] show ?case by (auto intro: store_calls_trans)
qed (rule store_calls.none)

subsection \<open>Attribution\<close>

lemma mint_and_log_stored:
  assumes "mint_and_log ev k rec s = (Inr i, s')"
  shows "\<exists>d. project (rec i) d = Inr (st_db s')"
proof -
  from assms have "op_bind (mint_op ev) (\<lambda>i. op_then (logged ev k (rec i)) (op_ret i)) s = (Inr i, s')"
    unfolding mint_and_log_def by (cases rule: transaction_cases) simp_all
  then obtain t where "logged ev k (rec i) t = (Inr (), s')"
    by (auto simp: op_bind_cases op_then_cases op_basic)
  then show ?thesis by (cases rule: logged_cases) (auto intro: exI [of _ "st_db t"])
qed

text \<open>Also when the minted id was taken: then only a row of the same content is accepted.\<close>

lemma claim_record_content:
  assumes "apply_record (claim_record now i w) d = Inr (a, d')"
  shows "\<exists>c. get_claim i d' = Inr c \<and> c_subject c = cw_subject w \<and> c_predicate c = cw_predicate w
    \<and> c_object c = cw_object w \<and> c_agent_id c = cw_agent_id w \<and> c_agent_kind c = cw_agent_kind w
    \<and> c_scope c = cw_scope w"
  using assms
  by (auto simp: apply_record_def claim_record_def claim_provenance_def akind.from_as prov.from_as
      result_simps ap_add_claim_def insert_claim_def map_of_tbl_put already_def get_claim_def
      split: option.splits if_splits)

lemma added_claim_row:
  assumes "add_claim ev w s = (Inr i, s')"
  shows "\<exists>c. get_claim i (st_db s') = Inr c \<and> c_subject c = cw_subject w \<and> c_predicate c = cw_predicate w
    \<and> c_object c = cw_object w \<and> c_agent_id c = cw_agent_id w \<and> c_agent_kind c = cw_agent_kind w
    \<and> c_scope c = cw_scope w"
proof -
  from assms obtain t where "mint_and_log ev Log (\<lambda>i. claim_record (en_now ev) i w) t = (Inr i, s')"
    by (auto simp: add_claim_def insert_claim_op_def op_then_cases)
  then obtain u where "project (claim_record (en_now ev) i w) u = Inr (st_db s')"
    using mint_and_log_stored by blast
  then show ?thesis by (auto simp: project_eq intro: claim_record_content)
qed

lemma remembered:
  assumes "remember_claim_tool wd p s = (Inr v, s')"
  shows "vc_subject v = rm_subject p \<and> vc_predicate v = rm_predicate p \<and> vc_object v = rm_object p
    \<and> vc_agent_id v = or_default (rm_agent_id p) ''mcp'' \<and> vc_scope v = or_default (rm_scope p) ''global''"
proof -
  obtain agent kind i t c where agent: "agent = or_default (rm_agent_id p) ''mcp''"
    and add: "add_claim (wd_envs wd 0) (claim_write_from_agent agent kind (rm_subject p) (rm_predicate p)
        (rm_object p) (or_default (rm_source p) ''mcp'') \<lparr> cw_scope := or_default (rm_scope p) ''global'' \<rparr>) s
      = (Inr i, t)"
    and c: "get_claim i (st_db t) = Inr c" "v = claim_view_of c"
    using assms
    by (auto simp: remember_claim_tool_def tool_bind_def tool_check_def tool_op_def op_of_def tool_get_def
        op_read_def tool_ret_def mcp_agent_def result_simps split: prod.splits sum.splits)
  from added_claim_row [OF add] c agent show ?thesis
    by (auto simp: claim_view_of_def claim_write_from_agent_def)
qed

lemma guarded_ok:
  "reply f (guarded wd cx t m) s = (Inr y, s') \<Longrightarrow> \<exists>x. m s = (Inr x, s') \<and> y = f x \<and> granted cx t"
  by (auto simp: reply_def guarded_def require_scope_def json_tool_result_def ensure_def granted_def
      split: option.splits prod.splits sum.splits if_splits)

text \<open>
  C12. A remembered claim bears the caller's name and place: unless the call names another agent or
  scope, it is attributed to the client the token was issued to and filed in the scope the request
  resolved to, with the content that was sent.
\<close>

theorem remembered_attribution:
  assumes "call_tool tools wd cx (CallRememberClaim p) s = (Inr (OutClaim v), s')"
  shows "vc_subject v = rm_subject p \<and> vc_predicate v = rm_predicate p \<and> vc_object v = rm_object p
    \<and> vc_agent_id v = or_default (rm_agent_id p) (request_agent_id cx)
    \<and> vc_scope v = or_default (rm_scope p) (rs_scope (request_scope cx))"
proof -
  have some: "or_default (or_some x y) z = or_default x y" for x :: "str option" and y z
    by (cases x) (simp_all add: or_some_def or_default_def)
  from assms have "remember_claim_tool wd (p \<lparr> rm_agent_id := default_agent cx (rm_agent_id p),
      rm_scope := default_scope cx (rm_scope p) \<rparr>) s = (Inr v, s')"
    by (auto simp: mcp_remember_claim_def dest!: guarded_ok)
  from remembered [OF this] show ?thesis
    by (simp add: default_agent_def default_scope_def some)
qed

subsection \<open>What a recall shows\<close>

lemma rows_fold_put_sub: "set (tbl_rows (fold put_candidate cs t)) \<subseteq> set cs \<union> set (tbl_rows t)"
proof (induction cs arbitrary: t)
  case (Cons c cs)
  have "set (tbl_rows (put_candidate c t)) \<subseteq> insert c (set (tbl_rows t))"
    using set_tbl_put [of "c_id c" c t] by (auto simp: put_candidate_def)
  with Cons [of "put_candidate c t"] show ?case by (auto simp del: set_map)
qed simp

lemma hybrid_admitted:
  assumes "recall_hybrid_claims_with_filters knn query e k w f d = Inr cs" and "c \<in> set cs"
  shows "admits f (db_graph d) c"
proof -
  from assms obtain vs p text_claims where
    p: "claim_filter_sql f (db_graph d) = Some p"
    and found: "recall_text \<lparr> ry_query = query, ry_filters = f, ry_top_k = None \<rparr> d = Inr text_claims"
    and cs: "cs = map snd (take k (sort_by (\<lambda>(s, x) (t, y). ranks_before (s, c_id x) (t, c_id y))
        (map (\<lambda>c. (hybrid_score w query vs c, c)) (tbl_rows (hybrid_candidates p vs text_claims d)))))"
    unfolding recall_hybrid_claims_with_filters_def by (auto simp: result_simps split: if_splits option.splits)
  from assms(2) have "c \<in> set (tbl_rows (hybrid_candidates p vs text_claims d))"
    unfolding cs by (rule set_top_ranked)
  moreover obtain ids where "hybrid_candidates p vs text_claims d =
      fold put_candidate (claims_where (\<lambda>c. c_id c \<in> ids \<and> p c) d) (fold put_candidate text_claims [])"
    unfolding hybrid_candidates_def Let_def by blast
  ultimately have "c \<in> set (claims_where (\<lambda>c. c_id c \<in> ids \<and> p c) d) \<union> set (tbl_rows (fold put_candidate text_claims []))"
    using rows_fold_put_sub [of "claims_where (\<lambda>c. c_id c \<in> ids \<and> p c) d" "fold put_candidate text_claims []"]
    by auto
  then have "c \<in> set text_claims \<or> p c"
    using rows_fold_put_sub [of text_claims "[]"] by (auto simp: claims_where_def simp del: set_map)
  then show ?thesis
    using recall_text_admitted [OF found] claim_filter_Some [OF p] by auto
qed

lemma recall_claims_admitted:
  assumes "recall_claims tools wd query f k w d = Inr (cs, chunks, retrieval, alpha)" and "c \<in> set cs"
  shows "admits f (db_graph d) c"
proof -
  from assms obtain all where all: "c \<in> set all" and
    "recall_text \<lparr> ry_query = query, ry_filters = f, ry_top_k = None \<rparr> d = Inr all
     \<or> (\<exists>e. recall_hybrid_claims_with_filters (wd_knn wd) query e k w f d = Inr all)"
    unfolding recall_claims_def tool_recall_hybrid_def
    by (auto simp: result_simps split: option.splits if_splits sum.splits dest!: in_set_takeD)
  then show ?thesis using recall_text_admitted hybrid_admitted by fastforce
qed

lemma expansion_admitted:
  assumes "expand_with_scope e hops predicates scope walk d = Inr x"
    and "graph_ok (db_graph d)" and "c \<in> set (ge_edges x)"
  shows "c_status c = Active \<and> scope_filter_sql scope walk (c_scope c)"
proof -
  let ?s = "\<lambda>pf. expand_loop pf hops scope walk d \<lparr> ge_nodes = [e], ge_edges = [], ge_queue = [(e, 0)] \<rparr>"
  from assms(1) obtain pf where pf: "0 < hops" "x = \<lparr> ge_nodes = ge_nodes (?s pf), ge_edges = ge_edges (?s pf) \<rparr>"
    unfolding expand_with_scope_def expand_inner_def by (auto simp: result_simps Let_def split: if_splits)
  obtain P where "expand_inv (admitted pf scope walk d) e hops P (?s pf)" "ge_queue (?s pf) = []"
    using expand_loop_inv [OF expand_inv_start graph_ok_ids [OF assms(2)]] by blast
  from expand_inv_end [OF this] pf assms(3) have "c \<in> set (admitted pf scope walk d)" by auto
  then show ?thesis by (simp add: admitted_def)
qed

text \<open>The walk a recall asks for: its own, or the request's when it names no scope either.\<close>

definition requested_walk :: "request_context \<Rightarrow> mcp_recall_params \<Rightarrow> scope_walk result" where
  "requested_walk cx p =
     (case mr_scope_walk p of
        Some w \<Rightarrow> scope_walk_from_str w
      | None \<Rightarrow> Inr (if mr_scope p = None then rs_default_walk (request_scope cx) else ScopeAncestors))"

lemma parse_requested_walk:
  "parse_scope_walk debug (default_walk cx (mr_scope_walk p) (mr_scope p)) (default_scope cx (mr_scope p)) = Inr walk
   \<Longrightarrow> requested_walk cx p = Inr walk"
  by (auto simp: parse_scope_walk_def default_walk_def default_scope_def or_some_def requested_walk_def
      swalk.from_as result_simps map_sum_Inr split: option.splits if_splits sum.splits)

text \<open>
  C10. A recall shows only the memory its request is for: every claim it returns, and every claim of
  the graph around them, is ACTIVE and in the scope of the request, which is the call's own where it
  names one, by the walk it asks for.
\<close>

theorem recall_in_scope:
  assumes "graph_ok (db_graph (st_db s))"
    and "call_tool tools wd cx (CallRecall p) s = (Inr (OutRecall v e), s')"
  shows "\<exists>walk. requested_walk cx p = Inr walk
    \<and> (\<forall>t \<in> set (vl_triples v) \<union> set (vg_edges (vl_subgraph v)).
         vc_status t = ''ACTIVE''
         \<and> scope_filter_sql (or_default (mr_scope p) (rs_scope (request_scope cx))) walk (vc_scope t))"
proof -
  let ?d = "st_db s" and ?scope = "or_default (mr_scope p) (rs_scope (request_scope cx))"
  let ?p = "\<lparr> rl_query = mr_query p, rl_hops = mr_hops p, rl_top_k = Some (mr_top_k p),
         rl_scope = default_scope cx (mr_scope p),
         rl_scope_walk = default_walk cx (mr_scope_walk p) (mr_scope p),
         rl_agent_id = None, rl_agent_kind = None, rl_predicate = None, rl_predicate_walk = None,
         rl_min_confidence = None, rl_status = None, rl_alpha = mr_alpha p \<rparr>"
  have scope: "or_default (default_scope cx (mr_scope p)) ''global'' = ?scope"
    by (simp add: default_scope_def or_some_def or_default_def)
  from assms(2) have "recall_tool tools wd ?p ?d = Inr v"
    by (auto simp: mcp_recall_def tool_query_def recall_for_agent_def result_simps dest!: guarded_ok)
  then obtain walk f w k h claims chunks retrieval alpha g where
    walk: "parse_scope_walk (wd_debug wd) (rl_scope_walk ?p) (rl_scope ?p) = Inr walk"
    and f: "recall_filters_of (wd_debug wd) ?p walk = Inr f"
    and claims: "recall_claims tools wd (mr_query p) f k w ?d = Inr (claims, chunks, retrieval, alpha)"
    and g: "recall_subgraph (mr_query p) h (rf_scope f) walk claims ?d = Inr g"
    and v: "vl_triples v = map claim_view_of claims" "vl_subgraph v = graph_view_of g"
    unfolding recall_tool_def core_def by (auto simp: result_simps map_sum_Inr)
  from f have ff: "rf_scope f = ?scope" "rf_scope_walk f = walk" "rf_status f = Some Active"
    by (auto simp: recall_filters_of_def result_simps scope)
  have "c_status c = Active \<and> scope_filter_sql ?scope walk (c_scope c)" if "c \<in> set claims" for c
    using recall_claims_admitted [OF claims that] ff
    by (auto simp: admits_def row_admitted_def equals_if_set_def)
  moreover have "c_status c = Active \<and> scope_filter_sql ?scope walk (c_scope c)" if "c \<in> set (ge_edges g)" for c
  proof -
    from g obtain q where "expand_with_scope q h None ?scope walk ?d = Inr g"
      unfolding recall_subgraph_def ff(1) by (cases claims) (auto simp: result_simps split: if_splits)
    with assms(1) that show ?thesis using expansion_admitted by blast
  qed
  ultimately show ?thesis
    using parse_requested_walk [of "wd_debug wd" cx p walk] walk v
    by (auto simp: graph_view_of_def claim_view_of_def)
qed

subsection \<open>What the extract tool reads\<close>

text \<open>
  C11. The extract tool reads only below the operator's root: where a call changes the store or
  returns a result, a root is configured, the path given is absolute and, both made canonical, lies
  inside it, and no more files were scanned than allowed; a dry run changes nothing.
\<close>

theorem extract_inside_root:
  assumes "call_tool tools wd cx (CallExtract p) s = (r, s')" and "s' \<noteq> s \<or> (\<exists>x. r = Inr x)"
  shows "\<exists>base cbase path e x. xl_root (tl_extract tools) = Some base
    \<and> wd_canonicalize wd base = Inr cbase \<and> wd_canonicalize wd (mx_path p) = Inr path
    \<and> is_absolute (mx_path p) \<and> path_inside cbase path
    \<and> wd_stat wd path = Inr e \<and> extract_tree (wd_parse wd) path e (mx_lang p) = Inr x
    \<and> files_scanned x \<le> xl_max_files (tl_extract tools)
    \<and> (mx_dry_run p \<longrightarrow> s' = s)"
proof -
  let ?p = "\<lparr> ep_path = mx_path p, ep_scope = default_scope cx (mx_scope p), ep_lang = mx_lang p,
         ep_dry_run = mx_dry_run p, ep_agent_id = request_agent_id cx \<rparr>"
  have checked: "is_ok (extract_checks (tl_extract tools) wd ?p)"
  proof (rule ccontr)
    assume "\<not> ?thesis"
    then obtain e where "extract_checks (tl_extract tools) wd ?p = Inl e"
      by (cases "extract_checks (tl_extract tools) wd ?p") simp_all
    then have "extract_tool tools wd ?p s = (Inl e, s)"
      by (simp add: extract_tool_def tool_bind_def)
    with assms show False
      by (auto simp: mcp_extract_def reply_def guarded_def json_tool_result_def
          split: sum.splits prod.splits)
  qed
  then obtain x where x: "extract_checks (tl_extract tools) wd ?p = Inr x"
    by (cases "extract_checks (tl_extract tools) wd ?p") simp_all
  have "s' = s" if "mx_dry_run p"
    using assms(1) that x
    by (auto simp: mcp_extract_def reply_def guarded_def json_tool_result_def extract_tool_def
        tool_bind_def Let_def tool_ret_def split: sum.splits prod.splits)
  with x show ?thesis
    unfolding extract_checks_def by (auto simp: result_simps map_sum_Inr)
qed

subsection \<open>A sample call\<close>

definition sample_tools :: aver_tools where
  "sample_tools =
     \<lparr> tl_extract = \<lparr> xl_root = Some ''/r'', xl_max_files = 2000 \<rparr>, tl_decision = None,
       tl_min_confidence = Fin (1 / 2), tl_embedder = None, tl_embedding_model = ''m'', tl_miss_log = None \<rparr>"

definition sample_world :: world where
  "sample_world =
     \<lparr> wd_envs = (\<lambda>_. sample_env), wd_debug = (\<lambda>x. x), wd_knn = (\<lambda>_ _ _. Inr []), wd_encode = (\<lambda>_. []),
       wd_canonicalize = Inr, wd_stat = (\<lambda>_. Inr (FsFile (Inr ''fn f() {}''))),
       wd_parse = (\<lambda>_ path _. Inr [\<lparr> xf_subject = path, xf_predicate = ''defines'', xf_object = ''Function:f'' \<rparr>]),
       wd_timestamp = ''2025-01-01T00:00:00Z'', wd_elapsed_ms = 1 \<rparr>"

definition sample_context :: request_context where
  "sample_context =
     \<lparr> cx_granted = Some [ClaimsRead, ClaimsWrite],
       cx_scope = Some \<lparr> rs_scope = ''global'', rs_default_walk = ScopeExact \<rparr>, cx_client = Some ''local'' \<rparr>"

definition sample_remember :: remember_params where
  "sample_remember =
     \<lparr> rm_subject = ''aver'', rm_predicate = ''uses'', rm_object = ''SQLite'', rm_source = Some ''README'',
       rm_agent_id = None, rm_agent_kind = Some ''HUMAN'', rm_scope = None \<rparr>"

definition sample_view :: claim_view where
  "sample_view =
     \<lparr> vc_id = 129525350400005, vc_subject = ''aver'', vc_predicate = ''uses'', vc_object = ''SQLite'',
       vc_confidence = f64_round (95 / 100), vc_status = ''ACTIVE'', vc_source_refs = [''README''],
       vc_agent_id = ''local'', vc_agent_kind = ''HUMAN'', vc_scope = ''global'' \<rparr>"

definition sample_remember_sent :: remember_params where
  "sample_remember_sent =
     sample_remember \<lparr> rm_agent_id := Some ''local'', rm_scope := Some ''global'' \<rparr>"

lemma sample_tool:
  "remember_claim_tool sample_world sample_remember_sent fresh_store = (Inr sample_view, sample_store)"
proof -
  have agent: "mcp_agent (rm_agent_id sample_remember_sent) (rm_agent_kind sample_remember_sent) ''mcp'' ExternalTool
      = Inr (''local'', Human)" by code_simp
  have sent: "claim_write_from_agent ''local'' Human (rm_subject sample_remember_sent)
      (rm_predicate sample_remember_sent) (rm_object sample_remember_sent)
      (or_default (rm_source sample_remember_sent) ''mcp'')
      \<lparr> cw_scope := or_default (rm_scope sample_remember_sent) ''global'' \<rparr> = sample_write" by code_simp
  have run: "add_claim (wd_envs sample_world 0) sample_write fresh_store = (Inr 129525350400005, sample_store)"
    using sample_run by (simp add: sample_world_def)
  have "map_sum id claim_view_of (get_claim 129525350400005 (st_db sample_store)) = Inr sample_view"
    by code_simp
  then obtain c where "get_claim 129525350400005 (st_db sample_store) = Inr c" "claim_view_of c = sample_view"
    by (cases "get_claim 129525350400005 (st_db sample_store)") simp_all
  with agent sent run show ?thesis
    by (simp add: remember_claim_tool_def tool_bind_def tool_check_def tool_op_def op_of_def tool_get_def
        op_read_def tool_ret_def)
qed

lemma sample_call:
  assumes "granted cx REMEMBER_CLAIM"
    and "p \<lparr> rm_agent_id := default_agent cx (rm_agent_id p), rm_scope := default_scope cx (rm_scope p) \<rparr>
      = sample_remember_sent"
  shows "call_tool tools sample_world cx (CallRememberClaim p) fresh_store = (Inr (OutClaim sample_view), sample_store)"
proof -
  from assms(1) have "require_scope debug cx REMEMBER_CLAIM = Inr ()" for debug
    by (simp add: granted_def require_scope_def split: option.splits)
  with assms(2) show ?thesis
    by (simp add: mcp_remember_claim_def guarded_def json_tool_result_def reply_def sample_tool)
qed

lemma sample_remembered:
  "call_tool sample_tools sample_world sample_context (CallRememberClaim sample_remember) fresh_store
     = (Inr (OutClaim sample_view), sample_store)"
proof (rule sample_call)
  show "granted sample_context REMEMBER_CLAIM" by code_simp
  show "sample_remember \<lparr> rm_agent_id := default_agent sample_context (rm_agent_id sample_remember),
      rm_scope := default_scope sample_context (rm_scope sample_remember) \<rparr> = sample_remember_sent"
    by code_simp
qed

theorem session_refines_store_witness:
  "store_calls fresh_store sample_store"
  by (rule session_refines_store [OF serves [OF idle sample_remembered]])

theorem remembered_attribution_witness:
  "vc_agent_id sample_view = ''local'' \<and> vc_scope sample_view = ''global''"
  using remembered_attribution [OF sample_remembered]
  by (simp add: sample_context_def sample_remember_def or_default_def request_agent_id_def request_scope_def)

definition sample_extract :: mcp_extract_params where
  "sample_extract = \<lparr> mx_path = ''/r/a.rs'', mx_scope = None, mx_lang = None, mx_dry_run = True \<rparr>"

lemma sample_extract_run:
  "\<exists>v. call_tool sample_tools sample_world sample_context (CallExtract sample_extract) fresh_store
     = (Inr (OutExtract v), fresh_store)"
proof -
  let ?p = "\<lparr> ep_path = mx_path sample_extract, ep_scope = default_scope sample_context (mx_scope sample_extract),
     ep_lang = mx_lang sample_extract, ep_dry_run = mx_dry_run sample_extract,
     ep_agent_id = request_agent_id sample_context \<rparr>"
  have "is_ok (extract_checks (tl_extract sample_tools) sample_world ?p)" by code_simp
  then obtain x where "extract_checks (tl_extract sample_tools) sample_world ?p = Inr x"
    by (cases "extract_checks (tl_extract sample_tools) sample_world ?p") simp_all
  moreover have "require_scope debug sample_context EXTRACT = Inr ()" for debug
    by (simp add: require_scope_def sample_context_def tool_scope_defs)
  moreover have "mx_dry_run sample_extract" by (simp add: sample_extract_def)
  ultimately show ?thesis
    by (simp add: mcp_extract_def guarded_def json_tool_result_def reply_def extract_tool_def tool_bind_def
        tool_ret_def Let_def)
qed

theorem extract_inside_root_witness:
  "\<exists>x. extract_tree (wd_parse sample_world) ''/r/a.rs'' (FsFile (Inr ''fn f() {}'')) None = Inr x
    \<and> files_scanned x \<le> 2000"
proof -
  obtain v where "call_tool sample_tools sample_world sample_context (CallExtract sample_extract) fresh_store
     = (Inr (OutExtract v), fresh_store)"
    using sample_extract_run by blast
  from extract_inside_root [OF this] show ?thesis
    by (auto simp: sample_world_def sample_tools_def sample_extract_def)
qed

definition sample_recall :: mcp_recall_params where
  "sample_recall =
     \<lparr> mr_query = ''aver'', mr_hops = Some 1, mr_top_k = 5, mr_scope = None, mr_scope_walk = None, mr_alpha = None \<rparr>"

definition sample_recall_filters :: recall_filters where
  "sample_recall_filters =
     \<lparr> rf_scope = ''global'', rf_scope_walk = ScopeExact, rf_agent_id = None, rf_agent_kind = None,
       rf_predicate = None, rf_predicate_walk = PredExact, rf_min_confidence = None, rf_status = Some Active \<rparr>"

lemma sample_row:
  "\<exists>c. stored_claims (st_db sample_store) = [c] \<and> claim_view_of c = sample_view"
proof -
  have "map claim_view_of (stored_claims (st_db sample_store)) = [sample_view]" by code_simp
  then show ?thesis by (auto simp: map_eq_Cons_conv)
qed

lemma one_hit:
  assumes "length ts = 1" and "0 < recall_token_score ts c"
  shows "map snd (keyword_ranking ts [c]) = [c]"
  using assms
  by (simp add: keyword_ranking_def scored_claims_def retained_def name_anchor_def minimum_score_def
      max_score_def sort_by_def Let_def)

lemma sample_found:
  "\<exists>c. recall_text \<lparr> ry_query = ''aver'', ry_filters = sample_recall_filters, ry_top_k = None \<rparr> (st_db sample_store)
       = Inr [c] \<and> claim_view_of c = sample_view"
proof -
  obtain c where c: "stored_claims (st_db sample_store) = [c]" "claim_view_of c = sample_view"
    using sample_row by (elim exE conjE)
  then have fields: "c_subject c = ''aver''" "c_predicate c = ''uses''" "c_object c = ''SQLite''" "c_scope c = ''global''"
    "status_as_str (c_status c) = ''ACTIVE''"
    by (simp_all add: claim_view_of_def sample_view_def)
  then have active: "c_status c = Active" by (cases "c_status c") simp_all
  have tokens: "query_tokens_for_recall ''aver'' = [''aver'']" by code_simp
  have "''aver'' \<in> set (tokenize_for_recall ''aver uses SQLite'')" by code_simp
  then have "0 < token_score ''aver uses SQLite'' ''aver''" by (simp add: token_score_def)
  then have "0 < recall_token_score [''aver''] c"
    by (simp add: recall_token_score_def claim_text_def fields)
  then have "map snd (keyword_ranking [''aver''] [c]) = [c]" by (simp add: one_hit)
  moreover have "scope_filter_sql ''global'' ScopeExact ''global''" by code_simp
  then have "row_admitted sample_recall_filters c"
    by (simp add: row_admitted_def sample_recall_filters_def equals_if_set_def active fields)
  moreover have "validate_filters sample_recall_filters = Inr ()" by code_simp
  moreover have "claim_filter_sql sample_recall_filters g = Some (row_admitted sample_recall_filters)" for g
    by (simp add: claim_filter_sql_def) (simp add: sample_recall_filters_def)
  ultimately show ?thesis
    using c tokens by (simp add: recall_text_def recall_text_with_filters_def claims_where_def)
qed

lemma expand_succeeds:
  "validate_scope scope = Inr u \<Longrightarrow> \<not> blank entity \<Longrightarrow> 0 < hops \<Longrightarrow> \<exists>g. expand_with_scope entity hops None scope walk d = Inr g"
  by (simp add: expand_with_scope_def expand_inner_def predicate_filter_def Let_def)

lemma sample_recall_run:
  "\<exists>g fl. call_tool sample_tools sample_world sample_context (CallRecall sample_recall) sample_store
     = (Inr (OutRecall \<lparr> vl_triples = [sample_view], vl_chunks = [], vl_subgraph = g, vl_confidence_floor = fl,
          vl_retrieval = ''keyword'', vl_alpha = None \<rparr> None), sample_store)"
proof -
  let ?p = "\<lparr> rl_query = mr_query sample_recall, rl_hops = mr_hops sample_recall, rl_top_k = Some (mr_top_k sample_recall),
         rl_scope = default_scope sample_context (mr_scope sample_recall),
         rl_scope_walk = default_walk sample_context (mr_scope_walk sample_recall) (mr_scope sample_recall),
         rl_agent_id = None, rl_agent_kind = None, rl_predicate = None, rl_predicate_walk = None,
         rl_min_confidence = None, rl_status = None, rl_alpha = mr_alpha sample_recall \<rparr>"
  let ?d = "st_db sample_store"
  have p: "?p = \<lparr> rl_query = ''aver'', rl_hops = Some 1, rl_top_k = Some 5, rl_scope = Some ''global'',
      rl_scope_walk = Some ''exact'', rl_agent_id = None, rl_agent_kind = None, rl_predicate = None,
      rl_predicate_walk = None, rl_min_confidence = None, rl_status = None, rl_alpha = None \<rparr>"
    by code_simp
  let ?q = "\<lparr> rl_query = ''aver'', rl_hops = Some 1, rl_top_k = Some 5, rl_scope = Some ''global'',
      rl_scope_walk = Some ''exact'', rl_agent_id = None, rl_agent_kind = None, rl_predicate = None,
      rl_predicate_walk = None, rl_min_confidence = None, rl_status = None, rl_alpha = None \<rparr>"
  have walk: "parse_scope_walk debug (rl_scope_walk ?q) (rl_scope ?q) = Inr ScopeExact" for debug
    by (simp add: parse_scope_walk_def scope_walk_from_str_def)
  have filters: "recall_filters_of debug ?q ScopeExact = Inr sample_recall_filters" for debug
    by (simp add: recall_filters_of_def sample_recall_filters_def or_default_def)
  obtain c where found: "recall_text \<lparr> ry_query = ''aver'', ry_filters = sample_recall_filters, ry_top_k = None \<rparr> ?d = Inr [c]"
    and c: "claim_view_of c = sample_view"
    using sample_found by blast
  have claims: "recall_claims sample_tools sample_world ''aver'' sample_recall_filters 5 w ?d = Inr ([c], [], ''keyword'', None)" for w
    by (simp add: recall_claims_def tool_recall_hybrid_def sample_tools_def found)
  have scope: "validate_scope ''global'' = Inr ()" and words: "\<not> blank ''aver''" by code_simp+
  have "c_subject c = ''aver''"
    using c by (simp add: claim_view_of_def sample_view_def)
  then obtain g where g: "recall_subgraph ''aver'' 1 ''global'' ScopeExact [c] ?d = Inr g"
    using expand_succeeds [OF scope words, of 1 ScopeExact ?d] by (auto simp: recall_subgraph_def)
  have "recall_tool sample_tools sample_world ?p ?d = Inr \<lparr> vl_triples = [sample_view], vl_chunks = [],
      vl_subgraph = graph_view_of g, vl_confidence_floor = confidence_floor (map c_confidence ([c] @ ge_edges g)),
      vl_retrieval = ''keyword'', vl_alpha = None \<rparr>"
    unfolding p using walk filters claims g c
    by (simp add: recall_tool_def recall_weights_def validate_tool_top_k_def validate_hops_def core_def
        or_default_def sample_recall_filters_def)
  moreover have "require_scope debug sample_context RECALL = Inr ()" for debug
    by (simp add: require_scope_def sample_context_def tool_scope_defs)
  ultimately show ?thesis
    by (simp add: mcp_recall_def guarded_def json_tool_result_def reply_def tool_query_def recall_for_agent_def)
      (simp add: sample_tools_def)
qed

theorem recall_in_scope_witness:
  "vc_status sample_view = ''ACTIVE'' \<and> scope_filter_sql ''global'' ScopeExact (vc_scope sample_view)"
proof -
  have "graph_ok (db_graph (st_db sample_store))"
    using in_sync_ok [OF reached_in_sync [OF sample_reached]] by (simp add: db_ok_def)
  moreover have "requested_walk sample_context sample_recall = Inr ScopeExact" by code_simp
  moreover have "or_default (mr_scope sample_recall) (rs_scope (request_scope sample_context)) = ''global''"
    by code_simp
  ultimately show ?thesis
    using recall_in_scope sample_recall_run by fastforce
qed

end
