(* ===== verification/Server.thy ===== *)
theory Server
  imports Http Mcp_Props
begin

section \<open>A tool call over HTTP\<close>

text \<open>
  \<open>/mcp\<close> of \<open>crates/aver-server/src/http.rs\<close>: the bearer token is checked, then the scope of the
  request is resolved, then the MCP service runs the tool with what both found. The protocol framing
  of \<open>rmcp\<close> and CORS are outside the model: a request is its headers and the call it decodes to.
\<close>

definition serve_mcp ::
  "web \<Rightarrow> aver_tools \<Rightarrow> world \<Rightarrow> str option \<Rightarrow> headers \<Rightarrow> tool_call \<Rightarrow> auth_db \<Rightarrow> store
    \<Rightarrow> (nat + (mcp_error + tool_output)) \<times> store" where
  "serve_mcp w tools wd env_default hs c d s =
     (case validate_bearer_token w hs d of
        Inl status \<Rightarrow> (Inl status, s)
      | Inr (scopes, client) \<Rightarrow>
          (case resolve_request_scope hs env_default of
             Inl status \<Rightarrow> (Inl status, s)
           | Inr resolved \<Rightarrow>
               (case call_tool tools wd
                       \<lparr> cx_granted = Some scopes, cx_scope = Some resolved, cx_client = client \<rparr> c s of
                  (r, s') \<Rightarrow> (Inr r, s'))))"

text \<open>
  C7. Every change of the memory over HTTP was approved by a person: where a request changes the
  projection or a log, it carried a live bearer token whose scopes include the one its tool requires,
  only records of that scope's kinds were written, and a token of a client goes back to an exchanged
  authorization code of that client with a registered redirect URI that lists this very scope.
\<close>

theorem memory_change_approved:
  assumes "server_reached digest deps d"
    and "serve_mcp w tools wd env_default hs c d s = (r, s')"
    and "st_db s' \<noteq> st_db s \<or> log_of k s' \<noteq> log_of k s"
  shows "\<exists>scopes client. validate_bearer_token w hs d = Inr (scopes, client)
    \<and> ts_scope (tool_of c) \<in> set scopes \<and> writes (scope_kinds (ts_scope (tool_of c))) s s'
    \<and> (\<forall>client_id. client = Some client_id \<longrightarrow>
         (\<exists>code a. map_of (ad_codes d) code = Some a \<and> ac_client a = client_id \<and> ac_used_at a \<noteq> None
            \<and> client_allows_redirect_uri client_id (ac_redirect a) d
            \<and> oauth_scope_as_str (ts_scope (tool_of c)) \<in> set (decode_scopes (ac_scopes a))))"
proof -
  from assms(2,3) obtain scopes client resolved q where
    bearer: "validate_bearer_token w hs d = Inr (scopes, client)"
    and call: "call_tool tools wd \<lparr> cx_granted = Some scopes, cx_scope = Some resolved, cx_client = client \<rparr> c s
      = (q, s')"
    by (auto simp: serve_mcp_def split: sum.splits prod.splits)
  let ?cx = "\<lparr> cx_granted = Some scopes, cx_scope = Some resolved, cx_client = client \<rparr>"
  have w: "writes (if granted ?cx (tool_of c) then scope_kinds (ts_scope (tool_of c)) else {}) s s'"
    using call_writes [of ?cx c s tools wd] call by simp
  have g: "granted ?cx (tool_of c)"
  proof (rule ccontr)
    assume "\<not> ?thesis"
    with w have "writes {} s s'" by simp
    with assms(3) writes_nothing show False by blast
  qed
  then have scope: "ts_scope (tool_of c) \<in> set scopes" by (simp add: granted_def)
  have "\<exists>code a. map_of (ad_codes d) code = Some a \<and> ac_client a = client_id \<and> ac_used_at a \<noteq> None
      \<and> client_allows_redirect_uri client_id (ac_redirect a) d
      \<and> oauth_scope_as_str (ts_scope (tool_of c)) \<in> set (decode_scopes (ac_scopes a))"
    if "client = Some client_id" for client_id
  proof -
    have live: "validate_bearer_token w hs d = Inr (scopes, Some client_id)" using bearer that by simp
    obtain code a where a: "map_of (ad_codes d) code = Some a" "ac_client a = client_id" "ac_used_at a \<noteq> None"
      "client_allows_redirect_uri client_id (ac_redirect a) d"
      "map oauth_scope_as_str scopes = decode_scopes (ac_scopes a)"
      using bearer_code [OF assms(1) live] by (elim exE conjE)
    from a(5) scope have "oauth_scope_as_str (ts_scope (tool_of c)) \<in> set (decode_scopes (ac_scopes a))"
      by (metis image_eqI set_map)
    with a(1-4) show ?thesis by blast
  qed
  with bearer scope w g show ?thesis by auto
qed

definition sample_headers :: headers where
  "sample_headers = [(''authorization'', Some ''Bearer a'')]"

lemma sample_served:
  "serve_mcp sample_web sample_tools sample_world None sample_headers
     (CallRememberClaim (sample_remember \<lparr> rm_agent_id := Some ''local'' \<rparr>)) sample_granted fresh_store
   = (Inr (Inr (OutClaim sample_view)), sample_store)"
proof -
  let ?p = "sample_remember \<lparr> rm_agent_id := Some ''local'' \<rparr>"
  let ?cx = "\<lparr> cx_granted = Some [ClaimsWrite],
      cx_scope = Some \<lparr> rs_scope = ''global'', rs_default_walk = ScopeAny \<rparr>, cx_client = Some ''aver-1'' \<rparr>"
  have bearer: "validate_bearer_token sample_web sample_headers sample_granted = Inr ([ClaimsWrite], Some ''aver-1'')"
    using sample_bearer by (simp add: sample_headers_def)
  have resolved: "resolve_request_scope sample_headers None =
      Inr \<lparr> rs_scope = ''global'', rs_default_walk = ScopeAny \<rparr>" by code_simp
  have "call_tool sample_tools sample_world ?cx (CallRememberClaim ?p) fresh_store
      = (Inr (OutClaim sample_view), sample_store)"
  proof (rule sample_call)
    show "granted ?cx REMEMBER_CLAIM" by code_simp
    show "?p \<lparr> rm_agent_id := default_agent ?cx (rm_agent_id ?p), rm_scope := default_scope ?cx (rm_scope ?p) \<rparr>
        = sample_remember_sent" by code_simp
  qed
  with bearer resolved show ?thesis by (simp add: serve_mcp_def)
qed

theorem memory_change_approved_witness:
  "\<exists>code a. map_of (ad_codes sample_granted) code = Some (a :: code_row) \<and> ac_client a = ''aver-1''
    \<and> ac_used_at a \<noteq> None \<and> ''claims:write'' \<in> set (decode_scopes (ac_scopes a))"
proof -
  have "length (log_of Log sample_store) = 1" by code_simp
  then have "log_of Log sample_store \<noteq> log_of Log fresh_store"
    by (auto simp: fresh_store_def)
  from memory_change_approved [OF server_sample_reached sample_served disjI2 [OF this]]
  show ?thesis
    using sample_bearer by (auto simp: sample_headers_def tool_scope_defs)
qed

end
