(* ===== verification/Bridge_Props.thy ===== *)
theory Bridge_Props
  imports Bridge Store_Relation
begin

section \<open>What an extraction delivers\<close>

text \<open>
  The counts of an extraction and the shape of its facts, and that the store's vocabulary knows
  every one of them.
\<close>

subsection \<open>Sifting\<close>

definition bump :: "'k::linorder \<Rightarrow> ('k, nat) table \<Rightarrow> ('k, nat) table" where
  "bump k t = tbl_put k ((case map_of t k of None \<Rightarrow> 0 | Some n \<Rightarrow> n) + 1) t"

lemma bump_sum: "tbl_ok t \<Longrightarrow> sum_list (tbl_rows (bump k t)) = sum_list (tbl_rows t) + 1"
proof (induction t)
  case (Cons row rows)
  obtain a n where row: "row = (a, n)" by (cases row)
  from Cons.prems have ok: "tbl_ok rows" and above: "\<forall>b \<in> fst ` set rows. a < b"
    by (auto simp: tbl_ok_def row)
  consider (less) "a < k" | (same) "a = k" | (greater) "k < a" by force
  then show ?case
  proof cases
    case less
    with Cons.IH [OF ok] show ?thesis by (auto simp: bump_def row)
  next
    case greater
    with above have "map_of rows k = None"
      by (metis less_asym map_of_eq_None_iff)
    with greater show ?thesis by (auto simp: bump_def row)
  qed (simp add: bump_def row)
qed (simp add: bump_def)

lemma bump_ok: "tbl_ok t \<Longrightarrow> tbl_ok (bump k t)"
  unfolding bump_def by (rule tbl.ok_put)

definition good_fact :: "extractor_fact \<Rightarrow> bool" where
  "good_fact f \<longleftrightarrow> f_predicate f \<in> set SUPPORTED_PREDICATES \<and> f_provenance f = Some Extracted
     \<and> f_subject f \<in> range (case_prod canonical_entity) \<and> f_object f \<in> range (case_prod canonical_entity)"

lemma to_core_good: "to_core_fact path f = Some c \<Longrightarrow> good_fact c"
  unfolding to_core_fact_def good_fact_def
  by (auto split: if_splits intro!: range_eqI [of _ _ "(path, _)"])

lemma sift_step:
  "to_core_fact path f = None \<Longrightarrow>
     sift_fact path f (seen, facts, dup, skipped) = (seen, facts, dup, bump (xf_predicate f) skipped)"
  "to_core_fact path f = Some c \<Longrightarrow> sift_fact path f (seen, facts, dup, skipped) =
     (if triple_of c \<in> seen then (seen, facts, dup + 1, skipped)
      else (insert (triple_of c) seen, facts @ [c], dup, skipped))"
  by (simp_all add: sift_fact_def bump_def)

lemma sift_file:
  assumes "fold (sift_fact path) fs (seen, facts, dup, skipped) = (seen', facts', dup', skipped')"
    and "tbl_ok skipped"
  shows "\<exists>new. facts' = facts @ new \<and> seen' = seen \<union> triple_of ` set new
    \<and> distinct (map triple_of new) \<and> triple_of ` set new \<inter> seen = {} \<and> (\<forall>f \<in> set new. good_fact f)
    \<and> tbl_ok skipped'
    \<and> length fs + dup + sum_list (tbl_rows skipped) = length new + dup' + sum_list (tbl_rows skipped')"
  using assms
proof (induction fs arbitrary: seen facts dup skipped)
  case (Cons f fs)
  consider (skip) "to_core_fact path f = None"
    | (dup) c where "to_core_fact path f = Some c" "triple_of c \<in> seen"
    | (new) c where "to_core_fact path f = Some c" "triple_of c \<notin> seen"
    by (cases "to_core_fact path f") auto
  then show ?case
  proof cases
    case skip
    then have "fold (sift_fact path) fs (seen, facts, dup, bump (xf_predicate f) skipped) =
        (seen', facts', dup', skipped')"
      using Cons.prems(1) by (simp add: sift_step)
    from Cons.IH [OF this bump_ok [OF Cons.prems(2)]] show ?thesis
      by (simp add: bump_sum [OF Cons.prems(2)])
  next
    case (dup c)
    then have "fold (sift_fact path) fs (seen, facts, dup + 1, skipped) = (seen', facts', dup', skipped')"
      using Cons.prems(1) by (simp add: sift_step)
    from Cons.IH [OF this Cons.prems(2)] show ?thesis by simp
  next
    case (new c)
    then have "fold (sift_fact path) fs (insert (triple_of c) seen, facts @ [c], dup, skipped) =
        (seen', facts', dup', skipped')"
      using Cons.prems(1) by (simp add: sift_step)
    from Cons.IH [OF this Cons.prems(2)] obtain ms where ms: "facts' = facts @ c # ms"
      "seen' = insert (triple_of c) (seen \<union> triple_of ` set ms)" "distinct (map triple_of ms)"
      "triple_of ` set ms \<inter> insert (triple_of c) seen = {}" "\<forall>f \<in> set ms. good_fact f" "tbl_ok skipped'"
      "length fs + dup + sum_list (tbl_rows skipped) = length ms + dup' + sum_list (tbl_rows skipped')"
      by auto
    with new show ?thesis
      by (intro exI [of _ "c # ms"]) (auto dest: to_core_good)
  qed
qed auto

definition all_facts :: "extraction \<Rightarrow> extractor_fact list" where
  "all_facts x = concat (map ff_facts (xt_files x))"

lemma fact_count_all: "fact_count x = length (all_facts x)"
  by (simp add: fact_count_def all_facts_def length_concat comp_def)

definition extraction_inv :: "extraction \<times> (str \<times> str \<times> str) set \<Rightarrow> bool" where
  "extraction_inv = (\<lambda>(x, seen).
     seen = triple_of ` set (all_facts x) \<and> distinct (map triple_of (all_facts x))
     \<and> (\<forall>f \<in> set (all_facts x). good_fact f) \<and> tbl_ok (xt_skipped x)
     \<and> xt_extracted x = fact_count x + xt_duplicates x + sum_list (tbl_rows (xt_skipped x)))"

lemma extract_file_inv:
  assumes "extraction_inv (x, seen)"
  shows "extraction_inv (extract_file parse lang (file, content) (x, seen))"
proof -
  have failed: "extraction_inv (x \<lparr> xt_failed := es \<rparr>, seen)" for es
    using assms by (simp add: extraction_inv_def all_facts_def fact_count_def)
  have read: "extraction_inv (x \<lparr> xt_files := xt_files x @ [\<lparr> ff_path = p, ff_facts = facts \<rparr>],
      xt_extracted := xt_extracted x + length fs, xt_duplicates := dup, xt_skipped := skipped \<rparr>, seen')"
    if "fold (sift_fact p) fs (seen, [], xt_duplicates x, xt_skipped x) = (seen', facts, dup, skipped)"
    for p fs seen' facts dup skipped
    using sift_file [OF that] assms
    by (fastforce simp: extraction_inv_def all_facts_def fact_count_all)
  show ?thesis
    using assms failed
    by (auto simp: extract_file_def Let_def split: option.split sum.split prod.split intro: read)
qed

lemma extract_tree_inv:
  assumes "extract_tree parse base e lang = Inr x"
  obtains seen where "extraction_inv (x, seen)"
proof -
  from assms obtain files where x: "x = fst (fold (extract_file parse lang) files (empty_extraction, {}))"
    unfolding extract_tree_def by (auto simp: result_simps)
  have "extraction_inv st \<Longrightarrow> extraction_inv (fold (extract_file parse lang) fs st)" for fs st
    by (induction fs arbitrary: st) (simp_all, metis extract_file_inv surj_pair)
  moreover have "extraction_inv (empty_extraction, {})"
    by (simp add: extraction_inv_def empty_extraction_def all_facts_def fact_count_def tbl_ok_def)
  ultimately have "extraction_inv (fold (extract_file parse lang) files (empty_extraction, {}))" by blast
  with x that show thesis by (metis prod.collapse)
qed






subsection \<open>A sample tree\<close>

definition sample_tree :: fs_entry where
  "sample_tree = FsDir
     [(''target'', FsDir [(''b.rs'', FsFile (Inr ''x''))]), (''b.rs'', FsFile (Inr ''y'')),
      (''a.rs'', FsFile (Inr ''x'')), (''n.txt'', FsFile (Inr ''z''))]"

definition sample_parser :: parser where
  "sample_parser language path source = Inr
     [\<lparr> xf_subject = path, xf_predicate = ''defines'', xf_object = ''Struct:S'' \<rparr>,
      \<lparr> xf_subject = ''Struct:S'', xf_predicate = ''defines'', xf_object = ''S::f'' \<rparr>,
      \<lparr> xf_subject = ''Struct:S'', xf_predicate = ''derives'', xf_object = ''Trait:T'' \<rparr>]"

definition sample_extraction :: extraction where
  "sample_extraction =
     \<lparr> xt_files =
         [\<lparr> ff_path = ''/r/a.rs'', ff_facts =
             [\<lparr> f_subject = ''File:/r/a.rs'', f_predicate = ''defines'', f_object = ''Class:S'',
                f_provenance = Some Extracted \<rparr>,
              \<lparr> f_subject = ''Class:S'', f_predicate = ''defines'', f_object = ''Symbol:S::f'',
                f_provenance = Some Extracted \<rparr>] \<rparr>,
          \<lparr> ff_path = ''/r/b.rs'', ff_facts =
             [\<lparr> f_subject = ''File:/r/b.rs'', f_predicate = ''defines'', f_object = ''Class:S'',
                f_provenance = Some Extracted \<rparr>] \<rparr>],
       xt_extracted = 6, xt_duplicates = 1, xt_skipped = [(''derives'', 2)], xt_failed = [] \<rparr>"

lemma sample_extracted: "extract_tree sample_parser ''/r'' sample_tree None = Inr sample_extraction"
  by code_simp


subsection \<open>The vocabulary\<close>

definition SEEDED_KINDS :: "str list" where
  "SEEDED_KINDS = [''File'', ''Function'', ''Class'', ''Module'', ''Constant'', ''Symbol'']"

definition seeded_kind :: "str \<Rightarrow> bool" where
  "seeded_kind k \<longleftrightarrow> k \<in> set SEEDED_KINDS"

definition graph_kinds :: "graph \<Rightarrow> bool" where
  "graph_kinds g \<longleftrightarrow> (\<forall>k \<in> set SEEDED_KINDS. type_id_on (g_entity_types g) k \<noteq> None)"

lemma canonical_kind:
  "\<exists>k name. seeded_kind k \<and> CHR '':'' \<notin> set k \<and> canonical_entity path raw = k @ '':'' @ name"
proof -
  have "seeded_kind (entity_type kind) \<and> CHR '':'' \<notin> set (entity_type kind)" for kind
    by (simp add: entity_type_def seeded_kind_def SEEDED_KINDS_def)
  moreover have "seeded_kind ''File'' \<and> CHR '':'' \<notin> set ''File''"
    "seeded_kind ''Symbol'' \<and> CHR '':'' \<notin> set ''Symbol''"
    by (simp_all add: seeded_kind_def SEEDED_KINDS_def)
  ultimately show ?thesis
    unfolding canonical_entity_def by (auto split: option.split)
qed

lemma split_once_append: "d \<notin> set a \<Longrightarrow> split_once d (a @ d # b) = Some (a, b)"
  unfolding split_once_def by (simp add: takeWhile_tail dropWhile_append)

lemma infer_canonical:
  assumes "graph_kinds g"
  shows "seeded_kind (infer_entity_type_name_on g (canonical_entity path raw))"
proof -
  obtain k name where k: "seeded_kind k" "CHR '':'' \<notin> set k" "canonical_entity path raw = k @ CHR '':'' # name"
    using canonical_kind [of path raw] by auto
  then have "type_id_on (g_entity_types g) k \<noteq> None"
    using assms by (simp add: graph_kinds_def seeded_kind_def)
  with k show ?thesis
    by (simp add: infer_entity_type_name_on_def split_once_append)
qed

lemma known_validates: "predicate_known g p \<Longrightarrow> validate_ontology g p prov = Inr ()"
  by (auto simp: predicate_known_def validate_ontology_def split: option.splits)

lemma history_vocabulary:
  assumes "store_calls fresh_store s"
  shows "graph_kinds (db_graph (st_db s))" and "p \<in> set SUPPORTED_PREDICATES \<Longrightarrow> predicate_known (db_graph (st_db s)) p"
proof -
  have "db_ok (st_db fresh_store) \<longrightarrow> db_ok (st_db s) \<and> grows (db_graph (st_db fresh_store)) (db_graph (st_db s))"
    by (rule derived_invariant [OF calls_derived [OF assms],
          where R = "\<lambda>d e. db_ok d \<longrightarrow> db_ok e \<and> grows (db_graph d) (db_graph e)"])
      (auto dest: apply_record_ok intro: grows_trans simp: db_grows_def)
  then have "grows init_graph (db_graph (st_db s))"
    by (simp add: fresh_store_def init_db_ok init_db_def [symmetric]) (simp add: init_db_def)
  moreover have "graph_kinds init_graph"
    unfolding graph_kinds_def init_entity_types by code_simp
  moreover have "\<forall>q \<in> set SUPPORTED_PREDICATES. predicate_known init_graph q"
    unfolding predicate_known_def init_predicate_types init_aliases by code_simp
  ultimately show "graph_kinds (db_graph (st_db s))"
    and "p \<in> set SUPPORTED_PREDICATES \<Longrightarrow> predicate_known (db_graph (st_db s)) p"
    by (auto simp: grows_def graph_kinds_def)
qed

text \<open>
  C14. Everything an extraction keeps fits the store's vocabulary, whatever was done to the store
  before: the ontology check accepts the predicate of every fact with the provenance it carries, and
  both its entities are typed as a file, function, class, module, constant or symbol, never filed
  under the catch-all type.
\<close>

theorem extraction_fits_ontology:
  assumes "store_calls fresh_store s" and "extract_tree parse base e lang = Inr x"
    and "f \<in> set (concat (map ff_facts (xt_files x)))"
  shows "f_provenance f = Some Extracted
    \<and> validate_ontology (db_graph (st_db s)) (f_predicate f) Extracted = Inr ()
    \<and> seeded_kind (infer_entity_type_name_on (db_graph (st_db s)) (f_subject f))
    \<and> seeded_kind (infer_entity_type_name_on (db_graph (st_db s)) (f_object f))"
proof -
  from extract_tree_inv [OF assms(2)] assms(3) have "good_fact f"
    unfolding extraction_inv_def all_facts_def by blast
  then show ?thesis
    using history_vocabulary [OF assms(1)]
    by (auto simp: good_fact_def intro: known_validates infer_canonical)
qed

theorem extraction_fits_ontology_witness:
  "validate_ontology (db_graph (st_db fresh_store)) ''defines'' Extracted = Inr ()
    \<and> seeded_kind (infer_entity_type_name_on (db_graph (st_db fresh_store)) ''Symbol:S::f'')"
  using extraction_fits_ontology [OF store_calls.none sample_extracted,
      of "\<lparr> f_subject = ''Class:S'', f_predicate = ''defines'', f_object = ''Symbol:S::f'',
             f_provenance = Some Extracted \<rparr>"]
  by (simp add: sample_extraction_def)

end
