(* ===== verification/Shim.thy ===== *)
theory Shim
  imports Http Decision "HOL-Library.AList"
begin

section \<open>The scope shim\<close>

text \<open>
  \<open>crates/aver-scope-shim/src/lib.rs\<close> and \<open>proxy.rs\<close>: the proxy a workspace runs before the server.
  It derives a scope from the working directory and forwards every request with that scope in
  \<open>X-Aver-Scope\<close>. Git, SHA-256, \<open>canonicalize\<close> and the exchange with the upstream server are
  parameters; a body is the list of its chunks.
\<close>

subsection \<open>Deriving the scope\<close>

datatype scope_source = CliOverride | GitOrigin | GitToplevel | EnvDefault | HardcodedGlobal

record derived_scope =
  dv_scope :: str
  dv_source :: scope_source

definition hex_digit :: "nat \<Rightarrow> char" where
  "hex_digit n = ''0123456789abcdef'' ! n"

definition hex_byte :: "char \<Rightarrow> str" where
  "hex_byte c = [hex_digit (of_char c div 16), hex_digit (of_char c mod 16)]"

definition slug_hash :: "(str \<Rightarrow> str) \<Rightarrow> str \<Rightarrow> str" where
  "slug_hash sha256 input = concat (map hex_byte (take 6 (sha256 input)))"

text \<open>\<open>git args\<close> is the output of a command in the working directory, \<open>None\<close> when it fails.\<close>

definition scope_from_git ::
  "(str \<Rightarrow> str) \<Rightarrow> (str \<Rightarrow> str option) \<Rightarrow> (str list \<Rightarrow> str option) \<Rightarrow> derived_scope option" where
  "scope_from_git sha256 canonicalize git =
     (case git [''rev-parse'', ''--show-toplevel''] of
        None \<Rightarrow> None
      | Some out \<Rightarrow>
          let toplevel = trim out
          in if toplevel = [] then None
             else let origin = map_option trim (git [''config'', ''--get'', ''remote.origin.url''])
                  in if origin \<noteq> None \<and> origin \<noteq> Some []
                     then Some \<lparr> dv_scope = ''proj/'' @ slug_hash sha256 (the origin), dv_source = GitOrigin \<rparr>
                     else Some \<lparr> dv_scope = ''proj/'' @ slug_hash sha256 (or_default (canonicalize toplevel) toplevel),
                                 dv_source = GitToplevel \<rparr>)"

definition derive_scope ::
  "(str \<Rightarrow> str) \<Rightarrow> (str \<Rightarrow> str option) \<Rightarrow> (str list \<Rightarrow> str option) \<Rightarrow> str option \<Rightarrow> str option
    \<Rightarrow> derived_scope" where
  "derive_scope sha256 canonicalize git cli_override env_default =
     (if cli_override \<noteq> None \<and> \<not> blank (the cli_override)
      then \<lparr> dv_scope = the cli_override, dv_source = CliOverride \<rparr>
      else (case scope_from_git sha256 canonicalize git of
              Some scope \<Rightarrow> scope
            | None \<Rightarrow>
                if env_default \<noteq> None \<and> \<not> blank (the env_default)
                then \<lparr> dv_scope = the env_default, dv_source = EnvDefault \<rparr>
                else \<lparr> dv_scope = ''global'', dv_source = HardcodedGlobal \<rparr>))"

subsection \<open>Forwarding\<close>

text \<open>\<open>HeaderValue::from_str\<close>, and the text \<open>to_str\<close> gives back.\<close>

definition header_byte :: "char \<Rightarrow> bool" where
  "header_byte c \<longleftrightarrow> (32 \<le> (of_char c :: nat) \<and> (of_char c :: nat) \<noteq> 127) \<or> (of_char c :: nat) = 9"

definition visible_byte :: "char \<Rightarrow> bool" where
  "visible_byte c \<longleftrightarrow> header_byte c \<and> (of_char c :: nat) < 127"

definition scope_header_value :: "str \<Rightarrow> unit + str option" where
  "scope_header_value s =
     (if list_all header_byte s then Inr (if list_all visible_byte s then Some s else None) else Inl ())"

definition join_upstream :: "str \<Rightarrow> str \<Rightarrow> str" where
  "join_upstream upstream path_and_query =
     (let base = rev (dropWhile ((=) (CHR ''/'')) (rev upstream))
      in if path_and_query = [] \<or> path_and_query = ''/'' then base
         else let path_only = takeWhile ((\<noteq>) (CHR ''?'')) path_and_query;
                  suff =
                    (if ends_with base ''/mcp'' \<and> (path_only = ''/mcp'' \<or> starts_with path_only ''/mcp/'')
                     then let rest = drop 4 path_and_query in if rest = ''/'' then [] else rest
                     else path_and_query)
              in base @ suff)"

definition HOP_BY_HOP :: "str list" where
  "HOP_BY_HOP = [''connection'', ''keep-alive'', ''proxy-authenticate'', ''proxy-authorization'', ''te'',
     ''trailer'', ''transfer-encoding'', ''upgrade'']"

definition is_hop_by_hop :: "str \<Rightarrow> bool" where
  "is_hop_by_hop name \<longleftrightarrow> name \<in> set HOP_BY_HOP"

text \<open>A header map is filled with \<open>HeaderMap::insert\<close>, which replaces an earlier value of the name.\<close>

definition insert_unless :: "(str \<Rightarrow> bool) \<Rightarrow> headers \<Rightarrow> headers" where
  "insert_unless dropped hs =
     fold (\<lambda>(name, v) m. if dropped name then m else AList.update name v m) hs []"

definition not_forwarded :: "str \<Rightarrow> bool" where
  "not_forwarded name \<longleftrightarrow> is_hop_by_hop name \<or> name \<in> {''host'', ''content-length'', ''x-aver-scope''}"

definition forward_headers :: "str option option \<Rightarrow> headers \<Rightarrow> headers" where
  "forward_headers scope hs =
     (let kept = insert_unless not_forwarded hs
      in case scope of None \<Rightarrow> kept | Some v \<Rightarrow> AList.update ''x-aver-scope'' v kept)"

definition MAX_REQUEST_BODY_BYTES :: nat where
  "MAX_REQUEST_BODY_BYTES = 16 * 1024 * 1024"

text \<open>What the stream yields, up to its first error, and whether that error is the cap.\<close>

type_synonym chunks = "(str + str) list"

fun capped_body :: "nat \<Rightarrow> chunks \<Rightarrow> chunks \<times> bool" where
  "capped_body used [] = ([], False)"
| "capped_body used (Inl e # cs) = ([Inl e], False)"
| "capped_body used (Inr b # cs) =
     (let used = min (used + length b) (2 ^ 64 - 1)
      in if MAX_REQUEST_BODY_BYTES < used then ([Inl ''request body too large''], True)
         else (case capped_body used cs of (sent, too_large) \<Rightarrow> (Inr b # sent, too_large)))"

record shim_config =
  sc_upstream :: str
  sc_scope :: "str option option"

record shim_request =
  sq_method :: str
  sq_path_and_query :: str
  sq_headers :: headers
  sq_body :: chunks

datatype send_outcome = Answered nat headers str | SendFailed str | TimedOut

text \<open>
  The upstream reads a number of items of the body before it answers; \<open>exchange\<close> gives that number
  and the outcome.
\<close>

type_synonym exchange = "str \<Rightarrow> str \<Rightarrow> headers \<Rightarrow> chunks \<Rightarrow> nat \<times> send_outcome"

datatype shim_response = Forwarded nat headers str | TooLarge | BadGateway str | GatewayTimeout

definition declared_length :: "headers \<Rightarrow> nat option" where
  "declared_length hs = Option.bind (header_text hs ''content-length'') parse_u64"

definition forward :: "shim_config \<Rightarrow> exchange \<Rightarrow> shim_request \<Rightarrow> shim_response" where
  "forward config exchange q =
     (if opt_all (\<lambda>n. n \<le> MAX_REQUEST_BODY_BYTES) (declared_length (sq_headers q))
      then (case capped_body 0 (sq_body q) of (items, capped) \<Rightarrow>
              (case exchange (sq_method q) (join_upstream (sc_upstream config) (sq_path_and_query q))
                      (forward_headers (sc_scope config) (sq_headers q)) items of
                 (pulled, Answered status hs body) \<Rightarrow> Forwarded status (insert_unless is_hop_by_hop hs) body
               | (pulled, SendFailed e) \<Rightarrow>
                   if capped \<and> length items \<le> pulled then TooLarge else BadGateway e
               | (pulled, TimedOut) \<Rightarrow> GatewayTimeout))
      else TooLarge)"

subsection \<open>What is forwarded\<close>

lemma insert_unless_map:
  "map_of (insert_unless dropped hs) name = (if dropped name then None else map_of (rev hs) name)"
proof -
  have "map_of (fold (\<lambda>(name, v) m. if dropped name then m else AList.update name v m) hs m) name =
      (if dropped name then map_of m name else map_of (rev hs @ m) name)" for m
    by (induction hs arbitrary: m) (auto simp: update_conv' map_add_def split: option.split)
  from this [of "[]"] show ?thesis by (simp add: insert_unless_def)
qed

lemma forwarded_map:
  "map_of (forward_headers scope hs) name =
     (if name = ''x-aver-scope'' then scope
      else if is_hop_by_hop name \<or> name = ''host'' \<or> name = ''content-length'' then None
      else map_of (rev hs) name)"
  by (auto simp: forward_headers_def insert_unless_map not_forwarded_def update_conv' Let_def split: option.split)

definition scope_text :: "str \<Rightarrow> bool" where
  "scope_text s \<longleftrightarrow> validate_scope_source s [] = Inr ()"

lemma hex_digit_scope: "n < 16 \<Longrightarrow> scope_char (hex_digit n) \<and> hex_digit n \<noteq> CHR ''/''"
proof -
  have "list_all (\<lambda>d. scope_char d \<and> d \<noteq> CHR ''/'') ''0123456789abcdef''" by code_simp
  then show "n < 16 \<Longrightarrow> ?thesis" by (auto simp: hex_digit_def list_all_length)
qed

lemma hex_scope_char: "list_all scope_char (hex_byte c) \<and> CHR ''/'' \<notin> set (hex_byte c)"
proof -
  have "(of_char c :: nat) div 16 < 16" using nat_of_char_less_256 [of c] by (simp add: less_mult_imp_div_less)
  then show ?thesis
    using hex_digit_scope [of "of_char c div 16"] hex_digit_scope [of "of_char c mod 16"]
    by (auto simp: hex_byte_def)
qed

lemma trim_scope: "list_all scope_char s \<Longrightarrow> trim s = s"
proof -
  have none: "strip_front ws t = t" if "list_all scope_char t" "list_all (\<lambda>w. \<not> scope_char (hd w)) ws" for ws t
  proof (rule strip_front_None)
    show "find (\<lambda>w. w \<noteq> [] \<and> prefix w t) ws = None"
      using that by (fastforce simp: find_None_iff list_all_iff prefix_def neq_Nil_conv)
  qed
  have "list_all (\<lambda>w. \<not> scope_char (hd w)) white_seqs" "list_all (\<lambda>w. \<not> scope_char (hd w)) (map rev white_seqs)"
    by code_simp+
  then show "list_all scope_char s \<Longrightarrow> ?thesis"
    by (simp add: trim_def trim_start_def trim_end_def none list_all_rev)
qed

lemma scope_visible: "scope_char c \<Longrightarrow> visible_byte c"
  by (auto simp: scope_char_def ascii_defs visible_byte_def header_byte_def less_eq_char_def)

lemma slug_ok:
  assumes "sha256 x \<noteq> []"
  shows "list_all scope_char (slug_hash sha256 x)" and "CHR ''/'' \<notin> set (slug_hash sha256 x)"
    and "slug_hash sha256 x \<noteq> []" and "length (slug_hash sha256 x) \<le> 12"
proof -
  have "length (concat (map hex_byte cs)) = 2 * length cs" for cs
    by (induction cs) (simp_all add: hex_byte_def)
  then show "length (slug_hash sha256 x) \<le> 12" by (simp add: slug_hash_def)
  show "list_all scope_char (slug_hash sha256 x)"
    using hex_scope_char by (auto simp: slug_hash_def list_all_iff)
  show "CHR ''/'' \<notin> set (slug_hash sha256 x)"
    using hex_scope_char by (auto simp: slug_hash_def)
  show "slug_hash sha256 x \<noteq> []"
    using assms by (cases "sha256 x") (simp_all add: slug_hash_def hex_byte_def)
qed

lemma project_scope_valid:
  assumes "sha256 x \<noteq> []"
  shows "validate_scope_source (''proj/'' @ slug_hash sha256 x) src = Inr ()"
    and "\<not> blank (''proj/'' @ slug_hash sha256 x)"
proof -
  let ?slug = "slug_hash sha256 x"
  note slug = slug_ok [of sha256 x, OF assms]
  have last: "split_on ((=) (CHR ''/'')) ?slug = [?slug]"
    using slug(2) by (intro split_on_no_sep) auto
  have pieces: "split_on ((=) (CHR ''/'')) (''proj'' @ CHR ''/'' # ?slug) = [''proj'', ?slug]"
    by (subst split_on_append_sep) (simp_all add: last)
  have "list_all scope_char ''proj/''" by code_simp
  then have chars: "list_all scope_char (''proj/'' @ ?slug)" using slug(1) by simp
  then show filled: "\<not> blank (''proj/'' @ ?slug)" by (simp add: trim_scope)
  with chars pieces slug(3,4) show "validate_scope_source (''proj/'' @ ?slug) src = Inr ()"
    by (simp add: scope_source_ok MAX_SCOPE_LEN_def)
qed

text \<open>
  C30. The shim is the authority on the scope: whatever headers a client sends, the server reads from
  a forwarded request exactly the scope the shim was started with, or none; a scope derived from a
  repository is one the server accepts, so every tool call that names none runs in that project.
\<close>

theorem shim_is_authority:
  assumes "scope_from_git sha256 canonicalize git = Some dv" and "\<And>x. sha256 x \<noteq> []"
  shows "header_text (forward_headers scope hs) ''x-aver-scope'' = (case scope of None \<Rightarrow> None | Some v \<Rightarrow> v)
    \<and> derive_scope sha256 canonicalize git None env = dv
    \<and> scope_header_value (dv_scope dv) = Inr (Some (dv_scope dv))
    \<and> resolve_request_scope (forward_headers (Some (Some (dv_scope dv))) hs) env_default
        = Inr \<lparr> rs_scope = dv_scope dv, rs_default_walk = ScopeAncestors \<rparr>"
proof -
  have read: "header_text (forward_headers scope hs) ''x-aver-scope'' = (case scope of None \<Rightarrow> None | Some v \<Rightarrow> v)" for scope
    by (simp add: header_text_def forwarded_map)
  from assms(1) obtain x where x: "dv_scope dv = ''proj/'' @ slug_hash sha256 x"
    by (auto simp: scope_from_git_def Let_def split: option.splits if_splits)
  have valid: "validate_scope_source (dv_scope dv) src = Inr ()" "\<not> blank (dv_scope dv)" for src
    unfolding x by (rule project_scope_valid [of sha256 x, OF assms(2)])+
  have "list_all visible_byte (dv_scope dv)"
    using valid(1) scope_visible by (auto simp: scope_source_ok list_all_iff)
  moreover have "list_all header_byte s" if "list_all visible_byte s" for s
    using that by (auto simp: list_all_iff visible_byte_def)
  ultimately have "scope_header_value (dv_scope dv) = Inr (Some (dv_scope dv))"
    by (simp add: scope_header_value_def)
  moreover have "resolve_request_scope (forward_headers (Some (Some (dv_scope dv))) hs) env_default
        = Inr \<lparr> rs_scope = dv_scope dv, rs_default_walk = ScopeAncestors \<rparr>"
    using valid by (auto simp: resolve_request_scope_def read resolve_scope_def x)
  ultimately show ?thesis
    using read assms(1) by (simp add: derive_scope_def)
qed

subsection \<open>The cap\<close>

definition sent_bytes :: "chunks \<Rightarrow> nat" where
  "sent_bytes cs = sum_list (map (\<lambda>c. case c of Inl _ \<Rightarrow> 0 | Inr b \<Rightarrow> length b) cs)"

lemma capped_body_sum:
  "used \<le> MAX_REQUEST_BODY_BYTES \<Longrightarrow> capped_body used cs = (sent, capped) \<Longrightarrow>
     used + sent_bytes sent \<le> MAX_REQUEST_BODY_BYTES
     \<and> (capped \<longrightarrow> MAX_REQUEST_BODY_BYTES < used + sent_bytes cs)
     \<and> (used + sent_bytes cs \<le> MAX_REQUEST_BODY_BYTES \<longrightarrow> (\<forall>e. Inl e \<notin> set cs) \<longrightarrow> sent = cs)"
proof (induction used cs arbitrary: sent rule: capped_body.induct)
  case (3 used b cs)
  have small: "MAX_REQUEST_BODY_BYTES < 2 ^ 64 - 1" by (simp add: MAX_REQUEST_BODY_BYTES_def)
  show ?case
  proof (cases "MAX_REQUEST_BODY_BYTES < used + length b")
    case True
    with small have "MAX_REQUEST_BODY_BYTES < min (used + length b) (2 ^ 64 - 1)" by simp
    with 3(2,3) True show ?thesis by (auto simp: sent_bytes_def Let_def)
  next
    case False
    with small have eq: "min (used + length b) (2 ^ 64 - 1) = used + length b" by simp
    obtain ts where ts: "capped_body (used + length b) cs = (ts, capped)" "sent = Inr b # ts"
      using 3(3) False eq by (auto simp: Let_def split: prod.splits)
    from 3(1) [of "used + length b", OF _ _ _ ts(1)] False eq ts(2) show ?thesis
      by (auto simp: sent_bytes_def)
  qed
qed (auto simp: sent_bytes_def)

text \<open>
  C31. The shim bounds what it forwards. There are chunks of at most 16 MiB through which alone the
  upstream server takes part: servers that answer these chunks alike get the same response, so no
  byte beyond them reaches any server. They are the whole body where it is within the bound and can be
  read; the server's answer to them is passed on unless a greater length was declared; and a request
  is answered as too large only if its body or its declared length is.
\<close>

theorem shim_caps_body:
  "\<exists>items. sent_bytes items \<le> MAX_REQUEST_BODY_BYTES
     \<and> (\<forall>exchange exchange'.
          (\<forall>m u hs. exchange m u hs items = exchange' m u hs items) \<longrightarrow>
          forward config exchange q = forward config exchange' q)
     \<and> (sent_bytes (sq_body q) \<le> MAX_REQUEST_BODY_BYTES \<longrightarrow> (\<forall>e. Inl e \<notin> set (sq_body q)) \<longrightarrow>
          items = sq_body q)
     \<and> (\<forall>exchange n status hs body.
          opt_all (\<lambda>n. n \<le> MAX_REQUEST_BODY_BYTES) (declared_length (sq_headers q)) \<longrightarrow>
          exchange (sq_method q) (join_upstream (sc_upstream config) (sq_path_and_query q))
            (forward_headers (sc_scope config) (sq_headers q)) items = (n, Answered status hs body) \<longrightarrow>
          forward config exchange q = Forwarded status (insert_unless is_hop_by_hop hs) body)
     \<and> (\<forall>exchange. forward config exchange q = TooLarge \<longrightarrow>
          \<not> opt_all (\<lambda>n. n \<le> MAX_REQUEST_BODY_BYTES) (declared_length (sq_headers q))
          \<or> MAX_REQUEST_BODY_BYTES < sent_bytes (sq_body q))"
proof -
  obtain sent capped where c: "capped_body 0 (sq_body q) = (sent, capped)" by (cases "capped_body 0 (sq_body q)")
  have "forward config exchange q = TooLarge \<Longrightarrow> capped
      \<or> \<not> opt_all (\<lambda>n. n \<le> MAX_REQUEST_BODY_BYTES) (declared_length (sq_headers q))" for exchange
    by (auto simp: forward_def c split: prod.splits send_outcome.splits if_splits)
  moreover have "forward config exchange q = forward config exchange' q"
    if "\<forall>m u hs. exchange m u hs sent = exchange' m u hs sent" for exchange exchange'
    using that by (simp add: forward_def c)
  moreover have "forward config exchange q = Forwarded status (insert_unless is_hop_by_hop hs) body"
    if "opt_all (\<lambda>n. n \<le> MAX_REQUEST_BODY_BYTES) (declared_length (sq_headers q))"
      "exchange (sq_method q) (join_upstream (sc_upstream config) (sq_path_and_query q))
         (forward_headers (sc_scope config) (sq_headers q)) sent = (n, Answered status hs body)"
    for exchange n status hs body
    using that by (simp add: forward_def c)
  ultimately show ?thesis using capped_body_sum [OF _ c] by (intro exI [of _ sent]) auto
qed

subsection \<open>A sample request\<close>

definition sample_sha256 :: "str \<Rightarrow> str" where
  "sample_sha256 x = CHR 0xAB # x"

definition sample_git :: "str list \<Rightarrow> str option" where
  "sample_git args = (if args = [''rev-parse'', ''--show-toplevel''] then Some ''/w/p'' else None)"

theorem shim_is_authority_witness:
  "resolve_request_scope (forward_headers (Some (Some ''proj/ab2f772f70'')) [(''x-aver-scope'', Some ''other'')]) None
     = Inr \<lparr> rs_scope = ''proj/ab2f772f70'', rs_default_walk = ScopeAncestors \<rparr>"
proof -
  have "scope_from_git sample_sha256 Some sample_git = Some \<lparr> dv_scope = ''proj/ab2f772f70'', dv_source = GitToplevel \<rparr>"
  proof -
    have "list_all scope_char ''/w/p''" by code_simp
    then have "trim ''/w/p'' = ''/w/p''" by (rule trim_scope)
    moreover have "slug_hash sample_sha256 ''/w/p'' = ''ab2f772f70''"
      by (simp add: slug_hash_def sample_sha256_def hex_byte_def hex_digit_def)
    ultimately show ?thesis by (simp add: scope_from_git_def sample_git_def or_default_def)
  qed
  from shim_is_authority [OF this] show ?thesis by (simp add: sample_sha256_def)
qed

definition sample_upload :: shim_request where
  "sample_upload =
     \<lparr> sq_method = ''POST'', sq_path_and_query = ''/mcp'', sq_headers = [], sq_body = [Inr ''{}''] \<rparr>"

definition sample_config :: shim_config where
  "sample_config = \<lparr> sc_upstream = ''http://127.0.0.1:3317/mcp'', sc_scope = None \<rparr>"

text \<open>A server that sends back what it gets.\<close>

definition echo :: exchange where
  "echo m u hs items =
     (length items, Answered 200 [] (concat (map (\<lambda>c. case c of Inl _ \<Rightarrow> [] | Inr b \<Rightarrow> b) items)))"

theorem shim_caps_body_witness:
  "forward sample_config echo sample_upload = Forwarded 200 [] ''{}''"
proof -
  have "sent_bytes (sq_body sample_upload) \<le> MAX_REQUEST_BODY_BYTES" "\<forall>e. Inl e \<notin> set (sq_body sample_upload)"
    "opt_all (\<lambda>n. n \<le> MAX_REQUEST_BODY_BYTES) (declared_length (sq_headers sample_upload))"
    by (simp_all add: sample_upload_def sent_bytes_def MAX_REQUEST_BODY_BYTES_def declared_length_def header_text_def)
  moreover have "echo m u hs (sq_body sample_upload) = (1, Answered 200 [] ''{}'')" for m u hs
    by (simp add: echo_def sample_upload_def)
  moreover have "insert_unless is_hop_by_hop [] = []" by (simp add: insert_unless_def)
  ultimately show ?thesis using shim_caps_body [of config sample_upload for config] by metis
qed

text \<open>A header that occurs more than once keeps only its last value.\<close>

lemma repeated_header_lost:
  "insert_unless is_hop_by_hop [(''set-cookie'', Some ''a=1''), (''set-cookie'', Some ''b=2'')]
     = [(''set-cookie'', Some ''b=2'')]"
  by code_simp

text \<open>A path under the upstream's own \<open>/mcp\<close> is not doubled.\<close>

lemma joined_paths:
  "map (join_upstream ''http://h/mcp/'') [''/mcp'', ''/mcp/'', ''/mcp?x=1'', ''/foo'', ''/'']
     = [''http://h/mcp'', ''http://h/mcp'', ''http://h/mcp?x=1'', ''http://h/mcp/foo'', ''http://h/mcp'']"
  by code_simp

end
