(* ===== verification/Store_Open.thy ===== *)
theory Store_Open
  imports Store_Props
begin

section \<open>Opening a store\<close>

text \<open>
  What \<open>Store::open\<close> of \<open>crates/aver-core/src/store.rs\<close> decides before any operation runs: which
  migrations a database still needs, and from which id the generator goes on. The texts of the two
  migration chains are collected by the build script and are parameters; running them, the pragmas
  and the registration of sqlite-vec are SQLite's work. The projection a fresh database has after the
  chain is \<open>init_db\<close>.
\<close>

subsection \<open>Migrations\<close>

record 'sql migration_chains =
  MIGRATIONS :: "'sql list"
  LEGACY_MIGRATIONS :: "'sql list"

definition PRE_BASELINE_COUNT :: nat where
  "PRE_BASELINE_COUNT = 8"

definition BASELINE_VERSION :: "'sql migration_chains \<Rightarrow> int" where
  "BASELINE_VERSION m = int PRE_BASELINE_COUNT + int (length (LEGACY_MIGRATIONS m))"

definition SCHEMA_VERSION :: "'sql migration_chains \<Rightarrow> int" where
  "SCHEMA_VERSION m = BASELINE_VERSION m + (int (length (MIGRATIONS m)) - int PRE_BASELINE_COUNT - 1)"

definition pending_migrations :: "'sql migration_chains \<Rightarrow> int \<Rightarrow> 'sql list result" where
  "pending_migrations m current =
     (if SCHEMA_VERSION m < current then Inl (ESchemaTooNew current (SCHEMA_VERSION m))
      else let current = max current 0
           in Inr (if current \<le> int PRE_BASELINE_COUNT then drop (nat current) (MIGRATIONS m)
                   else if current < BASELINE_VERSION m
                   then drop (nat current - PRE_BASELINE_COUNT) (LEGACY_MIGRATIONS m)
                          @ drop (PRE_BASELINE_COUNT + 1) (MIGRATIONS m)
                   else drop (PRE_BASELINE_COUNT + 1 + nat (current - BASELINE_VERSION m)) (MIGRATIONS m)))"

text \<open>
  A database of a legacy version needs exactly one migration for every version it lacks, and the
  last of them are the ones after the baseline; nothing is pending at the newest version.
\<close>

lemma pending_counts:
  assumes "PRE_BASELINE_COUNT < length (MIGRATIONS m)"
    and "int PRE_BASELINE_COUNT < v" and "v \<le> SCHEMA_VERSION m"
  shows "\<exists>ms. pending_migrations m v = Inr ms \<and> int (length ms) = SCHEMA_VERSION m - v
    \<and> (v \<le> BASELINE_VERSION m \<longrightarrow> suffix (drop (PRE_BASELINE_COUNT + 1) (MIGRATIONS m)) ms)"
  using assms
  by (auto simp: pending_migrations_def SCHEMA_VERSION_def BASELINE_VERSION_def PRE_BASELINE_COUNT_def
      Let_def suffix_def nat_diff_distrib)

subsection \<open>Where the ids go on\<close>

definition log_tails :: "store \<Rightarrow> log_record option list" where
  "log_tails s =
     map (\<lambda>k. if log_of k s = [] then None else Some (last (log_of k s))) ROTATED_LOG_SERIES"

text \<open>The store as the next process finds it: its data, and a generator seeded from the log tails.\<close>

definition reopened :: "store \<Rightarrow> store" where
  "reopened s = s \<lparr> st_last := seeded (word_of_int (max_id_in_log_tails (log_tails s))) \<rparr>"

definition retired_store :: store where
  "retired_store = snd (retire_claim sample_env 129525350400005 ''old'' sample_store)"

definition earlier_env :: env where
  "earlier_env = good_env 1735603200 1735603200000"

definition other_write :: claim_write where
  "other_write = claim_write_new ''git'' ''uses'' ''SHA1'' ''README''"

text \<open>The outcome of an operation with the seed and the claims it leaves.\<close>

definition outcome :: "'a result \<times> store \<Rightarrow> 'a result \<times> int \<times> int list" where
  "outcome x = (fst x, max_id_in_log_tails (log_tails (snd x)), map fst (g_claims (db_graph (st_db (snd x)))))"

lemma retired_outcome:
  "outcome (retire_claim sample_env 129525350400005 ''old'' sample_store) = (Inr (), 0, [129525350400005])"
  by code_simp

lemma retired_run: "retire_claim sample_env 129525350400005 ''old'' sample_store = (Inr (), retired_store)"
  using retired_outcome by (simp add: outcome_def retired_store_def prod_eq_iff)

lemma retired_reached: "store_reached retired_store"
  using store_reached.step [OF sample_reached] store_call.intros(5) [OF retired_run]
  by (simp add: derails_def)

lemma retired_seed: "max_id_in_log_tails (log_tails retired_store) = 0"
  using retired_outcome by (simp add: outcome_def retired_store_def)

lemma retired_keeps: "map_of (g_claims (db_graph (st_db retired_store))) 129525350400005 \<noteq> None"
  using retired_outcome by (auto simp: outcome_def retired_store_def map_of_eq_None_iff)

lemma reopened_add: "fst (add_claim earlier_env other_write (reopened retired_store)) = Inr 129171456000005"
  by code_simp

text \<open>
  C29. The seed of the id generator forgets ids: it looks only at the last record of each log, and a
  retirement, a consolidation or an observation mints no id. There is a store that a history of
  calls reaches, which holds a claim, whose seed after reopening is zero, and which then gives a new
  claim a smaller id when the clock has gone back.
\<close>

theorem seed_forgets_ids:
  "\<exists>s i. store_reached s \<and> map_of (g_claims (db_graph (st_db s))) i \<noteq> None
    \<and> max_id_in_log_tails (log_tails s) = 0
    \<and> (\<exists>ev w j. fst (add_claim ev w (reopened s)) = Inr j \<and> j < i)"
proof (intro exI conjI)
  show "store_reached retired_store" by (rule retired_reached)
  show "fst (add_claim earlier_env other_write (reopened retired_store)) = Inr 129171456000005"
    by (rule reopened_add)
  show "(129171456000005 :: int) < 129525350400005" by simp
qed (rule retired_keeps retired_seed)+

end
