(* ===== verification/Spec2Isabelle.thy ===== *)
theory Spec2Isabelle
  imports Replay_Props Log_Tail Log_Poison Consolidation Server Bridge_Props Shim Store_Open
begin

text \<open>
  A verification development for Aver, the memory layer of coding agents: an append-only log of what
  agents state and observe, a SQLite projection built from it, retrieval over the projection, and a
  server that offers both to agents as MCP tools behind OAuth.

  \<^bold>\<open>The program and its parts.\<close> A write call of \<open>Store\<close> (\<open>crates/aver-core\<close>) validates its
  arguments, passes their texts through the privacy filter, opens a transaction, mints an id, appends
  one JSON line to one of three logs (\<open>log.jsonl\<close>, \<open>events.jsonl\<close>, \<open>observations.jsonl\<close>), applies
  the same record to the projection, and commits. Replay reads the logs back and must arrive at the same
  projection. Reads (recall, graph, coverage) only see the projection. The server
  (\<open>crates/aver-server\<close>) checks a bearer token against its authorization database, resolves the memory
  scope of a request, checks the OAuth scope a tool requires, fills in defaults and calls the store.
  The extractor (\<open>crates/aver-extractor\<close>) turns source trees into facts, the shim
  (\<open>crates/aver-scope-shim\<close>) puts a workspace's scope into the requests it forwards.

  \<^bold>\<open>How state and effects are modelled.\<close> A Rust \<open>Result\<close> is a value of a sum type, \<open>Inl\<close> for
  \<open>Err\<close>; \<open>rbind\<close> is the question mark. A store is a record of the projection, the three logs as lists
  of records, the generator's last id and the count of rejections; an operation is a function from a
  store to a result and a store, sequenced by \<open>op_bind\<close> and \<open>op_then\<close>, so that early returns, failed
  appends, refused projection writes and rollbacks are branches. What the outside decides for one call
  (clock, hash, busy database, outcome of each append) is an \<open>env\<close>. A table with a primary key
  is a list in key order; a string is its list of bytes; an \<open>i64\<close> that can wrap is a 64-bit word; an
  \<open>f64\<close> is a rational with the roundings of IEEE 754, infinities, one NaN and no negative
  zero; the entropy of the privacy filter is over the reals.

  \<^bold>\<open>Theories, bottom up.\<close>
  \<^item> \<open>Prelude\<close> (results, loops that return early, hint collections), \<open>Tables\<close> (the locale
    \<open>keyed_table\<close>, interpreted on sorted lists as \<open>tbl\<close>), \<open>Rust_Str\<close>, \<open>Rust_Io\<close> (UTF-8, lines),
    \<open>Float64\<close>, \<open>Float_Ops\<close>: the library the components share.
  \<^item> \<open>Types\<close> (\<open>types.rs\<close>, \<open>error.rs\<close>; the locale \<open>str_enum\<close>, interpreted on every enumeration with
    its names), \<open>Validation\<close>, \<open>Privacy\<close>, \<open>Ids\<close>, \<open>Error_Text\<close>: the files of these names.
  \<^item> \<open>Log_Record\<close>, \<open>Log_Files\<close>, \<open>Log_Tail\<close>, \<open>Log_Crash\<close>: \<open>log.rs\<close>. Records; rotation and recovery as
    sequences of file operations on a directory of byte strings; the backward read of the last line;
    a crash after any prefix of a rotation.
  \<^item> \<open>Schema\<close> (\<open>migrations\<close>), \<open>Ontology\<close> and \<open>Suggest\<close> (\<open>seed.rs\<close>, \<open>ontology.rs\<close>), \<open>Apply\<close>
    (\<open>apply.rs\<close>), \<open>Invariant\<close>, \<open>Projection\<close>, \<open>Projection_Props\<close>: the tables with their CHECK
    constraints, foreign keys and triggers, the function that applies a record, the invariant
    \<open>db_ok\<close> it keeps, and the locale \<open>log_projection\<close> (records of different logs commute, duplicates
    are absorbed), interpreted as \<open>proj\<close>.
  \<^item> \<open>Store\<close>, \<open>Store_Sync\<close>, \<open>Claims\<close>, \<open>Hyperedges\<close>, \<open>Vectors\<close>, \<open>Episodic\<close>, \<open>Candidates\<close>: the write
    path and the operations of the files of these names. \<open>Store_Steps\<close> is their step relation,
    \<open>Store_Relation\<close> the locale \<open>store_relation\<close> that lifts a relation from the primitive effects to
    every operation (interpreted as \<open>growth\<close>, \<open>filing\<close> and \<open>trace\<close>), \<open>Store_Open\<close> what opening a store decides.
  \<^item> \<open>Progress\<close>, \<open>Store_Props\<close>, \<open>Store_Life\<close>, \<open>Privacy_Flow\<close>, \<open>Log_Poison\<close>, \<open>Consolidation\<close>: what
    the write path guarantees, and the calls that break it.
  \<^item> \<open>Replay\<close>, \<open>Replay_Props\<close>: \<open>replay.rs\<close> over the bytes of the files.
  \<^item> \<open>Scopes\<close>, \<open>Recall_Score\<close> (the locale \<open>comparison\<close>, interpreted as \<open>ranked\<close> and \<open>candidate\<close>),
    \<open>Recall\<close>, \<open>Graph_Path\<close>, \<open>Graph_Path_Props\<close>, \<open>Graph_Expand\<close>, \<open>Communities\<close>: scope filters,
    \<open>recall.rs\<close>, \<open>retrieval.rs\<close>, \<open>vectors.rs\<close> and \<open>graph.rs\<close>.
  \<^item> \<open>Decision\<close>: \<open>decision.rs\<close>, \<open>candidate_decision.rs\<close>, \<open>predicate_decision.rs\<close>,
    \<open>scope_decision.rs\<close>. A decision client is any function from a decision to a choice or an error.
  \<^item> \<open>Web_Scopes\<close> (\<open>scopes.rs\<close>, \<open>scope_resolution.rs\<close>, \<open>origin.rs\<close>), \<open>Auth\<close>, \<open>Auth_Steps\<close>
    (\<open>auth.rs\<close>, \<open>oauth.rs\<close>: tables, operations, histories), \<open>Consent\<close>, \<open>Http\<close> (\<open>consent.rs\<close>,
    \<open>http.rs\<close>: handlers, the token endpoint, the bearer check, reachable states of the server).
  \<^item> \<open>Bridge\<close>, \<open>Bridge_Props\<close>: \<open>bridge.rs\<close> and the dispatch by language of the extractor's
    \<open>lib.rs\<close>. \<open>Tools\<close> (\<open>tools.rs\<close>, \<open>recall_log.rs\<close>), \<open>Mcp\<close> (\<open>mcp.rs\<close>), \<open>Authority\<close> (what an
    operation may write), \<open>Tool_Relation\<close> (the locale \<open>tool_relation\<close>) and \<open>Mcp_Props\<close> (its
    interpretations \<open>authority\<close> and \<open>session\<close>, and what a call may do), \<open>Server\<close> (the route \<open>/mcp\<close>). \<open>Shim\<close>: the shim's \<open>lib.rs\<close> and \<open>proxy.rs\<close>.

  \<^bold>\<open>What is proved.\<close> The properties carry their number in the text before them. C1 to C6 are the
  promises of the log: replay rebuilds every store that calls reach of which none failed after its line was
  logged, no secret in a known format reaches a log, rotation survives a crash, adding a claim leaves a
  line the projection refuses only for the clock, a taken id or the disk, consolidation leaves no
  duplicate and no conflict, and applying a record keeps the invariant. The next group is the server
  end to end: a change of the memory over HTTP goes back to a consented code with the right scope, a
  token's scopes bound the records its calls write, a session is a history of store operations, recall
  stays in scope, extraction stays below its root and fits the vocabulary. Then graph, communities,
  scope filters, the authorization histories (one exchange per code, reuse kills the family,
  revocation holds), lifecycle invariants of claims and candidates, recall, decisions, ids and the
  shim. Some theorems show that the code does not keep what it means to:
  \<open>duplicate_sources_poison_log\<close>, \<open>seed_forgets_ids\<close>, and the lemmas named
  \<open>clock_behind_poisons\<close>, \<open>highest_minimum_missed\<close>, \<open>wide_blank_line_stops\<close>,
  \<open>reasserted_claim_superseded\<close>, \<open>revocation_leaves_codes\<close>, \<open>community_ids_collide\<close>,
  \<open>scope_filter_folds_case\<close>, \<open>repeated_header_lost\<close>.

  \<^bold>\<open>Loops and fuel.\<close> Loops are functions with termination proofs: the unvisited entities and the
  queue of an expansion, the remaining files and directory sizes of a walk, the untried names of a
  free-name search, the bytes before the block of a backward read. The retry loop of the id generator
  is a step relation of racing threads. Fuel is used twice: \<open>chain\<close> (the parents of a type) has one
  more step than there are types, and \<open>chain_enough\<close> shows that more steps add nothing; \<open>decimals\<close>
  (the shortest decimal text of a float) tries 0 to 1074 decimals, and no double needs more.

  \<^bold>\<open>Parameters.\<close> Code outside the repository is an argument of what uses it, with the documented
  behaviour relied on as a hypothesis: the JSON codec (it reads back what it wrote), gzip, SHA-256 and
  HMAC, \<open>Url::parse\<close> and header decoding, \<open>exp\<close>, the parsing of floats, the \<open>Debug\<close> quoting of
  strings, random draws (fresh where the code relies on it), clocks, the file system outside a memory
  directory (\<open>canonicalize\<close>, source trees), Git, the nearest-neighbour search of sqlite-vec, the
  embedding service, the exchange with the decision model and with the shim's upstream, and the parsers
  of the languages, which walk tree-sitter syntax trees.

  \<^bold>\<open>Not modelled.\<close> The drift snapshot of the graph and \<open>StorageMode\<close> (reports); the configuration
  and HTTP client of \<open>vector.rs\<close>; VACUUM; lock files and poisoned mutexes; torn log lines and failing
  COMMITs (an append happens, fails before writing, or fails after it); the text of the migrations and
  the pragmas; SQLite's limits on statements; the framing of MCP by rmcp, CORS, templates and routing;
  the JSON of tool results; the append of the recall-miss log, which cannot fail a recall; the plugin
  runner and the syntax-tree walks of the extractor, which depend on third-party grammars; and the
  command line, the server's settings and the evaluation harness, which call what is modelled here.
\<close>

end
